(* ===== verification/Das_Prelude.thy ===== *)
theory Das_Prelude
  imports Main "HOL-Library.Word"
begin

text \<open>
  Shared vocabulary of the development: the Rust integer types and casts, byte strings,
  SQL's three-valued logic, database tables as lists of rows with a key, and the
  last-writer-wins interface (\<open>lww\<close>) that every guarded upsert of the indexer is shown to
  implement.
\<close>

section \<open>Collections of facts\<close>

named_theorems sql_simps
  \<open>unfolds SQL three-valued comparisons and connectives\<close>
named_theorems upsert_simps
  \<open>the definitions of the upsert statements and of the views over their rows\<close>
named_theorems frame_simps
  \<open>what a statement leaves unchanged\<close>

section \<open>Integers, bytes and strings\<close>

type_synonym u8 = "8 word"
type_synonym u16 = "16 word"
type_synonym u32 = "32 word"
type_synonym u64 = "64 word"
type_synonym i64 = int
type_synonym bytes = "u8 list"
type_synonym pubkey = bytes
type_synonym hash = bytes

text \<open>
  Rust's \<open>as i64\<close> on a \<open>u64\<close> reinterprets the bits. Values of signed columns are integers;
  only casts can leave the range, and the casts below are exact.
\<close>

definition as_i64 :: "u64 \<Rightarrow> i64" where
  "as_i64 w = sint w"

definition u32_as_i64 :: "u32 \<Rightarrow> i64" where
  "u32_as_i64 w = uint w"

lemma as_i64_small:
  assumes "unat w < 2 ^ 63"
  shows "as_i64 w = int (unat w)"
proof -
  have "int (unat w) < int (2 ^ 63)" using assms by (simp only: of_nat_less_iff)
  then have "uint w < 2 ^ 63" by simp
  then have "signed_take_bit 63 (uint w) = uint w"
    using uint_ge_0 [of w] by (intro signed_take_bit_int_eq_self) linarith+
  then show ?thesis by (simp add: as_i64_def sint_uint)
qed

text \<open>Rust's \<open>str::replace('\0', "")\<close> and \<open>str::trim\<close> (on ASCII white space).\<close>

definition nul :: char where
  "nul = char_of (0::nat)"

definition remove_nul :: "string \<Rightarrow> string" where
  "remove_nul s = filter (\<lambda>c. c \<noteq> nul) s"

definition is_space :: "char \<Rightarrow> bool" where
  "is_space c = (of_char c = (32::nat) \<or> (9 \<le> (of_char c :: nat) \<and> (of_char c :: nat) \<le> 13))"

definition str_trim :: "string \<Rightarrow> string" where
  "str_trim s = rev (dropWhile is_space (rev (dropWhile is_space s)))"

definition str_bytes :: "string \<Rightarrow> bytes" where
  "str_bytes s = map of_char s"

section \<open>SQL three-valued logic\<close>

text \<open>A nullable value is an option; a condition is \<open>None\<close> where SQL's is unknown.\<close>

type_synonym cond = "bool option"

definition sql_cmp :: "('a \<Rightarrow> 'a \<Rightarrow> bool) \<Rightarrow> 'a option \<Rightarrow> 'a option \<Rightarrow> cond" where
  [sql_simps]: "sql_cmp f a b = (case (a, b) of (Some x, Some y) \<Rightarrow> Some (f x y) | _ \<Rightarrow> None)"

fun sql_and :: "cond \<Rightarrow> cond \<Rightarrow> cond" where
  "sql_and (Some False) _ = Some False"
| "sql_and _ (Some False) = Some False"
| "sql_and (Some True) c = c"
| "sql_and c (Some True) = c"
| "sql_and None None = None"

fun sql_not :: "cond \<Rightarrow> cond" where
  "sql_not None = None"
| "sql_not (Some b) = Some (\<not> b)"

definition sql_or :: "cond \<Rightarrow> cond \<Rightarrow> cond" where
  "sql_or a b = sql_not (sql_and (sql_not a) (sql_not b))"

definition is_null :: "'a option \<Rightarrow> cond" where
  [sql_simps]: "is_null a = Some (a = None)"

definition is_not_null :: "'a option \<Rightarrow> cond" where
  [sql_simps]: "is_not_null a = Some (a \<noteq> None)"

text \<open>A \<open>WHERE\<close> keeps the rows whose condition is true, not those where it is unknown.\<close>

definition holds :: "cond \<Rightarrow> bool" where
  "holds c = (c = Some True)"

lemma holds_simps [simp]:
  "holds (Some b) = b" "\<not> holds None"
  by (simp_all add: holds_def)

lemma holds_and [simp]: "holds (sql_and a b) = (holds a \<and> holds b)"
  by (cases "(a, b)" rule: sql_and.cases) auto

lemma holds_or [simp]: "holds (sql_or a b) = (holds a \<or> holds b)"
proof -
  have "sql_or a b = Some True \<longleftrightarrow> a = Some True \<or> b = Some True"
    by (cases "(sql_not a, sql_not b)" rule: sql_and.cases; cases a; cases b) (auto simp: sql_or_def)
  then show ?thesis by (simp add: holds_def)
qed

lemma holds_not_Some [simp]: "holds (sql_not (Some b)) = (\<not> b)"
  by simp

section \<open>Tables\<close>

text \<open>
  A table is the list of its rows. An \<open>INSERT ... ON CONFLICT (key) DO UPDATE\<close> changes the
  row with the new row's key where there is one and adds the new row otherwise.
\<close>

fun upsert :: "('r \<Rightarrow> 'k) \<Rightarrow> 'r \<Rightarrow> ('r \<Rightarrow> 'r) \<Rightarrow> 'r list \<Rightarrow> 'r list" where
  "upsert key new upd [] = [new]"
| "upsert key new upd (r # rs) =
     (if key r = key new then upd r # rs else r # upsert key new upd rs)"

definition lookup :: "('r \<Rightarrow> 'k) \<Rightarrow> 'k \<Rightarrow> 'r list \<Rightarrow> 'r option" where
  "lookup key k t = find (\<lambda>r. key r = k) t"

definition table_ok :: "('r \<Rightarrow> 'k) \<Rightarrow> 'r list \<Rightarrow> bool" where
  "table_ok key t = distinct (map key t)"

lemma lookup_Nil [simp]: "lookup key k [] = None"
  by (simp add: lookup_def)

lemma lookup_Cons [simp]:
  "lookup key k (r # rs) = (if key r = k then Some r else lookup key k rs)"
  by (simp add: lookup_def)

lemma lookup_key: "lookup key k t = Some r \<Longrightarrow> key r = k"
  by (induction t) (auto split: if_splits)

lemma lookup_mem: "lookup key k t = Some r \<Longrightarrow> r \<in> set t"
  by (induction t) (auto split: if_splits)

lemma lookup_None: "lookup key k t = None \<longleftrightarrow> k \<notin> key ` set t"
  by (induction t) auto

lemma lookup_iff_mem:
  "table_ok key t \<Longrightarrow> lookup key k t = Some r \<longleftrightarrow> r \<in> set t \<and> key r = k"
  by (induction t) (auto simp: table_ok_def)

lemma lookup_upsert:
  assumes "\<And>r. key (upd r) = key r"
  shows "lookup key k (upsert key new upd t) =
    (if k = key new then Some (case lookup key k t of None \<Rightarrow> new | Some r \<Rightarrow> upd r)
     else lookup key k t)"
  using assms by (induction t) auto

lemma upsert_keys:
  assumes "\<And>r. key (upd r) = key r"
  shows "map key (upsert key new upd t) =
    (if key new \<in> key ` set t then map key t else map key t @ [key new])"
  using assms by (induction t) auto

lemma table_ok_upsert:
  assumes "\<And>r. key (upd r) = key r" and "table_ok key t"
  shows "table_ok key (upsert key new upd t)"
  using assms(2) upsert_keys [of key upd new t] assms(1) by (simp add: table_ok_def)

text \<open>
  Two tables with unique keys and the same lookups hold the same rows, so a query with an
  \<open>ORDER BY\<close> on a key cannot tell them apart.
\<close>

lemma same_lookups_same_rows:
  assumes "table_ok key t" "table_ok key u" "\<And>k. lookup key k t = lookup key k u"
  shows "set t = set u"
proof -
  have "r \<in> set t \<longleftrightarrow> r \<in> set u" for r
    using assms(3) [of "key r"] lookup_iff_mem [OF assms(1), of "key r" r]
      lookup_iff_mem [OF assms(2), of "key r" r] by simp
  then show ?thesis by blast
qed

section \<open>Last writer wins\<close>

text \<open>
  The interface between the statements of the ingester and the claims about its result. A
  state has a view (some columns of one row) with a version (the sequence number or slot
  stored beside them), a step applies an operation, and an operation is accepted when its
  version is not older than the stored one. \<open>acc\<close> covers both the strict and the
  non-strict guards of the source: it is only fixed where the versions differ.
\<close>

locale lww =
  fixes step :: "'op \<Rightarrow> 's \<Rightarrow> 's"
    and view :: "'s \<Rightarrow> 'v"
    and val :: "'op \<Rightarrow> 'v"
    and ver :: "'op \<Rightarrow> int"
    and vver :: "'v \<Rightarrow> int option"
    and acc :: "int option \<Rightarrow> int \<Rightarrow> bool"
    and inv :: "'s \<Rightarrow> bool"
    and ok :: "'op \<Rightarrow> bool"
  assumes step_view: "inv s \<Longrightarrow> ok x \<Longrightarrow>
      view (step x s) = (if acc (vver (view s)) (ver x) then val x else view s)"
    and step_inv: "inv s \<Longrightarrow> ok x \<Longrightarrow> inv (step x s)"
    and vver_val: "ok x \<Longrightarrow> vver (val x) = Some (ver x)"
    and acc_None: "acc None n"
    and acc_newer: "m < n \<Longrightarrow> acc (Some m) n"
    and acc_older: "n < m \<Longrightarrow> \<not> acc (Some m) n"
begin

lemma fold_inv: "inv s \<Longrightarrow> \<forall>x\<in>set xs. ok x \<Longrightarrow> inv (fold step xs s)"
  by (induction xs arbitrary: s) (auto simp: step_inv)

lemma stale_ignored:
  assumes "inv s" "ok x" "vver (view s) = Some m" "ver x < m"
  shows "view (step x s) = view s"
  using assms by (simp add: step_view acc_older)

text \<open>After any operations, the view is the untouched start or an accepted operation.\<close>

lemma fold_view_cases:
  assumes "inv s" "\<forall>x\<in>set xs. ok x"
  shows "view (fold step xs s) = view s \<or> (\<exists>x\<in>set xs. view (fold step xs s) = val x)"
  using assms
proof (induction xs arbitrary: s)
  case (Cons x xs)
  then have "view (step x s) = view s \<or> view (step x s) = val x"
    by (simp add: step_view)
  with Cons.IH [of "step x s"] Cons.prems show ?case
    by (auto simp: step_inv)
qed simp

text \<open>The stored version never decreases and ends at least at every operation's version.\<close>

lemma fold_vver_mono:
  assumes "inv s" "\<forall>x\<in>set xs. ok x" "vver (view s) = Some m"
  shows "\<exists>n \<ge> m. vver (view (fold step xs s)) = Some n"
  using assms
proof (induction xs arbitrary: s m)
  case (Cons x xs)
  have "\<exists>n\<ge>m. vver (view (step x s)) = Some n"
    using Cons.prems acc_older [of "ver x" m] by (cases "ver x < m") (auto simp: step_view vver_val)
  then obtain n where "n \<ge> m" and n: "vver (view (step x s)) = Some n" by blast
  with Cons.IH [OF _ _ n] Cons.prems show ?case
    by (fastforce simp: step_inv)
qed simp

lemma step_vver_ge:
  assumes "inv s" "ok x"
  shows "\<exists>n \<ge> ver x. vver (view (step x s)) = Some n"
proof (cases "vver (view s)")
  case None
  then show ?thesis using assms by (simp add: step_view acc_None vver_val)
next
  case (Some m)
  then show ?thesis using assms acc_newer [of m "ver x"]
    by (cases "m < ver x") (auto simp: step_view vver_val)
qed

lemma fold_vver_ge:
  assumes "inv s" "\<forall>x\<in>set xs. ok x" "x \<in> set xs"
  shows "\<exists>n \<ge> ver x. vver (view (fold step xs s)) = Some n"
  using assms
proof (induction xs arbitrary: s)
  case (Cons y xs)
  show ?case
  proof (cases "x = y")
    case True
    obtain n where "n \<ge> ver x" "vver (view (step x s)) = Some n"
      using step_vver_ge [of s x] Cons.prems by auto
    with fold_vver_mono [of "step x s" xs n] True Cons.prems show ?thesis
      by (fastforce simp: step_inv)
  next
    case False
    with Cons.IH [of "step y s"] Cons.prems show ?thesis
      by (simp add: step_inv)
  qed
qed simp

text \<open>The newest operation, if it is newer than the start, is what the view shows.\<close>

lemma newest_wins:
  assumes "inv s" "\<forall>y\<in>set xs. ok y" "x \<in> set xs" "\<forall>y\<in>set xs. ver y \<le> ver x"
    and same: "\<forall>y\<in>set xs. ver y = ver x \<longrightarrow> val y = val x"
    and start: "\<forall>m. vver (view s) = Some m \<longrightarrow> m < ver x"
  shows "view (fold step xs s) = val x"
proof -
  obtain n where n: "n \<ge> ver x" "vver (view (fold step xs s)) = Some n"
    using fold_vver_ge [OF assms(1-3)] by blast
  from fold_view_cases [OF assms(1,2)] show ?thesis
  proof
    assume "view (fold step xs s) = view s"
    with n start show ?thesis by force
  next
    assume "\<exists>y\<in>set xs. view (fold step xs s) = val y"
    then obtain y where y: "y \<in> set xs" "view (fold step xs s) = val y" by blast
    with n assms(2) have "ver x \<le> ver y" by (simp add: vver_val)
    with assms(4) y have "ver y = ver x" by fastforce
    with same y show ?thesis by simp
  qed
qed

text \<open>Operations that all are older than what is stored change nothing.\<close>

lemma all_stale:
  assumes "inv s" "\<forall>y\<in>set xs. ok y" "vver (view s) = Some m" "\<forall>y\<in>set xs. ver y < m"
  shows "view (fold step xs s) = view s"
  using assms
proof (induction xs arbitrary: s)
  case (Cons y xs)
  then have "view (step y s) = view s" by (simp add: stale_ignored)
  with Cons.IH [of "step y s"] Cons.prems show ?case by (simp add: step_inv)
qed simp

text \<open>
  Convergence: what the view shows depends on the set of operations only, not on their
  order or on repeated delivery, where no operation ties with the start.
\<close>

lemma convergence:
  assumes s: "inv s" and oks: "\<forall>x\<in>set xs. ok x" and sets: "set xs = set ys"
    and same: "\<forall>x\<in>set xs. \<forall>y\<in>set xs. ver x = ver y \<longrightarrow> val x = val y"
    and start: "\<forall>x\<in>set xs. vver (view s) \<noteq> Some (ver x)"
  shows "view (fold step xs s) = view (fold step ys s)"
proof (cases "xs = []")
  case True
  with sets show ?thesis by simp
next
  case False
  have "Max (ver ` set xs) \<in> ver ` set xs" using False by simp
  then obtain x where x: "x \<in> set xs" "ver x = Max (ver ` set xs)" by auto
  then have max: "x \<in> set xs" "\<forall>y\<in>set xs. ver y \<le> ver x" by simp_all
  have same_x: "\<forall>y\<in>set xs. ver y = ver x \<longrightarrow> val y = val x"
    using same max(1) by blast
  show ?thesis
  proof (cases "\<exists>m. vver (view s) = Some m \<and> ver x < m")
    case True
    then obtain m where m: "vver (view s) = Some m" "ver x < m" by blast
    with max have older: "\<forall>y\<in>set xs. ver y < m" by fastforce
    have older': "\<forall>y\<in>set ys. ver y < m" and oks': "\<forall>y\<in>set ys. ok y"
      using older oks unfolding sets by blast+
    show ?thesis
      unfolding all_stale [OF s oks m(1) older] all_stale [OF s oks' m(1) older'] ..
  next
    case False
    then have st: "\<forall>m. vver (view s) = Some m \<longrightarrow> m < ver x"
      using start max(1) by (metis linorder_neqE)
    have ys: "\<forall>y\<in>set ys. ok y" "x \<in> set ys" "\<forall>y\<in>set ys. ver y \<le> ver x"
      "\<forall>y\<in>set ys. ver y = ver x \<longrightarrow> val y = val x"
      using oks max same_x unfolding sets by blast+
    show ?thesis unfolding newest_wins [OF s oks max same_x st] newest_wins [OF s ys st] ..
  qed
qed

end

text \<open>
  A step relation whose operations also touch other rows: what is not \<open>ok\<close> for the view
  leaves it alone, so the view only depends on the operations that name it.
\<close>

locale lww_framed = lww +
  fixes legal :: "'a \<Rightarrow> bool"
  assumes frame: "inv s \<Longrightarrow> legal x \<Longrightarrow> \<not> ok x \<Longrightarrow> view (step x s) = view s"
    and frame_inv: "inv s \<Longrightarrow> legal x \<Longrightarrow> \<not> ok x \<Longrightarrow> inv (step x s)"
begin

lemma legal_inv: "inv s \<Longrightarrow> \<forall>x\<in>set xs. legal x \<Longrightarrow> inv (fold step xs s)"
  by (induction xs arbitrary: s) (simp, metis fold_simps(2) frame_inv list.set_intros step_inv)

lemma fold_filter:
  assumes "inv s" "inv s'" "view s = view s'" "\<forall>x\<in>set xs. legal x"
  shows "view (fold step xs s) = view (fold step (filter ok xs) s')"
  using assms
proof (induction xs arbitrary: s s')
  case (Cons x xs)
  show ?case
  proof (cases "ok x")
    case True
    with Cons.prems have "view (step x s) = view (step x s')" by (simp add: step_view)
    with True Cons.IH [of "step x s" "step x s'"] Cons.prems show ?thesis by (simp add: step_inv)
  next
    case False
    with Cons.prems have "view (step x s) = view s'" by (simp add: frame)
    with False Cons.IH [of "step x s" s'] Cons.prems show ?thesis by (simp add: frame_inv)
  qed
qed simp

lemma convergence_framed:
  assumes s: "inv s" and legal: "\<forall>x\<in>set xs. legal x" and sets: "set xs = set ys"
    and same: "\<forall>x\<in>set xs. \<forall>y\<in>set xs. ok x \<longrightarrow> ok y \<longrightarrow> ver x = ver y \<longrightarrow> val x = val y"
    and start: "\<forall>x\<in>set xs. ok x \<longrightarrow> vver (view s) \<noteq> Some (ver x)"
  shows "view (fold step xs s) = view (fold step ys s)"
proof -
  have sets': "set (filter ok xs) = set (filter ok ys)" by (simp add: sets)
  have oks: "\<forall>x\<in>set (filter ok xs). ok x" by simp
  have same': "\<forall>x\<in>set (filter ok xs). \<forall>y\<in>set (filter ok xs). ver x = ver y \<longrightarrow> val x = val y"
    using same unfolding set_filter by blast
  have start': "\<forall>x\<in>set (filter ok xs). vver (view s) \<noteq> Some (ver x)"
    using start unfolding set_filter by blast
  have legal': "\<forall>x\<in>set ys. legal x" using legal unfolding sets .
  show ?thesis
    unfolding fold_filter [OF s s refl legal] fold_filter [OF s s refl legal']
    by (rule convergence [OF s oks sets' same' start'])
qed

lemma newest_wins_framed:
  assumes s: "inv s" and legal: "\<forall>y\<in>set xs. legal y" and x: "x \<in> set xs" "ok x"
    and max: "\<forall>y\<in>set xs. ok y \<longrightarrow> ver y \<le> ver x"
    and same: "\<forall>y\<in>set xs. ok y \<longrightarrow> ver y = ver x \<longrightarrow> val y = val x"
    and start: "\<forall>m. vver (view s) = Some m \<longrightarrow> m < ver x"
  shows "view (fold step xs s) = val x"
proof -
  show ?thesis
    unfolding fold_filter [OF s s refl legal]
    by (rule newest_wins [OF s _ _ _ _ start]; unfold set_filter; use x max same in blast)
qed

end

text \<open>The two guards of the source, as instances of \<open>acc\<close>.\<close>

definition acc_ge :: "int option \<Rightarrow> int \<Rightarrow> bool" where
  "acc_ge m n = (case m of None \<Rightarrow> True | Some k \<Rightarrow> k \<le> n)"

definition acc_gt :: "int option \<Rightarrow> int \<Rightarrow> bool" where
  "acc_gt m n = (case m of None \<Rightarrow> True | Some k \<Rightarrow> k < n)"

lemma acc_ge_laws [simp]:
  "acc_ge None n" "m < n \<Longrightarrow> acc_ge (Some m) n" "n < m \<Longrightarrow> \<not> acc_ge (Some m) n"
  by (simp_all add: acc_ge_def)

lemma acc_gt_laws [simp]:
  "acc_gt None n" "m < n \<Longrightarrow> acc_gt (Some m) n" "n < m \<Longrightarrow> \<not> acc_gt (Some m) n"
  by (simp_all add: acc_gt_def)

text \<open>How the guards are written in the source, once \<open>holds\<close> is pushed inwards.\<close>

lemma ge_or_null [simp]:
  "(holds (sql_cmp (\<lambda>x y. y \<le> x) (Some n) m) \<or> holds (is_null m)) = acc_ge m n"
  by (cases m) (auto simp: sql_simps acc_ge_def)

lemma nonzero_or_null [simp]:
  "(holds (sql_cmp (\<noteq>) m (Some (k::int))) \<or> holds (is_null m)) = (m \<noteq> Some k)"
  by (cases m) (auto simp: sql_simps)

lemma nonzero_ge_or_null [simp]:
  "(holds (sql_cmp (\<noteq>) m (Some (k::int))) \<and> holds (sql_cmp (\<lambda>x y. y \<le> x) (Some n) m) \<or>
    holds (is_null m)) = (m \<noteq> Some k \<and> acc_ge m n)"
  by (cases m) (auto simp: sql_simps acc_ge_def)

end
