(* ===== verification/Das_Schema.thy ===== *)
theory Das_Schema
  imports Das_Prelude
begin

text \<open>
  The tables of the index (\<open>digital_asset_types/src/dao/generated\<close>), one record per row type,
  and the defaults the database fills in for columns an insert does not set (\<open>init.sql\<close> and
  the migrations).

  Tables with a \<open>bigserial\<close> surrogate \<open>id\<close> are keyed by their unique index instead (but for
  \<open>backfill_items\<close>, which has none); the
  surrogate is not a column of the model, because no modelled statement reads it other than
  to break ties that the unique index rules out.
\<close>

section \<open>Enumerations\<close>

datatype owner_type = OT_Single | OT_Token | OT_Unknown

datatype royalty_target_type = RT_Creators | RT_Fanout | RT_Single | RT_Unknown

datatype chain_mutability = CM_Immutable | CM_Mutable | CM_Unknown

datatype mutability = M_Immutable | M_Mutable | M_Unknown

datatype specification_versions = SV_Unknown | SV_V0 | SV_V1 | SV_V2

datatype v1_account_attachments =
    VA_Edition | VA_EditionMarker | VA_MasterEditionV1 | VA_MasterEditionV2
  | VA_TokenInscription | VA_Unknown

datatype specification_asset_class =
    SAC_FungibleAsset | SAC_FungibleToken | SAC_IdentityNft | SAC_MplBubblegumV2
  | SAC_MplCoreAsset | SAC_MplCoreCollection | SAC_MplCoreGroup | SAC_Nft
  | SAC_NonTransferableNft | SAC_Print | SAC_PrintableNft | SAC_ProgrammableNft
  | SAC_TransferRestrictedNft | SAC_Unknown

datatype instruction =
    I_Burn | I_BurnV2 | I_CancelRedeem | I_Compress | I_DecompressV1 | I_Delegate
  | I_DelegateAndFreezeV2 | I_DelegateV2 | I_FreezeV2 | I_MintToCollectionV1 | I_MintV1
  | I_MintV2 | I_Redeem | I_SetAndVerifyCollection | I_SetCollectionV2
  | I_SetNonTransferableV2 | I_ThawAndRevokeV2 | I_ThawV2 | I_Transfer | I_TransferV2
  | I_Unknown | I_UnverifyCollection | I_UnverifyCreator | I_UnverifyCreatorV2
  | I_UpdateAssetDataV2 | I_UpdateMetadata | I_UpdateMetadataV2 | I_VerifyCollection
  | I_VerifyCreator | I_VerifyCreatorV2

section \<open>JSON values\<close>

datatype json =
    JNull
  | JBool bool
  | JNum int
  | JStr string
  | JArr "json list"
  | JObj "(string \<times> json) list"

section \<open>Rows\<close>

record asset =
  a_id :: bytes
  a_alt_id :: "bytes option"
  a_specification_version :: "specification_versions option"
  a_specification_asset_class :: "specification_asset_class option"
  a_owner :: "bytes option"
  a_owner_type :: owner_type
  a_delegate :: "bytes option"
  a_frozen :: bool
  a_supply :: int
  a_supply_mint :: "bytes option"
  a_compressed :: bool
  a_compressible :: bool
  a_seq :: "i64 option"
  a_tree_id :: "bytes option"
  a_leaf :: "bytes option"
  a_nonce :: "i64 option"
  a_royalty_target_type :: royalty_target_type
  a_royalty_target :: "bytes option"
  a_royalty_amount :: int
  a_asset_data :: "bytes option"
  a_created_at :: "int option"
  a_burnt :: bool
  a_slot_updated :: "i64 option"
  a_slot_updated_metadata_account :: "i64 option"
  a_slot_updated_mint_account :: "i64 option"
  a_slot_updated_token_account :: "i64 option"
  a_slot_updated_cnft_transaction :: "i64 option"
  a_data_hash :: "string option"
  a_creator_hash :: "string option"
  a_owner_delegate_seq :: "i64 option"
  a_leaf_seq :: "i64 option"
  a_base_info_seq :: "i64 option"
  a_mint_extensions :: "json option"
  a_mpl_core_plugins :: "json option"
  a_mpl_core_unknown_plugins :: "json option"
  a_mpl_core_collection_num_minted :: "int option"
  a_mpl_core_collection_current_size :: "int option"
  a_mpl_core_plugins_json_version :: "int option"
  a_mpl_core_external_plugins :: "json option"
  a_mpl_core_unknown_external_plugins :: "json option"
  a_collection_hash :: "string option"
  a_asset_data_hash :: "string option"
  a_bubblegum_flags :: "int option"
  a_non_transferable :: "bool option"
  a_is_agent :: bool
  a_agent_token :: "bytes option"
  a_asset_signer :: "bytes option"
  a_slot_updated_agent_registry :: "i64 option"

definition asset_default :: "int \<Rightarrow> bytes \<Rightarrow> asset" where
  "asset_default now i =
    \<lparr>a_id = i, a_alt_id = None, a_specification_version = None,
     a_specification_asset_class = None, a_owner = None, a_owner_type = OT_Single,
     a_delegate = None, a_frozen = False, a_supply = 1, a_supply_mint = None,
     a_compressed = False, a_compressible = False, a_seq = None, a_tree_id = None,
     a_leaf = None, a_nonce = None, a_royalty_target_type = RT_Creators,
     a_royalty_target = None, a_royalty_amount = 0, a_asset_data = None,
     a_created_at = Some now, a_burnt = False, a_slot_updated = None,
     a_slot_updated_metadata_account = None, a_slot_updated_mint_account = None,
     a_slot_updated_token_account = None, a_slot_updated_cnft_transaction = None,
     a_data_hash = None, a_creator_hash = None, a_owner_delegate_seq = None,
     a_leaf_seq = None, a_base_info_seq = None, a_mint_extensions = None,
     a_mpl_core_plugins = None, a_mpl_core_unknown_plugins = None,
     a_mpl_core_collection_num_minted = None, a_mpl_core_collection_current_size = None,
     a_mpl_core_plugins_json_version = None, a_mpl_core_external_plugins = None,
     a_mpl_core_unknown_external_plugins = None, a_collection_hash = None,
     a_asset_data_hash = None, a_bubblegum_flags = None, a_non_transferable = None,
     a_is_agent = False, a_agent_token = None, a_asset_signer = None,
     a_slot_updated_agent_registry = None\<rparr>"

lemma asset_default_id [simp]: "a_id (asset_default n i) = i"
  by (simp add: asset_default_def)

record asset_data =
  ad_id :: bytes
  ad_chain_data_mutability :: chain_mutability
  ad_chain_data :: json
  ad_metadata_url :: string
  ad_metadata_mutability :: mutability
  ad_metadata :: json
  ad_slot_updated :: i64
  ad_reindex :: "bool option"
  ad_raw_name :: "bytes option"
  ad_raw_symbol :: "bytes option"
  ad_base_info_seq :: "i64 option"

record asset_creators =
  cr_asset_id :: bytes
  cr_creator :: bytes
  cr_share :: int
  cr_verified :: bool
  cr_seq :: "i64 option"
  cr_slot_updated :: "i64 option"
  cr_position :: int

record asset_grouping =
  gr_asset_id :: bytes
  gr_group_key :: string
  gr_group_value :: "string option"
  gr_seq :: "i64 option"
  gr_slot_updated :: "i64 option"
  gr_verified :: bool
  gr_group_info_seq :: "i64 option"

record asset_authority =
  au_asset_id :: bytes
  au_scopes :: "string option"
  au_authority :: bytes
  au_seq :: i64
  au_slot_updated :: i64

record cl_items =
  cl_tree :: bytes
  cl_node_idx :: i64
  cl_leaf_idx :: "i64 option"
  cl_seq :: i64
  cl_level :: i64
  cl_hash :: bytes

record cl_audits_v2 =
  ca_tree :: bytes
  ca_leaf_idx :: i64
  ca_seq :: i64
  ca_created_at :: int
  ca_tx :: bytes
  ca_instruction :: instruction

record backfill_items =
  bf_id :: i64
  bf_tree :: bytes
  bf_seq :: i64
  bf_slot :: i64
  bf_force_chk :: bool
  bf_backfilled :: bool
  bf_failed :: bool
  bf_locked :: bool

record tokens =
  tk_mint :: bytes
  tk_supply :: int
  tk_decimals :: int
  tk_token_program :: bytes
  tk_mint_authority :: "bytes option"
  tk_freeze_authority :: "bytes option"
  tk_close_authority :: "bytes option"
  tk_extension_data :: "bytes option"
  tk_slot_updated :: i64
  tk_extensions :: "json option"

record token_accounts =
  ta_pubkey :: bytes
  ta_mint :: bytes
  ta_amount :: i64
  ta_owner :: bytes
  ta_frozen :: bool
  ta_close_authority :: "bytes option"
  ta_delegate :: "bytes option"
  ta_delegated_amount :: i64
  ta_slot_updated :: i64
  ta_token_program :: bytes
  ta_extensions :: "json option"

record attachments =
  at_id :: bytes
  at_asset_id :: "bytes option"
  at_attachment_type :: v1_account_attachments
  at_initialized :: bool
  at_data :: "json option"
  at_slot_updated :: i64

section \<open>The database\<close>

record db =
  asset_t :: "asset list"
  asset_data_t :: "asset_data list"
  asset_creators_t :: "asset_creators list"
  asset_grouping_t :: "asset_grouping list"
  asset_authority_t :: "asset_authority list"
  cl_items_t :: "cl_items list"
  cl_audits_t :: "cl_audits_v2 list"
  backfill_items_t :: "backfill_items list"
  backfill_items_id_seq :: i64
  tokens_t :: "tokens list"
  token_accounts_t :: "token_accounts list"
  attachments_t :: "attachments list"
  db_now :: int

definition empty_db :: db where
  "empty_db = \<lparr>asset_t = [], asset_data_t = [], asset_creators_t = [], asset_grouping_t = [],
     asset_authority_t = [], cl_items_t = [], cl_audits_t = [], backfill_items_t = [], backfill_items_id_seq = 1,
     tokens_t = [], token_accounts_t = [], attachments_t = [], db_now = 0\<rparr>"

text \<open>The keys: the primary keys and the unique indexes the upserts name.\<close>

abbreviation asset_row :: "bytes \<Rightarrow> db \<Rightarrow> asset option" where
  "asset_row i d \<equiv> lookup a_id i (asset_t d)"

abbreviation asset_data_row :: "bytes \<Rightarrow> db \<Rightarrow> asset_data option" where
  "asset_data_row i d \<equiv> lookup ad_id i (asset_data_t d)"

definition cr_key :: "asset_creators \<Rightarrow> bytes \<times> int" where
  "cr_key r = (cr_asset_id r, cr_position r)"

definition cl_key :: "cl_items \<Rightarrow> bytes \<times> i64" where
  "cl_key r = (cl_tree r, cl_node_idx r)"

definition ca_key :: "cl_audits_v2 \<Rightarrow> bytes \<times> i64 \<times> i64" where
  "ca_key r = (ca_tree r, ca_leaf_idx r, ca_seq r)"

end
