(* ===== verification/Das_World.thy ===== *)
theory Das_World
  imports Das_Schema
begin

text \<open>
  The world a handler runs in: the tables, a counter of the statements sent to the database,
  the faults the database injects (which statement fails, and with which message), and the
  metadata downloads that were requested. Handlers are functions from a world to a result
  and the next world; \<open>bind_m\<close> is Rust's \<open>?\<close>. Functions of third-party crates are the fields
  of the record \<open>ext\<close>, a parameter of the definitions that use them.
\<close>

section \<open>Errors and the world\<close>

datatype program_transformer_error =
    ChangeLogEventMalformed
  | StorageWriteError string
  | NotImplemented
  | DeserializationError string
  | SerializatonError string
  | ParsingError string
  | DatabaseError string
  | AssetIndexError string
  | DownloadMetadataNotify string

type_synonym 'a pt_result = "program_transformer_error + 'a"

record download_metadata_info =
  dm_asset_data_id :: bytes
  dm_uri :: string

definition download_metadata_info_new :: "bytes \<Rightarrow> string \<Rightarrow> download_metadata_info" where
  "download_metadata_info_new i uri =
     \<lparr>dm_asset_data_id = i, dm_uri = remove_nul (str_trim uri)\<rparr>"

record world =
  w_db :: db
  w_tick :: nat
  w_fault :: "nat \<Rightarrow> string option"
  w_sent :: "download_metadata_info list"

type_synonym 'a handler = "world \<Rightarrow> 'a pt_result \<times> world"

definition return_m :: "'a \<Rightarrow> 'a handler" where
  "return_m x w = (Inr x, w)"

definition raise_m :: "program_transformer_error \<Rightarrow> 'a handler" where
  "raise_m e w = (Inl e, w)"

definition bind_m :: "'a handler \<Rightarrow> ('a \<Rightarrow> 'b handler) \<Rightarrow> 'b handler" where
  "bind_m m f w = (case m w of (Inl e, w') \<Rightarrow> (Inl e, w') | (Inr x, w') \<Rightarrow> f x w')"

text \<open>
  One statement sent to the database: it may fail with a database error, which the caller
  maps to its own error, or it changes the tables.
\<close>

type_synonym stmt = "(string \<Rightarrow> program_transformer_error) \<times> (db \<Rightarrow> db)"

definition execute :: "stmt \<Rightarrow> unit handler" where
  "execute s w =
     (case w_fault w (w_tick w) of
        Some e \<Rightarrow> (Inl (fst s e), w\<lparr>w_tick := Suc (w_tick w)\<rparr>)
      | None \<Rightarrow> (Inr (), w\<lparr>w_db := snd s (w_db w), w_tick := Suc (w_tick w)\<rparr>))"

definition query :: "(string \<Rightarrow> program_transformer_error) \<Rightarrow> (db \<Rightarrow> 'a) \<Rightarrow> 'a handler" where
  "query err f w =
     (case w_fault w (w_tick w) of
        Some e \<Rightarrow> (Inl (err e), w\<lparr>w_tick := Suc (w_tick w)\<rparr>)
      | None \<Rightarrow> (Inr (f (w_db w)), w\<lparr>w_tick := Suc (w_tick w)\<rparr>))"

fun run_all :: "stmt list \<Rightarrow> unit handler" where
  "run_all [] = return_m ()"
| "run_all (s # ss) = bind_m (execute s) (\<lambda>_. run_all ss)"

text \<open>
  \<open>begin\<close> ... \<open>commit\<close>: a transaction that goes out of scope, because a statement or the
  commit failed, is rolled back. \<open>begin\<close> and \<open>commit\<close> are sent to the database too.
\<close>

definition control :: stmt where
  "control = (StorageWriteError, \<lambda>d. d)"

definition transaction :: "stmt list \<Rightarrow> unit handler" where
  "transaction ss w =
     (case run_all (control # ss @ [control]) w of
        (Inl e, w') \<Rightarrow> (Inl e, w'\<lparr>w_db := w_db w\<rparr>)
      | (Inr u, w') \<Rightarrow> (Inr u, w'))"

definition effect :: "stmt list \<Rightarrow> db \<Rightarrow> db" where
  "effect ss d = fold snd ss d"

definition no_faults :: "world \<Rightarrow> bool" where
  "no_faults w = (\<forall>n. w_fault w n = None)"

lemmas monad_simps = return_m_def raise_m_def bind_m_def

lemma effect_simps [simp]:
  "effect [] d = d"
  "effect (s # ss) d = effect ss (snd s d)"
  "effect (ss @ ts) d = effect ts (effect ss d)"
  by (simp_all add: effect_def)

lemma no_faults_upd [simp]:
  "no_faults (w\<lparr>w_db := d\<rparr>) = no_faults w"
  "no_faults (w\<lparr>w_tick := n\<rparr>) = no_faults w"
  "no_faults (w\<lparr>w_sent := x\<rparr>) = no_faults w"
  by (simp_all add: no_faults_def)

lemma execute_ok:
  "no_faults w \<Longrightarrow>
    execute s w = (Inr (), w\<lparr>w_db := snd s (w_db w), w_tick := Suc (w_tick w)\<rparr>)"
  by (simp add: execute_def no_faults_def)

lemma query_ok:
  "no_faults w \<Longrightarrow> query err f w = (Inr (f (w_db w)), w\<lparr>w_tick := Suc (w_tick w)\<rparr>)"
  by (simp add: query_def no_faults_def)

lemma run_all_ok:
  "no_faults w \<Longrightarrow> run_all ss w =
    (Inr (), w\<lparr>w_db := effect ss (w_db w), w_tick := w_tick w + length ss\<rparr>)"
  by (induction ss arbitrary: w) (simp_all add: monad_simps execute_ok)

lemma transaction_ok:
  "no_faults w \<Longrightarrow> transaction ss w =
    (Inr (), w\<lparr>w_db := effect ss (w_db w), w_tick := w_tick w + length ss + 2\<rparr>)"
  by (simp only: transaction_def run_all_ok) (simp add: control_def)

text \<open>
  What is left of a run that failed: the effects of the statements before the failing one,
  and the rest of the world untouched.
\<close>

lemma run_all_result:
  assumes "run_all ss w = (r, w')"
  shows "w_fault w' = w_fault w \<and> w_sent w' = w_sent w \<and>
    (case r of Inr _ \<Rightarrow> w_db w' = effect ss (w_db w)
             | Inl _ \<Rightarrow> (\<exists>n < length ss. w_db w' = effect (take n ss) (w_db w)))"
  using assms
proof (induction ss arbitrary: w)
  case Nil
  then show ?case by (auto simp: monad_simps)
next
  case (Cons s ss)
  show ?case
  proof (cases "w_fault w (w_tick w)")
    case None
    then have "run_all ss (w\<lparr>w_db := snd s (w_db w), w_tick := Suc (w_tick w)\<rparr>) = (r, w')"
      using Cons.prems by (simp add: monad_simps execute_def)
    from Cons.IH [OF this] show ?thesis
      by (cases r) (auto intro: exI [of _ "Suc n" for n])
  next
    case (Some e)
    then show ?thesis
      using Cons.prems by (fastforce simp: monad_simps execute_def intro: exI [where x = 0])
  qed
qed

lemma transaction_result:
  assumes "transaction ss w = (r, w')"
  shows "w_fault w' = w_fault w \<and> w_sent w' = w_sent w \<and>
    w_db w' = (case r of Inr _ \<Rightarrow> effect ss (w_db w) | Inl _ \<Rightarrow> w_db w)"
proof -
  obtain r0 w0 where run: "run_all (control # ss @ [control]) w = (r0, w0)"
    by fastforce
  from run_all_result [OF run] assms run show ?thesis
    by (cases r0) (auto simp: transaction_def control_def)
qed

section \<open>Parameters: code outside the repository\<close>

text \<open>
  Functions of third-party crates the sources call: \<open>bs58\<close>, Solana's program addresses, the
  Bubblegum program's flag bits and id, serde's serialisation, and the callback that asks
  for a metadata download (an error message, or success).
\<close>

datatype token_standard =
    TS_NonFungible | TS_FungibleAsset | TS_Fungible | TS_NonFungibleEdition
  | TS_ProgrammableNonFungible | TS_ProgrammableNonFungibleEdition

datatype use_method = UM_Burn | UM_Multiple | UM_Single

record uses =
  us_use_method :: use_method
  us_remaining :: u64
  us_total :: u64

record chain_data_v1 =
  cd_name :: string
  cd_symbol :: string
  cd_edition_nonce :: "u8 option"
  cd_primary_sale_happened :: bool
  cd_token_standard :: "token_standard option"
  cd_uses :: "uses option"

record ext =
  bs58_encode :: "bytes \<Rightarrow> string"
  bs58_decode :: "string \<Rightarrow> bytes option"
  find_program_address :: "bytes list \<Rightarrow> pubkey \<Rightarrow> pubkey"
  bubblegum_ID :: pubkey
  flags_non_transferable :: "u8 \<Rightarrow> bool"
  flags_asset_lvl_frozen :: "u8 \<Rightarrow> bool"
  flags_permanent_lvl_frozen :: "u8 \<Rightarrow> bool"
  chain_data_to_value :: "chain_data_v1 \<Rightarrow> string + json"
  notifier :: "download_metadata_info \<Rightarrow> string option"

section \<open>Concrete inputs\<close>

text \<open>
  A small instance of the parameters, for evaluating the properties: base58 is the identity
  on characters, one flag value freezes, every payload serialises; and an empty database that
  accepts every statement.
\<close>

definition ext0 :: ext where
  "ext0 = \<lparr>bs58_encode = map (\<lambda>b. char_of (unat b)), bs58_decode = (\<lambda>s. Some (str_bytes s)),
     find_program_address = (\<lambda>ss p. concat ss @ p), bubblegum_ID = [7],
     flags_non_transferable = (\<lambda>_. False), flags_asset_lvl_frozen = (\<lambda>f. f = 1),
     flags_permanent_lvl_frozen = (\<lambda>_. False), chain_data_to_value = (\<lambda>c. Inr (JStr (cd_name c))),
     notifier = (\<lambda>_. None)\<rparr>"

definition world0 :: world where
  "world0 = \<lparr>w_db = empty_db, w_tick = 0, w_fault = (\<lambda>_. None), w_sent = []\<rparr>"

end
