(* ===== verification/Change_Log.thy ===== *)
theory Change_Log
  imports Das_World
begin

text \<open>
  The Merkle change log: \<open>save_changelog_event\<close> and \<open>insert_change_log\<close> of
  \<open>program_transformers/src/bubblegum/db.rs\<close>, and the instruction names of
  \<open>digital_asset_types/src/dao/extensions/instruction.rs\<close>. These statements run outside a
  transaction, so a failure can leave part of a path behind; what makes that safe is that
  the backfill row is written last.
\<close>

section \<open>Events\<close>

record path_node =
  pn_node :: hash
  pn_index :: u32

record change_log_event =
  ce_id :: pubkey
  ce_path :: "path_node list"
  ce_seq :: u64
  ce_index :: u32

section \<open>Instruction names\<close>

definition instruction_names :: "(string \<times> instruction) list" where
  "instruction_names =
    [(''Burn'', I_Burn), (''CancelRedeem'', I_CancelRedeem), (''Compress'', I_Compress),
     (''DecompressV1'', I_DecompressV1), (''Delegate'', I_Delegate),
     (''MintToCollectionV1'', I_MintToCollectionV1), (''MintV1'', I_MintV1),
     (''Redeem'', I_Redeem), (''SetAndVerifyCollection'', I_SetAndVerifyCollection),
     (''Transfer'', I_Transfer), (''UnverifyCollection'', I_UnverifyCollection),
     (''UnverifyCreator'', I_UnverifyCreator), (''VerifyCollection'', I_VerifyCollection),
     (''VerifyCreator'', I_VerifyCreator), (''UpdateMetadata'', I_UpdateMetadata),
     (''BurnV2'', I_BurnV2), (''DelegateV2'', I_DelegateV2),
     (''DelegateAndFreezeV2'', I_DelegateAndFreezeV2), (''FreezeV2'', I_FreezeV2),
     (''MintV2'', I_MintV2), (''SetCollectionV2'', I_SetCollectionV2),
     (''SetNonTransferableV2'', I_SetNonTransferableV2), (''ThawV2'', I_ThawV2),
     (''ThawAndRevokeV2'', I_ThawAndRevokeV2), (''TransferV2'', I_TransferV2),
     (''UnverifyCreatorV2'', I_UnverifyCreatorV2), (''VerifyCreatorV2'', I_VerifyCreatorV2),
     (''UpdateMetadataV2'', I_UpdateMetadataV2), (''UpdateAssetDataV2'', I_UpdateAssetDataV2)]"

definition instruction_from_str :: "string \<Rightarrow> instruction" where
  "instruction_from_str s = (case map_of instruction_names s of Some i \<Rightarrow> i | None \<Rightarrow> I_Unknown)"

fun to_pascal_case :: "instruction \<Rightarrow> string" where
  "to_pascal_case I_Burn = ''Burn''"
| "to_pascal_case I_CancelRedeem = ''CancelRedeem''"
| "to_pascal_case I_Compress = ''Compress''"
| "to_pascal_case I_DecompressV1 = ''DecompressV1''"
| "to_pascal_case I_Delegate = ''Delegate''"
| "to_pascal_case I_MintToCollectionV1 = ''MintToCollectionV1''"
| "to_pascal_case I_MintV1 = ''MintV1''"
| "to_pascal_case I_Redeem = ''Redeem''"
| "to_pascal_case I_SetAndVerifyCollection = ''SetAndVerifyCollection''"
| "to_pascal_case I_Transfer = ''Transfer''"
| "to_pascal_case I_Unknown = ''Unknown''"
| "to_pascal_case I_UnverifyCollection = ''UnverifyCollection''"
| "to_pascal_case I_UnverifyCreator = ''UnverifyCreator''"
| "to_pascal_case I_VerifyCollection = ''VerifyCollection''"
| "to_pascal_case I_VerifyCreator = ''VerifyCreator''"
| "to_pascal_case I_UpdateMetadata = ''UpdateMetadata''"
| "to_pascal_case I_BurnV2 = ''BurnV2''"
| "to_pascal_case I_DelegateV2 = ''DelegateV2''"
| "to_pascal_case I_DelegateAndFreezeV2 = ''DelegateAndFreezeV2''"
| "to_pascal_case I_FreezeV2 = ''FreezeV2''"
| "to_pascal_case I_MintV2 = ''MintV2''"
| "to_pascal_case I_SetCollectionV2 = ''SetCollectionV2''"
| "to_pascal_case I_SetNonTransferableV2 = ''SetNonTransferableV2''"
| "to_pascal_case I_ThawV2 = ''ThawV2''"
| "to_pascal_case I_ThawAndRevokeV2 = ''ThawAndRevokeV2''"
| "to_pascal_case I_TransferV2 = ''TransferV2''"
| "to_pascal_case I_UnverifyCreatorV2 = ''UnverifyCreatorV2''"
| "to_pascal_case I_VerifyCreatorV2 = ''VerifyCreatorV2''"
| "to_pascal_case I_UpdateMetadataV2 = ''UpdateMetadataV2''"
| "to_pascal_case I_UpdateAssetDataV2 = ''UpdateAssetDataV2''"

lemma instruction_from_to: "instruction_from_str (to_pascal_case i) = i"
  by (cases i) (simp_all add: instruction_from_str_def instruction_names_def)

section \<open>The statements of one event\<close>

text \<open>
  Release arithmetic: \<open>path.len() - 1\<close> wraps on an empty path, \<open>as u32\<close> truncates, and the power
  and the subtraction of \<open>node_idx_to_leaf_idx\<close> are taken modulo \<open>2 ^ 64\<close>.
\<close>

definition path_depth :: "path_node list \<Rightarrow> u64" where
  "path_depth p = of_nat (length p) - 1"

definition node_idx_to_leaf_idx :: "i64 \<Rightarrow> u32 \<Rightarrow> i64" where
  "node_idx_to_leaf_idx index tree_height =
     as_i64 (word_of_int index - 2 ^ unat tree_height)"

definition cl_item :: "change_log_event \<Rightarrow> nat \<Rightarrow> path_node \<Rightarrow> cl_items" where
  "cl_item e i p =
    \<lparr>cl_tree = ce_id e, cl_node_idx = u32_as_i64 (pn_index p),
     cl_leaf_idx = (if i = 0
        then Some (node_idx_to_leaf_idx (u32_as_i64 (pn_index p)) (ucast (path_depth (ce_path e))))
        else None),
     cl_seq = as_i64 (ce_seq e), cl_level = int i, cl_hash = pn_node p\<rparr>"

definition upsert_cl_row :: "cl_items \<Rightarrow> cl_items list \<Rightarrow> cl_items list" where
  "upsert_cl_row new t =
     upsert cl_key new
       (\<lambda>r. if cl_seq new > cl_seq r
            then r\<lparr>cl_hash := cl_hash new, cl_seq := cl_seq new, cl_leaf_idx := cl_leaf_idx new,
                   cl_level := cl_level new\<rparr>
            else r) t"

definition upsert_cl_item :: "cl_items \<Rightarrow> stmt" where
  "upsert_cl_item new =
     (StorageWriteError, \<lambda>d. d\<lparr>cl_items_t := upsert_cl_row new (cl_items_t d)\<rparr>)"

definition cl_item_stmts :: "change_log_event \<Rightarrow> stmt list" where
  "cl_item_stmts e = map (\<lambda>(i, p). upsert_cl_item (cl_item e i p)) (enumerate 0 (ce_path e))"

definition audit_stmt :: "change_log_event \<Rightarrow> bytes \<Rightarrow> instruction \<Rightarrow> stmt" where
  "audit_stmt e tx ix =
    (StorageWriteError,
     \<lambda>d. d\<lparr>cl_audits_t := upsert ca_key
       \<lparr>ca_tree = ce_id e, ca_leaf_idx = u32_as_i64 (ce_index e), ca_seq = as_i64 (ce_seq e),
        ca_created_at = db_now d, ca_tx = tx, ca_instruction = ix\<rparr> (\<lambda>r. r) (cl_audits_t d)\<rparr>)"

definition backfill_stmt :: "change_log_event \<Rightarrow> u64 \<Rightarrow> bool \<Rightarrow> stmt" where
  "backfill_stmt e slot force_chk =
    (StorageWriteError,
     \<lambda>d. d\<lparr>backfill_items_t := backfill_items_t d @
       [\<lparr>bf_id = backfill_items_id_seq d, bf_tree = ce_id e, bf_seq = as_i64 (ce_seq e), bf_slot = as_i64 slot,
         bf_force_chk = force_chk, bf_backfilled = False, bf_failed = False,
         bf_locked = False\<rparr>],
       backfill_items_id_seq := backfill_items_id_seq d + 1\<rparr>)"

text \<open>The audit insert's error is logged and dropped; its statement still counts.\<close>

definition ignore_error :: "unit handler \<Rightarrow> unit handler" where
  "ignore_error m w = (Inr (), snd (m w))"

definition insert_change_log :: "ext \<Rightarrow> change_log_event \<Rightarrow> u64 \<Rightarrow> string \<Rightarrow> string \<Rightarrow> unit handler" where
  "insert_change_log E e slot txn_id instruction =
    bind_m (run_all (cl_item_stmts e)) (\<lambda>_.
      case bs58_decode E txn_id of
        None \<Rightarrow> raise_m ChangeLogEventMalformed
      | Some tx \<Rightarrow>
          bind_m (ignore_error (execute (audit_stmt e tx (instruction_from_str instruction)))) (\<lambda>_.
            if int (length (ce_path e)) - 1 = as_i64 (path_depth (ce_path e)) then
              bind_m (query StorageWriteError
                       (\<lambda>d. take 1 (filter (\<lambda>r. bf_tree r = ce_id e) (backfill_items_t d))))
                (\<lambda>rows. execute (backfill_stmt e slot (rows = [] \<and> ce_seq e > 1)))
            else return_m ()))"

definition save_changelog_event :: "ext \<Rightarrow> change_log_event \<Rightarrow> u64 \<Rightarrow> string \<Rightarrow> string \<Rightarrow> u64 handler" where
  "save_changelog_event E e slot txn_id instruction =
     bind_m (insert_change_log E e slot txn_id instruction) (\<lambda>_. return_m (ce_seq e))"

section \<open>Rows of the change log are last-writer-wins registers\<close>

lemma cl_key_update: "cl_key (if b then r\<lparr>cl_hash := h, cl_seq := q, cl_leaf_idx := l,
    cl_level := v\<rparr> else r) = cl_key r"
  by (simp add: cl_key_def)

lemma lookup_upsert_cl_row:
  "lookup cl_key k (upsert_cl_row new t) =
    (if cl_key new = k
     then (case lookup cl_key k t of None \<Rightarrow> Some new
           | Some r \<Rightarrow> if cl_seq new > cl_seq r then Some new else Some r)
     else lookup cl_key k t)"
proof -
  have "r\<lparr>cl_hash := cl_hash new, cl_seq := cl_seq new, cl_leaf_idx := cl_leaf_idx new,
        cl_level := cl_level new\<rparr> = new" if "cl_key r = cl_key new" for r
    using that by (simp add: cl_key_def)
  then show ?thesis
    unfolding upsert_cl_row_def
    by (subst lookup_upsert) (auto simp: cl_key_update dest: lookup_key split: option.splits)
qed

interpretation cl_row: lww_framed upsert_cl_row "lookup cl_key k" Some cl_seq
    "map_option cl_seq" acc_gt "\<lambda>_. True" "\<lambda>r. cl_key r = k" "\<lambda>_. True" for k
  by unfold_locales (auto simp: lookup_upsert_cl_row acc_gt_def split: option.splits)

section \<open>Failures\<close>

lemma effect_cl_items:
  "effect (map upsert_cl_item rs) d = d\<lparr>cl_items_t := fold upsert_cl_row rs (cl_items_t d)\<rparr>"
  by (induction rs arbitrary: d) (simp_all add: upsert_cl_item_def)

definition event_rows :: "change_log_event \<Rightarrow> cl_items list" where
  "event_rows e = map (\<lambda>(i, p). cl_item e i p) (enumerate 0 (ce_path e))"

lemma cl_item_stmts_rows: "cl_item_stmts e = map upsert_cl_item (event_rows e)"
  by (auto simp: cl_item_stmts_def event_rows_def)

lemma insert_change_log_ok:
  assumes "no_faults w" "bs58_decode E txn_id = Some tx"
  shows "\<exists>w'. insert_change_log E e slot txn_id ix w = (Inr (), w') \<and> no_faults w' \<and>
    w_sent w' = w_sent w \<and>
    w_db w' = (let d = snd (audit_stmt e tx (instruction_from_str ix))
                         (effect (cl_item_stmts e) (w_db w))
       in if int (length (ce_path e)) - 1 = as_i64 (path_depth (ce_path e))
          then snd (backfill_stmt e slot
                 (filter (\<lambda>r. bf_tree r = ce_id e) (backfill_items_t d) = [] \<and> ce_seq e > 1)) d
          else d)"
  using assms
  by (simp add: insert_change_log_def bind_m_def run_all_ok ignore_error_def execute_ok query_ok
      return_m_def Let_def)

text \<open>What a change log leaves of the tables: it never touches the assets.\<close>

lemma effect_cl_stmts_frame [frame_simps]:
  "asset_t (effect (cl_item_stmts e) d) = asset_t d"
  "asset_data_t (effect (cl_item_stmts e) d) = asset_data_t d"
  "asset_creators_t (effect (cl_item_stmts e) d) = asset_creators_t d"
  "asset_grouping_t (effect (cl_item_stmts e) d) = asset_grouping_t d"
  "asset_authority_t (effect (cl_item_stmts e) d) = asset_authority_t d"
  "cl_audits_t (effect (cl_item_stmts e) d) = cl_audits_t d"
  "backfill_items_t (effect (cl_item_stmts e) d) = backfill_items_t d"
  "db_now (effect (cl_item_stmts e) d) = db_now d"
  by (simp_all add: cl_item_stmts_rows effect_cl_items)

lemma effect_cl_stmts_items [simp]:
  "cl_items_t (effect (cl_item_stmts e) d) = fold upsert_cl_row (event_rows e) (cl_items_t d)"
  by (simp add: cl_item_stmts_rows effect_cl_items)

text \<open>The tables as \<open>insert_change_log\<close> can leave them, whatever the database does.\<close>

definition only_change_log :: "db \<Rightarrow> db \<Rightarrow> bool" where
  "only_change_log d d' =
    (asset_t d' = asset_t d \<and> asset_data_t d' = asset_data_t d \<and>
     asset_creators_t d' = asset_creators_t d \<and> asset_grouping_t d' = asset_grouping_t d \<and>
     asset_authority_t d' = asset_authority_t d \<and> tokens_t d' = tokens_t d \<and>
     token_accounts_t d' = token_accounts_t d \<and> attachments_t d' = attachments_t d \<and>
     db_now d' = db_now d)"

lemma insert_change_log_cases:
  assumes "insert_change_log E e slot txn_id ix w = (r, w')"
  obtains
    (path_failed) n err where "r = Inl err" "n < length (event_rows e)"
      "w_db w' = (w_db w)\<lparr>cl_items_t := fold upsert_cl_row (take n (event_rows e)) (cl_items_t (w_db w))\<rparr>"
  | (path_written) a b q where
      "w_db w' = (w_db w)\<lparr>cl_items_t := fold upsert_cl_row (event_rows e) (cl_items_t (w_db w)),
         cl_audits_t := a, backfill_items_t := backfill_items_t (w_db w) @ b, backfill_items_id_seq := q\<rparr>"
      "length b \<le> 1" "b \<noteq> [] \<longrightarrow> r = Inr ()" 
      "r = Inr () \<longrightarrow> int (length (ce_path e)) - 1 = as_i64 (path_depth (ce_path e)) \<longrightarrow> b \<noteq> []"
      "\<forall>x\<in>set b. bf_tree x = ce_id e \<and> bf_seq x = as_i64 (ce_seq e)"
proof -
  obtain r1 w1 where run: "run_all (cl_item_stmts e) w = (r1, w1)" by fastforce
  note R = run_all_result [OF run]
  show thesis
  proof (cases r1)
    case (Inl err)
    with assms run have "r = Inl err" "w' = w1" by (simp_all add: insert_change_log_def bind_m_def)
    moreover obtain n where "n < length (cl_item_stmts e)"
        "w_db w1 = effect (take n (cl_item_stmts e)) (w_db w)"
      using R Inl by auto
    ultimately show thesis
      by (intro path_failed [of err n]) (simp_all add: cl_item_stmts_rows take_map effect_cl_items)
  next
    case (Inr u)
    then have d1: "w_db w1 = (w_db w)\<lparr>cl_items_t := fold upsert_cl_row (event_rows e) (cl_items_t (w_db w))\<rparr>"
      using R by (simp add: cl_item_stmts_rows effect_cl_items)
    show thesis
    proof (cases "bs58_decode E txn_id")
      case None
      with Inr run assms have "r = Inl ChangeLogEventMalformed" "w' = w1"
        by (simp_all add: insert_change_log_def bind_m_def raise_m_def)
      with d1 show thesis
        by (intro path_written [where a = "cl_audits_t (w_db w)" and b = "[]"
            and q = "backfill_items_id_seq (w_db w)"]) simp_all
    next
      case (Some tx)
      with Inr run assms show thesis
        by (auto simp: insert_change_log_def bind_m_def return_m_def ignore_error_def
            execute_def query_def audit_stmt_def backfill_stmt_def d1
            intro!: path_written [where a = "cl_audits_t (w_db w')"
              and b = "drop (length (backfill_items_t (w_db w))) (backfill_items_t (w_db w'))"
              and q = "backfill_items_id_seq (w_db w')"]
            split: option.splits if_splits)
    qed
  qed
qed

text \<open>
  C7: The backfill queue only learns of an event whose whole path is stored. Whatever
  statements the database refuses, an event adds at most one row to \<open>backfill_items\<close>; a row is
  added only when the call succeeded and every node of the path went into \<open>cl_items\<close>; and a
  successful call on a non-empty path does add one. A path that was only partly written
  therefore leaves a gap that the backfiller sees.
\<close>

theorem backfill_row_iff_path_stored:
  assumes "insert_change_log E e slot txn_id ix w = (r, w')"
    and "ce_path e \<noteq> []" "length (ce_path e) < 2 ^ 63"
  shows "\<exists>b. backfill_items_t (w_db w') = backfill_items_t (w_db w) @ b \<and> length b \<le> 1 \<and>
    (b \<noteq> [] \<longleftrightarrow> r = Inr ()) \<and>
    (b \<noteq> [] \<longrightarrow> cl_items_t (w_db w') = fold upsert_cl_row (event_rows e) (cl_items_t (w_db w)) \<and>
      bf_tree (hd b) = ce_id e \<and> bf_seq (hd b) = as_i64 (ce_seq e))"
proof -
  have "unat (path_depth (ce_path e)) = length (ce_path e) - 1"
    using assms(2,3) by (cases "ce_path e") (simp_all add: path_depth_def unat_of_nat)
  then have depth: "int (length (ce_path e)) - 1 = as_i64 (path_depth (ce_path e))"
    using assms(2,3) by (simp add: as_i64_small of_nat_diff Suc_le_eq)
  from assms(1) show ?thesis
  proof (cases rule: insert_change_log_cases)
    case (path_failed n err)
    then show ?thesis by simp
  next
    case (path_written a b)
    with depth show ?thesis by (intro exI [of _ b]) auto
  qed
qed

theorem backfill_row_iff_path_stored_witness:
  "\<exists>b. backfill_items_t (w_db (snd (insert_change_log ext0 \<lparr>ce_id = [9], ce_path = [\<lparr>pn_node = [5], pn_index = 1\<rparr>],
      ce_seq = 1, ce_index = 0\<rparr> 7 ''tx'' ''Burn'' world0))) = backfill_items_t (w_db world0) @ b \<and> length b = 1"
proof -
  let ?e = "\<lparr>ce_id = [9], ce_path = [\<lparr>pn_node = [5], pn_index = 1\<rparr>], ce_seq = 1, ce_index = 0\<rparr>"
  let ?h = "insert_change_log ext0 ?e 7 ''tx'' ''Burn'' world0"
  have r: "fst ?h = Inr ()" by code_simp
  have h: "?h = (fst ?h, snd ?h)" by simp
  obtain b where "backfill_items_t (w_db (snd ?h)) = backfill_items_t (w_db world0) @ b"
    "length b \<le> 1" "b \<noteq> []"
    using backfill_row_iff_path_stored [OF h] r by auto
  then show ?thesis by (cases b) auto
qed

end
