(* ===== verification/Blockbuster.thy ===== *)
theory Blockbuster
  imports Change_Log
begin

text \<open>
  The parsers of \<open>blockbuster/src\<close>: ordering a transaction's instructions with their inner
  instructions (\<open>instruction.rs\<close>) and turning a Bubblegum instruction and the events its inner
  instructions log into a \<open>BubblegumInstruction\<close> (\<open>programs/bubblegum/mod.rs\<close>). Borsh
  deserialisation and program ids are parameters (the record \<open>borsh\<close>).
\<close>

section \<open>Instructions and their order\<close>

record compiled_instruction =
  ci_program_id_index :: u8
  ci_accounts :: "u8 list"
  ci_data :: bytes

record inner_instructions =
  ii_index :: u8
  ii_instructions :: "compiled_instruction list"

type_synonym ix_pair = "pubkey \<times> compiled_instruction"

record instruction_bundle =
  ib_txn_id :: string
  ib_program :: pubkey
  ib_instruction :: "compiled_instruction option"
  ib_inner_ix :: "ix_pair list option"
  ib_keys :: "pubkey list"
  ib_slot :: u64

definition hoist_known_programs :: "pubkey set \<Rightarrow> ix_pair list \<Rightarrow> (ix_pair \<times> ix_pair list option) list" where
  "hoist_known_programs programs ix_pairs =
     map (\<lambda>(index, pid, ci).
        ((pid, ci), Some (takeWhile (\<lambda>(inner_pid, _). inner_pid \<noteq> pid) (drop (index + 1) ix_pairs))))
       (filter (\<lambda>(_, pid, _). pid \<in> programs) (enumerate 0 ix_pairs))"

text \<open>\<open>None\<close> is the panic of indexing \<open>account_keys\<close> out of bounds.\<close>

fun pair_with_program :: "pubkey list \<Rightarrow> compiled_instruction list \<Rightarrow> ix_pair list option" where
  "pair_with_program account_keys [] = Some []"
| "pair_with_program account_keys (cix # rest) =
     (if unat (ci_program_id_index cix) < length account_keys then
        map_option ((#) (account_keys ! unat (ci_program_id_index cix), cix))
          (pair_with_program account_keys rest)
      else None)"

definition inner_for :: "inner_instructions list \<Rightarrow> nat \<Rightarrow> compiled_instruction list" where
  "inner_for metas outer =
     concat (map ii_instructions (filter (\<lambda>ix. ii_index ix = of_nat outer) metas))"

fun order_from :: "pubkey set \<Rightarrow> pubkey list \<Rightarrow> nat \<Rightarrow> compiled_instruction list \<Rightarrow>
    inner_instructions list \<Rightarrow> (ix_pair \<times> ix_pair list option) list option" where
  "order_from programs account_keys outer [] metas = Some []"
| "order_from programs account_keys outer (m # ms) metas =
    (case pair_with_program account_keys (inner_for metas outer) of
       None \<Rightarrow> None
     | Some inner \<Rightarrow>
         (let k = unat (ci_program_id_index m);
              own = (if k < length account_keys \<and> account_keys ! k \<in> programs
                     then [((account_keys ! k, m), Some inner)] else [])
          in map_option (\<lambda>rest. hoist_known_programs programs inner @ own @ rest)
               (order_from programs account_keys (Suc outer) ms metas)))"

definition order_instructions :: "pubkey set \<Rightarrow> pubkey list \<Rightarrow> compiled_instruction list \<Rightarrow>
    inner_instructions list \<Rightarrow> (ix_pair \<times> ix_pair list option) list option" where
  "order_instructions programs account_keys message_instructions meta_inner_instructions =
     order_from programs account_keys 0 message_instructions meta_inner_instructions"

section \<open>Bubblegum's types\<close>

datatype instruction_name =
    N_Unknown | N_MintV1 | N_MintToCollectionV1 | N_Redeem | N_CancelRedeem | N_Transfer
  | N_Delegate | N_DecompressV1 | N_Compress | N_Burn | N_CreateTree | N_VerifyCreator
  | N_UnverifyCreator | N_VerifyCollection | N_UnverifyCollection | N_SetAndVerifyCollection
  | N_SetDecompressibleState | N_UpdateMetadata | N_BurnV2 | N_CollectV2 | N_CreateTreeV2
  | N_DelegateAndFreezeV2 | N_DelegateV2 | N_FreezeV2 | N_MintV2 | N_SetCollectionV2
  | N_SetNonTransferableV2 | N_ThawAndRevokeV2 | N_ThawV2 | N_TransferV2
  | N_UnverifyCreatorV2 | N_UpdateAssetDataV2 | N_UpdateMetadataV2 | N_VerifyCreatorV2

record collection =
  co_key :: pubkey
  co_verified :: bool

record creator =
  cc_address :: pubkey
  cc_verified :: bool
  cc_share :: u8

record metadata_args =
  ma_name :: string
  ma_symbol :: string
  ma_uri :: string
  ma_seller_fee_basis_points :: u16
  ma_primary_sale_happened :: bool
  ma_is_mutable :: bool
  ma_edition_nonce :: "u8 option"
  ma_token_standard :: "token_standard option"
  ma_collection :: "collection option"
  ma_uses :: "uses option"
  ma_creators :: "creator list"

record update_args =
  ua_name :: "string option"
  ua_symbol :: "string option"
  ua_uri :: "string option"
  ua_creators :: "creator list option"
  ua_seller_fee_basis_points :: "u16 option"
  ua_primary_sale_happened :: "bool option"
  ua_is_mutable :: "bool option"

datatype leaf_schema =
    LeafSchemaV1 (ls_id: pubkey) (ls_owner: pubkey) (ls_delegate: pubkey) (ls_nonce: u64)
      (ls_data_hash: hash) (ls_creator_hash: hash)
  | LeafSchemaV2 (ls_id: pubkey) (ls_owner: pubkey) (ls_delegate: pubkey) (ls_nonce: u64)
      (ls_data_hash: hash) (ls_creator_hash: hash) (ls_collection_hash: hash)
      (ls_asset_data_hash: hash) (ls_flags: u8)

datatype version = Version_V1 | Version_V2

record leaf_schema_event =
  le_version :: version
  le_schema :: leaf_schema
  le_leaf_hash :: hash

datatype payload =
    P_Unknown
  | P_Mint metadata_args pubkey pubkey
  | P_Decompress metadata_args
  | P_CancelRedeem pubkey
  | P_CreatorVerification metadata_args pubkey bool
  | P_CollectionVerification pubkey bool
  | P_UpdateMetadata metadata_args update_args pubkey

record bubblegum_instruction =
  bi_instruction :: instruction_name
  bi_tree_update :: "change_log_event option"
  bi_leaf_update :: "leaf_schema_event option"
  bi_payload :: "payload option"

definition bubblegum_instruction_new :: "instruction_name \<Rightarrow> bubblegum_instruction" where
  "bubblegum_instruction_new ix =
     \<lparr>bi_instruction = ix, bi_tree_update = None, bi_leaf_update = None, bi_payload = None\<rparr>"

section \<open>The Bubblegum parser\<close>

datatype blockbuster_error =
    InstructionParsingError
  | IOError string
  | BB_DeserializationError
  | MissingBubblegumEventData
  | InvalidDataLength
  | UnknownAccountDiscriminator
  | InvalidAccountType
  | FailedToDeserializeToMasterEdition
  | UninitializedAccount
  | AccountTypeNotImplemented
  | InstructionTypeNotImplemented
  | CustomDeserializationError string

type_synonym 'a bb_result = "blockbuster_error + 'a"

datatype account_compression_event =
    ChangeLog change_log_event
  | ApplicationData bytes

datatype bubblegum_event_type = Uninitialized | LeafSchemaEvent

text \<open>
  Parameters: borsh's \<open>try_from_slice\<close> (an I/O error message or a value) for the types the
  parser reads, with the conversions from the V2 metadata applied, and the program ids.
\<close>

record borsh =
  get_instruction_type :: "bytes \<Rightarrow> instruction_name"
  spl_noop_id :: pubkey
  mpl_noop_id :: pubkey
  bgum_id :: pubkey
  de_event :: "bytes \<Rightarrow> string + account_compression_event"
  de_event_type :: "bytes \<Rightarrow> string + bubblegum_event_type"
  de_leaf_schema_event :: "bytes \<Rightarrow> string + leaf_schema_event"
  de_metadata_args :: "bytes \<Rightarrow> string + metadata_args"
  de_verify_creator :: "bytes \<Rightarrow> string + metadata_args"
  de_unverify_creator :: "bytes \<Rightarrow> string + metadata_args"
  de_update_metadata :: "bytes \<Rightarrow> string + metadata_args \<times> update_args"
  de_mint_v2 :: "bytes \<Rightarrow> string + metadata_args"
  de_verify_creator_v2 :: "bytes \<Rightarrow> string + metadata_args"
  de_unverify_creator_v2 :: "bytes \<Rightarrow> string + metadata_args"
  de_update_metadata_v2 :: "bytes \<Rightarrow> string + metadata_args \<times> update_args"

text \<open>\<open>?\<close> on an I/O error, and \<open>keys.get(n).ok_or(InstructionParsingError)?\<close>.\<close>

definition io :: "string + 'a \<Rightarrow> ('a \<Rightarrow> 'b bb_result) \<Rightarrow> 'b bb_result" where
  "io r f = (case r of Inl e \<Rightarrow> Inl (IOError e) | Inr x \<Rightarrow> f x)"

definition key_at :: "pubkey list \<Rightarrow> nat \<Rightarrow> (pubkey \<Rightarrow> 'b bb_result) \<Rightarrow> 'b bb_result" where
  "key_at keys n f = (if n < length keys then f (keys ! n) else Inl InstructionParsingError)"

definition get_bubblegum_leaf_schema_event :: "borsh \<Rightarrow> bytes \<Rightarrow> leaf_schema_event bb_result" where
  "get_bubblegum_leaf_schema_event B app_data =
    (if app_data = [] then Inl BB_DeserializationError
     else io (de_event_type B (take 1 app_data)) (\<lambda>t.
       case t of Uninitialized \<Rightarrow> Inl MissingBubblegumEventData
       | LeafSchemaEvent \<Rightarrow> io (de_leaf_schema_event B app_data) Inr))"

definition build_creator_verification_payload ::
    "borsh \<Rightarrow> pubkey list \<Rightarrow> bytes \<Rightarrow> bool \<Rightarrow> payload bb_result" where
  "build_creator_verification_payload B keys ix_data verify =
    io (if verify then de_verify_creator B ix_data else de_unverify_creator B ix_data) (\<lambda>metadata.
      key_at keys 5 (\<lambda>creator. Inr (P_CreatorVerification metadata creator verify)))"

definition build_collection_verification_payload :: "pubkey list \<Rightarrow> bool \<Rightarrow> payload bb_result" where
  "build_collection_verification_payload keys verify =
    key_at keys 8 (\<lambda>collection. Inr (P_CollectionVerification collection verify))"

definition build_mint_v1_payload :: "borsh \<Rightarrow> pubkey list \<Rightarrow> bytes \<Rightarrow> bool \<Rightarrow> payload bb_result" where
  "build_mint_v1_payload B keys ix_data set_verify =
    io (de_metadata_args B ix_data) (\<lambda>args0.
      let args = (if set_verify
                  then args0\<lparr>ma_collection := map_option (\<lambda>c. c\<lparr>co_verified := True\<rparr>) (ma_collection args0)\<rparr>
                  else args0)
      in key_at keys 0 (\<lambda>authority. key_at keys 3 (\<lambda>tree_id.
           Inr (P_Mint args authority tree_id))))"

definition build_update_metadata_payload :: "borsh \<Rightarrow> pubkey list \<Rightarrow> bytes \<Rightarrow> payload bb_result" where
  "build_update_metadata_payload B keys ix_data =
    io (de_update_metadata B ix_data) (\<lambda>(current_metadata, update).
      key_at keys 8 (\<lambda>tree_id. Inr (P_UpdateMetadata current_metadata update tree_id)))"

definition build_mint_v2_payload :: "borsh \<Rightarrow> pubkey list \<Rightarrow> bytes \<Rightarrow> payload bb_result" where
  "build_mint_v2_payload B keys ix_data =
    io (de_mint_v2 B ix_data) (\<lambda>args.
      key_at keys 0 (\<lambda>authority. key_at keys 6 (\<lambda>tree_id. Inr (P_Mint args authority tree_id))))"

definition build_set_collection_v2_payload :: "pubkey list \<Rightarrow> payload bb_result" where
  "build_set_collection_v2_payload keys =
    key_at keys 8 (\<lambda>collection. Inr (P_CollectionVerification collection True))"

definition build_creator_verification_v2_payload ::
    "borsh \<Rightarrow> pubkey list \<Rightarrow> bytes \<Rightarrow> bool \<Rightarrow> payload bb_result" where
  "build_creator_verification_v2_payload B keys ix_data verify =
    io (if verify then de_verify_creator_v2 B ix_data else de_unverify_creator_v2 B ix_data)
      (\<lambda>metadata. key_at keys 1 (\<lambda>payer. key_at keys 2 (\<lambda>creator.
        Inr (P_CreatorVerification metadata (if creator = bgum_id B then payer else creator) verify))))"

definition build_update_metadata_v2_payload :: "borsh \<Rightarrow> pubkey list \<Rightarrow> bytes \<Rightarrow> payload bb_result" where
  "build_update_metadata_v2_payload B keys ix_data =
    io (de_update_metadata_v2 B ix_data) (\<lambda>(current_metadata, update).
      key_at keys 5 (\<lambda>tree_id. Inr (P_UpdateMetadata current_metadata update tree_id)))"

text \<open>The loop over the inner instructions: a noop's data is an event, later events win.\<close>

fun collect_events :: "borsh \<Rightarrow> ix_pair list \<Rightarrow> bubblegum_instruction \<Rightarrow> bubblegum_instruction bb_result" where
  "collect_events B [] b = Inr b"
| "collect_events B ((pid, cix) # ixs) b =
    (if (pid = spl_noop_id B \<or> pid = mpl_noop_id B) \<and> ci_data cix \<noteq> [] then
       (case de_event B (ci_data cix) of
          Inr (ChangeLog e) \<Rightarrow> collect_events B ixs (b\<lparr>bi_tree_update := Some e\<rparr>)
        | Inr (ApplicationData app_data) \<Rightarrow>
            (case get_bubblegum_leaf_schema_event B app_data of
               Inl err \<Rightarrow> Inl err
             | Inr le \<Rightarrow> collect_events B ixs (b\<lparr>bi_leaf_update := Some le\<rparr>))
        | Inl _ \<Rightarrow> collect_events B ixs b)
     else collect_events B ixs b)"

definition set_payload :: "payload bb_result \<Rightarrow> payload option bb_result" where
  "set_payload r = map_sum id Some r"

definition build_payload :: "borsh \<Rightarrow> instruction_name \<Rightarrow> pubkey list \<Rightarrow> bytes \<Rightarrow>
    payload option bb_result" where
  "build_payload B ix keys ix_data =
    (case ix of
       N_MintV1 \<Rightarrow> set_payload (build_mint_v1_payload B keys ix_data False)
     | N_MintToCollectionV1 \<Rightarrow> set_payload (build_mint_v1_payload B keys ix_data True)
     | N_DecompressV1 \<Rightarrow> set_payload (io (de_metadata_args B ix_data) (\<lambda>args. Inr (P_Decompress args)))
     | N_CancelRedeem \<Rightarrow> set_payload
         (if length ix_data = 32 then Inr (P_CancelRedeem ix_data) else Inl InstructionParsingError)
     | N_VerifyCreator \<Rightarrow> set_payload (build_creator_verification_payload B keys ix_data True)
     | N_UnverifyCreator \<Rightarrow> set_payload (build_creator_verification_payload B keys ix_data False)
     | N_VerifyCollection \<Rightarrow> set_payload (build_collection_verification_payload keys True)
     | N_SetAndVerifyCollection \<Rightarrow> set_payload (build_collection_verification_payload keys True)
     | N_UnverifyCollection \<Rightarrow> set_payload (build_collection_verification_payload keys False)
     | N_UpdateMetadata \<Rightarrow> set_payload (build_update_metadata_payload B keys ix_data)
     | N_MintV2 \<Rightarrow> set_payload (build_mint_v2_payload B keys ix_data)
     | N_SetCollectionV2 \<Rightarrow> set_payload (build_set_collection_v2_payload keys)
     | N_VerifyCreatorV2 \<Rightarrow> set_payload (build_creator_verification_v2_payload B keys ix_data True)
     | N_UnverifyCreatorV2 \<Rightarrow> set_payload (build_creator_verification_v2_payload B keys ix_data False)
     | N_UpdateMetadataV2 \<Rightarrow> set_payload (build_update_metadata_v2_payload B keys ix_data)
     | _ \<Rightarrow> Inr None)"

definition handle_instruction :: "borsh \<Rightarrow> instruction_bundle \<Rightarrow> bubblegum_instruction bb_result" where
  "handle_instruction B bundle =
    (case ib_instruction bundle of
       None \<Rightarrow> Inl BB_DeserializationError
     | Some cix \<Rightarrow>
         (let ix_type = get_instruction_type B (ci_data cix) in
          case collect_events B (case ib_inner_ix bundle of None \<Rightarrow> [] | Some ixs \<Rightarrow> ixs)
                 (bubblegum_instruction_new ix_type) of
            Inl e \<Rightarrow> Inl e
          | Inr b \<Rightarrow>
              (let ix_data = drop 8 (ci_data cix) in
               if length (ci_data cix) \<ge> 8 \<and> ix_data \<noteq> [] then
                 (case build_payload B (bi_instruction b) (ib_keys bundle) ix_data of
                    Inl e \<Rightarrow> Inl e
                  | Inr p \<Rightarrow> Inr (b\<lparr>bi_payload := p\<rparr>))
               else Inr b)))"

end
