(* ===== verification/Bubblegum_Db.thy ===== *)
theory Bubblegum_Db
  imports Blockbuster
begin

text \<open>
  The statements of \<open>program_transformers/src/bubblegum/db.rs\<close> on the asset tables: partial
  upserts, each with a guard on the sequence number that version stamps the columns it
  writes. A statement is the pair of its error mapping and its effect on the tables; the
  \<open>WHERE\<close> clauses are transcribed in SQL's three-valued logic, with \<open>r\<close> the stored row and
  the excluded row's values in place.
\<close>

section \<open>Upserts on the asset table\<close>

definition upsert_asset :: "(asset \<Rightarrow> asset) \<Rightarrow> (asset \<Rightarrow> cond) \<Rightarrow> (asset \<Rightarrow> asset) \<Rightarrow>
    bytes \<Rightarrow> db \<Rightarrow> db" where
  "upsert_asset ins guard upd i d =
     d\<lparr>asset_t := upsert a_id (ins (asset_default (db_now d) i))
                    (\<lambda>r. if holds (guard r) then upd r else r) (asset_t d)\<rparr>"

definition upsert_asset_with_leaf_info ::
    "ext \<Rightarrow> bytes \<Rightarrow> i64 \<Rightarrow> bytes \<Rightarrow> bytes \<Rightarrow> hash \<Rightarrow> hash \<Rightarrow> hash option \<Rightarrow> hash option \<Rightarrow>
     u8 option \<Rightarrow> i64 \<Rightarrow> stmt" where
  "upsert_asset_with_leaf_info E i nonce tree_id leaf data_hash creator_hash collection_hash
      asset_data_hash flags seq =
    (let b58 = (\<lambda>h. str_trim (bs58_encode E h));
         base = (\<lambda>r. r\<lparr>a_nonce := Some nonce, a_tree_id := Some tree_id, a_leaf := Some leaf,
                     a_data_hash := Some (b58 data_hash),
                     a_creator_hash := Some (b58 creator_hash), a_leaf_seq := Some seq\<rparr>);
         cols = (case flags of
            Some f \<Rightarrow> (\<lambda>r. (base r)\<lparr>a_collection_hash := map_option b58 collection_hash,
                a_asset_data_hash := map_option b58 asset_data_hash,
                a_bubblegum_flags := Some (uint f),
                a_non_transferable := Some (flags_non_transferable E f),
                a_frozen := flags_asset_lvl_frozen E f \<or> flags_permanent_lvl_frozen E f\<rparr>)
          | None \<Rightarrow> (\<lambda>r. (base r)\<lparr>a_frozen := False\<rparr>))
     in (StorageWriteError,
         upsert_asset cols
           (\<lambda>r. sql_and (sql_or (sql_cmp (\<noteq>) (a_seq r) (Some 0)) (is_null (a_seq r)))
                  (sql_or (sql_cmp (\<ge>) (Some seq) (a_leaf_seq r)) (is_null (a_leaf_seq r))))
           cols i))"

definition upsert_asset_with_owner_and_delegate_info ::
    "bytes \<Rightarrow> bytes \<Rightarrow> bytes option \<Rightarrow> i64 \<Rightarrow> stmt" where
  "upsert_asset_with_owner_and_delegate_info i owner delegate seq =
    (let cols = (\<lambda>r. r\<lparr>a_owner := Some owner, a_delegate := delegate,
                     a_owner_delegate_seq := Some seq\<rparr>)
     in (StorageWriteError,
         upsert_asset cols
           (\<lambda>r. sql_and (sql_or (sql_cmp (\<noteq>) (a_seq r) (Some 0)) (is_null (a_seq r)))
                  (sql_or (sql_cmp (\<ge>) (Some seq) (a_owner_delegate_seq r))
                          (is_null (a_owner_delegate_seq r))))
           cols i))"

definition upsert_asset_with_compression_info ::
    "bytes \<Rightarrow> bool \<Rightarrow> bool \<Rightarrow> u64 \<Rightarrow> bytes option \<Rightarrow> stmt" where
  "upsert_asset_with_compression_info i compressed compressible supply supply_mint =
    (let cols = (\<lambda>r. r\<lparr>a_compressed := compressed, a_compressible := compressible,
                     a_supply := uint supply, a_supply_mint := supply_mint\<rparr>)
     in (StorageWriteError,
         upsert_asset cols
           (\<lambda>r. sql_or (sql_cmp (\<noteq>) (a_seq r) (Some 0)) (is_null (a_seq r)))
           cols i))"

definition upsert_asset_with_seq :: "bytes \<Rightarrow> i64 \<Rightarrow> stmt" where
  "upsert_asset_with_seq i seq =
    (let cols = (\<lambda>r. r\<lparr>a_seq := Some seq\<rparr>)
     in (StorageWriteError,
         upsert_asset cols
           (\<lambda>r. sql_or (sql_and (sql_cmp (\<noteq>) (a_seq r) (Some 0))
                                (sql_cmp (\<ge>) (Some seq) (a_seq r)))
                  (is_null (a_seq r)))
           cols i))"

text \<open>
  \<open>upsert_asset_base_info\<close> also raises \<open>slot_updated\<close>, but only on the update path: the
  inserted row leaves that column to its default.
\<close>

definition greatest_slot :: "i64 option \<Rightarrow> i64 option \<Rightarrow> i64 option" where
  "greatest_slot cur excl =
     Some (max (case cur of None \<Rightarrow> 0 | Some s \<Rightarrow> s) (case excl of None \<Rightarrow> 0 | Some s \<Rightarrow> s))"

definition upsert_asset_base_info ::
    "bytes \<Rightarrow> owner_type \<Rightarrow> specification_versions \<Rightarrow> specification_asset_class \<Rightarrow>
     royalty_target_type \<Rightarrow> bytes option \<Rightarrow> int \<Rightarrow> i64 \<Rightarrow> i64 \<Rightarrow> stmt" where
  "upsert_asset_base_info i owner_type specification_version specification_asset_class
      royalty_target_type royalty_target royalty_amount slot_updated seq =
    (let cols = (\<lambda>r. r\<lparr>a_owner_type := owner_type,
            a_specification_version := Some specification_version,
            a_specification_asset_class := Some specification_asset_class,
            a_royalty_target_type := royalty_target_type,
            a_royalty_target := royalty_target, a_royalty_amount := royalty_amount,
            a_asset_data := Some i, a_slot_updated_cnft_transaction := Some slot_updated,
            a_base_info_seq := Some seq\<rparr>)
     in (AssetIndexError,
         upsert_asset cols
           (\<lambda>r. sql_and (sql_or (sql_cmp (\<noteq>) (a_seq r) (Some 0)) (is_null (a_seq r)))
                  (sql_or (sql_cmp (\<ge>) (Some seq) (a_base_info_seq r))
                          (is_null (a_base_info_seq r))))
           (\<lambda>r. (cols r)\<lparr>a_slot_updated := greatest_slot (a_slot_updated r) (Some slot_updated)\<rparr>)
           i))"

text \<open>The statement of \<open>burn.rs\<close>: no guard.\<close>

definition upsert_asset_burnt :: "bytes \<Rightarrow> stmt" where
  "upsert_asset_burnt i =
    (StorageWriteError,
     upsert_asset (\<lambda>r. r\<lparr>a_burnt := True\<rparr>) (\<lambda>_. Some True) (\<lambda>r. r\<lparr>a_burnt := True\<rparr>) i)"

section \<open>Upserts on the tables beside it\<close>

definition collection_group :: string where
  "collection_group = ''collection''"

text \<open>
  The partial unique index on \<open>(asset_id, group_key) WHERE group_key = 'collection'\<close> makes the
  asset's collection row the conflict target: other rows of the table never conflict.
\<close>

definition gr_collection_key :: "asset_grouping \<Rightarrow> bytes option" where
  "gr_collection_key r =
     (if gr_group_key r = collection_group then Some (gr_asset_id r) else None)"

definition upsert_collection_info ::
    "ext \<Rightarrow> bytes \<Rightarrow> collection option \<Rightarrow> i64 \<Rightarrow> i64 \<Rightarrow> stmt" where
  "upsert_collection_info E asset_id coll slot_updated seq =
    (let (group_value, verified) =
           (case coll of Some c \<Rightarrow> (Some (bs58_encode E (co_key c)), co_verified c)
                       | None \<Rightarrow> (None, False));
         new = \<lparr>gr_asset_id = asset_id, gr_group_key = collection_group,
                gr_group_value = group_value, gr_seq = None,
                gr_slot_updated = Some slot_updated, gr_verified = verified,
                gr_group_info_seq = Some seq\<rparr>
     in (StorageWriteError,
         \<lambda>d. d\<lparr>asset_grouping_t := upsert gr_collection_key new
           (\<lambda>r. if holds (sql_or (sql_and (sql_cmp (\<noteq>) (gr_group_info_seq r) (Some 0))
                                          (sql_cmp (\<ge>) (Some seq) (gr_group_info_seq r)))
                                (is_null (gr_group_info_seq r)))
                then r\<lparr>gr_group_value := group_value, gr_verified := verified,
                       gr_slot_updated := Some slot_updated, gr_group_info_seq := Some seq\<rparr>
                else r)
           (asset_grouping_t d)\<rparr>))"

definition upsert_asset_data ::
    "bytes \<Rightarrow> chain_mutability \<Rightarrow> json \<Rightarrow> string \<Rightarrow> mutability \<Rightarrow> json \<Rightarrow> i64 \<Rightarrow> bool option \<Rightarrow>
     bytes \<Rightarrow> bytes \<Rightarrow> i64 \<Rightarrow> stmt" where
  "upsert_asset_data i chain_data_mutability chain_data metadata_url metadata_mutability
      metadata slot_updated reindex raw_name raw_symbol seq =
    (let new = \<lparr>ad_id = i, ad_chain_data_mutability = chain_data_mutability,
                ad_chain_data = chain_data, ad_metadata_url = metadata_url,
                ad_metadata_mutability = metadata_mutability, ad_metadata = metadata,
                ad_slot_updated = slot_updated, ad_reindex = reindex,
                ad_raw_name = Some raw_name, ad_raw_symbol = Some raw_symbol,
                ad_base_info_seq = Some seq\<rparr>
     in (StorageWriteError,
         \<lambda>d. d\<lparr>asset_data_t := upsert ad_id new
           (\<lambda>r. if holds (sql_or (sql_and (sql_cmp (\<noteq>) (ad_base_info_seq r) (Some 0))
                                          (sql_cmp (\<ge>) (Some seq) (ad_base_info_seq r)))
                                (is_null (ad_base_info_seq r)))
                then r\<lparr>ad_chain_data_mutability := chain_data_mutability,
                       ad_chain_data := chain_data, ad_metadata_url := metadata_url,
                       ad_metadata_mutability := metadata_mutability,
                       ad_slot_updated := slot_updated, ad_reindex := reindex,
                       ad_raw_name := Some raw_name, ad_raw_symbol := Some raw_symbol,
                       ad_base_info_seq := Some seq\<rparr>
                else r)
           (asset_data_t d)\<rparr>))"

definition creator_rows :: "bytes \<Rightarrow> creator list \<Rightarrow> i64 \<Rightarrow> i64 \<Rightarrow> asset_creators list" where
  "creator_rows i creators slot_updated seq =
    (if creators = [] then
       [\<lparr>cr_asset_id = i, cr_creator = [], cr_share = 100, cr_verified = False,
         cr_seq = Some seq, cr_slot_updated = Some slot_updated, cr_position = 0\<rparr>]
     else
       map (\<lambda>(p, c). \<lparr>cr_asset_id = i, cr_creator = cc_address c, cr_share = uint (cc_share c),
              cr_verified = cc_verified c, cr_seq = Some seq,
              cr_slot_updated = Some slot_updated,
              cr_position = sint (of_nat p :: 16 word)\<rparr>)
         (enumerate 0 creators))"

definition upsert_creator_row :: "asset_creators \<Rightarrow> asset_creators list \<Rightarrow> asset_creators list" where
  "upsert_creator_row new t =
     upsert cr_key new
       (\<lambda>r. if holds (sql_or (sql_and (sql_cmp (\<noteq>) (cr_seq r) (Some 0))
                                      (sql_cmp (\<ge>) (cr_seq new) (cr_seq r)))
                            (is_null (cr_seq r)))
            then r\<lparr>cr_creator := cr_creator new, cr_share := cr_share new,
                   cr_verified := cr_verified new, cr_seq := cr_seq new,
                   cr_slot_updated := cr_slot_updated new\<rparr>
            else r) t"

definition upsert_asset_creators :: "bytes \<Rightarrow> creator list \<Rightarrow> i64 \<Rightarrow> i64 \<Rightarrow> stmt" where
  "upsert_asset_creators i creators slot_updated seq =
    (StorageWriteError,
     \<lambda>d. d\<lparr>asset_creators_t :=
       fold upsert_creator_row (creator_rows i creators slot_updated seq) (asset_creators_t d)\<rparr>)"

text \<open>\<open>ON CONFLICT (asset_id) DO NOTHING\<close>.\<close>

definition upsert_asset_authority :: "bytes \<Rightarrow> bytes \<Rightarrow> i64 \<Rightarrow> i64 \<Rightarrow> stmt" where
  "upsert_asset_authority asset_id authority slot_updated seq =
    (AssetIndexError,
     \<lambda>d. d\<lparr>asset_authority_t := upsert au_asset_id
       \<lparr>au_asset_id = asset_id, au_scopes = None, au_authority = authority, au_seq = seq,
        au_slot_updated = slot_updated\<rparr> (\<lambda>r. r) (asset_authority_t d)\<rparr>)"

section \<open>What each statement does to the row it names\<close>

lemma asset_row_upsert:
  assumes "a_id (ins (asset_default (db_now d) i)) = i" "\<And>r. a_id (upd r) = a_id r"
  shows "asset_row j (upsert_asset ins guard upd i d) =
    (if j = i then Some (case asset_row i d of None \<Rightarrow> ins (asset_default (db_now d) i)
                         | Some r \<Rightarrow> if holds (guard r) then upd r else r)
     else asset_row j d)"
  using assms by (simp add: upsert_asset_def lookup_upsert)

lemma upsert_asset_frame [frame_simps]:
  "asset_data_t (upsert_asset ins g u i d) = asset_data_t d"
  "asset_creators_t (upsert_asset ins g u i d) = asset_creators_t d"
  "asset_grouping_t (upsert_asset ins g u i d) = asset_grouping_t d"
  "asset_authority_t (upsert_asset ins g u i d) = asset_authority_t d"
  "cl_items_t (upsert_asset ins g u i d) = cl_items_t d"
  "cl_audits_t (upsert_asset ins g u i d) = cl_audits_t d"
  "backfill_items_t (upsert_asset ins g u i d) = backfill_items_t d"
  "tokens_t (upsert_asset ins g u i d) = tokens_t d"
  "token_accounts_t (upsert_asset ins g u i d) = token_accounts_t d"
  "attachments_t (upsert_asset ins g u i d) = attachments_t d"
  "db_now (upsert_asset ins g u i d) = db_now d"
  by (simp_all add: upsert_asset_def)

lemmas asset_stmt_defs =
  upsert_asset_with_leaf_info_def upsert_asset_with_owner_and_delegate_info_def
  upsert_asset_with_compression_info_def upsert_asset_with_seq_def
  upsert_asset_base_info_def upsert_asset_burnt_def

lemmas side_stmt_defs =
  upsert_collection_info_def upsert_asset_data_def upsert_asset_creators_def
  upsert_asset_authority_def

text \<open>
  The row as a reader of single columns sees it: a missing row counts as the row of defaults
  that the first insert would start from. On it, an insert and an update that writes the
  same columns are the same function.
\<close>

definition asset_cur :: "bytes \<Rightarrow> db \<Rightarrow> asset" where
  "asset_cur i d = (case asset_row i d of None \<Rightarrow> asset_default (db_now d) i | Some r \<Rightarrow> r)"

lemma asset_cur_id: "a_id (asset_cur i d) = i"
  by (auto simp: asset_cur_def dest: lookup_key split: option.splits)

lemma asset_cur_other_tables:
  "asset_t d' = asset_t d \<Longrightarrow> db_now d' = db_now d \<Longrightarrow> asset_cur i d' = asset_cur i d"
  by (simp add: asset_cur_def cong: option.case_cong)

lemma asset_cur_upsert:
  assumes "\<And>r. a_id (cols r) = a_id r" and "holds (guard (asset_default (db_now d) i))"
  shows "asset_cur j (upsert_asset cols guard cols i d) =
    (if j = i \<and> holds (guard (asset_cur i d)) then cols (asset_cur i d) else asset_cur j d)"
  using assms
  by (auto simp: asset_cur_def asset_row_upsert upsert_asset_frame split: option.splits)

text \<open>Not decompressed: after decompression the account handlers store \<open>seq = 0\<close>.\<close>

definition alive :: "asset \<Rightarrow> bool" where
  "alive r = (a_seq r \<noteq> Some 0)"

lemma default_alive [simp]: "a_seq (asset_default n i) \<noteq> Some 0"
  by (simp add: asset_default_def)

lemma default_accepts [simp]:
  "acc_ge (a_seq (asset_default n i)) m" "acc_ge (a_leaf_seq (asset_default n i)) m"
  "acc_ge (a_owner_delegate_seq (asset_default n i)) m"
  "acc_ge (a_base_info_seq (asset_default n i)) m" "alive (asset_default n i)"
  by (simp_all add: asset_default_def alive_def)

definition leaf_cols ::
    "ext \<Rightarrow> i64 \<Rightarrow> bytes \<Rightarrow> bytes \<Rightarrow> hash \<Rightarrow> hash \<Rightarrow> hash option \<Rightarrow> hash option \<Rightarrow> u8 option \<Rightarrow>
     i64 \<Rightarrow> asset \<Rightarrow> asset" where
  "leaf_cols E nonce tree_id leaf data_hash creator_hash collection_hash asset_data_hash
      flags seq r =
    (let b58 = (\<lambda>h. str_trim (bs58_encode E h));
         r' = r\<lparr>a_nonce := Some nonce, a_tree_id := Some tree_id, a_leaf := Some leaf,
                a_data_hash := Some (b58 data_hash), a_creator_hash := Some (b58 creator_hash),
                a_leaf_seq := Some seq\<rparr>
     in case flags of
          Some f \<Rightarrow> r'\<lparr>a_collection_hash := map_option b58 collection_hash,
              a_asset_data_hash := map_option b58 asset_data_hash,
              a_bubblegum_flags := Some (uint f),
              a_non_transferable := Some (flags_non_transferable E f),
              a_frozen := flags_asset_lvl_frozen E f \<or> flags_permanent_lvl_frozen E f\<rparr>
        | None \<Rightarrow> r'\<lparr>a_frozen := False\<rparr>)"

lemma asset_cur_leaf_info [upsert_simps]:
  "asset_cur j (snd (upsert_asset_with_leaf_info E i nonce tree leaf dh ch coh adh fl seq) d) =
    (if j = i \<and> alive (asset_cur i d) \<and> acc_ge (a_leaf_seq (asset_cur i d)) seq
     then leaf_cols E nonce tree leaf dh ch coh adh fl seq (asset_cur i d)
     else asset_cur j d)"
  by (cases fl) (simp_all add: upsert_asset_with_leaf_info_def Let_def asset_cur_upsert
      leaf_cols_def alive_def)

lemma asset_cur_owner [upsert_simps]:
  "asset_cur j (snd (upsert_asset_with_owner_and_delegate_info i ow de seq) d) =
    (if j = i \<and> alive (asset_cur i d) \<and> acc_ge (a_owner_delegate_seq (asset_cur i d)) seq
     then (asset_cur i d)\<lparr>a_owner := Some ow, a_delegate := de, a_owner_delegate_seq := Some seq\<rparr>
     else asset_cur j d)"
  by (simp add: upsert_asset_with_owner_and_delegate_info_def Let_def asset_cur_upsert alive_def)

lemma asset_cur_compression [upsert_simps]:
  "asset_cur j (snd (upsert_asset_with_compression_info i c1 c2 su sm) d) =
    (if j = i \<and> alive (asset_cur i d)
     then (asset_cur i d)\<lparr>a_compressed := c1, a_compressible := c2, a_supply := uint su,
            a_supply_mint := sm\<rparr>
     else asset_cur j d)"
  by (simp add: upsert_asset_with_compression_info_def Let_def asset_cur_upsert alive_def)

lemma asset_cur_seq [upsert_simps]:
  "asset_cur j (snd (upsert_asset_with_seq i seq) d) =
    (if j = i \<and> alive (asset_cur i d) \<and> acc_ge (a_seq (asset_cur i d)) seq
     then (asset_cur i d)\<lparr>a_seq := Some seq\<rparr> else asset_cur j d)"
  by (simp add: upsert_asset_with_seq_def Let_def asset_cur_upsert alive_def)

lemma asset_cur_burnt [upsert_simps]:
  "asset_cur j (snd (upsert_asset_burnt i) d) =
    (if j = i then (asset_cur i d)\<lparr>a_burnt := True\<rparr> else asset_cur j d)"
  by (simp add: upsert_asset_burnt_def Let_def asset_cur_upsert alive_def)

lemma asset_cur_base_info [upsert_simps]:
  "asset_cur j (snd (upsert_asset_base_info i ot sv sac rt rg ra slot seq) d) =
    (if j = i \<and> alive (asset_cur i d) \<and> acc_ge (a_base_info_seq (asset_cur i d)) seq
     then (asset_cur i d)\<lparr>a_owner_type := ot, a_specification_version := Some sv,
            a_specification_asset_class := Some sac, a_royalty_target_type := rt,
            a_royalty_target := rg, a_royalty_amount := ra, a_asset_data := Some i,
            a_slot_updated_cnft_transaction := Some slot, a_base_info_seq := Some seq,
            a_slot_updated := (if asset_row i d = None then None
               else greatest_slot (a_slot_updated (asset_cur i d)) (Some slot))\<rparr>
     else asset_cur j d)"
  by (auto simp: upsert_asset_base_info_def Let_def asset_cur_def asset_row_upsert
      upsert_asset_frame asset_default_def alive_def split: option.splits)

lemma asset_cur_side_tables [upsert_simps]:
  "asset_cur j (snd (upsert_collection_info E i co slot seq) d) = asset_cur j d"
  "asset_cur j (snd (upsert_asset_data i cm cj url mm mj slot re rn rs seq) d) = asset_cur j d"
  "asset_cur j (snd (upsert_asset_creators i crs slot seq) d) = asset_cur j d"
  "asset_cur j (snd (upsert_asset_authority i au slot seq) d) = asset_cur j d"
  by (rule asset_cur_other_tables; simp add: side_stmt_defs Let_def split: prod.splits)+

section \<open>Views: the columns one sequence number stamps\<close>

type_synonym leaf_columns =
  "i64 option \<times> bytes option \<times> bytes option \<times> string option \<times> string option \<times> bool \<times> i64 option"

definition leaf_view :: "asset \<Rightarrow> leaf_columns" where
  "leaf_view r = (a_nonce r, a_tree_id r, a_leaf r, a_data_hash r, a_creator_hash r, a_frozen r,
     a_leaf_seq r)"

definition owner_view :: "asset \<Rightarrow> bytes option \<times> bytes option \<times> i64 option" where
  "owner_view r = (a_owner r, a_delegate r, a_owner_delegate_seq r)"

text \<open>The two views and the decompression mark do not see each other's statements.\<close>

lemma leaf_cols_frame [simp]:
  "a_seq (leaf_cols E n t l dh ch coh adh fl s r) = a_seq r"
  "a_burnt (leaf_cols E n t l dh ch coh adh fl s r) = a_burnt r"
  "owner_view (leaf_cols E n t l dh ch coh adh fl s r) = owner_view r"
  "a_leaf_seq (leaf_cols E n t l dh ch coh adh fl s r) = Some s"
  "a_owner_delegate_seq (leaf_cols E n t l dh ch coh adh fl s r) = a_owner_delegate_seq r"
  "a_base_info_seq (leaf_cols E n t l dh ch coh adh fl s r) = a_base_info_seq r"
  by (cases fl; simp add: leaf_cols_def owner_view_def Let_def)+

lemma leaf_view_leaf_cols [simp]:
  "leaf_view (leaf_cols E n t l dh ch coh adh fl s r) =
    (Some n, Some t, Some l, Some (str_trim (bs58_encode E dh)), Some (str_trim (bs58_encode E ch)),
     (case fl of None \<Rightarrow> False
      | Some f \<Rightarrow> flags_asset_lvl_frozen E f \<or> flags_permanent_lvl_frozen E f), Some s)"
  by (cases fl) (simp_all add: leaf_cols_def leaf_view_def Let_def)

end
