(* ===== verification/Bubblegum.thy ===== *)
theory Bubblegum
  imports Bubblegum_Db
begin

text \<open>
  The instruction handlers of \<open>program_transformers/src/bubblegum\<close>: each stores the change log
  event, then runs its upserts in one transaction. \<open>handle_bubblegum_instruction\<close> dispatches
  on the instruction and asks for a metadata download where one is owed.
\<close>

section \<open>Normalised leaves\<close>

definition u32_to_u8_array :: "u32 \<Rightarrow> bytes" where
  "u32_to_u8_array v = map (\<lambda>k. ucast (drop_bit (8 * k) v)) [0..<4] @ replicate 4 0"

record normalized_leaf_fields =
  nl_id :: pubkey
  nl_owner :: pubkey
  nl_delegate :: pubkey
  nl_nonce :: u64
  nl_data_hash :: hash
  nl_creator_hash :: hash
  nl_collection_hash :: "hash option"
  nl_asset_data_hash :: "hash option"
  nl_flags :: "u8 option"

fun normalized_leaf :: "leaf_schema \<Rightarrow> normalized_leaf_fields" where
  "normalized_leaf (LeafSchemaV1 i ow de no dh ch) =
     \<lparr>nl_id = i, nl_owner = ow, nl_delegate = de, nl_nonce = no, nl_data_hash = dh,
      nl_creator_hash = ch, nl_collection_hash = None, nl_asset_data_hash = None,
      nl_flags = None\<rparr>"
| "normalized_leaf (LeafSchemaV2 i ow de no dh ch coh adh fl) =
     \<lparr>nl_id = i, nl_owner = ow, nl_delegate = de, nl_nonce = no, nl_data_hash = dh,
      nl_creator_hash = ch, nl_collection_hash = Some coh, nl_asset_data_hash = Some adh,
      nl_flags = Some fl\<rparr>"

text \<open>The delegate column is empty where the owner delegates to itself or to nobody.\<close>

definition stored_delegate :: "pubkey \<Rightarrow> pubkey \<Rightarrow> bytes option" where
  "stored_delegate owner delegate =
     (if owner = delegate \<or> delegate = replicate 32 0 then None else Some delegate)"

definition ix_not_parsed :: program_transformer_error where
  "ix_not_parsed = ParsingError ''Ix not parsed correctly''"

text \<open>The leaf upsert as the handlers call it, with the nonce and the tree they choose.\<close>

definition leaf_stmt :: "ext \<Rightarrow> normalized_leaf_fields \<Rightarrow> i64 \<Rightarrow> bytes \<Rightarrow> hash \<Rightarrow> u64 \<Rightarrow> stmt" where
  "leaf_stmt E leaf nonce tree_id leaf_hash seq =
     upsert_asset_with_leaf_info E (nl_id leaf) nonce tree_id leaf_hash (nl_data_hash leaf)
       (nl_creator_hash leaf) (nl_collection_hash leaf) (nl_asset_data_hash leaf)
       (nl_flags leaf) (as_i64 seq)"

definition owner_stmt :: "normalized_leaf_fields \<Rightarrow> u64 \<Rightarrow> stmt" where
  "owner_stmt leaf seq =
     upsert_asset_with_owner_and_delegate_info (nl_id leaf) (nl_owner leaf)
       (stored_delegate (nl_owner leaf) (nl_delegate leaf)) (as_i64 seq)"

section \<open>Handlers\<close>

definition transfer :: "ext \<Rightarrow> bubblegum_instruction \<Rightarrow> instruction_bundle \<Rightarrow> string \<Rightarrow> unit handler" where
  "transfer E pr bundle instruction =
    (case (bi_leaf_update pr, bi_tree_update pr) of
       (Some le, Some cl) \<Rightarrow>
         bind_m (save_changelog_event E cl (ib_slot bundle) (ib_txn_id bundle) instruction) (\<lambda>seq.
           let leaf = normalized_leaf (le_schema le) in
           transaction
             [leaf_stmt E leaf (u32_as_i64 (ce_index cl)) (ce_id cl) (le_leaf_hash le) seq,
              owner_stmt leaf seq,
              upsert_asset_with_seq (nl_id leaf) (as_i64 seq)])
     | _ \<Rightarrow> raise_m ix_not_parsed)"

definition delegation_freezing_nontransferability ::
    "ext \<Rightarrow> bubblegum_instruction \<Rightarrow> instruction_bundle \<Rightarrow> string \<Rightarrow> unit handler" where
  "delegation_freezing_nontransferability E pr bundle instruction =
    (case (bi_leaf_update pr, bi_tree_update pr) of
       (Some le, Some cl) \<Rightarrow>
         bind_m (save_changelog_event E cl (ib_slot bundle) (ib_txn_id bundle) instruction) (\<lambda>seq.
           let leaf = normalized_leaf (le_schema le) in
           transaction
             [leaf_stmt E leaf (u32_as_i64 (ce_index cl)) (ce_id cl) (le_leaf_hash le) seq,
              owner_stmt leaf seq,
              upsert_asset_with_seq (nl_id leaf) (as_i64 seq)])
     | _ \<Rightarrow> raise_m ix_not_parsed)"

definition leaf_asset_id :: "ext \<Rightarrow> change_log_event \<Rightarrow> pubkey" where
  "leaf_asset_id E cl =
     find_program_address E [str_bytes ''asset'', ce_id cl, u32_to_u8_array (ce_index cl)]
       (bubblegum_ID E)"

definition burn :: "ext \<Rightarrow> bubblegum_instruction \<Rightarrow> instruction_bundle \<Rightarrow> string \<Rightarrow> unit handler" where
  "burn E pr bundle instruction =
    (case bi_tree_update pr of
       Some cl \<Rightarrow>
         bind_m (save_changelog_event E cl (ib_slot bundle) (ib_txn_id bundle) instruction) (\<lambda>seq.
           transaction
             [upsert_asset_burnt (leaf_asset_id E cl),
              upsert_asset_with_seq (leaf_asset_id E cl) (as_i64 seq)])
     | None \<Rightarrow> raise_m ix_not_parsed)"

definition redeem :: "ext \<Rightarrow> bubblegum_instruction \<Rightarrow> instruction_bundle \<Rightarrow> string \<Rightarrow> unit handler" where
  "redeem E pr bundle instruction =
    (case bi_tree_update pr of
       Some cl \<Rightarrow>
         bind_m (save_changelog_event E cl (ib_slot bundle) (ib_txn_id bundle) instruction) (\<lambda>seq.
           transaction
             [upsert_asset_with_leaf_info E (leaf_asset_id E cl) (u32_as_i64 (ce_index cl)) (ce_id cl)
                (replicate 32 0) (replicate 32 0) (replicate 32 0) None None None (as_i64 seq),
              upsert_asset_with_seq (leaf_asset_id E cl) (as_i64 seq)])
     | None \<Rightarrow> raise_m ix_not_parsed)"

definition cancel_redeem :: "ext \<Rightarrow> bubblegum_instruction \<Rightarrow> instruction_bundle \<Rightarrow> string \<Rightarrow> unit handler" where
  "cancel_redeem E pr bundle instruction =
    (case (bi_leaf_update pr, bi_tree_update pr) of
       (Some le, Some cl) \<Rightarrow>
         bind_m (save_changelog_event E cl (ib_slot bundle) (ib_txn_id bundle) instruction) (\<lambda>seq.
           case le_schema le of
             LeafSchemaV1 i ow de no dh ch \<Rightarrow>
               transaction
                 [upsert_asset_with_leaf_info E i (u32_as_i64 (ce_index cl)) (ce_id cl)
                    (le_leaf_hash le) dh ch None None None (as_i64 seq),
                  upsert_asset_with_owner_and_delegate_info i ow (stored_delegate ow de) (as_i64 seq),
                  upsert_asset_with_seq i (as_i64 seq)]
           | LeafSchemaV2 _ _ _ _ _ _ _ _ _ \<Rightarrow>
               raise_m (ParsingError ''LeafSchema V2 not possible for ix''))
     | _ \<Rightarrow> raise_m ix_not_parsed)"

definition collection_verification_process ::
    "ext \<Rightarrow> bubblegum_instruction \<Rightarrow> instruction_bundle \<Rightarrow> string \<Rightarrow> unit handler" where
  "collection_verification_process E pr bundle instruction =
    (case (bi_leaf_update pr, bi_tree_update pr, bi_payload pr) of
       (Some le, Some cl, Some (P_CollectionVerification coll verify)) \<Rightarrow>
         bind_m (save_changelog_event E cl (ib_slot bundle) (ib_txn_id bundle) instruction) (\<lambda>seq.
           let leaf = normalized_leaf (le_schema le) in
           transaction
             [leaf_stmt E leaf (u32_as_i64 (ce_index cl)) (ce_id cl) (le_leaf_hash le) seq,
              upsert_asset_with_seq (nl_id leaf) (as_i64 seq),
              upsert_collection_info E (nl_id leaf)
                (if coll = bubblegum_ID E then None
                 else Some \<lparr>co_key = coll, co_verified = verify\<rparr>)
                (as_i64 (ib_slot bundle)) (as_i64 seq)])
     | _ \<Rightarrow> raise_m ix_not_parsed)"

definition updated_creators :: "metadata_args \<Rightarrow> pubkey \<Rightarrow> bool \<Rightarrow> creator list" where
  "updated_creators metadata creator verify =
     map (\<lambda>c. if cc_address c = creator then c\<lparr>cc_verified := verify\<rparr> else c) (ma_creators metadata)"

definition creator_verification_process ::
    "ext \<Rightarrow> bubblegum_instruction \<Rightarrow> instruction_bundle \<Rightarrow> string \<Rightarrow> unit handler" where
  "creator_verification_process E pr bundle instruction =
    (case (bi_leaf_update pr, bi_tree_update pr, bi_payload pr) of
       (Some le, Some cl, Some (P_CreatorVerification metadata creator verify)) \<Rightarrow>
         bind_m (save_changelog_event E cl (ib_slot bundle) (ib_txn_id bundle) instruction) (\<lambda>seq.
           let leaf = normalized_leaf (le_schema le) in
           transaction
             [leaf_stmt E leaf (u32_as_i64 (ce_index cl)) (ce_id cl) (le_leaf_hash le) seq,
              owner_stmt leaf seq,
              upsert_asset_with_seq (nl_id leaf) (as_i64 seq),
              upsert_asset_creators (nl_id leaf) (updated_creators metadata creator verify)
                (as_i64 (ib_slot bundle)) (as_i64 seq)])
     | _ \<Rightarrow> raise_m ix_not_parsed)"

definition sanitize :: "chain_data_v1 \<Rightarrow> chain_data_v1" where
  "sanitize c = c\<lparr>cd_name := remove_nul (cd_name c), cd_symbol := remove_nul (cd_symbol c)\<rparr>"

definition specification_asset_class_of :: "leaf_schema_event \<Rightarrow> specification_asset_class" where
  "specification_asset_class_of le =
     (if le_version le = Version_V2 then SAC_MplBubblegumV2 else SAC_Nft)"

definition chain_mutability_of :: "bool \<Rightarrow> chain_mutability" where
  "chain_mutability_of is_mutable = (if is_mutable then CM_Mutable else CM_Immutable)"

definition download_info :: "bytes \<Rightarrow> string \<Rightarrow> download_metadata_info option" where
  "download_info i uri = (if uri = [] then None else Some (download_metadata_info_new i uri))"

text \<open>The last two arguments of the authority upsert are passed as the source passes them.\<close>

definition mint :: "ext \<Rightarrow> bubblegum_instruction \<Rightarrow> instruction_bundle \<Rightarrow> string \<Rightarrow>
    download_metadata_info option handler" where
  "mint E pr bundle instruction =
    (case (bi_leaf_update pr, bi_tree_update pr, bi_payload pr) of
       (Some le, Some cl, Some (P_Mint metadata authority tree_id)) \<Rightarrow>
         bind_m (save_changelog_event E cl (ib_slot bundle) (ib_txn_id bundle) instruction) (\<lambda>seq.
           let leaf = normalized_leaf (le_schema le);
               i = nl_id leaf;
               slot_i = as_i64 (ib_slot bundle);
               uri = remove_nul (ma_uri metadata);
               chain_data = sanitize \<lparr>cd_name = ma_name metadata, cd_symbol = ma_symbol metadata,
                  cd_edition_nonce = ma_edition_nonce metadata,
                  cd_primary_sale_happened = ma_primary_sale_happened metadata,
                  cd_token_standard = Some TS_NonFungible, cd_uses = ma_uses metadata\<rparr>
           in case chain_data_to_value E chain_data of
                Inl e \<Rightarrow> raise_m (DeserializationError e)
              | Inr chain_data_json \<Rightarrow>
                  bind_m (transaction
                    [upsert_asset_data i (chain_mutability_of (ma_is_mutable metadata)) chain_data_json
                       uri M_Mutable (JStr ''processing'') slot_i (Some True)
                       (str_bytes (ma_name metadata)) (str_bytes (ma_symbol metadata)) (as_i64 seq),
                     upsert_asset_base_info i OT_Single SV_V1 (specification_asset_class_of le)
                       RT_Creators None (uint (ma_seller_fee_basis_points metadata)) slot_i (as_i64 seq),
                     upsert_asset_with_compression_info i True False 1 None,
                     leaf_stmt E leaf (as_i64 (nl_nonce leaf)) tree_id (le_leaf_hash le) seq,
                     owner_stmt leaf seq,
                     upsert_asset_with_seq i (as_i64 seq),
                     upsert_asset_creators i (ma_creators metadata) slot_i (as_i64 seq),
                     upsert_asset_authority i authority (as_i64 seq) slot_i,
                     upsert_collection_info E i (ma_collection metadata) slot_i (as_i64 seq)])
                    (\<lambda>_. return_m (download_info i uri)))
     | _ \<Rightarrow> raise_m ix_not_parsed)"

definition or_current :: "'a option \<Rightarrow> 'a \<Rightarrow> 'a" where
  "or_current u cur = (case u of Some x \<Rightarrow> x | None \<Rightarrow> cur)"

definition update_metadata :: "ext \<Rightarrow> bubblegum_instruction \<Rightarrow> instruction_bundle \<Rightarrow> string \<Rightarrow>
    download_metadata_info option handler" where
  "update_metadata E pr bundle instruction =
    (case (bi_leaf_update pr, bi_tree_update pr, bi_payload pr) of
       (Some le, Some cl, Some (P_UpdateMetadata current_metadata update tree_id)) \<Rightarrow>
         bind_m (save_changelog_event E cl (ib_slot bundle) (ib_txn_id bundle) instruction) (\<lambda>seq.
           let leaf = normalized_leaf (le_schema le);
               i = nl_id leaf;
               slot_i = as_i64 (ib_slot bundle);
               uri = remove_nul (or_current (ua_uri update) (ma_uri current_metadata));
               name = or_current (ua_name update) (ma_name current_metadata);
               symbol = or_current (ua_symbol update) (ma_symbol current_metadata);
               chain_data = sanitize \<lparr>cd_name = name, cd_symbol = symbol,
                  cd_edition_nonce = ma_edition_nonce current_metadata,
                  cd_primary_sale_happened = or_current (ua_primary_sale_happened update)
                    (ma_primary_sale_happened current_metadata),
                  cd_token_standard = Some TS_NonFungible, cd_uses = ma_uses current_metadata\<rparr>
           in case chain_data_to_value E chain_data of
                Inl e \<Rightarrow> raise_m (DeserializationError e)
              | Inr chain_data_json \<Rightarrow>
                  bind_m (transaction
                    [upsert_asset_data i
                       (chain_mutability_of (or_current (ua_is_mutable update) (ma_is_mutable current_metadata)))
                       chain_data_json uri M_Mutable (JStr ''processing'') slot_i (Some True)
                       (str_bytes name) (str_bytes symbol) (as_i64 seq),
                     upsert_asset_base_info i OT_Single SV_V1 (specification_asset_class_of le)
                       RT_Creators None
                       (uint (or_current (ua_seller_fee_basis_points update)
                                (ma_seller_fee_basis_points current_metadata))) slot_i (as_i64 seq),
                     leaf_stmt E leaf (as_i64 (nl_nonce leaf)) tree_id (le_leaf_hash le) seq,
                     upsert_asset_with_seq i (as_i64 seq),
                     upsert_asset_creators i (or_current (ua_creators update) (ma_creators current_metadata))
                       slot_i (as_i64 seq)])
                    (\<lambda>_. return_m (download_info i uri)))
     | _ \<Rightarrow> raise_m ix_not_parsed)"

section \<open>Dispatch\<close>

fun ix_str :: "instruction_name \<Rightarrow> string" where
  "ix_str N_Unknown = ''Unknown''"
| "ix_str N_MintV1 = ''MintV1''"
| "ix_str N_MintToCollectionV1 = ''MintToCollectionV1''"
| "ix_str N_Redeem = ''Redeem''"
| "ix_str N_CancelRedeem = ''CancelRedeem''"
| "ix_str N_Transfer = ''Transfer''"
| "ix_str N_Delegate = ''Delegate''"
| "ix_str N_DecompressV1 = ''DecompressV1''"
| "ix_str N_Compress = ''Compress''"
| "ix_str N_Burn = ''Burn''"
| "ix_str N_CreateTree = ''CreateTree''"
| "ix_str N_VerifyCreator = ''VerifyCreator''"
| "ix_str N_UnverifyCreator = ''UnverifyCreator''"
| "ix_str N_VerifyCollection = ''VerifyCollection''"
| "ix_str N_UnverifyCollection = ''UnverifyCollection''"
| "ix_str N_SetAndVerifyCollection = ''SetAndVerifyCollection''"
| "ix_str N_SetDecompressibleState = ''SetDecompressibleState''"
| "ix_str N_UpdateMetadata = ''UpdateMetadata''"
| "ix_str N_BurnV2 = ''BurnV2''"
| "ix_str N_CollectV2 = ''CollectV2''"
| "ix_str N_CreateTreeV2 = ''CreateTreeV2''"
| "ix_str N_DelegateAndFreezeV2 = ''DelegateAndFreezeV2''"
| "ix_str N_DelegateV2 = ''DelegateV2''"
| "ix_str N_FreezeV2 = ''FreezeV2''"
| "ix_str N_MintV2 = ''MintV2''"
| "ix_str N_SetCollectionV2 = ''SetCollectionV2''"
| "ix_str N_SetNonTransferableV2 = ''SetNonTransferableV2''"
| "ix_str N_ThawAndRevokeV2 = ''ThawAndRevokeV2''"
| "ix_str N_ThawV2 = ''ThawV2''"
| "ix_str N_TransferV2 = ''TransferV2''"
| "ix_str N_UnverifyCreatorV2 = ''UnverifyCreatorV2''"
| "ix_str N_UpdateAssetDataV2 = ''UpdateAssetDataV2''"
| "ix_str N_UpdateMetadataV2 = ''UpdateMetadataV2''"
| "ix_str N_VerifyCreatorV2 = ''VerifyCreatorV2''"

definition notify_download :: "ext \<Rightarrow> download_metadata_info option \<Rightarrow> unit handler" where
  "notify_download E info w =
    (case info of
       None \<Rightarrow> (Inr (), w)
     | Some x \<Rightarrow>
         (case notifier E x of
            None \<Rightarrow> (Inr (), w\<lparr>w_sent := w_sent w @ [x]\<rparr>)
          | Some e \<Rightarrow> (Inl (DownloadMetadataNotify e), w)))"

definition handle_bubblegum_instruction ::
    "ext \<Rightarrow> bubblegum_instruction \<Rightarrow> instruction_bundle \<Rightarrow> unit handler" where
  "handle_bubblegum_instruction E pr bundle =
    (let ix = bi_instruction pr; s = ix_str ix in
     if ix \<in> {N_Transfer, N_TransferV2} then transfer E pr bundle s
     else if ix \<in> {N_Burn, N_BurnV2} then burn E pr bundle s
     else if ix \<in> {N_Delegate, N_DelegateV2, N_DelegateAndFreezeV2, N_FreezeV2,
                   N_SetNonTransferableV2, N_ThawV2, N_ThawAndRevokeV2}
       then delegation_freezing_nontransferability E pr bundle s
     else if ix \<in> {N_MintV1, N_MintToCollectionV1, N_MintV2}
       then bind_m (mint E pr bundle s) (notify_download E)
     else if ix = N_Redeem then redeem E pr bundle s
     else if ix = N_CancelRedeem then cancel_redeem E pr bundle s
     else if ix = N_DecompressV1 then return_m ()
     else if ix \<in> {N_VerifyCreator, N_UnverifyCreator, N_VerifyCreatorV2, N_UnverifyCreatorV2}
       then creator_verification_process E pr bundle s
     else if ix \<in> {N_VerifyCollection, N_UnverifyCollection, N_SetAndVerifyCollection, N_SetCollectionV2}
       then collection_verification_process E pr bundle s
     else if ix = N_SetDecompressibleState then return_m ()
     else if ix \<in> {N_UpdateMetadata, N_UpdateMetadataV2}
       then bind_m (update_metadata E pr bundle s) (notify_download E)
     else return_m ())"

end
