(* ===== verification/Bubblegum_Views.thy ===== *)
theory Bubblegum_Views
  imports Bubblegum
begin

text \<open>
  What the Bubblegum handlers promise about one asset, stated over whole instructions. An
  abstract specification says which leaf columns and which owner columns an instruction
  carries (\<open>leaf_write\<close>, \<open>owner_write\<close>); the handlers are shown to apply exactly those, guarded
  by the sequence number, and the last-writer-wins interface then gives convergence of the
  stored row whatever the order and the repetition of the deliveries.
\<close>

section \<open>What an instruction says about a leaf\<close>

definition leaf_value :: "ext \<Rightarrow> i64 \<Rightarrow> bytes \<Rightarrow> bytes \<Rightarrow> hash \<Rightarrow> hash \<Rightarrow> u8 option \<Rightarrow> i64 \<Rightarrow> leaf_columns" where
  "leaf_value E nonce tree leaf data_hash creator_hash flags seq =
    (Some nonce, Some tree, Some leaf, Some (str_trim (bs58_encode E data_hash)),
     Some (str_trim (bs58_encode E creator_hash)),
     (case flags of None \<Rightarrow> False
      | Some f \<Rightarrow> flags_asset_lvl_frozen E f \<or> flags_permanent_lvl_frozen E f), Some seq)"

definition mint_chain_data :: "metadata_args \<Rightarrow> chain_data_v1" where
  "mint_chain_data m = sanitize \<lparr>cd_name = ma_name m, cd_symbol = ma_symbol m,
     cd_edition_nonce = ma_edition_nonce m, cd_primary_sale_happened = ma_primary_sale_happened m,
     cd_token_standard = Some TS_NonFungible, cd_uses = ma_uses m\<rparr>"

definition update_chain_data :: "metadata_args \<Rightarrow> update_args \<Rightarrow> chain_data_v1" where
  "update_chain_data m u = sanitize \<lparr>cd_name = or_current (ua_name u) (ma_name m),
     cd_symbol = or_current (ua_symbol u) (ma_symbol m),
     cd_edition_nonce = ma_edition_nonce m,
     cd_primary_sale_happened =
       or_current (ua_primary_sale_happened u) (ma_primary_sale_happened m),
     cd_token_standard = Some TS_NonFungible, cd_uses = ma_uses m\<rparr>"

text \<open>
  The kinds of instruction: those that move or freeze a leaf, those that need a payload of
  the right shape (and a serialisable one), and those the index ignores.
\<close>

definition plain_leaf_ixs :: "instruction_name set" where
  "plain_leaf_ixs = {N_Transfer, N_TransferV2, N_Delegate, N_DelegateV2, N_DelegateAndFreezeV2,
     N_FreezeV2, N_SetNonTransferableV2, N_ThawV2, N_ThawAndRevokeV2}"

definition creator_ixs :: "instruction_name set" where
  "creator_ixs = {N_VerifyCreator, N_UnverifyCreator, N_VerifyCreatorV2, N_UnverifyCreatorV2}"

definition collection_ixs :: "instruction_name set" where
  "collection_ixs = {N_VerifyCollection, N_UnverifyCollection, N_SetAndVerifyCollection,
     N_SetCollectionV2}"

definition mint_ixs :: "instruction_name set" where
  "mint_ixs = {N_MintV1, N_MintToCollectionV1, N_MintV2}"

definition update_ixs :: "instruction_name set" where
  "update_ixs = {N_UpdateMetadata, N_UpdateMetadataV2}"

lemmas ix_sets = plain_leaf_ixs_def creator_ixs_def collection_ixs_def mint_ixs_def update_ixs_def

text \<open>Nonce and tree an accepted instruction stores with its leaf; \<open>None\<close> if it is refused.\<close>

definition leaf_place :: "ext \<Rightarrow> bubblegum_instruction \<Rightarrow> normalized_leaf_fields \<Rightarrow>
    change_log_event \<Rightarrow> (i64 \<times> bytes) option" where
  "leaf_place E pr leaf cl =
    (let ix = bi_instruction pr; here = Some (u32_as_i64 (ce_index cl), ce_id cl) in
     if ix \<in> plain_leaf_ixs then here
     else if ix \<in> creator_ixs then
       (case bi_payload pr of Some (P_CreatorVerification _ _ _) \<Rightarrow> here | _ \<Rightarrow> None)
     else if ix \<in> collection_ixs then
       (case bi_payload pr of Some (P_CollectionVerification _ _) \<Rightarrow> here | _ \<Rightarrow> None)
     else if ix \<in> mint_ixs then
       (case bi_payload pr of
          Some (P_Mint m _ tree) \<Rightarrow>
            if isl (chain_data_to_value E (mint_chain_data m)) then None
            else Some (as_i64 (nl_nonce leaf), tree)
        | _ \<Rightarrow> None)
     else if ix \<in> update_ixs then
       (case bi_payload pr of
          Some (P_UpdateMetadata m u tree) \<Rightarrow>
            if isl (chain_data_to_value E (update_chain_data m u)) then None
            else Some (as_i64 (nl_nonce leaf), tree)
        | _ \<Rightarrow> None)
     else None)"

definition leaf_write :: "ext \<Rightarrow> bubblegum_instruction \<Rightarrow> (bytes \<times> leaf_columns) option" where
  "leaf_write E pr =
    (case bi_tree_update pr of
       None \<Rightarrow> None
     | Some cl \<Rightarrow>
        if bi_instruction pr = N_Redeem then
          Some (leaf_asset_id E cl, leaf_value E (u32_as_i64 (ce_index cl)) (ce_id cl)
            (replicate 32 0) (replicate 32 0) (replicate 32 0) None (as_i64 (ce_seq cl)))
        else
          (case bi_leaf_update pr of
             None \<Rightarrow> None
           | Some le \<Rightarrow>
              (let leaf = normalized_leaf (le_schema le);
                   place = (if bi_instruction pr = N_CancelRedeem then
                       (if nl_flags leaf = None then Some (u32_as_i64 (ce_index cl), ce_id cl) else None)
                     else leaf_place E pr leaf cl)
               in map_option (\<lambda>(nonce, tree). (nl_id leaf,
                     leaf_value E nonce tree (le_leaf_hash le) (nl_data_hash leaf)
                       (nl_creator_hash leaf) (nl_flags leaf) (as_i64 (ce_seq cl)))) place)))"

definition owner_write :: "ext \<Rightarrow> bubblegum_instruction \<Rightarrow>
    (bytes \<times> bytes option \<times> bytes option \<times> i64 option) option" where
  "owner_write E pr =
    (case (bi_tree_update pr, bi_leaf_update pr) of
       (Some cl, Some le) \<Rightarrow>
         (let leaf = normalized_leaf (le_schema le);
              cell = Some (nl_id leaf, Some (nl_owner leaf),
                stored_delegate (nl_owner leaf) (nl_delegate leaf), Some (as_i64 (ce_seq cl)))
          in if bi_instruction pr = N_CancelRedeem then (if nl_flags leaf = None then cell else None)
             else if bi_instruction pr \<in> collection_ixs \<union> update_ixs then None
             else if leaf_place E pr leaf cl = None then None else cell)
     | _ \<Rightarrow> None)"

section \<open>Views of single statements\<close>

lemma view_frames [frame_simps]:
  "leaf_view (asset_cur j (snd (upsert_asset_with_owner_and_delegate_info i ow de seq) d)) =
     leaf_view (asset_cur j d)"
  "leaf_view (asset_cur j (snd (upsert_asset_with_compression_info i c1 c2 su sm) d)) =
     leaf_view (asset_cur j d)"
  "leaf_view (asset_cur j (snd (upsert_asset_with_seq i seq) d)) = leaf_view (asset_cur j d)"
  "leaf_view (asset_cur j (snd (upsert_asset_burnt i) d)) = leaf_view (asset_cur j d)"
  "leaf_view (asset_cur j (snd (upsert_asset_base_info i ot sv sac rt rg ra slot seq) d)) =
     leaf_view (asset_cur j d)"
  "owner_view (asset_cur j (snd (upsert_asset_with_leaf_info E i n t l dh ch coh adh fl seq) d)) =
     owner_view (asset_cur j d)"
  "owner_view (asset_cur j (snd (upsert_asset_with_compression_info i c1 c2 su sm) d)) =
     owner_view (asset_cur j d)"
  "owner_view (asset_cur j (snd (upsert_asset_with_seq i seq) d)) = owner_view (asset_cur j d)"
  "owner_view (asset_cur j (snd (upsert_asset_burnt i) d)) = owner_view (asset_cur j d)"
  "owner_view (asset_cur j (snd (upsert_asset_base_info i ot sv sac rt rg ra slot seq) d)) =
     owner_view (asset_cur j d)"
  by (simp_all add: upsert_simps) (simp_all add: leaf_view_def owner_view_def)

lemma alive_frames [frame_simps]:
  "alive (asset_cur j (snd (upsert_asset_with_leaf_info E i n t l dh ch coh adh fl seq) d)) =
     alive (asset_cur j d)"
  "alive (asset_cur j (snd (upsert_asset_with_owner_and_delegate_info i ow de seq) d)) =
     alive (asset_cur j d)"
  "alive (asset_cur j (snd (upsert_asset_with_compression_info i c1 c2 su sm) d)) =
     alive (asset_cur j d)"
  "seq \<noteq> 0 \<Longrightarrow>
     alive (asset_cur j (snd (upsert_asset_with_seq i seq) d)) = alive (asset_cur j d)"
  "alive (asset_cur j (snd (upsert_asset_burnt i) d)) = alive (asset_cur j d)"
  "alive (asset_cur j (snd (upsert_asset_base_info i ot sv sac rt rg ra slot seq) d)) =
     alive (asset_cur j d)"
  by (simp_all add: upsert_simps alive_def)

lemma view_versions:
  "a_leaf_seq r = snd (snd (snd (snd (snd (snd (leaf_view r))))))"
  "a_owner_delegate_seq r = snd (snd (owner_view r))"
  by (simp_all add: leaf_view_def owner_view_def)

definition leaf_ver :: "leaf_columns \<Rightarrow> i64 option" where
  "leaf_ver v = snd (snd (snd (snd (snd (snd v)))))"

definition owner_ver :: "bytes option \<times> bytes option \<times> i64 option \<Rightarrow> i64 option" where
  "owner_ver v = snd (snd v)"

text \<open>How a guarded write changes a view.\<close>

definition put :: "(bytes \<times> 'v) option \<Rightarrow> ('v \<Rightarrow> i64 option) \<Rightarrow> bytes \<Rightarrow> bool \<Rightarrow> 'v \<Rightarrow> 'v" where
  "put wr vver j live v =
    (case wr of
       None \<Rightarrow> v
     | Some (i, x) \<Rightarrow>
         if j = i \<and> live \<and> (case vver x of None \<Rightarrow> False | Some n \<Rightarrow> acc_ge (vver v) n)
         then x else v)"

lemma leaf_view_leaf_stmt [frame_simps]:
  "leaf_view (asset_cur j (snd (upsert_asset_with_leaf_info E i n t l dh ch coh adh fl seq) d)) =
    put (Some (i, leaf_value E n t l dh ch fl seq)) leaf_ver j (alive (asset_cur j d))
      (leaf_view (asset_cur j d))"
  by (cases "j = i") (simp_all add: upsert_simps put_def leaf_value_def leaf_ver_def view_versions)

lemma owner_view_owner_stmt [frame_simps]:
  "owner_view (asset_cur j (snd (upsert_asset_with_owner_and_delegate_info i ow de seq) d)) =
    put (Some (i, Some ow, de, Some seq)) owner_ver j (alive (asset_cur j d))
      (owner_view (asset_cur j d))"
  by (cases "j = i") (simp_all add: upsert_simps put_def owner_ver_def owner_view_def)


section \<open>All or nothing\<close>

definition benign :: "stmt list \<Rightarrow> bool" where
  "benign ss = (\<forall>s\<in>set ss. \<forall>m x. fst s m \<noteq> DownloadMetadataNotify x)"

definition committed :: "'a pt_result \<Rightarrow> bool" where
  "committed r = (case r of Inr _ \<Rightarrow> True | Inl (DownloadMetadataNotify _) \<Rightarrow> True | Inl _ \<Rightarrow> False)"

lemma committed_simps [simp]:
  "committed (Inr x)"
  "committed (Inl (DownloadMetadataNotify m))"
  by (simp_all add: committed_def)

lemma committed_Inl: "\<not> committed (Inl e) \<longleftrightarrow> (\<forall>m. e \<noteq> DownloadMetadataNotify m)"
  by (cases e) (simp_all add: committed_def)

text \<open>
  \<open>applies ok ss h\<close>: up to the change log tables, \<open>h\<close> either commits exactly the statements
  \<open>ss\<close> or fails without a trace, and it commits where the database accepts every statement
  and the instruction is acceptable.
\<close>

definition applies :: "bool \<Rightarrow> stmt list \<Rightarrow> 'a handler \<Rightarrow> bool" where
  "applies ok ss h =
    (\<forall>w r w'. h w = (r, w') \<longrightarrow>
      w_fault w' = w_fault w \<and>
      (if committed r then \<exists>d. only_change_log (w_db w) d \<and> w_db w' = effect ss d
       else only_change_log (w_db w) (w_db w')) \<and>
      (no_faults w \<and> ok \<longrightarrow> committed r))"

lemma only_change_log_refl [simp]: "only_change_log d d"
  by (simp add: only_change_log_def)

lemma run_all_error:
  "run_all ss w = (Inl e, w') \<Longrightarrow> \<exists>s\<in>set ss. \<exists>m. e = fst s m"
  by (induction ss arbitrary: w)
    (auto simp: monad_simps execute_def split: prod.splits sum.splits option.splits)

lemma transaction_committed:
  assumes "transaction ss w = (r, w')" "benign ss"
  shows "committed r \<longleftrightarrow> \<not> isl r"
proof (cases r)
  case (Inl e)
  then obtain w0 where "run_all (control # ss @ [control]) w = (Inl e, w0)"
    using assms(1) by (auto simp: transaction_def split: prod.splits sum.splits)
  from run_all_error [OF this] assms(2) have "e \<noteq> DownloadMetadataNotify x" for x
    by (fastforce simp: benign_def control_def)
  then show ?thesis by (simp add: Inl committed_Inl)
qed simp

lemma insert_change_log_frame:
  assumes "insert_change_log E cl slot tx ix w = (r, w')"
  shows "only_change_log (w_db w) (w_db w')"
  using assms by (cases rule: insert_change_log_cases) (simp_all add: only_change_log_def)

lemma insert_change_log_errors:
  assumes "insert_change_log E cl slot tx ix w = (r, w')"
  shows "w_fault w' = w_fault w \<and> (committed r \<longleftrightarrow> r = Inr ()) \<and>
    (no_faults w \<and> bs58_decode E tx \<noteq> None \<longrightarrow> r = Inr ())"
proof -
  obtain r1 w1 where run: "run_all (cl_item_stmts cl) w = (r1, w1)" by fastforce
  have "\<not> committed (Inl e)" if "r1 = Inl e" for e
    using run_all_error [of _ w e w1] run that
    by (fastforce simp: committed_def cl_item_stmts_rows upsert_cl_item_def)
  then show ?thesis
    using assms run run_all_result [OF run] insert_change_log_ok [of w E tx _ cl slot ix]
    by (auto simp: insert_change_log_def bind_m_def raise_m_def return_m_def ignore_error_def
        execute_def query_def audit_stmt_def backfill_stmt_def committed_def
        split: option.splits if_splits sum.splits)
qed

lemma save_changelog_event_result:
  assumes "save_changelog_event E cl slot tx ix w = (r, w')"
  shows "only_change_log (w_db w) (w_db w') \<and> w_fault w' = w_fault w \<and>
    (if committed r then r = Inr (ce_seq cl) else isl r) \<and>
    (no_faults w \<and> bs58_decode E tx \<noteq> None \<longrightarrow> committed r)"
proof -
  obtain r1 w1 where run: "insert_change_log E cl slot tx ix w = (r1, w1)" by fastforce
  show ?thesis
    using assms run insert_change_log_frame [OF run] insert_change_log_errors [OF run]
    by (cases r1) (auto simp: save_changelog_event_def bind_m_def return_m_def committed_def
        split: program_transformer_error.splits)
qed

text \<open>A handler is a logged change followed by one transaction.\<close>

definition commits :: "bool \<Rightarrow> stmt list \<Rightarrow> 'a handler \<Rightarrow> bool" where
  "commits ok ss h =
    (\<forall>w r w'. h w = (r, w') \<longrightarrow> w_fault w' = w_fault w \<and>
      w_db w' = (if committed r then effect ss (w_db w) else w_db w) \<and>
      (no_faults w \<and> ok \<longrightarrow> committed r))"

lemma commits_transaction:
  assumes "benign ss"
  shows "commits True ss (transaction ss)"
  unfolding commits_def
proof (intro allI impI)
  fix w r w'
  assume run: "transaction ss w = (r, w')"
  have "r = Inr ()" if "no_faults w" using transaction_ok [OF that] run by simp
  with transaction_result [OF run] transaction_committed [OF run assms]
  show "w_fault w' = w_fault w \<and> w_db w' = (if committed r then effect ss (w_db w) else w_db w) \<and>
      (no_faults w \<and> True \<longrightarrow> committed r)"
    by (cases r) auto
qed

lemma commits_return:
  assumes "commits ok ss h"
  shows "commits ok ss (bind_m h (\<lambda>_. return_m x))"
  unfolding commits_def
proof (intro allI impI)
  fix w r w'
  assume run: "bind_m h (\<lambda>_. return_m x) w = (r, w')"
  obtain r1 w1 where h: "h w = (r1, w1)" by fastforce
  show "w_fault w' = w_fault w \<and> w_db w' = (if committed r then effect ss (w_db w) else w_db w) \<and>
      (no_faults w \<and> ok \<longrightarrow> committed r)"
    using run h assms [unfolded commits_def, rule_format, OF h]
    by (cases r1) (auto simp: bind_m_def return_m_def committed_def)
qed

lemma commits_raise: "(\<And>m. e \<noteq> DownloadMetadataNotify m) \<Longrightarrow> commits False ss (raise_m e)"
  using committed_Inl [of e] by (auto simp: commits_def raise_m_def)

lemma applies_raise: "(\<And>m. e \<noteq> DownloadMetadataNotify m) \<Longrightarrow> applies False ss (raise_m e)"
  using committed_Inl [of e] by (auto simp: applies_def raise_m_def)

lemma applies_return: "applies True [] (return_m x)"
  by (auto simp: applies_def return_m_def committed_def intro: only_change_log_refl)

lemma applies_logged:
  assumes "commits ok ss (k (ce_seq cl))"
  shows "applies (bs58_decode E tx \<noteq> None \<and> ok) ss
    (bind_m (save_changelog_event E cl slot tx ix) k)"
  unfolding applies_def
proof (intro allI impI)
  fix w r w'
  assume run: "bind_m (save_changelog_event E cl slot tx ix) k w = (r, w')"
  obtain r1 w1 where save: "save_changelog_event E cl slot tx ix w = (r1, w1)" by fastforce
  note S = save_changelog_event_result [OF save]
  show "w_fault w' = w_fault w \<and>
      (if committed r then \<exists>d. only_change_log (w_db w) d \<and> w_db w' = effect ss d
       else only_change_log (w_db w) (w_db w')) \<and>
      (no_faults w \<and> bs58_decode E tx \<noteq> None \<and> ok \<longrightarrow> committed r)"
  proof (cases "committed r1")
    case True
    with S have "r1 = Inr (ce_seq cl)" by simp
    with run save have "k (ce_seq cl) w1 = (r, w')" by (simp add: bind_m_def)
    with assms S show ?thesis by (auto simp: commits_def no_faults_def)
  next
    case False
    with S obtain e where "r1 = Inl e" by (cases r1) simp_all
    with run save have "r = Inl e" "w' = w1" by (simp_all add: bind_m_def)
    with S False \<open>r1 = Inl e\<close> show ?thesis by (auto simp: committed_def split: program_transformer_error.splits)
  qed
qed

lemma applies_notify:
  assumes "applies ok ss h"
  shows "applies ok ss (bind_m h (notify_download E))"
  unfolding applies_def
proof (intro allI impI)
  fix w r w'
  assume run: "bind_m h (notify_download E) w = (r, w')"
  obtain r1 w1 where h: "h w = (r1, w1)" by fastforce
  note A = assms [unfolded applies_def, rule_format, OF h]
  show "w_fault w' = w_fault w \<and>
      (if committed r then \<exists>d. only_change_log (w_db w) d \<and> w_db w' = effect ss d
       else only_change_log (w_db w) (w_db w')) \<and> (no_faults w \<and> ok \<longrightarrow> committed r)"
    using run h A
    by (cases r1) (auto simp: bind_m_def notify_download_def committed_def
        split: option.splits program_transformer_error.splits)
qed


section \<open>The handlers implement the specification\<close>

lemma burnt_frames [frame_simps]:
  "a_burnt (asset_cur j (snd (upsert_asset_with_leaf_info E i n t l dh ch coh adh fl seq) d)) =
     a_burnt (asset_cur j d)"
  "a_burnt (asset_cur j (snd (upsert_asset_with_owner_and_delegate_info i ow de seq) d)) =
     a_burnt (asset_cur j d)"
  "a_burnt (asset_cur j (snd (upsert_asset_with_compression_info i c1 c2 su sm) d)) =
     a_burnt (asset_cur j d)"
  "a_burnt (asset_cur j (snd (upsert_asset_with_seq i seq) d)) = a_burnt (asset_cur j d)"
  "a_burnt (asset_cur j (snd (upsert_asset_base_info i ot sv sac rt rg ra slot seq) d)) =
     a_burnt (asset_cur j d)"
  by (simp_all add: upsert_simps)

lemma decompressed_frames:
  "\<not> alive (asset_cur j d) \<Longrightarrow>
     asset_cur j (snd (upsert_asset_with_leaf_info E i n t l dh ch coh adh fl seq) d) = asset_cur j d"
  "\<not> alive (asset_cur j d) \<Longrightarrow>
     asset_cur j (snd (upsert_asset_with_owner_and_delegate_info i ow de seq) d) = asset_cur j d"
  "\<not> alive (asset_cur j d) \<Longrightarrow>
     asset_cur j (snd (upsert_asset_with_compression_info i c1 c2 su sm) d) = asset_cur j d"
  "\<not> alive (asset_cur j d) \<Longrightarrow>
     asset_cur j (snd (upsert_asset_with_seq i seq) d) = asset_cur j d"
  "\<not> alive (asset_cur j d) \<Longrightarrow>
     asset_cur j (snd (upsert_asset_base_info i ot sv sac rt rg ra slot seq) d) = asset_cur j d"
  by (auto simp: upsert_simps)

lemma benign_simps:
  "benign []" "benign (s # ss) \<longleftrightarrow> (\<forall>m x. fst s m \<noteq> DownloadMetadataNotify x) \<and> benign ss"
  by (auto simp: benign_def)

lemma stmt_errors:
  "fst (upsert_asset_with_leaf_info E i n t l dh ch coh adh fl seq) = StorageWriteError"
  "fst (upsert_asset_with_owner_and_delegate_info i ow de seq) = StorageWriteError"
  "fst (upsert_asset_with_compression_info i c1 c2 su sm) = StorageWriteError"
  "fst (upsert_asset_with_seq i seq) = StorageWriteError"
  "fst (upsert_asset_burnt i) = StorageWriteError"
  "fst (upsert_asset_base_info i ot sv sac rt rg ra slot seq) = AssetIndexError"
  "fst (upsert_collection_info E i co slot seq) = StorageWriteError"
  "fst (upsert_asset_data i cm cj url mm mj slot re rn rs seq) = StorageWriteError"
  "fst (upsert_asset_creators i crs slot seq) = StorageWriteError"
  "fst (upsert_asset_authority i au slot seq) = AssetIndexError"
  by (simp_all add: asset_stmt_defs side_stmt_defs Let_def split: prod.splits)

definition seq_ok :: "bubblegum_instruction \<Rightarrow> bool" where
  "seq_ok pr = (case bi_tree_update pr of None \<Rightarrow> True | Some cl \<Rightarrow> as_i64 (ce_seq cl) \<noteq> 0)"

text \<open>What the committed statements of an instruction do to the row of any asset \<open>j\<close>.\<close>

definition implements :: "ext \<Rightarrow> bubblegum_instruction \<Rightarrow> stmt list \<Rightarrow> bool" where
  "implements E pr ss =
    (\<forall>d j.
      leaf_view (asset_cur j (effect ss d)) =
        put (leaf_write E pr) leaf_ver j (alive (asset_cur j d)) (leaf_view (asset_cur j d)) \<and>
      owner_view (asset_cur j (effect ss d)) =
        put (owner_write E pr) owner_ver j (alive (asset_cur j d)) (owner_view (asset_cur j d)) \<and>
      (seq_ok pr \<longrightarrow> alive (asset_cur j (effect ss d)) = alive (asset_cur j d)) \<and>
      (a_burnt (asset_cur j d) \<longrightarrow> a_burnt (asset_cur j (effect ss d))) \<and>
      (\<not> alive (asset_cur j d) \<longrightarrow>
        (\<exists>b. asset_cur j (effect ss d) = (asset_cur j d)\<lparr>a_burnt := b\<rparr>)))"

lemma put_None [simp]: "put None vver j live v = v"
  by (simp add: put_def)

lemma same_burnt [simp]: "\<exists>b. r = r\<lparr>a_burnt := b\<rparr>"
  by (rule exI [of _ "a_burnt r"]) simp

lemma implements_nothing:
  "leaf_write E pr = None \<Longrightarrow> owner_write E pr = None \<Longrightarrow> implements E pr []"
  by (simp add: implements_def)

lemmas handler_facts = implements_def leaf_stmt_def owner_stmt_def leaf_write_def owner_write_def
  leaf_place_def ix_sets seq_ok_def Let_def

text \<open>
  \<open>specified E pr tx h\<close>: the handler \<open>h\<close> applies statements that implement the instruction, and
  commits them where there is something to write and the transaction id decodes.
\<close>

definition specified :: "ext \<Rightarrow> bubblegum_instruction \<Rightarrow> string \<Rightarrow> 'a handler \<Rightarrow> bool" where
  "specified E pr tx h =
    (\<exists>ss. applies (bs58_decode E tx \<noteq> None \<and> (leaf_write E pr \<noteq> None \<or> owner_write E pr \<noteq> None)) ss h \<and>
      implements E pr ss)"

lemma applies_weaken: "applies ok ss h \<Longrightarrow> (ok' \<Longrightarrow> ok) \<Longrightarrow> applies ok' ss h"
  unfolding applies_def by blast

lemma specifiedI:
  assumes "commits True ss (k (ce_seq cl))" "implements E pr ss"
  shows "specified E pr tx (bind_m (save_changelog_event E cl slot tx ix) k)"
proof -
  have "applies (bs58_decode E tx \<noteq> None \<and> True) ss (bind_m (save_changelog_event E cl slot tx ix) k)"
    by (rule applies_logged) (rule assms(1))
  then show ?thesis
    unfolding specified_def
    by (intro exI [of _ ss] conjI assms(2)) (erule applies_weaken, simp)
qed

lemma specified_refused:
  assumes "leaf_write E pr = None" "owner_write E pr = None" "\<And>m. e \<noteq> DownloadMetadataNotify m"
  shows "specified E pr tx (raise_m e)"
    and "k (ce_seq cl) = raise_m e \<Longrightarrow>
      specified E pr tx (bind_m (save_changelog_event E cl slot tx ix) k)"
proof -
  show "specified E pr tx (raise_m e)"
    unfolding specified_def
    using implements_nothing [OF assms(1,2)] applies_raise [OF assms(3)] applies_weaken assms(1,2)
    by blast
  assume k: "k (ce_seq cl) = raise_m e"
  have "applies (bs58_decode E tx \<noteq> None \<and> False) []
      (bind_m (save_changelog_event E cl slot tx ix) k)"
    by (rule applies_logged) (simp add: k commits_raise assms(3))
  then show "specified E pr tx (bind_m (save_changelog_event E cl slot tx ix) k)"
    unfolding specified_def
    using implements_nothing [OF assms(1,2)] applies_weaken assms(1,2) by blast
qed

lemma specified_notify:
  "specified E pr tx h \<Longrightarrow> specified E pr tx (bind_m h (notify_download E))"
  unfolding specified_def using applies_notify by blast

lemma ix_not_parsed_benign [simp]: "ix_not_parsed \<noteq> DownloadMetadataNotify m"
  by (simp add: ix_not_parsed_def)

lemma specified_transfer:
  assumes "bi_instruction pr \<in> plain_leaf_ixs"
  shows "specified E pr (ib_txn_id b) (transfer E pr b s)"
    "specified E pr (ib_txn_id b) (delegation_freezing_nontransferability E pr b s)"
  unfolding transfer_def delegation_freezing_nontransferability_def
  using assms
  by (auto intro!: specifiedI commits_transaction specified_refused
      simp: handler_facts frame_simps decompressed_frames benign_simps stmt_errors
      split: option.split)

lemma burnt_stmt:
  "a_burnt (asset_cur j d) \<Longrightarrow> a_burnt (asset_cur j (snd (upsert_asset_burnt i) d))"
  "\<exists>b. asset_cur j (snd (upsert_asset_burnt k) d) = (asset_cur j d)\<lparr>a_burnt := b\<rparr>"
  by (cases "j = k"; auto simp: asset_cur_burnt)+

lemma specified_burn:
  assumes "bi_instruction pr \<in> {N_Burn, N_BurnV2}"
  shows "specified E pr (ib_txn_id b) (burn E pr b s)"
  unfolding burn_def
  using assms
  by (auto intro!: specifiedI commits_transaction specified_refused
      simp: handler_facts frame_simps decompressed_frames benign_simps stmt_errors burnt_stmt
      split: option.split)

lemma specified_redeem:
  assumes "bi_instruction pr = N_Redeem"
  shows "specified E pr (ib_txn_id b) (redeem E pr b s)"
  unfolding redeem_def
  using assms
  by (auto intro!: specifiedI commits_transaction specified_refused
      simp: handler_facts frame_simps decompressed_frames benign_simps stmt_errors
      split: option.split)

lemma specified_cancel_redeem:
  assumes "bi_instruction pr = N_CancelRedeem"
  shows "specified E pr (ib_txn_id b) (cancel_redeem E pr b s)"
proof (cases "\<exists>le cl. bi_leaf_update pr = Some le \<and> bi_tree_update pr = Some cl")
  case True
  then obtain le cl where up: "bi_leaf_update pr = Some le" "bi_tree_update pr = Some cl" by blast
  show ?thesis
  proof (cases "le_schema le")
    case (LeafSchemaV1 i ow de no dh ch)
    with up assms show ?thesis
      by (auto intro!: specifiedI commits_transaction simp: cancel_redeem_def
          handler_facts frame_simps decompressed_frames benign_simps stmt_errors)
  next
    case (LeafSchemaV2 i ow de no dh ch coh adh fl)
    with up assms show ?thesis
      by (auto intro!: specified_refused(2) [where e = "ParsingError ''LeafSchema V2 not possible for ix''"]
          simp: cancel_redeem_def leaf_write_def owner_write_def Let_def)
  qed
next
  case False
  then have "cancel_redeem E pr b s = raise_m ix_not_parsed"
    by (auto simp: cancel_redeem_def split: option.split)
  with False assms show ?thesis
    by (auto intro!: specified_refused simp: leaf_write_def owner_write_def split: option.split)
qed

lemma specified_creators:
  assumes "bi_instruction pr \<in> creator_ixs"
  shows "specified E pr (ib_txn_id b) (creator_verification_process E pr b s)"
  unfolding creator_verification_process_def
  using assms
  by (auto intro!: specifiedI commits_transaction specified_refused
      simp: handler_facts frame_simps decompressed_frames benign_simps stmt_errors asset_cur_side_tables
      split: option.split payload.split)

lemma specified_collection:
  assumes "bi_instruction pr \<in> collection_ixs"
  shows "specified E pr (ib_txn_id b) (collection_verification_process E pr b s)"
  unfolding collection_verification_process_def
  using assms
  by (auto intro!: specifiedI commits_transaction specified_refused
      simp: handler_facts frame_simps decompressed_frames benign_simps stmt_errors
        asset_cur_side_tables
      split: option.split payload.split)

lemma specified_mint:
  assumes ix: "bi_instruction pr \<in> mint_ixs"
  shows "specified E pr (ib_txn_id b) (mint E pr b s)"
proof (cases "\<exists>le cl m au tree. bi_leaf_update pr = Some le \<and> bi_tree_update pr = Some cl \<and>
    bi_payload pr = Some (P_Mint m au tree)")
  case True
  then obtain le cl m au tree where up: "bi_leaf_update pr = Some le" "bi_tree_update pr = Some cl"
    "bi_payload pr = Some (P_Mint m au tree)" by blast
  show ?thesis
  proof (cases "chain_data_to_value E (mint_chain_data m)")
    case (Inl e)
    with up ix show ?thesis
      by (auto intro!: specified_refused(2) [where e = "DeserializationError e"]
          simp: mint_def mint_chain_data_def handler_facts)
  next
    case (Inr v)
    with up ix show ?thesis
      by (auto intro!: specifiedI commits_return commits_transaction
          simp: mint_def mint_chain_data_def handler_facts frame_simps decompressed_frames
            benign_simps stmt_errors asset_cur_side_tables)
  qed
next
  case False
  then have "mint E pr b s = raise_m ix_not_parsed"
    by (auto simp: mint_def split: option.split payload.split)
  with False ix show ?thesis
    by (auto intro!: specified_refused simp: handler_facts split: option.split payload.split)
qed

lemma specified_update:
  assumes ix: "bi_instruction pr \<in> update_ixs"
  shows "specified E pr (ib_txn_id b) (update_metadata E pr b s)"
proof (cases "\<exists>le cl m u tree. bi_leaf_update pr = Some le \<and> bi_tree_update pr = Some cl \<and>
    bi_payload pr = Some (P_UpdateMetadata m u tree)")
  case True
  then obtain le cl m u tree where up: "bi_leaf_update pr = Some le" "bi_tree_update pr = Some cl"
    "bi_payload pr = Some (P_UpdateMetadata m u tree)" by blast
  show ?thesis
  proof (cases "chain_data_to_value E (update_chain_data m u)")
    case (Inl e)
    with up ix show ?thesis
      by (auto intro!: specified_refused(2) [where e = "DeserializationError e"]
          simp: update_metadata_def update_chain_data_def handler_facts)
  next
    case (Inr v)
    with up ix show ?thesis
      by (auto intro!: specifiedI commits_return commits_transaction
          simp: update_metadata_def update_chain_data_def handler_facts frame_simps
            decompressed_frames benign_simps stmt_errors asset_cur_side_tables)
  qed
next
  case False
  then have "update_metadata E pr b s = raise_m ix_not_parsed"
    by (auto simp: update_metadata_def split: option.split payload.split)
  with False ix show ?thesis
    by (auto intro!: specified_refused simp: handler_facts split: option.split payload.split)
qed

lemma specified_ignored:
  assumes "leaf_write E pr = None" "owner_write E pr = None"
  shows "specified E pr tx (return_m x)"
  unfolding specified_def
  by (intro exI [of _ "[]"] conjI implements_nothing [OF assms] applies_weaken [OF applies_return])
    simp

definition other_ixs :: "instruction_name set" where
  "other_ixs = {N_Unknown, N_DecompressV1, N_Compress, N_CreateTree, N_SetDecompressibleState,
     N_CollectV2, N_CreateTreeV2, N_UpdateAssetDataV2}"

lemma other_ixs_write_nothing:
  assumes "bi_instruction pr \<in> other_ixs"
  shows "leaf_write E pr = None" "owner_write E pr = None"
  using assms unfolding other_ixs_def
  by (elim insertE emptyE; simp add: leaf_write_def owner_write_def leaf_place_def ix_sets Let_def
      split: option.split)+

lemma handle_dispatch:
  "bi_instruction pr \<in> {N_Transfer, N_TransferV2} \<Longrightarrow>
    handle_bubblegum_instruction E pr b = transfer E pr b (ix_str (bi_instruction pr))"
  "bi_instruction pr \<in> plain_leaf_ixs - {N_Transfer, N_TransferV2} \<Longrightarrow>
    handle_bubblegum_instruction E pr b =
      delegation_freezing_nontransferability E pr b (ix_str (bi_instruction pr))"
  "bi_instruction pr \<in> {N_Burn, N_BurnV2} \<Longrightarrow>
    handle_bubblegum_instruction E pr b = burn E pr b (ix_str (bi_instruction pr))"
  "bi_instruction pr = N_Redeem \<Longrightarrow>
    handle_bubblegum_instruction E pr b = redeem E pr b (ix_str (bi_instruction pr))"
  "bi_instruction pr = N_CancelRedeem \<Longrightarrow>
    handle_bubblegum_instruction E pr b = cancel_redeem E pr b (ix_str (bi_instruction pr))"
  "bi_instruction pr \<in> creator_ixs \<Longrightarrow> handle_bubblegum_instruction E pr b =
      creator_verification_process E pr b (ix_str (bi_instruction pr))"
  "bi_instruction pr \<in> collection_ixs \<Longrightarrow> handle_bubblegum_instruction E pr b =
      collection_verification_process E pr b (ix_str (bi_instruction pr))"
  "bi_instruction pr \<in> mint_ixs \<Longrightarrow> handle_bubblegum_instruction E pr b =
      bind_m (mint E pr b (ix_str (bi_instruction pr))) (notify_download E)"
  "bi_instruction pr \<in> update_ixs \<Longrightarrow> handle_bubblegum_instruction E pr b =
      bind_m (update_metadata E pr b (ix_str (bi_instruction pr))) (notify_download E)"
  "bi_instruction pr \<in> other_ixs \<Longrightarrow> handle_bubblegum_instruction E pr b = return_m ()"
  unfolding handle_bubblegum_instruction_def ix_sets other_ixs_def Let_def
  by ((elim insertE emptyE DiffE)?; simp)+

lemma ix_cases:
  "ix \<in> {N_Transfer, N_TransferV2} \<or> ix \<in> plain_leaf_ixs - {N_Transfer, N_TransferV2} \<or>
   ix \<in> {N_Burn, N_BurnV2} \<or> ix = N_Redeem \<or> ix = N_CancelRedeem \<or> ix \<in> creator_ixs \<or>
   ix \<in> collection_ixs \<or> ix \<in> mint_ixs \<or> ix \<in> update_ixs \<or> ix \<in> other_ixs"
  by (cases ix) (simp_all add: ix_sets other_ixs_def)

lemma handle_specified: "specified E pr (ib_txn_id b) (handle_bubblegum_instruction E pr b)"
proof -
  from ix_cases [of "bi_instruction pr"]
  consider "bi_instruction pr \<in> {N_Transfer, N_TransferV2}"
    | "bi_instruction pr \<in> plain_leaf_ixs - {N_Transfer, N_TransferV2}"
    | "bi_instruction pr \<in> {N_Burn, N_BurnV2}" | "bi_instruction pr = N_Redeem"
    | "bi_instruction pr = N_CancelRedeem" | "bi_instruction pr \<in> creator_ixs"
    | "bi_instruction pr \<in> collection_ixs" | "bi_instruction pr \<in> mint_ixs"
    | "bi_instruction pr \<in> update_ixs" | "bi_instruction pr \<in> other_ixs"
    by blast
  then show ?thesis
  proof cases
    case 1
    then have "bi_instruction pr \<in> plain_leaf_ixs" by (auto simp: plain_leaf_ixs_def)
    with 1 show ?thesis by (simp only: handle_dispatch(1) specified_transfer)
  next
    case 2
    then show ?thesis by (subst handle_dispatch(2)) (simp_all add: specified_transfer)
  qed (simp_all only: handle_dispatch(3-) specified_transfer specified_burn specified_redeem
      specified_cancel_redeem specified_creators specified_collection specified_mint
      specified_update specified_notify specified_ignored other_ixs_write_nothing)
qed

section \<open>Delivering instructions\<close>

type_synonym delivery = "bubblegum_instruction \<times> instruction_bundle"

definition deliver :: "ext \<Rightarrow> delivery \<Rightarrow> world \<Rightarrow> world" where
  "deliver E x w = snd (handle_bubblegum_instruction E (fst x) (snd x) w)"

text \<open>
  A delivery as the ingester gets it: the transaction id is base58 (it is a signature), and
  the tree's sequence numbers start at one and stay below \<open>2 ^ 63\<close>.
\<close>

definition legal_delivery :: "ext \<Rightarrow> delivery \<Rightarrow> bool" where
  "legal_delivery E x = (bs58_decode E (ib_txn_id (snd x)) \<noteq> None \<and> seq_ok (fst x))"

lemma only_change_log_cur: "only_change_log d d' \<Longrightarrow> asset_cur i d' = asset_cur i d"
  by (rule asset_cur_other_tables) (simp_all add: only_change_log_def)

lemma implements_facts:
  assumes "implements E pr ss" "only_change_log d0 d"
  shows "leaf_view (asset_cur j (effect ss d)) =
      put (leaf_write E pr) leaf_ver j (alive (asset_cur j d0)) (leaf_view (asset_cur j d0))"
    "owner_view (asset_cur j (effect ss d)) =
      put (owner_write E pr) owner_ver j (alive (asset_cur j d0)) (owner_view (asset_cur j d0))"
    "seq_ok pr \<Longrightarrow> alive (asset_cur j (effect ss d)) = alive (asset_cur j d0)"
    "a_burnt (asset_cur j d0) \<Longrightarrow> a_burnt (asset_cur j (effect ss d))"
    "\<not> alive (asset_cur j d0) \<Longrightarrow>
      \<exists>b. asset_cur j (effect ss d) = (asset_cur j d0)\<lparr>a_burnt := b\<rparr>"
  using assms(1) [unfolded implements_def, THEN spec [of _ d], THEN spec [of _ j]]
    only_change_log_cur [OF assms(2), of j] by simp_all

text \<open>One delivery, whatever the database refuses.\<close>

lemma handle_outcome:
  assumes "handle_bubblegum_instruction E pr b w = (r, w')"
  obtains
    (stored) ss d where "committed r" "implements E pr ss" "only_change_log (w_db w) d"
      "w_db w' = effect ss d"
  | (failed) "\<not> committed r" "only_change_log (w_db w) (w_db w')"
      "\<not> (no_faults w \<and> bs58_decode E (ib_txn_id b) \<noteq> None \<and>
         (leaf_write E pr \<noteq> None \<or> owner_write E pr \<noteq> None))"
proof -
  obtain ss where ss: "implements E pr ss"
    "applies (bs58_decode E (ib_txn_id b) \<noteq> None \<and> (leaf_write E pr \<noteq> None \<or> owner_write E pr \<noteq> None))
       ss (handle_bubblegum_instruction E pr b)"
    using handle_specified [of E pr b] unfolding specified_def by blast
  note A = ss(2) [unfolded applies_def, rule_format, OF assms]
  show thesis
  proof (cases "committed r")
    case True
    with A ss(1) show thesis by (auto intro: stored)
  next
    case False
    with A show thesis by (intro failed) auto
  qed
qed

lemma handle_fault:
  "handle_bubblegum_instruction E pr b w = (r, w') \<Longrightarrow> w_fault w' = w_fault w"
  using handle_specified [of E pr b] unfolding specified_def applies_def by blast

lemma deliver_views:
  assumes "no_faults w" "legal_delivery E x"
  shows "leaf_view (asset_cur j (w_db (deliver E x w))) =
      put (leaf_write E (fst x)) leaf_ver j
        (alive (asset_cur j (w_db w))) (leaf_view (asset_cur j (w_db w)))"
    "owner_view (asset_cur j (w_db (deliver E x w))) =
      put (owner_write E (fst x)) owner_ver j
        (alive (asset_cur j (w_db w))) (owner_view (asset_cur j (w_db w)))"
    "alive (asset_cur j (w_db (deliver E x w))) = alive (asset_cur j (w_db w))"
    "no_faults (deliver E x w)"
proof -
  obtain r w' where run: "handle_bubblegum_instruction E (fst x) (snd x) w = (r, w')" by fastforce
  then have w': "deliver E x w = w'" by (simp add: deliver_def)
  show "no_faults (deliver E x w)"
    using handle_fault [OF run] assms(1) by (simp add: w' no_faults_def)
  from run have "leaf_view (asset_cur j (w_db w')) =
        put (leaf_write E (fst x)) leaf_ver j (alive (asset_cur j (w_db w))) (leaf_view (asset_cur j (w_db w))) \<and>
      owner_view (asset_cur j (w_db w')) =
        put (owner_write E (fst x)) owner_ver j (alive (asset_cur j (w_db w))) (owner_view (asset_cur j (w_db w))) \<and>
      alive (asset_cur j (w_db w')) = alive (asset_cur j (w_db w))"
  proof (cases rule: handle_outcome)
    case (stored ss d)
    with implements_facts [OF stored(2,3), of j] assms(2) show ?thesis
      by (simp add: legal_delivery_def)
  next
    case failed
    with assms have "leaf_write E (fst x) = None" "owner_write E (fst x) = None"
      by (auto simp only: legal_delivery_def)
    with failed(2) show ?thesis by (simp add: only_change_log_cur)
  qed
  then show "leaf_view (asset_cur j (w_db (deliver E x w))) =
      put (leaf_write E (fst x)) leaf_ver j
        (alive (asset_cur j (w_db w))) (leaf_view (asset_cur j (w_db w)))"
    "owner_view (asset_cur j (w_db (deliver E x w))) =
      put (owner_write E (fst x)) owner_ver j
        (alive (asset_cur j (w_db w))) (owner_view (asset_cur j (w_db w)))"
    "alive (asset_cur j (w_db (deliver E x w))) = alive (asset_cur j (w_db w))"
    by (simp_all add: w')
qed

text \<open>Every write is stamped with the sequence number of the change log event.\<close>

definition delivery_seq :: "delivery \<Rightarrow> i64" where
  "delivery_seq x = (case bi_tree_update (fst x) of None \<Rightarrow> 0 | Some cl \<Rightarrow> as_i64 (ce_seq cl))"

definition writes_to :: "('a \<times> 'v) option \<Rightarrow> 'a \<Rightarrow> bool" where
  "writes_to wr i = (case wr of None \<Rightarrow> False | Some (k, _) \<Rightarrow> k = i)"

definition written :: "('a \<times> 'v) option \<Rightarrow> 'v" where
  "written wr = (case wr of Some (_, v) \<Rightarrow> v)"

lemma write_stamps:
  "leaf_write E (fst x) = Some (i, v) \<Longrightarrow> leaf_ver v = Some (delivery_seq x)"
  "owner_write E (fst x) = Some (i, v') \<Longrightarrow> owner_ver v' = Some (delivery_seq x)"
  by (auto simp: leaf_write_def owner_write_def leaf_ver_def owner_ver_def leaf_value_def
      delivery_seq_def Let_def split: option.splits if_splits)

interpretation leaf: lww_framed "deliver E" "\<lambda>w. leaf_view (asset_cur i (w_db w))"
    "\<lambda>x. written (leaf_write E (fst x))" delivery_seq leaf_ver acc_ge
    "\<lambda>w. no_faults w \<and> alive (asset_cur i (w_db w))"
    "\<lambda>x. legal_delivery E x \<and> writes_to (leaf_write E (fst x)) i" "legal_delivery E" for E i
  by unfold_locales
    (auto simp: deliver_views put_def writes_to_def written_def write_stamps split: option.splits)

interpretation owner: lww_framed "deliver E" "\<lambda>w. owner_view (asset_cur i (w_db w))"
    "\<lambda>x. written (owner_write E (fst x))" delivery_seq owner_ver acc_ge
    "\<lambda>w. no_faults w \<and> alive (asset_cur i (w_db w))"
    "\<lambda>x. legal_delivery E x \<and> writes_to (owner_write E (fst x)) i" "legal_delivery E" for E i
  by unfold_locales
    (auto simp: deliver_views put_def writes_to_def written_def write_stamps split: option.splits)

section \<open>Concrete inputs\<close>

text \<open>
  A transfer of one leaf with a chosen owner and sequence number.
\<close>

definition change0 :: "u64 \<Rightarrow> change_log_event" where
  "change0 s = \<lparr>ce_id = [9], ce_path = [\<lparr>pn_node = [5], pn_index = 2\<rparr>, \<lparr>pn_node = [6], pn_index = 1\<rparr>],
     ce_seq = s, ce_index = 0\<rparr>"

definition transfer0 :: "pubkey \<Rightarrow> u64 \<Rightarrow> delivery" where
  "transfer0 ow s =
    (\<lparr>bi_instruction = N_Transfer, bi_tree_update = Some (change0 s),
      bi_leaf_update = Some \<lparr>le_version = Version_V1, le_schema = LeafSchemaV1 [3] ow ow 0 [1] [2],
        le_leaf_hash = [5]\<rparr>, bi_payload = None\<rparr>,
     \<lparr>ib_txn_id = ''tx'', ib_program = [7], ib_instruction = None, ib_inner_ix = None,
      ib_keys = [], ib_slot = 100 + s\<rparr>)"

text \<open>A mint whose address ends in a blank.\<close>

definition padded_mint0 :: delivery where
  "padded_mint0 =
    (\<lparr>bi_instruction = N_MintV1, bi_tree_update = Some (change0 1),
      bi_leaf_update = Some \<lparr>le_version = Version_V1, le_schema = LeafSchemaV1 [3] [4] [4] 0 [1] [2], le_leaf_hash = [5]\<rparr>,
      bi_payload = Some (P_Mint \<lparr>ma_name = ''n'', ma_symbol = ''s'', ma_uri = ''u '', ma_seller_fee_basis_points = 0,
        ma_primary_sale_happened = False, ma_is_mutable = True, ma_edition_nonce = None, ma_token_standard = None,
        ma_collection = None, ma_uses = None, ma_creators = []\<rparr> [8] [9])\<rparr>,
     \<lparr>ib_txn_id = ''tx'', ib_program = [7], ib_instruction = None, ib_inner_ix = None, ib_keys = [], ib_slot = 101\<rparr>)"

lemmas sample_defs = ext0_def world0_def change0_def transfer0_def empty_db_def

lemma transfer0_facts:
  "no_faults world0" "alive (asset_cur [3] (w_db world0))"
  "legal_delivery ext0 (transfer0 ow 1)" "legal_delivery ext0 (transfer0 ow 2)"
  "delivery_seq (transfer0 ow s) = as_i64 s" "as_i64 1 = 1" "as_i64 2 = 2"
  "owner_write ext0 (fst (transfer0 ow s)) = Some ([3], Some ow, None, Some (as_i64 s))"
  "a_leaf_seq (asset_cur [3] (w_db world0)) = None"
  "a_owner_delegate_seq (asset_cur [3] (w_db world0)) = None"
  by (simp_all add: sample_defs no_faults_def asset_cur_def asset_default_def alive_def
      legal_delivery_def seq_ok_def delivery_seq_def as_i64_def owner_write_def leaf_place_def
      plain_leaf_ixs_def creator_ixs_def collection_ixs_def update_ixs_def stored_delegate_def
      Let_def)

section \<open>Properties\<close>

text \<open>
  C2: Convergence. Deliver the same Bubblegum instructions in two orders, each any number of
  times, to a database that accepts every statement and in which asset \<open>i\<close> is not
  decompressed. If instructions with one sequence number agree on what they write to \<open>i\<close>, and
  none of them ties with what is stored, both databases hold the same leaf columns (nonce,
  tree, leaf hash, data and creator hash, frozen) and the same owner columns for \<open>i\<close>.
\<close>

theorem bubblegum_convergence:
  assumes "no_faults w" "alive (asset_cur i (w_db w))"
    and legal: "\<forall>x\<in>set xs. legal_delivery E x" and sets: "set xs = set ys"
    and agree: "\<forall>x\<in>set xs. \<forall>y\<in>set xs. delivery_seq x = delivery_seq y \<longrightarrow>
      (writes_to (leaf_write E (fst x)) i \<longrightarrow> writes_to (leaf_write E (fst y)) i \<longrightarrow>
        leaf_write E (fst x) = leaf_write E (fst y)) \<and>
      (writes_to (owner_write E (fst x)) i \<longrightarrow> writes_to (owner_write E (fst y)) i \<longrightarrow>
        owner_write E (fst x) = owner_write E (fst y))"
    and fresh: "\<forall>x\<in>set xs. a_leaf_seq (asset_cur i (w_db w)) \<noteq> Some (delivery_seq x) \<and>
      a_owner_delegate_seq (asset_cur i (w_db w)) \<noteq> Some (delivery_seq x)"
  shows "leaf_view (asset_cur i (w_db (fold (deliver E) xs w))) =
      leaf_view (asset_cur i (w_db (fold (deliver E) ys w))) \<and>
    owner_view (asset_cur i (w_db (fold (deliver E) xs w))) =
      owner_view (asset_cur i (w_db (fold (deliver E) ys w)))"
proof
  have inv: "no_faults w \<and> alive (asset_cur i (w_db w))" using assms(1,2) ..
  have vv: "leaf_ver (leaf_view r) = a_leaf_seq r" "owner_ver (owner_view r) = a_owner_delegate_seq r"
    for r by (simp_all add: leaf_ver_def leaf_view_def owner_ver_def owner_view_def)
  show "leaf_view (asset_cur i (w_db (fold (deliver E) xs w))) =
      leaf_view (asset_cur i (w_db (fold (deliver E) ys w)))"
  proof (rule leaf.convergence_framed [OF inv legal sets])
    show "\<forall>x\<in>set xs. \<forall>y\<in>set xs. legal_delivery E x \<and> writes_to (leaf_write E (fst x)) i \<longrightarrow>
        legal_delivery E y \<and> writes_to (leaf_write E (fst y)) i \<longrightarrow>
        delivery_seq x = delivery_seq y \<longrightarrow>
        written (leaf_write E (fst x)) = written (leaf_write E (fst y))"
      using agree by metis
  qed (use fresh vv in metis)
  show "owner_view (asset_cur i (w_db (fold (deliver E) xs w))) =
      owner_view (asset_cur i (w_db (fold (deliver E) ys w)))"
  proof (rule owner.convergence_framed [OF inv legal sets])
    show "\<forall>x\<in>set xs. \<forall>y\<in>set xs. legal_delivery E x \<and> writes_to (owner_write E (fst x)) i \<longrightarrow>
        legal_delivery E y \<and> writes_to (owner_write E (fst y)) i \<longrightarrow>
        delivery_seq x = delivery_seq y \<longrightarrow>
        written (owner_write E (fst x)) = written (owner_write E (fst y))"
      using agree by metis
  qed (use fresh vv in metis)
qed

theorem bubblegum_convergence_witness:
  "leaf_view (asset_cur [3] (w_db (fold (deliver ext0) [transfer0 [1] 1, transfer0 [2] 2] world0))) =
     leaf_view (asset_cur [3] (w_db (fold (deliver ext0) [transfer0 [2] 2, transfer0 [1] 1] world0))) \<and>
   owner_view (asset_cur [3] (w_db (fold (deliver ext0) [transfer0 [1] 1, transfer0 [2] 2] world0))) =
     owner_view (asset_cur [3] (w_db (fold (deliver ext0) [transfer0 [2] 2, transfer0 [1] 1] world0)))"
  by (rule bubblegum_convergence) (auto simp: transfer0_facts)

text \<open>
  C3: The newest update is what the index shows. Whatever the order of the deliveries, if
  \<open>x\<close> has the greatest sequence number of those that write the owner of asset \<open>i\<close> and that number
  is above what is stored, the row ends with exactly the owner and delegate of \<open>x\<close>.
\<close>

theorem newest_owner_wins:
  assumes "no_faults w" "alive (asset_cur i (w_db w))"
    and "\<forall>y\<in>set xs. legal_delivery E y"
    and x: "x \<in> set xs" "owner_write E (fst x) = Some (i, v)"
    and newest: "\<forall>y\<in>set xs. writes_to (owner_write E (fst y)) i \<longrightarrow> y \<noteq> x \<longrightarrow> delivery_seq y < delivery_seq x"
    and stored: "\<forall>m. a_owner_delegate_seq (asset_cur i (w_db w)) = Some m \<longrightarrow> m < delivery_seq x"
  shows "owner_view (asset_cur i (w_db (fold (deliver E) xs w))) = v"
proof -
  have inv: "no_faults w \<and> alive (asset_cur i (w_db w))" using assms(1,2) ..
  have vv: "owner_ver (owner_view r) = a_owner_delegate_seq r" for r
    by (simp add: owner_ver_def owner_view_def)
  have wx: "writes_to (owner_write E (fst x)) i" "written (owner_write E (fst x)) = v"
    using x(2) by (simp_all add: writes_to_def written_def)
  have "owner_view (asset_cur i (w_db (fold (deliver E) xs w))) = written (owner_write E (fst x))"
  proof (rule owner.newest_wins_framed [OF inv assms(3) x(1)])
    show "legal_delivery E x \<and> writes_to (owner_write E (fst x)) i" using assms(3) x(1) wx by blast
    show "\<forall>y\<in>set xs. legal_delivery E y \<and> writes_to (owner_write E (fst y)) i \<longrightarrow>
        delivery_seq y \<le> delivery_seq x"
      using newest by force
    show "\<forall>y\<in>set xs. legal_delivery E y \<and> writes_to (owner_write E (fst y)) i \<longrightarrow>
        delivery_seq y = delivery_seq x \<longrightarrow>
        written (owner_write E (fst y)) = written (owner_write E (fst x))"
      using newest by force
  qed (use stored vv in metis)
  with wx show ?thesis by simp
qed

theorem newest_owner_wins_witness:
  "owner_view (asset_cur [3] (w_db (fold (deliver ext0) [transfer0 [2] 2, transfer0 [1] 1] world0))) =
     (Some [2], None, Some 2)"
  by (rule newest_owner_wins [where x = "transfer0 [2] 2"]) (auto simp: transfer0_facts)

text \<open>The errors a Bubblegum handler raises itself.\<close>

definition own_error :: "program_transformer_error \<Rightarrow> bool" where
  "own_error e \<longleftrightarrow> e \<noteq> NotImplemented \<and> (\<forall>m. e \<noteq> DownloadMetadataNotify m)"

definition quiet_errors :: "'a handler \<Rightarrow> bool" where
  "quiet_errors h \<longleftrightarrow> (\<forall>w e w'. h w = (Inl e, w') \<longrightarrow> own_error e)"

lemma own_error_simps [simp]:
  "own_error (StorageWriteError m)" "own_error (AssetIndexError m)" "own_error (DeserializationError m)"
  "own_error (ParsingError m)" "own_error ChangeLogEventMalformed" "own_error ix_not_parsed"
  by (simp_all add: own_error_def ix_not_parsed_def)

definition own_errors :: "stmt list \<Rightarrow> bool" where
  "own_errors ss \<longleftrightarrow> (\<forall>s\<in>set ss. \<forall>m. own_error (fst s m))"

lemma own_errors_simps: "own_errors []" "own_errors (s # ss) \<longleftrightarrow> (\<forall>m. own_error (fst s m)) \<and> own_errors ss"
  by (simp_all add: own_errors_def)

lemma quiet_errors_simps:
  "quiet_errors (return_m x)"
  "quiet_errors (raise_m e) \<longleftrightarrow> own_error e"
  by (auto simp: quiet_errors_def return_m_def raise_m_def)

lemma quiet_errors_bind: "quiet_errors h \<Longrightarrow> (\<And>x. quiet_errors (k x)) \<Longrightarrow> quiet_errors (bind_m h k)"
  unfolding quiet_errors_def bind_m_def by (fastforce split: prod.splits sum.splits)

lemma quiet_errors_run_all: "own_errors ss \<Longrightarrow> quiet_errors (run_all ss)"
  unfolding quiet_errors_def own_errors_def using run_all_error by blast

lemma quiet_errors_transaction:
  assumes "own_errors ss"
  shows "quiet_errors (transaction ss)"
proof -
  have "quiet_errors (run_all (control # ss @ [control]))"
    by (rule quiet_errors_run_all) (use assms in \<open>auto simp: own_errors_def control_def\<close>)
  then show ?thesis
    unfolding quiet_errors_def transaction_def by (fastforce split: prod.splits sum.splits)
qed

lemma quiet_errors_save: "quiet_errors (save_changelog_event E cl slot tx ix)"
proof -
  have "quiet_errors (run_all (cl_item_stmts cl))"
    by (rule quiet_errors_run_all) (auto simp: own_errors_def cl_item_stmts_rows upsert_cl_item_def)
  moreover have "quiet_errors (ignore_error h)" "quiet_errors (query StorageWriteError f)"
    "quiet_errors (execute (backfill_stmt cl slot b))" for h :: "unit handler" and f :: "db \<Rightarrow> 'b" and b
    by (auto simp: quiet_errors_def ignore_error_def query_def execute_def backfill_stmt_def
        split: option.splits prod.splits)
  ultimately show ?thesis
    unfolding save_changelog_event_def insert_change_log_def
    by (intro quiet_errors_bind) (auto simp: quiet_errors_simps intro!: quiet_errors_bind split: option.split)
qed

lemma quiet_errors_handlers:
  "quiet_errors (transfer E pr b s)" "quiet_errors (burn E pr b s)"
  "quiet_errors (delegation_freezing_nontransferability E pr b s)" "quiet_errors (redeem E pr b s)"
  "quiet_errors (cancel_redeem E pr b s)" "quiet_errors (collection_verification_process E pr b s)"
  "quiet_errors (creator_verification_process E pr b s)"
  "quiet_errors (mint E pr b s)" "quiet_errors (update_metadata E pr b s)"
  unfolding transfer_def burn_def delegation_freezing_nontransferability_def redeem_def cancel_redeem_def
    collection_verification_process_def creator_verification_process_def mint_def update_metadata_def Let_def
    leaf_stmt_def owner_stmt_def
  by (auto simp: quiet_errors_simps own_errors_simps stmt_errors
      intro!: quiet_errors_bind quiet_errors_save quiet_errors_transaction
      split: option.split prod.split leaf_schema.split payload.split sum.split)

lemma quiet_notified:
  assumes "quiet_errors h" "bind_m h (notify_download E) w = (Inl e, w')"
  shows "e \<noteq> NotImplemented"
proof -
  obtain r w1 where h: "h w = (r, w1)" by fastforce
  with assms show ?thesis
    by (cases r) (auto simp: bind_m_def notify_download_def quiet_errors_def own_error_def split: option.splits)
qed

lemma handle_errors:
  assumes "handle_bubblegum_instruction E pr b w = (Inl e, w')"
  shows "e \<noteq> NotImplemented"
proof
  assume e: "e = NotImplemented"
  have ne: "h w \<noteq> (Inl e, w')" if "quiet_errors h" for h :: "unit handler"
    using that unfolding quiet_errors_def e own_error_def by blast
  have "bind_m h (notify_download E) w \<noteq> (Inl e, w')" if "quiet_errors h" for h
    using quiet_notified [OF that] e by blast
  then show False
    using assms quiet_errors_handlers(1-7) [THEN ne] quiet_errors_handlers(8,9) quiet_errors_simps(1) [THEN ne]
    unfolding handle_bubblegum_instruction_def Let_def by (auto split: if_splits)
qed

text \<open>The notifier only matters where it is called.\<close>

lemma notifier_ignored_stmts:
  "save_changelog_event (E\<lparr>notifier := n\<rparr>) = save_changelog_event E"
  "leaf_stmt (E\<lparr>notifier := n\<rparr>) = leaf_stmt E"
  "upsert_collection_info (E\<lparr>notifier := n\<rparr>) = upsert_collection_info E"
  "chain_data_to_value (E\<lparr>notifier := n\<rparr>) = chain_data_to_value E"
  by (simp_all add: fun_eq_iff save_changelog_event_def insert_change_log_def leaf_stmt_def
      upsert_asset_with_leaf_info_def upsert_collection_info_def Let_def cong: option.case_cong)

lemma notifier_ignored:
  "mint (E\<lparr>notifier := n\<rparr>) = mint E" "update_metadata (E\<lparr>notifier := n\<rparr>) = update_metadata E"
  unfolding fun_eq_iff mint_def update_metadata_def notifier_ignored_stmts by simp_all

lemma notified_error:
  assumes "quiet_errors (h :: download_metadata_info option handler)"
    and "bind_m h (notify_download E) w = (Inl (DownloadMetadataNotify m), w')"
  shows "\<exists>w''. bind_m h (notify_download (E\<lparr>notifier := \<lambda>_. None\<rparr>)) w = (Inr (), w'') \<and> w_db w'' = w_db w'"
proof -
  obtain r w1 where h: "h w = (r, w1)" by fastforce
  with assms(1) have "r \<noteq> Inl (DownloadMetadataNotify m)" unfolding quiet_errors_def own_error_def by blast
  with assms(2) h show ?thesis
    by (cases r) (auto simp: bind_m_def notify_download_def split: option.splits)
qed

text \<open>
  C6: All or nothing, and the error tells which. Whatever statements the database refuses, a handler that returns
  an error of its own has changed no table but those of the change log. The one error that comes after the commit is
  that of the download notifier: then the tables hold what they would hold had the notification gone through.
\<close>

theorem failed_instruction_leaves_assets:
  assumes "handle_bubblegum_instruction E pr b w = (Inl e, w')"
  shows "if \<exists>m. e = DownloadMetadataNotify m
    then \<exists>w''. handle_bubblegum_instruction (E\<lparr>notifier := \<lambda>_. None\<rparr>) pr b w = (Inr (), w'') \<and> w_db w' = w_db w''
    else only_change_log (w_db w) (w_db w')"
proof (cases "\<exists>m. e = DownloadMetadataNotify m")
  case True
  then obtain m where e: "e = DownloadMetadataNotify m" by blast
  have ne: "h w \<noteq> (Inl e, w')" if "quiet_errors h" for h :: "unit handler"
    using that unfolding quiet_errors_def own_error_def e by blast
  let ?ix = "bi_instruction pr"
  note run = assms [unfolded handle_bubblegum_instruction_def Let_def]
  have "?ix \<in> {N_MintV1, N_MintToCollectionV1, N_MintV2} \<or> ?ix \<in> {N_UpdateMetadata, N_UpdateMetadataV2}"
    using run quiet_errors_simps(1) [THEN ne] quiet_errors_handlers(1-7) [THEN ne] by (auto split: if_splits)
  then show ?thesis
    using run quiet_errors_handlers(8,9) [THEN notified_error, of E pr b "ix_str ?ix" E w m w']
    by (auto simp: e handle_bubblegum_instruction_def Let_def notifier_ignored)
next
  case False
  then have "\<not> committed (Inl e :: unit pt_result)" by (simp add: committed_Inl)
  with assms False show ?thesis
    by (cases rule: handle_outcome) simp_all
qed

theorem failed_instruction_leaves_assets_witness:
  "only_change_log (w_db world0)
    (w_db (snd (handle_bubblegum_instruction ext0
       (fst (transfer0 [1] 1)) (snd (transfer0 [1] 1)) (world0\<lparr>w_fault := (\<lambda>n. if n = 6 then Some ''lost'' else None)\<rparr>)))) \<and>
   w_db (snd (handle_bubblegum_instruction (ext0\<lparr>notifier := \<lambda>_. Some ''full''\<rparr>) (fst padded_mint0) (snd padded_mint0) world0)) =
   w_db (snd (handle_bubblegum_instruction (ext0\<lparr>notifier := \<lambda>_. None\<rparr>) (fst padded_mint0) (snd padded_mint0) world0))"
proof
  let ?w = "world0\<lparr>w_fault := (\<lambda>n. if n = 6 then Some ''lost'' else None)\<rparr>"
  let ?h = "handle_bubblegum_instruction ext0 (fst (transfer0 [1] 1)) (snd (transfer0 [1] 1)) ?w"
  have "fst ?h = Inl (StorageWriteError ''lost'')" by code_simp
  then have "?h = (Inl (StorageWriteError ''lost''), snd ?h)" by (simp add: prod_eq_iff)
  from failed_instruction_leaves_assets [OF this] show "only_change_log (w_db world0) (w_db (snd ?h))" by simp
next
  let ?g = "handle_bubblegum_instruction (ext0\<lparr>notifier := \<lambda>_. Some ''full''\<rparr>) (fst padded_mint0) (snd padded_mint0) world0"
  have "fst ?g = Inl (DownloadMetadataNotify ''full'')" by code_simp
  then have "?g = (Inl (DownloadMetadataNotify ''full''), snd ?g)" by (simp add: prod_eq_iff)
  from failed_instruction_leaves_assets [OF this]
  show "w_db (snd ?g) = w_db (snd (handle_bubblegum_instruction (ext0\<lparr>notifier := \<lambda>_. None\<rparr>)
      (fst padded_mint0) (snd padded_mint0) world0))"
    by auto
qed

text \<open>
  C26: Decompressed assets are out of reach. Once an account handler has stored \<open>seq = 0\<close>,
  no Bubblegum instruction changes the asset's row, whatever the database does, other than
  to mark it burnt.
\<close>

theorem decompressed_row_frozen:
  assumes "handle_bubblegum_instruction E pr b w = (r, w')"
    and "a_seq (asset_cur i (w_db w)) = Some 0"
  shows "\<exists>bt. asset_cur i (w_db w') = (asset_cur i (w_db w))\<lparr>a_burnt := bt\<rparr>"
proof -
  have na: "\<not> alive (asset_cur i (w_db w))" using assms(2) by (simp add: alive_def)
  from assms(1) show ?thesis
  proof (cases rule: handle_outcome)
    case (stored ss d)
    with implements_facts(5) [OF stored(2,3) na] show ?thesis by simp
  next
    case failed
    then show ?thesis by (simp add: only_change_log_cur)
  qed
qed

theorem decompressed_row_frozen_witness:
  "\<exists>bt. asset_cur [3] (w_db (snd (handle_bubblegum_instruction ext0 (fst (transfer0 [1] 1))
      (snd (transfer0 [1] 1)) (world0\<lparr>w_db := empty_db\<lparr>asset_t := [(asset_default 0 [3])\<lparr>a_seq := Some 0\<rparr>]\<rparr>\<rparr>)))) =
    (asset_default 0 [3])\<lparr>a_seq := Some 0, a_burnt := bt\<rparr>"
  using decompressed_row_frozen [where i = "[3]" and E = ext0 and pr = "fst (transfer0 [1] 1)"
      and b = "snd (transfer0 [1] 1)",
      of "world0\<lparr>w_db := empty_db\<lparr>asset_t := [(asset_default 0 [3])\<lparr>a_seq := Some 0\<rparr>]\<rparr>\<rparr>", OF prod.collapse [symmetric]]
  by (simp add: asset_cur_def)

text \<open>
  C27: A burnt asset stays burnt: no sequence of Bubblegum instructions, delivered to a
  database that fails as it likes, clears the mark.
\<close>

theorem burnt_is_final:
  assumes "a_burnt (asset_cur i (w_db w))"
  shows "a_burnt (asset_cur i (w_db (fold (deliver E) xs w)))"
  using assms
proof (induction xs arbitrary: w)
  case (Cons x xs)
  obtain r w' where run: "handle_bubblegum_instruction E (fst x) (snd x) w = (r, w')" by fastforce
  from run have "a_burnt (asset_cur i (w_db w'))"
  proof (cases rule: handle_outcome)
    case (stored ss d)
    with implements_facts(4) [OF stored(2,3) Cons.prems] show ?thesis by simp
  next
    case failed
    with Cons.prems show ?thesis by (simp add: only_change_log_cur)
  qed
  with Cons.IH [of w'] run show ?case by (simp add: deliver_def)
qed simp

theorem burnt_is_final_witness:
  "a_burnt (asset_cur [3] (w_db (fold (deliver ext0) [transfer0 [1] 1]
     (world0\<lparr>w_db := empty_db\<lparr>asset_t := [(asset_default 0 [3])\<lparr>a_burnt := True\<rparr>]\<rparr>\<rparr>))))"
  by (rule burnt_is_final) (simp add: asset_cur_def)

end
