(* ===== verification/Merkle_Proof.thy ===== *)
theory Merkle_Proof
  imports Change_Log "HOL-Library.AList"
begin

text \<open>
  Serving Merkle proofs from the change log: \<open>digital_asset_types/src/dapi/change_logs.rs\<close>. The
  ingester and this reader meet in the table \<open>cl_items\<close>; the theorem that joins them says that
  the proof served for a leaf hashes up to the root of the tree as it is after all updates,
  in whatever order they were ingested.
\<close>

section \<open>The reader\<close>

datatype dapi_error =
    RecordNotFound string
  | DbCustom string
  | Panic

type_synonym 'a dapi_result = "dapi_error + 'a"

record simple_change_log =
  sc_hash :: bytes
  sc_level :: i64
  sc_node_idx :: i64
  sc_seq :: i64
  sc_tree :: bytes

definition simple_change_log_default :: simple_change_log where
  "simple_change_log_default =
     \<lparr>sc_hash = [], sc_level = 0, sc_node_idx = 0, sc_seq = 0, sc_tree = []\<rparr>"

record leaf_info =
  li_id :: bytes
  li_tree_id :: bytes
  li_leaf_idx :: i64
  li_node_idx :: i64
  li_hash :: bytes

record asset_proof =
  ap_root :: string
  ap_proof :: "string list"
  ap_node_index :: i64
  ap_leaf :: string
  ap_tree_id :: string

function get_required_nodes_for_proof :: "i64 \<Rightarrow> i64 list" where
  "get_required_nodes_for_proof idx =
     (if idx > 1
      then (if idx mod 2 = 0 then idx + 1 else idx - 1) # get_required_nodes_for_proof (idx div 2)
      else [1])"
  by pat_completeness auto
termination by (relation "measure nat") auto

declare get_required_nodes_for_proof.simps [simp del]

text \<open>\<open>empty_node\<close> is spl-concurrent-merkle-tree's; \<open>lvl as u32\<close> truncates.\<close>

definition make_empty_node :: "(nat \<Rightarrow> hash) \<Rightarrow> i64 \<Rightarrow> i64 \<Rightarrow> bytes \<Rightarrow> simple_change_log" where
  "make_empty_node empty_node lvl node_index tree =
     \<lparr>sc_hash = empty_node (unat (word_of_int lvl :: u32)), sc_level = lvl,
      sc_node_idx = node_index, sc_seq = 0, sc_tree = tree\<rparr>"

text \<open>The first loop: a negative level passes the guard and then indexes out of bounds.\<close>

fun place_nodes :: "simple_change_log list \<Rightarrow> simple_change_log list \<Rightarrow> simple_change_log list dapi_result" where
  "place_nodes [] final_node_list = Inr final_node_list"
| "place_nodes (node # nodes) final_node_list =
    (if sc_level node < int (length final_node_list) then
       (if sc_level node < 0 then Inl Panic
        else place_nodes nodes (final_node_list[nat (sc_level node) := node]))
     else place_nodes nodes final_node_list)"

definition fill_empty :: "(nat \<Rightarrow> hash) \<Rightarrow> bytes \<Rightarrow> i64 list \<Rightarrow> simple_change_log list \<Rightarrow> simple_change_log list" where
  "fill_empty empty_node tree_id req_indexes final_node_list =
     map (\<lambda>(i, n, nin). if n = simple_change_log_default
            then make_empty_node empty_node (int i) nin tree_id else n)
       (enumerate 0 (zip final_node_list req_indexes))"

definition build_asset_proof :: "ext \<Rightarrow> (nat \<Rightarrow> hash) \<Rightarrow> bytes \<Rightarrow> i64 \<Rightarrow> hash \<Rightarrow> i64 list \<Rightarrow>
    simple_change_log list \<Rightarrow> asset_proof dapi_result" where
  "build_asset_proof E empty_node tree_id leaf_node_idx leaf_hash req_indexes required_nodes =
    (case place_nodes required_nodes (replicate (length req_indexes) simple_change_log_default) of
       Inl e \<Rightarrow> Inl e
     | Inr placed \<Rightarrow>
        (let final_node_list = fill_empty empty_node tree_id req_indexes placed in
         if final_node_list = [] then Inl Panic
         else Inr \<lparr>ap_root = bs58_encode E (sc_hash (last final_node_list)),
                   ap_proof = map (\<lambda>model. bs58_encode E (sc_hash model)) (butlast final_node_list),
                   ap_node_index = leaf_node_idx, ap_leaf = bs58_encode E leaf_hash,
                   ap_tree_id = bs58_encode E tree_id\<rparr>))"

definition simple_of :: "cl_items \<Rightarrow> simple_change_log" where
  "simple_of r = \<lparr>sc_hash = cl_hash r, sc_level = cl_level r, sc_node_idx = cl_node_idx r,
     sc_seq = cl_seq r, sc_tree = cl_tree r\<rparr>"

definition sql_eq :: "'a option \<Rightarrow> 'a option \<Rightarrow> bool" where
  "sql_eq a b = holds (sql_cmp (=) a b)"

text \<open>\<open>SELECT DISTINCT ON (k)\<close>: of the ordered rows, the first with each key.\<close>

fun distinct_on :: "('a \<Rightarrow> 'k) \<Rightarrow> 'a list \<Rightarrow> 'a list" where
  "distinct_on k [] = []"
| "distinct_on k (x # xs) = x # distinct_on k (filter (\<lambda>y. k y \<noteq> k x) xs)"

definition proof_leaves :: "db \<Rightarrow> bytes \<Rightarrow> cl_items list" where
  "proof_leaves d asset_id =
     sort_key (\<lambda>c. - cl_seq c)
       (concat (map (\<lambda>c. map (\<lambda>_. c)
          (filter (\<lambda>a. sql_eq (a_nonce a) (cl_leaf_idx c) \<and> sql_eq (a_tree_id a) (Some (cl_tree c)) \<and>
                       a_id a = asset_id \<and> cl_level c = 0) (asset_t d)))
        (cl_items_t d)))"

definition get_proof_for_asset :: "ext \<Rightarrow> (nat \<Rightarrow> hash) \<Rightarrow> db \<Rightarrow> bytes \<Rightarrow> asset_proof dapi_result" where
  "get_proof_for_asset E empty_node d asset_id =
    (case proof_leaves d asset_id of
       [] \<Rightarrow> Inl (RecordNotFound ''Asset Proof Not Found'')
     | leaf # _ \<Rightarrow>
        (let req_indexes = get_required_nodes_for_proof (cl_node_idx leaf);
             required_nodes = map simple_of (distinct_on cl_node_idx
               (sort_key (\<lambda>c. - cl_node_idx c)
                 (filter (\<lambda>c. cl_node_idx c \<in> set req_indexes \<and> cl_tree c = cl_tree leaf) (cl_items_t d))))
         in build_asset_proof E empty_node (cl_tree leaf) (cl_node_idx leaf) (cl_hash leaf)
              req_indexes required_nodes))"

text \<open>
  \<open>get_asset_proofs\<close>: the maps are association lists with one entry per key, so iterating over
  them follows some order, as iterating over a \<open>HashMap\<close> does.
\<close>

definition batch_leaves :: "db \<Rightarrow> bytes list \<Rightarrow> leaf_info list" where
  "batch_leaves d asset_ids =
     concat (map (\<lambda>a. map (\<lambda>c. \<lparr>li_id = a_id a, li_tree_id = cl_tree c, li_leaf_idx = the (cl_leaf_idx c),
                                 li_node_idx = cl_node_idx c, li_hash = cl_hash c\<rparr>)
         (filter (\<lambda>c. sql_eq (a_nonce a) (cl_leaf_idx c) \<and> sql_eq (a_tree_id a) (Some (cl_tree c)) \<and>
                      a_id a \<in> set asset_ids) (cl_items_t d)))
       (asset_t d))"

definition leaf_key :: "leaf_info \<Rightarrow> bytes \<times> i64" where
  "leaf_key l = (li_tree_id l, li_leaf_idx l)"

definition collect_map :: "('a \<Rightarrow> 'k) \<Rightarrow> ('a \<Rightarrow> 'v) \<Rightarrow> 'a list \<Rightarrow> ('k \<times> 'v) list" where
  "collect_map k v xs = fold (\<lambda>x m. AList.update (k x) (v x) m) xs []"

definition batch_nodes :: "db \<Rightarrow> ((bytes \<times> i64) \<times> i64 list) list \<Rightarrow> simple_change_log list" where
  "batch_nodes d tree_indexes =
     map simple_of (filter (\<lambda>c. \<exists>x\<in>set tree_indexes.
       cl_tree c = fst (fst x) \<and> cl_node_idx c \<in> set (snd x)) (cl_items_t d))"

fun batch_proofs :: "ext \<Rightarrow> (nat \<Rightarrow> hash) \<Rightarrow> ((bytes \<times> i64) \<times> leaf_info) list \<Rightarrow>
    ((bytes \<times> i64) \<times> simple_change_log) list \<Rightarrow> ((bytes \<times> i64) \<times> i64 list) list \<Rightarrow>
    (string \<times> asset_proof) list \<Rightarrow> (string \<times> asset_proof) list dapi_result" where
  "batch_proofs E empty_node asset_map node_map [] acc = Inr acc"
| "batch_proofs E empty_node asset_map node_map ((leaf, req_indexes) # rest) acc =
    (case map_of asset_map leaf of
       None \<Rightarrow> Inl Panic
     | Some info \<Rightarrow>
        (case build_asset_proof E empty_node (li_tree_id info) (li_node_idx info) (li_hash info)
                req_indexes (List.map_filter (\<lambda>n. map_of node_map (fst leaf, n)) req_indexes) of
           Inl e \<Rightarrow> Inl e
         | Inr p \<Rightarrow> batch_proofs E empty_node asset_map node_map rest
                     (AList.update (bs58_encode E (li_id info)) p acc)))"

definition get_asset_proofs :: "ext \<Rightarrow> (nat \<Rightarrow> hash) \<Rightarrow> db \<Rightarrow> bytes list \<Rightarrow>
    (string \<times> asset_proof) list dapi_result" where
  "get_asset_proofs E empty_node d asset_ids =
    (let leaves = batch_leaves d asset_ids;
         asset_map = collect_map leaf_key (\<lambda>l. l) leaves;
         tree_indexes = collect_map leaf_key (\<lambda>l. get_required_nodes_for_proof (li_node_idx l)) leaves;
         node_map = collect_map (\<lambda>n. (sc_tree n, sc_node_idx n)) (\<lambda>n. n) (batch_nodes d tree_indexes)
     in batch_proofs E empty_node asset_map node_map tree_indexes [])"

section \<open>Siblings\<close>

definition sib :: "nat \<Rightarrow> nat" where
  "sib q = (if even q then q + 1 else q - 1)"

lemma required_nodes:
  assumes "p < 2 ^ D"
  shows "get_required_nodes_for_proof (int (2 ^ D + p)) =
    map (\<lambda>l. int (2 ^ (D - l) + sib (p div 2 ^ l))) [0..<D] @ [1]"
  using assms
proof (induction D arbitrary: p)
  case 0
  then show ?case by (simp add: get_required_nodes_for_proof.simps)
next
  case (Suc D)
  have half: "int (2 ^ Suc D + p) div 2 = int (2 ^ D + p div 2)"
    by (simp add: zdiv_int)
  have par: "int (2 ^ Suc D + p) mod 2 = 0 \<longleftrightarrow> even p"
    by (simp flip: even_iff_mod_2_eq_zero)
  have big: "int (2 ^ Suc D + p) > 1"
    using one_le_power [of "2::int" D] by (simp del: one_le_power)
  have hd: "(if int (2 ^ Suc D + p) mod 2 = 0 then int (2 ^ Suc D + p) + 1 else int (2 ^ Suc D + p) - 1) =
      int (2 ^ Suc D + sib p)"
    unfolding par by (auto simp: sib_def of_nat_diff elim!: oddE)
  have IH: "get_required_nodes_for_proof (int (2 ^ D + p div 2)) =
    map (\<lambda>l. int (2 ^ (D - l) + sib (p div 2 div 2 ^ l))) [0..<D] @ [1]"
    by (rule Suc.IH) (use Suc.prems in auto)
  have "get_required_nodes_for_proof (int (2 ^ Suc D + p)) =
      int (2 ^ Suc D + sib p) # get_required_nodes_for_proof (int (2 ^ D + p div 2))"
    unfolding hd [symmetric] half [symmetric]
    by (subst get_required_nodes_for_proof.simps) (simp only: big if_True)
  then show ?case
    unfolding IH by (simp add: map_upt_Suc div_mult2_eq del: upt_Suc)
qed

section \<open>The tree the program keeps\<close>

text \<open>
  The specification: a tree of depth \<open>D\<close> is a function from leaf positions to hashes, \<open>node\<close> the
  hash at a level and position, and an update writes one leaf. The event of the \<open>m\<close>-th update
  carries the path of the updated leaf as it is after that update, and \<open>m + 1\<close> as its
  sequence number; node \<open>q\<close> of level \<open>l\<close> has the index \<open>2 ^ (D - l) + q\<close>.
\<close>

fun node :: "(hash \<Rightarrow> hash \<Rightarrow> hash) \<Rightarrow> (nat \<Rightarrow> hash) \<Rightarrow> nat \<Rightarrow> nat \<Rightarrow> hash" where
  "node H T 0 q = T q"
| "node H T (Suc l) q = H (node H T l (2 * q)) (node H T l (2 * q + 1))"

fun empty_hash :: "(hash \<Rightarrow> hash \<Rightarrow> hash) \<Rightarrow> hash \<Rightarrow> nat \<Rightarrow> hash" where
  "empty_hash H z 0 = z"
| "empty_hash H z (Suc l) = H (empty_hash H z l) (empty_hash H z l)"

definition tree_after :: "hash \<Rightarrow> (nat \<times> hash) list \<Rightarrow> nat \<Rightarrow> hash" where
  "tree_after z us = fold (\<lambda>(p, v) T. T(p := v)) us (\<lambda>_. z)"

definition node_index :: "nat \<Rightarrow> nat \<Rightarrow> nat \<Rightarrow> nat" where
  "node_index D l q = 2 ^ (D - l) + q"

definition update_event :: "(hash \<Rightarrow> hash \<Rightarrow> hash) \<Rightarrow> hash \<Rightarrow> bytes \<Rightarrow> nat \<Rightarrow> (nat \<times> hash) list \<Rightarrow> nat \<Rightarrow>
    change_log_event" where
  "update_event H z t D us m =
    (let p = fst (us ! m); T = tree_after z (take (Suc m) us) in
     \<lparr>ce_id = t,
      ce_path = map (\<lambda>l. \<lparr>pn_node = node H T l (p div 2 ^ l),
                          pn_index = of_nat (node_index D l (p div 2 ^ l))\<rparr>) [0..<Suc D],
      ce_seq = of_nat (Suc m), ce_index = of_nat p\<rparr>)"

text \<open>How a verifier recomputes the root from a leaf and its siblings.\<close>

fun recompute :: "(hash \<Rightarrow> hash \<Rightarrow> hash) \<Rightarrow> nat \<Rightarrow> hash \<Rightarrow> hash list \<Rightarrow> hash" where
  "recompute H p h [] = h"
| "recompute H p h (s # ss) = recompute H (p div 2) (if even p then H h s else H s h) ss"

lemma div_half: "p div 2 ^ l div 2 = (p::nat) div 2 ^ Suc l"
  by (metis div_mult2_eq power_Suc2)

lemma node_untouched:
  "q \<noteq> p div 2 ^ l \<Longrightarrow> node H (T(p := v)) l q = node H T l q"
proof (induction l arbitrary: q)
  case (Suc l)
  have "2 * q \<noteq> p div 2 ^ l" "2 * q + 1 \<noteq> p div 2 ^ l"
    using Suc.prems div_half [of p l] by auto
  then show ?case by (simp only: node.simps Suc.IH simp_thms)
qed simp

lemma node_empty: "node H (\<lambda>_. z) l q = empty_hash H z l"
  by (induction l arbitrary: q) simp_all

lemma tree_after_snoc: "tree_after z (us @ [(p, v)]) = (tree_after z us)(p := v)"
  by (simp add: tree_after_def)

text \<open>A node no later update touches keeps the hash of the last update that did.\<close>

lemma node_stable:
  assumes "m \<le> n" "n \<le> length us" "\<And>k. m \<le> k \<Longrightarrow> k < n \<Longrightarrow> fst (us ! k) div 2 ^ l \<noteq> q"
  shows "node H (tree_after z (take n us)) l q = node H (tree_after z (take m us)) l q"
  using assms
proof (induction n rule: dec_induct)
  case (step n)
  obtain p v where pv: "us ! n = (p, v)" by fastforce
  from step have "take (Suc n) us = take n us @ [(p, v)]" by (simp add: take_Suc_conv_app_nth pv)
  then have "node H (tree_after z (take (Suc n) us)) l q = node H (tree_after z (take n us)) l q"
    using step.prems(2) [of n] step.hyps pv by (simp add: tree_after_snoc node_untouched)
  with step show ?case by simp
qed simp

lemma recompute_root:
  "recompute H (p div 2 ^ l) (node H T l (p div 2 ^ l))
     (map (\<lambda>k. node H T k (sib (p div 2 ^ k))) [l..<l + n]) =
   node H T (l + n) (p div 2 ^ (l + n))"
proof (induction n arbitrary: l)
  case (Suc n)
  note half = div_half [of p l]
  have "(if even (p div 2 ^ l) then H (node H T l (p div 2 ^ l)) (node H T l (sib (p div 2 ^ l)))
      else H (node H T l (sib (p div 2 ^ l))) (node H T l (p div 2 ^ l))) =
      node H T (Suc l) (p div 2 ^ Suc l)"
    unfolding half [symmetric] by (auto simp: sib_def)
  moreover have "[l..<l + Suc n] = l # [Suc l..<Suc l + n]" by (simp add: upt_conv_Cons)
  ultimately show ?case using Suc.IH [of "Suc l"] by (simp add: half del: power_Suc)
qed simp

lemma node_index_inj:
  assumes "node_index D l q = node_index D l' q'" "l \<le> D" "l' \<le> D" "q < 2 ^ (D - l)" "q' < 2 ^ (D - l')"
  shows "l = l' \<and> q = q'"
proof -
  have less: "2 ^ i + r < (2::nat) ^ j + s" if "i < j" "r < 2 ^ i" for i j r s
  proof -
    have "2 ^ i + r < (2::nat) ^ Suc i" using that(2) by simp
    also have "\<dots> \<le> 2 ^ j" using that(1) by (intro power_increasing) auto
    finally show ?thesis by simp
  qed
  have "D - l = D - l'"
    using assms(1) less [of "D - l" "D - l'" q q'] less [of "D - l'" "D - l" q' q] assms(4,5)
    by (cases "D - l" "D - l'" rule: linorder_cases) (auto simp: node_index_def)
  with assms(1-3) show ?thesis by (auto simp: node_index_def)
qed

section \<open>What the table holds after all updates\<close>

definition update_row :: "(hash \<Rightarrow> hash \<Rightarrow> hash) \<Rightarrow> hash \<Rightarrow> bytes \<Rightarrow> nat \<Rightarrow> (nat \<times> hash) list \<Rightarrow> nat \<Rightarrow> nat \<Rightarrow>
    cl_items" where
  "update_row H z t D us m l =
    (let p = fst (us ! m) in
     \<lparr>cl_tree = t, cl_node_idx = int (node_index D l (p div 2 ^ l)),
      cl_leaf_idx = (if l = 0 then Some (int p) else None), cl_seq = int (Suc m), cl_level = int l,
      cl_hash = node H (tree_after z (take (Suc m) us)) l (p div 2 ^ l)\<rparr>)"

lemma node_index_less:
  assumes "q < 2 ^ (D - l)"
  shows "node_index D l q < 2 ^ Suc D"
proof -
  have "node_index D l q < 2 ^ Suc (D - l)" using assms by (simp add: node_index_def)
  also have "\<dots> \<le> 2 ^ Suc D" by (intro power_increasing) auto
  finally show ?thesis .
qed

lemma div_less_level: "p < 2 ^ D \<Longrightarrow> l \<le> D \<Longrightarrow> p div 2 ^ l < (2::nat) ^ (D - l)"
  by (simp add: less_mult_imp_div_less flip: power_add)

lemma leaf_idx_of_node:
  assumes "p < 2 ^ D" "D \<le> 31"
  shows "node_idx_to_leaf_idx (int (2 ^ D + p)) (ucast (of_nat D :: u64)) = int p"
proof -
  have D: "D < 2 ^ 32" "p < 2 ^ 63"
    using assms less_le_trans [OF assms(1) power_increasing [of D 63 "2::nat"]] by auto
  then have "unat (ucast (of_nat D :: u64) :: u32) = D"
    by (simp add: unsigned_of_nat take_bit_nat_eq_self)
  moreover have "(word_of_int (int (2 ^ D + p)) :: u64) - 2 ^ D = of_nat p"
    by simp
  moreover have "unat (of_nat p :: u64) = p"
    using D by (simp add: unat_of_nat)
  ultimately show ?thesis
    using D by (simp add: node_idx_to_leaf_idx_def as_i64_small)
qed

lemma update_event_rows:
  assumes "fst (us ! m) < 2 ^ D" "D \<le> 31" "Suc m < 2 ^ 63"
  shows "event_rows (update_event H z t D us m) = map (update_row H z t D us m) [0..<Suc D]"
proof -
  let ?p = "fst (us ! m)"
  have seq: "as_i64 (of_nat (Suc m)) = int (Suc m)"
    using assms(3) by (simp add: as_i64_small unat_of_nat del: of_nat_Suc)
  have idx: "u32_as_i64 (of_nat (node_index D l (?p div 2 ^ l))) = int (node_index D l (?p div 2 ^ l))"
    if "l \<le> D" for l
  proof -
    have "node_index D l (?p div 2 ^ l) < 2 ^ Suc D"
      by (rule node_index_less) (use div_less_level assms(1) that in blast)
    also have "\<dots> \<le> 2 ^ 32" using assms(2) by (intro power_increasing) auto
    finally show ?thesis by (simp add: u32_as_i64_def uint_nat unat_of_nat)
  qed
  have depth: "path_depth (ce_path (update_event H z t D us m)) = of_nat D"
    by (simp add: path_depth_def update_event_def Let_def del: upt_Suc)
  have leaf: "node_idx_to_leaf_idx (int (node_index D 0 ?p)) (ucast (of_nat D :: u64)) = int ?p"
    using leaf_idx_of_node [OF assms(1,2)] by (simp add: node_index_def)
  have "event_rows (update_event H z t D us m) =
    map (\<lambda>l. cl_item (update_event H z t D us m) l
      \<lparr>pn_node = node H (tree_after z (take (Suc m) us)) l (?p div 2 ^ l),
       pn_index = of_nat (node_index D l (?p div 2 ^ l))\<rparr>) [0..<Suc D]"
    by (simp add: event_rows_def update_event_def Let_def enumerate_map_upt del: upt_Suc)
  also have "\<dots> = map (update_row H z t D us m) [0..<Suc D]"
  proof (rule map_cong [OF refl])
    fix l
    assume "l \<in> set [0..<Suc D]"
    then have "l \<le> D" by auto
    then show "cl_item (update_event H z t D us m) l
      \<lparr>pn_node = node H (tree_after z (take (Suc m) us)) l (?p div 2 ^ l),
       pn_index = of_nat (node_index D l (?p div 2 ^ l))\<rparr> = update_row H z t D us m l"
      using idx [of l] leaf depth seq
      by (cases "l = 0") (simp_all add: cl_item_def update_row_def Let_def,
          simp_all add: update_event_def Let_def)
  qed
  finally show ?thesis .
qed


text \<open>The rows of the events are exactly the update rows, whatever the order of the events.\<close>

definition update_events :: "(hash \<Rightarrow> hash \<Rightarrow> hash) \<Rightarrow> hash \<Rightarrow> bytes \<Rightarrow> nat \<Rightarrow> (nat \<times> hash) list \<Rightarrow>
    change_log_event set" where
  "update_events H z t D us = update_event H z t D us ` {..<length us}"

definition updates_ok :: "nat \<Rightarrow> (nat \<times> hash) list \<Rightarrow> bool" where
  "updates_ok D us = (D \<le> 31 \<and> length us < 2 ^ 63 - 1 \<and> (\<forall>u\<in>set us. fst u < 2 ^ D))"

lemma all_update_rows:
  assumes "updates_ok D us" "set es = update_events H z t D us"
  shows "set (concat (map event_rows es)) =
    (\<lambda>(m, l). update_row H z t D us m l) ` ({..<length us} \<times> {..D})"
proof -
  have rows: "event_rows (update_event H z t D us m) = map (update_row H z t D us m) [0..<Suc D]"
    if "m < length us" for m
    by (rule update_event_rows) (use assms(1) that in \<open>auto simp: updates_ok_def\<close>)
  have "set (concat (map event_rows es)) = (\<Union>m<length us. set (event_rows (update_event H z t D us m)))"
    by (simp add: assms(2) update_events_def)
  also have "\<dots> = (\<Union>m<length us. update_row H z t D us m ` {..D})"
    by (intro SUP_cong refl) (simp add: rows atLeast0LessThan lessThan_Suc_atMost del: upt_Suc)
  finally show ?thesis by auto
qed

lemma update_row_key:
  assumes "updates_ok D us" "m < length us" "l \<le> D" "k \<le> D" "q < 2 ^ (D - k)"
  shows "cl_key (update_row H z t D us m l) = (t, int (node_index D k q)) \<longleftrightarrow>
    l = k \<and> fst (us ! m) div 2 ^ k = q"
proof -
  have "fst (us ! m) < 2 ^ D" using assms(1,2) by (simp add: updates_ok_def)
  then have "fst (us ! m) div 2 ^ l < 2 ^ (D - l)" by (rule div_less_level) (rule assms(3))
  with node_index_inj [of D l "fst (us ! m) div 2 ^ l" k q] assms(3-5) show ?thesis
    by (auto simp: cl_key_def update_row_def Let_def)
qed

definition touched :: "(nat \<times> hash) list \<Rightarrow> nat \<Rightarrow> nat \<Rightarrow> bool" where
  "touched us l q = (\<exists>m<length us. fst (us ! m) div 2 ^ l = q)"

text \<open>The row of a node: the current hash if some update touched it, and no row otherwise.\<close>

lemma node_row:
  assumes ok: "updates_ok D us" and es: "set es = update_events H z t D us"
    and l: "l \<le> D" "q < 2 ^ (D - l)" and fresh: "lookup cl_key (t, int (node_index D l q)) tab = None"
    and tch: "touched us l q"
  shows "\<exists>r. lookup cl_key (t, int (node_index D l q))
      (fold upsert_cl_row (concat (map event_rows es)) tab) = Some r \<and>
    cl_hash r = node H (tree_after z us) l q \<and> cl_level r = int l \<and>
    cl_leaf_idx r = (if l = 0 then Some (int q) else None)"
proof -
  let ?k = "(t, int (node_index D l q))" and ?rows = "concat (map event_rows es)"
  define S where "S = {m. m < length us \<and> fst (us ! m) div 2 ^ l = q}"
  have fin: "finite S" by (simp add: S_def)
  have "S \<noteq> {}" using tch by (auto simp: S_def touched_def)
  then have M: "Max S \<in> S" using fin by simp
  define M where "M = Max S"
  have M': "M < length us" "fst (us ! M) div 2 ^ l = q" using M by (simp_all add: S_def M_def)
  have max: "m \<le> M" if "m < length us" "fst (us ! m) div 2 ^ l = q" for m
    using fin that by (auto simp: S_def M_def intro!: Max_ge)
  let ?x = "update_row H z t D us M l"
  note rows = all_update_rows [OF ok es]
  note key = update_row_key [OF ok _ _ l]
  have x: "?x \<in> set ?rows" unfolding rows using M'(1) l(1) by force
  have kx: "cl_key ?x = ?k" using key [of M l] M' l by simp
  have cand: "\<exists>m\<le>M. y = update_row H z t D us m l" if "y \<in> set ?rows" "cl_key y = ?k" for y
  proof -
    from that(1) obtain m l' where y: "y = update_row H z t D us m l'" "m < length us" "l' \<le> D"
      unfolding rows by auto
    with that(2) key [of m l'] have "l' = l" "fst (us ! m) div 2 ^ l = q" by simp_all
    with y max show ?thesis by blast
  qed
  have seq: "cl_seq (update_row H z t D us m l) = int (Suc m)" for m
    by (simp add: update_row_def Let_def)
  have le: "\<forall>y\<in>set ?rows. cl_key y = ?k \<longrightarrow> cl_seq y \<le> cl_seq ?x"
    using cand seq by fastforce
  have eq: "\<forall>y\<in>set ?rows. cl_key y = ?k \<longrightarrow> cl_seq y = cl_seq ?x \<longrightarrow> Some y = Some ?x"
    using cand seq by fastforce
  have "lookup cl_key ?k (fold upsert_cl_row ?rows tab) = Some ?x"
    by (rule cl_row.newest_wins_framed [OF _ _ x kx le eq]) (simp_all add: fresh)
  moreover have "node H (tree_after z us) l q = node H (tree_after z (take (Suc M) us)) l q"
    using node_stable [of "Suc M" "length us" us l q H z] M'(1) max by fastforce
  ultimately show ?thesis using M' by (auto simp: update_row_def Let_def)
qed

lemma node_no_row:
  assumes ok: "updates_ok D us" and es: "set es = update_events H z t D us"
    and l: "l \<le> D" "q < 2 ^ (D - l)" and fresh: "lookup cl_key (t, int (node_index D l q)) tab = None"
    and tch: "\<not> touched us l q"
  shows "lookup cl_key (t, int (node_index D l q))
      (fold upsert_cl_row (concat (map event_rows es)) tab) = None"
    and "node H (tree_after z us) l q = empty_hash H z l"
proof -
  let ?k = "(t, int (node_index D l q))" and ?rows = "concat (map event_rows es)"
  have "cl_key y \<noteq> ?k" if "y \<in> set ?rows" for y
    using that update_row_key [OF ok _ _ l] tch unfolding all_update_rows [OF ok es]
    by (auto simp: touched_def)
  then have "filter (\<lambda>r. cl_key r = ?k) ?rows = []" by (auto simp: filter_empty_conv)
  then show "lookup cl_key ?k (fold upsert_cl_row ?rows tab) = None"
    using cl_row.fold_filter [of ?k tab tab ?rows] fresh by simp
  show "node H (tree_after z us) l q = empty_hash H z l"
    using node_stable [of 0 "length us" us l q H z] tch
    by (simp add: touched_def tree_after_def node_empty)
qed

section \<open>Serving the proof\<close>

lemma place_nodes_ok:
  assumes "\<forall>n\<in>set ns. 0 \<le> sc_level n \<and> sc_level n < int (length acc)"
  shows "\<exists>out. place_nodes ns acc = Inr out \<and> length out = length acc \<and>
    (\<forall>l<length acc. out ! l = acc ! l \<and> (\<forall>n\<in>set ns. sc_level n \<noteq> int l) \<or>
      (\<exists>n\<in>set ns. sc_level n = int l \<and> out ! l = n))"
  using assms
proof (induction ns arbitrary: acc)
  case (Cons n ns)
  let ?acc = "acc[nat (sc_level n) := n]"
  obtain out where out: "place_nodes ns ?acc = Inr out" "length out = length ?acc"
    "\<forall>l<length ?acc. out ! l = ?acc ! l \<and> (\<forall>n\<in>set ns. sc_level n \<noteq> int l) \<or>
      (\<exists>n\<in>set ns. sc_level n = int l \<and> out ! l = n)"
    using Cons.IH [of ?acc] Cons.prems by auto
  have "out ! l = acc ! l \<and> (\<forall>x\<in>set (n # ns). sc_level x \<noteq> int l) \<or>
      (\<exists>x\<in>set (n # ns). sc_level x = int l \<and> out ! l = x)" if "l < length acc" for l
    using out(3) that Cons.prems by (cases "sc_level n = int l") auto
  with out Cons.prems show ?case by auto
qed simp

lemma distinct_on_same:
  "distinct (map k xs) \<Longrightarrow> distinct_on k xs = xs"
proof (induction xs)
  case (Cons x xs)
  then have "filter (\<lambda>y. k y \<noteq> k x) xs = xs" by (simp add: filter_id_conv) (metis image_eqI)
  with Cons show ?case by simp
qed simp

lemma fold_upsert_cl_row_ok: "table_ok cl_key tab \<Longrightarrow> table_ok cl_key (fold upsert_cl_row rs tab)"
  by (induction rs arbitrary: tab)
    (simp_all add: upsert_cl_row_def table_ok_upsert cl_key_update)

text \<open>
  Building a proof from a table whose rows, where they exist, hold the hash \<open>h l\<close> for the node
  the proof needs at level \<open>l\<close>, and where they do not, the node is empty.
\<close>

lemma build_from_table:
  assumes req0: "\<forall>l<length req. (case lookup cl_key (t, req ! l) tab of
      None \<Rightarrow> h l = em l | Some r \<Rightarrow> cl_hash r = h l \<and> cl_level r = int l)"
    and ok: "table_ok cl_key tab" and ne: "req \<noteq> []" "length req \<le> 2 ^ 32" "t \<noteq> []"
  shows "build_asset_proof E em t i lh req
      (map simple_of (distinct_on cl_node_idx (sort_key (\<lambda>c. - cl_node_idx c)
        (filter (\<lambda>c. cl_node_idx c \<in> set req \<and> cl_tree c = t) tab)))) =
    Inr \<lparr>ap_root = bs58_encode E (h (length req - 1)),
         ap_proof = map (\<lambda>l. bs58_encode E (h l)) [0..<length req - 1],
         ap_node_index = i, ap_leaf = bs58_encode E lh, ap_tree_id = bs58_encode E t\<rparr>"
proof -
  note req = req0 [rule_format]
  let ?f = "filter (\<lambda>c. cl_node_idx c \<in> set req \<and> cl_tree c = t) tab"
  let ?q = "sort_key (\<lambda>c. - cl_node_idx c) ?f"
  let ?ns = "map simple_of (distinct_on cl_node_idx ?q)"
  have "inj_on cl_node_idx (set ?f)" "distinct ?f"
    using ok by (auto simp: table_ok_def distinct_map inj_on_def cl_key_def)
  then have "distinct (map cl_node_idx ?q)" by (simp add: distinct_map)
  then have set_ns: "set ?ns = simple_of ` set ?f" by (simp add: distinct_on_same)
  have row: "\<exists>l<length req. cl_node_idx c = req ! l \<and> lookup cl_key (t, req ! l) tab = Some c \<and>
      cl_level c = int l \<and> cl_hash c = h l" if "c \<in> set ?f" for c
  proof -
    from that obtain l where l: "l < length req" "cl_node_idx c = req ! l" "cl_tree c = t" "c \<in> set tab"
      by (auto simp: in_set_conv_nth)
    then have "lookup cl_key (t, req ! l) tab = Some c"
      using lookup_iff_mem [OF ok] by (simp add: cl_key_def)
    with req [OF l(1)] l show ?thesis by auto
  qed
  let ?acc = "replicate (length req) simple_change_log_default"
  have "\<forall>n\<in>set ?ns. 0 \<le> sc_level n \<and> sc_level n < int (length ?acc)"
    unfolding set_ns using row by (fastforce simp: simple_of_def)
  from place_nodes_ok [OF this] obtain out where out: "place_nodes ?ns ?acc = Inr out"
    "length out = length req" and at: "\<And>l. l < length req \<Longrightarrow>
      out ! l = ?acc ! l \<and> (\<forall>n\<in>set ?ns. sc_level n \<noteq> int l) \<or> (\<exists>n\<in>set ?ns. sc_level n = int l \<and> out ! l = n)"
    by auto
  let ?fin = "fill_empty em t req out"
  have len: "length ?fin = length req" by (simp add: fill_empty_def out(2))
  have hash: "sc_hash (?fin ! l) = h l" if l: "l < length req" for l
  proof -
    have fin: "?fin ! l = (if out ! l = simple_change_log_default
        then make_empty_node em (int l) (req ! l) t else out ! l)"
      using l by (simp add: fill_empty_def nth_enumerate_eq out(2))
    from at [OF l] show ?thesis
    proof
      assume no: "out ! l = ?acc ! l \<and> (\<forall>n\<in>set ?ns. sc_level n \<noteq> int l)"
      have "lookup cl_key (t, req ! l) tab = None"
      proof (rule ccontr)
        assume "lookup cl_key (t, req ! l) tab \<noteq> None"
        then obtain c where c: "lookup cl_key (t, req ! l) tab = Some c" by blast
        with lookup_key [OF c] lookup_mem [OF c] l have "c \<in> set ?f" by (auto simp: cl_key_def)
        moreover have "cl_level c = int l" using req [OF l] c by simp
        ultimately show False using no unfolding set_ns by (auto simp: simple_of_def)
      qed
      with req [OF l] have "h l = em l" by simp
      moreover have "unat (word_of_int (int l) :: u32) = l"
        using l ne(2) by (simp add: unat_of_nat)
      ultimately show ?thesis using no l by (simp add: fin make_empty_node_def)
    next
      assume "\<exists>n\<in>set ?ns. sc_level n = int l \<and> out ! l = n"
      then obtain c where c: "c \<in> set ?f" "cl_level c = int l" "out ! l = simple_of c"
        unfolding set_ns by (auto simp: simple_of_def)
      with ne(3) have "out ! l \<noteq> simple_change_log_default"
        by (auto simp: simple_of_def simple_change_log_default_def)
      with row [OF c(1)] c show ?thesis by (auto simp: fin simple_of_def)
    qed
  qed
  have "map sc_hash (butlast ?fin) = map h [0..<length req - 1]"
    by (rule nth_equalityI) (simp_all add: len hash nth_butlast)
  moreover have "sc_hash (last ?fin) = h (length req - 1)"
    using ne(1) len hash by (simp add: last_conv_nth flip: length_greater_0_conv)
  moreover have "?fin \<noteq> []" using ne(1) len by auto
  ultimately show ?thesis
    by (simp add: build_asset_proof_def out(1) Let_def flip: map_map [unfolded comp_def])
qed

text \<open>One ingested event on a database that accepts every statement.\<close>

type_synonym log_delivery = "change_log_event \<times> u64 \<times> string \<times> string"

definition ingest :: "ext \<Rightarrow> log_delivery \<Rightarrow> world \<Rightarrow> world" where
  "ingest E x w = (case x of (e, slot, tx, ix) \<Rightarrow> snd (insert_change_log E e slot tx ix w))"

lemma ingest_effect:
  assumes "no_faults w"
  shows "no_faults (ingest E x w)" "asset_t (w_db (ingest E x w)) = asset_t (w_db w)"
    "cl_items_t (w_db (ingest E x w)) = fold upsert_cl_row (event_rows (fst x)) (cl_items_t (w_db w))"
  using assms
  by (cases x; simp add: ingest_def insert_change_log_def bind_m_def run_all_ok raise_m_def return_m_def
      ignore_error_def execute_ok query_ok audit_stmt_def backfill_stmt_def frame_simps
      split: option.splits)+

lemma fold_ingest_effect:
  assumes "no_faults w"
  shows "asset_t (w_db (fold (ingest E) xs w)) = asset_t (w_db w)"
    "cl_items_t (w_db (fold (ingest E) xs w)) =
      fold upsert_cl_row (concat (map event_rows (map fst xs))) (cl_items_t (w_db w))"
  using assms by (induction xs arbitrary: w) (simp_all add: ingest_effect)

lemma proof_leaves_single:
  assumes ok: "table_ok a_id (asset_t d)" "table_ok cl_key (cl_items_t d)"
    and a: "asset_row i d = Some a" "a_nonce a = Some n" "a_tree_id a = Some t"
    and r: "lookup cl_key (t, k) (cl_items_t d) = Some r" "cl_leaf_idx r = Some n" "cl_level r = 0"
    and uniq: "\<And>c. c \<in> set (cl_items_t d) \<Longrightarrow> cl_tree c = t \<Longrightarrow> cl_level c = 0 \<Longrightarrow>
      cl_leaf_idx c = Some n \<Longrightarrow> cl_node_idx c = k"
  shows "\<exists>rest. proof_leaves d i = r # rest"
proof -
  have a_mem: "a \<in> set (asset_t d)" "a_id a = i" using lookup_mem [OF a(1)] lookup_key [OF a(1)] by auto
  have eq: "sql_eq (Some x) y \<longleftrightarrow> y = Some x" for x :: 'x and y
    by (cases y) (auto simp: sql_eq_def sql_cmp_def)
  have "set (proof_leaves d i) = {c \<in> set (cl_items_t d). \<exists>b\<in>set (asset_t d).
      sql_eq (a_nonce b) (cl_leaf_idx c) \<and> sql_eq (a_tree_id b) (Some (cl_tree c)) \<and> a_id b = i \<and> cl_level c = 0}"
    by (auto simp: proof_leaves_def)
  also have "\<dots> = {r}"
  proof (intro set_eqI iffI)
    fix c
    assume "c \<in> {c \<in> set (cl_items_t d). \<exists>b\<in>set (asset_t d).
      sql_eq (a_nonce b) (cl_leaf_idx c) \<and> sql_eq (a_tree_id b) (Some (cl_tree c)) \<and> a_id b = i \<and> cl_level c = 0}"
    then obtain b where b: "c \<in> set (cl_items_t d)" "b \<in> set (asset_t d)" "a_id b = i" "cl_level c = 0"
      "sql_eq (a_nonce b) (cl_leaf_idx c)" "sql_eq (a_tree_id b) (Some (cl_tree c))" by blast
    then have "b = a" using lookup_iff_mem [OF ok(1), of i b] a(1) by simp
    with b a have "cl_leaf_idx c = Some n" "cl_tree c = t" by (simp_all add: eq)
    with uniq [OF b(1)] b(4) have "cl_key c = (t, k)" by (simp add: cl_key_def)
    with lookup_iff_mem [OF ok(2), of "(t, k)" c] b(1) r(1) show "c \<in> {r}" by simp
  next
    fix c
    assume "c \<in> {r}"
    with lookup_mem [OF r(1)] lookup_key [OF r(1)] r a a_mem
    show "c \<in> {c \<in> set (cl_items_t d). \<exists>b\<in>set (asset_t d).
      sql_eq (a_nonce b) (cl_leaf_idx c) \<and> sql_eq (a_tree_id b) (Some (cl_tree c)) \<and> a_id b = i \<and> cl_level c = 0}"
      by (auto simp: eq cl_key_def intro!: bexI [of _ a])
  qed
  finally show ?thesis by (cases "proof_leaves d i") auto
qed

lemma upsert_cl_row_rows: "set (upsert_cl_row new tab) \<subseteq> insert new (set tab)"
  by (induction tab) (auto simp: upsert_cl_row_def cl_key_def)

lemma fold_upsert_cl_row_rows: "set (fold upsert_cl_row rs tab) \<subseteq> set tab \<union> set rs"
proof (induction rs arbitrary: tab)
  case (Cons r rs)
  from Cons [of "upsert_cl_row r tab"] upsert_cl_row_rows [of r tab] show ?case by auto
qed simp

definition siblings :: "(hash \<Rightarrow> hash \<Rightarrow> hash) \<Rightarrow> (nat \<Rightarrow> hash) \<Rightarrow> nat \<Rightarrow> nat \<Rightarrow> hash list" where
  "siblings H T D p = map (\<lambda>l. node H T l (sib (p div 2 ^ l))) [0..<D]"

lemma sib_less: "q < 2 ^ n \<Longrightarrow> 0 < n \<Longrightarrow> sib q < 2 ^ n"
  by (cases n) (auto simp: sib_def elim!: evenE oddE)

text \<open>
  C1: The index serves valid proofs. Take a tree of depth at most 31 with hash function
  \<open>H\<close> and any leaf updates, ingest the change log events of all of them in any order and any
  number of times, and ask for the proof of an asset stored at an updated leaf \<open>p\<close>. The answer
  holds the leaf's current hash, the hashes of its siblings in the tree as it is after the
  last update (\<open>empty_node\<close> where nothing was ever written), and the current root; and these
  siblings recompute that root from the leaf.
\<close>

theorem served_proof_verifies:
  assumes w: "no_faults w" and ta: "table_ok a_id (asset_t (w_db w))"
    and tc: "table_ok cl_key (cl_items_t (w_db w))"
    and fresh: "\<forall>r\<in>set (cl_items_t (w_db w)). cl_tree r \<noteq> t" and t: "length t = 32"
    and us: "updates_ok D us" and xs: "set (map fst xs) = update_events H z t D us"
    and a: "asset_row i (w_db w) = Some a" "a_nonce a = Some (int p)" "a_tree_id a = Some t"
    and p: "p \<in> fst ` set us"
  shows "get_proof_for_asset E (empty_hash H z) (w_db (fold (ingest E) xs w)) i =
      Inr \<lparr>ap_root = bs58_encode E (node H (tree_after z us) D 0),
           ap_proof = map (bs58_encode E) (siblings H (tree_after z us) D p),
           ap_node_index = int (2 ^ D + p), ap_leaf = bs58_encode E (tree_after z us p),
           ap_tree_id = bs58_encode E t\<rparr> \<and>
    recompute H p (tree_after z us p) (siblings H (tree_after z us) D p) = node H (tree_after z us) D 0"
proof
  let ?T = "tree_after z us" and ?d = "w_db (fold (ingest E) xs w)"
  let ?tab = "cl_items_t ?d"
  have D: "D \<le> 31" and pD: "p < 2 ^ D" using us p by (auto simp: updates_ok_def)
  note rows = fold_ingest_effect(2) [OF w, of E xs]
  have none: "lookup cl_key (t, k) (cl_items_t (w_db w)) = None" for k
    using fresh by (auto simp: lookup_None cl_key_def)
  have tab_ok: "table_ok cl_key ?tab" unfolding rows by (rule fold_upsert_cl_row_ok [OF tc])
  have row: "case lookup cl_key (t, int (node_index D l q)) ?tab of
      None \<Rightarrow> \<not> touched us l q \<and> node H ?T l q = empty_hash H z l
    | Some r \<Rightarrow> cl_hash r = node H ?T l q \<and> cl_level r = int l \<and>
        cl_leaf_idx r = (if l = 0 then Some (int q) else None)" if "l \<le> D" "q < 2 ^ (D - l)" for l q
    using node_row [OF us xs that none] node_no_row [OF us xs that none] unfolding rows
    by (cases "touched us l q") auto
  have "touched us 0 p" using p by (force simp: touched_def in_set_conv_nth)
  then obtain r where r: "lookup cl_key (t, int (2 ^ D + p)) ?tab = Some r" "cl_hash r = ?T p"
      "cl_level r = 0" "cl_leaf_idx r = Some (int p)"
    using row [of 0 p] pD by (auto simp: node_index_def split: option.splits)
  have uniq: "cl_node_idx c = int (2 ^ D + p)"
    if "c \<in> set ?tab" "cl_tree c = t" "cl_level c = 0" "cl_leaf_idx c = Some (int p)" for c
  proof -
    have "c \<in> set (concat (map event_rows (map fst xs)))"
      using that(1,2) fresh fold_upsert_cl_row_rows unfolding rows by blast
    then show ?thesis
      unfolding all_update_rows [OF us xs] using that(3,4)
      by (auto simp: update_row_def Let_def node_index_def)
  qed
  obtain rest where leaves: "proof_leaves ?d i = r # rest"
    using proof_leaves_single [of ?d i a "int p" t "int (2 ^ D + p)" r] uniq a r ta tab_ok
    by (auto simp: fold_ingest_effect(1) [OF w])
  have key: "cl_node_idx r = int (2 ^ D + p)" "cl_tree r = t"
    using lookup_key [OF r(1)] by (simp_all add: cl_key_def)
  let ?req = "get_required_nodes_for_proof (int (2 ^ D + p))"
  let ?h = "\<lambda>l. if l < D then node H ?T l (sib (p div 2 ^ l)) else node H ?T D 0"
  note req = required_nodes [OF pD]
  have "\<forall>l<length ?req. case lookup cl_key (t, ?req ! l) ?tab of None \<Rightarrow> ?h l = empty_hash H z l
      | Some r \<Rightarrow> cl_hash r = ?h l \<and> cl_level r = int l"
  proof (intro allI impI, goal_cases)
    case that: (1 l)
    show ?case
    proof (cases "l < D")
      case True
      have "?req ! l = int (node_index D l (sib (p div 2 ^ l)))"
        unfolding req using True by (simp add: nth_append node_index_def)
      with row [of l "sib (p div 2 ^ l)"] sib_less [OF div_less_level [OF pD]] True show ?thesis
        by (auto split: option.splits)
    next
      case False
      with that have l: "l = D" unfolding req by simp
      have "?req ! D = int (node_index D D 0)" unfolding req by (simp add: nth_append node_index_def)
      with row [of D 0] l show ?thesis by (auto split: option.splits)
    qed
  qed
  note build = build_from_table [OF this tab_ok, where E = E and i = "int (2 ^ D + p)" and lh = "?T p"]
  have len: "length ?req = Suc D" unfolding req by simp
  have "?req \<noteq> []" "length ?req \<le> 2 ^ 32" "t \<noteq> []" using len D t by auto
  note build = build [OF this, unfolded len diff_Suc_1]
  have "map (\<lambda>l. bs58_encode E (?h l)) [0..<D] = map (bs58_encode E) (siblings H ?T D p)"
    by (simp add: siblings_def)
  with build show "get_proof_for_asset E (empty_hash H z) ?d i =
      Inr \<lparr>ap_root = bs58_encode E (node H ?T D 0),
           ap_proof = map (bs58_encode E) (siblings H ?T D p),
           ap_node_index = int (2 ^ D + p), ap_leaf = bs58_encode E (?T p), ap_tree_id = bs58_encode E t\<rparr>"
    by (simp only: get_proof_for_asset_def leaves key r(2) Let_def list.case less_irrefl if_False)
  show "recompute H p (?T p) (siblings H ?T D p) = node H ?T D 0"
    using recompute_root [of H p 0 ?T D] pD by (simp add: siblings_def)
qed

text \<open>Two updates of a tree of depth one, the later event ingested first.\<close>

definition tree0 :: bytes where
  "tree0 = replicate 32 9"

definition updates0 :: "(nat \<times> hash) list" where
  "updates0 = [(0, [1]), (1, [2])]"

definition log0 :: "log_delivery list" where
  "log0 = map (\<lambda>m. (update_event (@) [0] tree0 1 updates0 m, 50, ''tx'', ''Transfer'')) [1, 0]"

definition proof_world0 :: world where
  "proof_world0 = world0\<lparr>w_db := empty_db\<lparr>asset_t :=
     [(asset_default 0 [3])\<lparr>a_nonce := Some 0, a_tree_id := Some tree0\<rparr>]\<rparr>\<rparr>"

theorem served_proof_verifies_witness:
  "get_proof_for_asset ext0 (empty_hash (@) [0]) (w_db (fold (ingest ext0) log0 proof_world0)) [3] =
     Inr \<lparr>ap_root = bs58_encode ext0 [1, 2], ap_proof = [bs58_encode ext0 [2]], ap_node_index = 2,
          ap_leaf = bs58_encode ext0 [1], ap_tree_id = bs58_encode ext0 tree0\<rparr>"
proof -
  have ev: "set (map fst log0) = update_events (@) [0] tree0 1 updates0"
    by (simp add: log0_def update_events_def updates0_def lessThan_Suc)
  have us: "updates_ok 1 updates0" by (simp add: updates_ok_def updates0_def)
  note pf = served_proof_verifies [where w = proof_world0 and i = "[3]" and E = ext0 and p = 0
      and a = "(asset_default 0 [3])\<lparr>a_nonce := Some 0, a_tree_id := Some tree0\<rparr>", OF _ _ _ _ _ us ev]
  have "tree_after [0] updates0 0 = [1]" "tree_after [0] updates0 (Suc 0) = [2]"
    by (simp_all add: tree_after_def updates0_def)
  then show ?thesis
    using pf by (simp add: proof_world0_def world0_def empty_db_def no_faults_def table_ok_def
        updates0_def siblings_def sib_def) (simp add: tree0_def)
qed

end
