(* ===== verification/Account_Parsers.thy ===== *)
theory Account_Parsers
  imports Blockbuster "HOL-Library.Monad_Syntax"
begin

text \<open>
  The account parsers of \<open>blockbuster/src/programs\<close>: SPL token, Token-2022 with its extensions,
  token metadata, MPL core, inscriptions and the agent registry. The two layouts the repository
  decodes by hand (inscriptions, agent registry) are modelled byte for byte, with the slice
  panics of Rust as \<open>None\<close>; unpacking done by third-party crates is a parameter (\<open>unpackers\<close>).
\<close>

section \<open>Bytes\<close>

text \<open>\<open>&data[i..j]\<close>: out of bounds is a panic.\<close>

definition slice :: "bytes \<Rightarrow> nat \<Rightarrow> nat \<Rightarrow> bytes option" where
  "slice data i j = (if i \<le> j \<and> j \<le> length data then Some (take (j - i) (drop i data)) else None)"

fun from_le_bytes :: "bytes \<Rightarrow> nat" where
  "from_le_bytes [] = 0"
| "from_le_bytes (b # bs) = unat b + 256 * from_le_bytes bs"

fun to_le_bytes :: "nat \<Rightarrow> nat \<Rightarrow> bytes" where
  "to_le_bytes 0 n = []"
| "to_le_bytes (Suc k) n = of_nat (n mod 256) # to_le_bytes k (n div 256)"

text \<open>\<open>String::from_utf8\<close>: well-formed sequences of the Unicode standard, table 3-7.\<close>

definition cont :: "u8 \<Rightarrow> bool" where
  "cont b = (0x80 \<le> b \<and> b \<le> 0xBF)"

fun valid_utf8 :: "bytes \<Rightarrow> bool" where
  "valid_utf8 [] = True"
| "valid_utf8 (a # bs) =
    (if a \<le> 0x7F then valid_utf8 bs
     else if 0xC2 \<le> a \<and> a \<le> 0xDF then (case bs of b # r \<Rightarrow> cont b \<and> valid_utf8 r | _ \<Rightarrow> False)
     else if 0xE0 \<le> a \<and> a \<le> 0xEF then
       (case bs of b # c # r \<Rightarrow>
          cont b \<and> cont c \<and> (a = 0xE0 \<longrightarrow> 0xA0 \<le> b) \<and> (a = 0xED \<longrightarrow> b \<le> 0x9F) \<and> valid_utf8 r
        | _ \<Rightarrow> False)
     else if 0xF0 \<le> a \<and> a \<le> 0xF4 then
       (case bs of b # c # d # r \<Rightarrow>
          cont b \<and> cont c \<and> cont d \<and> (a = 0xF0 \<longrightarrow> 0x90 \<le> b) \<and> (a = 0xF4 \<longrightarrow> b \<le> 0x8F) \<and> valid_utf8 r
        | _ \<Rightarrow> False)
     else False)"

text \<open>A Rust string is the sequence of its UTF-8 bytes; \<open>unwrap\<close> panics on malformed ones.\<close>

definition from_utf8_unwrap :: "bytes \<Rightarrow> string option" where
  "from_utf8_unwrap bs = (if valid_utf8 bs then Some (map (\<lambda>b. char_of (unat b)) bs) else None)"

section \<open>Inscriptions\<close>

record inscription_data =
  in_authority :: string
  in_root :: string
  in_content :: string
  in_encoding :: string
  in_inscription_data :: string
  in_order :: u64
  in_size :: u32
  in_validation_hash :: "string option"

definition BASE_SIZE :: nat where
  "BASE_SIZE = 121"

definition INSCRIPTION_ACC_DATA_DISC :: bytes where
  "INSCRIPTION_ACC_DATA_DISC = [232, 120, 205, 47, 153, 239, 229, 224]"

definition unpack_validation_hash :: "bytes \<Rightarrow> nat \<Rightarrow> string option option" where
  "unpack_validation_hash data p =
    do { flag \<leftarrow> slice data p (p + 1);
         if flag = [1] then
           do { len_bytes \<leftarrow> slice data (p + 1) (p + 5);
                hash \<leftarrow> slice data (p + 5) (p + 5 + from_le_bytes len_bytes);
                s \<leftarrow> from_utf8_unwrap hash;
                Some (Some s) }
         else Some None }"

definition unpack_fields :: "ext \<Rightarrow> bytes \<Rightarrow> inscription_data option" where
  "unpack_fields E data =
    do { authority \<leftarrow> slice data 8 40;
         mint \<leftarrow> slice data 40 72;
         inscription_data \<leftarrow> slice data 72 104;
         order \<leftarrow> slice data 104 112;
         size \<leftarrow> slice data 112 116;
         content_len_bytes \<leftarrow> slice data 116 120;
         let content_type_len = from_le_bytes content_len_bytes;
         content_bytes \<leftarrow> slice data 120 (120 + content_type_len);
         content \<leftarrow> from_utf8_unwrap content_bytes;
         encoding_len_bytes \<leftarrow> slice data (120 + content_type_len) (124 + content_type_len);
         let encoding_len = from_le_bytes encoding_len_bytes;
         encoding_bytes \<leftarrow> slice data (124 + content_type_len) (124 + content_type_len + encoding_len);
         encoding \<leftarrow> from_utf8_unwrap encoding_bytes;
         validation_hash \<leftarrow> unpack_validation_hash data (124 + content_type_len + encoding_len);
         Some \<lparr>in_authority = bs58_encode E authority, in_root = bs58_encode E mint,
               in_content = content, in_encoding = encoding,
               in_inscription_data = bs58_encode E inscription_data,
               in_order = of_nat (from_le_bytes order), in_size = of_nat (from_le_bytes size),
               in_validation_hash = validation_hash\<rparr> }"

definition try_unpack_data :: "ext \<Rightarrow> bytes \<Rightarrow> inscription_data bb_result option" where
  "try_unpack_data E data =
    do { acc_disc \<leftarrow> slice data 0 8;
         if acc_disc \<noteq> INSCRIPTION_ACC_DATA_DISC then Some (Inl InvalidAccountType)
         else if length data < BASE_SIZE
           then Some (Inl (CustomDeserializationError ''Inscription Data is too short''))
         else map_option Inr (unpack_fields E data) }"

section \<open>The agent registry\<close>

record parsed_agent_identity =
  ag_asset :: pubkey
  ag_agent_token_mint :: "pubkey option"

definition agent_registry_parse :: "bytes \<Rightarrow> parsed_agent_identity option" where
  "agent_registry_parse account_data =
    (if account_data = [] then None
     else if hd account_data = 1 \<and> length account_data \<ge> 40 then
       Some \<lparr>ag_asset = take 32 (drop 8 account_data), ag_agent_token_mint = None\<rparr>
     else if hd account_data = 2 \<and> length account_data \<ge> 104 then
       (let mint_pk = take 32 (drop 40 account_data) in
        Some \<lparr>ag_asset = take 32 (drop 8 account_data),
              ag_agent_token_mint = (if mint_pk \<noteq> replicate 32 0 then Some mint_pk else None)\<rparr>)
     else None)"

section \<open>SPL token and Token-2022\<close>

datatype account_state = AS_Uninitialized | AS_Initialized | AS_Frozen

record spl_account =
  sa_mint :: pubkey
  sa_owner :: pubkey
  sa_amount :: u64
  sa_delegate :: "pubkey option"
  sa_state :: account_state
  sa_delegated_amount :: u64

record spl_mint =
  sm_mint_authority :: "pubkey option"
  sm_supply :: u64
  sm_decimals :: u8
  sm_freeze_authority :: "pubkey option"

datatype token_program_entity =
    TE_Mint spl_mint
  | TE_TokenAccount spl_account
  | TE_CloseIx pubkey

text \<open>
  The extensions of Token-2022 as their \<open>Shadow\<close> structs serialise; the metadata extension is
  read field by field by the handlers.
\<close>

record shadow_metadata =
  shm_name :: string
  shm_symbol :: string
  shm_uri :: string
  shm_value :: json

record mint_account_extensions =
  mx_default_account_state :: "json option"
  mx_confidential_transfer_mint :: "json option"
  mx_confidential_transfer_fee_config :: "json option"
  mx_interest_bearing_config :: "json option"
  mx_transfer_fee_config :: "json option"
  mx_mint_close_authority :: "json option"
  mx_permanent_delegate :: "json option"
  mx_metadata_pointer :: "json option"
  mx_metadata :: "shadow_metadata option"
  mx_transfer_hook :: "json option"
  mx_group_pointer :: "json option"
  mx_token_group :: "json option"
  mx_group_member_pointer :: "json option"
  mx_token_group_member :: "json option"
  mx_non_transferable :: "bool option"
  mx_immutable_owner :: "bool option"

definition mint_ext_is_some :: "mint_account_extensions \<Rightarrow> bool" where
  "mint_ext_is_some x =
    (mx_default_account_state x \<noteq> None \<or> mx_confidential_transfer_mint x \<noteq> None \<or>
     mx_confidential_transfer_fee_config x \<noteq> None \<or> mx_interest_bearing_config x \<noteq> None \<or>
     mx_transfer_fee_config x \<noteq> None \<or> mx_mint_close_authority x \<noteq> None \<or>
     mx_permanent_delegate x \<noteq> None \<or> mx_metadata_pointer x \<noteq> None \<or> mx_metadata x \<noteq> None \<or>
     mx_transfer_hook x \<noteq> None \<or> mx_group_pointer x \<noteq> None \<or> mx_token_group x \<noteq> None \<or>
     mx_group_member_pointer x \<noteq> None \<or> mx_token_group_member x \<noteq> None)"

record token_account_extensions =
  tx_confidential_transfer :: "json option"
  tx_cpi_guard :: "json option"
  tx_memo_transfer :: "json option"
  tx_transfer_fee_amount :: "json option"
  tx_immutable_owner :: "bool option"
  tx_non_transferable_account :: "bool option"

definition token_ext_is_some :: "token_account_extensions \<Rightarrow> bool" where
  "token_ext_is_some x =
    (tx_confidential_transfer x \<noteq> None \<or> tx_cpi_guard x \<noteq> None \<or> tx_memo_transfer x \<noteq> None \<or>
     tx_transfer_fee_amount x \<noteq> None)"

text \<open>\<open>serde_json::to_value\<close> on the derived \<open>Serialize\<close>: every field, \<open>null\<close> where absent.\<close>

definition opt_value :: "('a \<Rightarrow> json) \<Rightarrow> 'a option \<Rightarrow> json" where
  "opt_value f x = (case x of None \<Rightarrow> JNull | Some v \<Rightarrow> f v)"

definition mint_ext_value :: "mint_account_extensions \<Rightarrow> json" where
  "mint_ext_value x = JObj
    [(''default_account_state'', opt_value id (mx_default_account_state x)),
     (''confidential_transfer_mint'', opt_value id (mx_confidential_transfer_mint x)),
     (''confidential_transfer_fee_config'', opt_value id (mx_confidential_transfer_fee_config x)),
     (''interest_bearing_config'', opt_value id (mx_interest_bearing_config x)),
     (''transfer_fee_config'', opt_value id (mx_transfer_fee_config x)),
     (''mint_close_authority'', opt_value id (mx_mint_close_authority x)),
     (''permanent_delegate'', opt_value id (mx_permanent_delegate x)),
     (''metadata_pointer'', opt_value id (mx_metadata_pointer x)),
     (''metadata'', opt_value shm_value (mx_metadata x)),
     (''transfer_hook'', opt_value id (mx_transfer_hook x)),
     (''group_pointer'', opt_value id (mx_group_pointer x)),
     (''token_group'', opt_value id (mx_token_group x)),
     (''group_member_pointer'', opt_value id (mx_group_member_pointer x)),
     (''token_group_member'', opt_value id (mx_token_group_member x)),
     (''non_transferable'', opt_value JBool (mx_non_transferable x)),
     (''immutable_owner'', opt_value JBool (mx_immutable_owner x))]"

definition token_ext_value :: "token_account_extensions \<Rightarrow> json" where
  "token_ext_value x = JObj
    [(''confidential_transfer'', opt_value id (tx_confidential_transfer x)),
     (''cpi_guard'', opt_value id (tx_cpi_guard x)),
     (''memo_transfer'', opt_value id (tx_memo_transfer x)),
     (''transfer_fee_amount'', opt_value id (tx_transfer_fee_amount x)),
     (''immutable_owner'', opt_value JBool (tx_immutable_owner x)),
     (''non_transferable_account'', opt_value JBool (tx_non_transferable_account x))]"

datatype token_extensions_program_entity =
    XE_TokenAccount spl_account token_account_extensions
  | XE_MintAccount spl_mint mint_account_extensions
  | XE_CloseIx pubkey

datatype extension_type =
    X_ConfidentialTransferAccount | X_CpiGuard | X_MemoTransfer | X_TransferFeeAmount
  | X_ImmutableOwner | X_NonTransferableAccount | X_ConfidentialTransferMint
  | X_ConfidentialTransferFeeConfig | X_DefaultAccountState | X_InterestBearingConfig
  | X_TransferFeeConfig | X_MintCloseAuthority | X_PermanentDelegate | X_MetadataPointer
  | X_GroupPointer | X_TokenGroup | X_GroupMemberPointer | X_TokenGroupMember | X_TransferHook
  | X_NonTransferable

section \<open>Token metadata and MPL core\<close>

datatype tm_key =
    K_Uninitialized | K_EditionV1 | K_MasterEditionV1 | K_ReservationListV1 | K_MetadataV1
  | K_ReservationListV2 | K_MasterEditionV2 | K_EditionMarker | K_UseAuthorityRecord
  | K_CollectionAuthorityRecord | K_TokenOwnedEscrow | K_TokenRecord | K_MetadataDelegate
  | K_EditionMarkerV2 | K_HolderDelegate

record tm_metadata =
  tm_update_authority :: pubkey
  tm_mint :: pubkey
  tm_name :: string
  tm_symbol :: string
  tm_uri :: string
  tm_seller_fee_basis_points :: u16
  tm_creators :: "creator list option"
  tm_primary_sale_happened :: bool
  tm_is_mutable :: bool
  tm_edition_nonce :: "u8 option"
  tm_token_standard :: "token_standard option"
  tm_collection :: "collection option"
  tm_uses :: "uses option"

record master_edition =
  me_key :: tm_key
  me_supply :: u64
  me_max_supply :: "u64 option"

record edition =
  ed_parent :: pubkey
  ed_edition :: u64

datatype token_metadata_account_data =
    TM_EditionV1 edition
  | TM_MasterEditionV1 master_edition
  | TM_MetadataV1 tm_metadata
  | TM_MasterEditionV2 master_edition
  | TM_EditionMarker
  | TM_UseAuthorityRecord
  | TM_CollectionAuthorityRecord
  | TM_EmptyAccount

text \<open>Parameters: the unpackers of the SPL and Metaplex crates.\<close>

record unpackers =
  unpack_account :: "bytes \<Rightarrow> spl_account option"
  unpack_mint :: "bytes \<Rightarrow> spl_mint option"
  unpack_account_2022 :: "bytes \<Rightarrow> spl_account option"
  unpack_mint_2022 :: "bytes \<Rightarrow> spl_mint option"
  get_extension :: "bytes \<Rightarrow> extension_type \<Rightarrow> json option"
  get_metadata_extension :: "bytes \<Rightarrow> shadow_metadata option"
  de_tm_key :: "bytes \<Rightarrow> string + tm_key"
  de_edition :: "bytes \<Rightarrow> string + edition"
  de_master_edition_v1 :: "bytes \<Rightarrow> string + master_edition"
  de_master_edition_v2 :: "bytes \<Rightarrow> string + master_edition"
  de_use_authority_record :: "bytes \<Rightarrow> string option"
  de_edition_marker :: "bytes \<Rightarrow> string option"
  de_collection_authority_record :: "bytes \<Rightarrow> string option"
  safe_deserialize_metadata :: "bytes \<Rightarrow> string + tm_metadata"

definition token_handle_account :: "unpackers \<Rightarrow> bytes \<Rightarrow> token_program_entity bb_result" where
  "token_handle_account U account_data =
    (if length account_data = 165 then
       (case unpack_account U account_data of
          None \<Rightarrow> Inl (CustomDeserializationError ''Token Account Unpack Failed'')
        | Some a \<Rightarrow> Inr (TE_TokenAccount a))
     else if length account_data = 82 then
       (case unpack_mint U account_data of
          None \<Rightarrow> Inl (CustomDeserializationError ''Token MINT Unpack Failed'')
        | Some m \<Rightarrow> Inr (TE_Mint m))
     else Inl InvalidDataLength)"

text \<open>The close instruction of both token programs: tag 9, the account to close first.\<close>

definition close_instruction :: "instruction_bundle \<Rightarrow> pubkey option" where
  "close_instruction bundle =
    (case ib_instruction bundle of
       Some ix \<Rightarrow> if ci_data ix \<noteq> [] \<and> hd (ci_data ix) = 9 \<and> ib_keys bundle \<noteq> []
                  then Some (hd (ib_keys bundle)) else None
     | None \<Rightarrow> None)"

definition token_2022_handle_account :: "unpackers \<Rightarrow> bytes \<Rightarrow> token_extensions_program_entity bb_result" where
  "token_2022_handle_account U account_data =
    (let ge = get_extension U account_data; has = (\<lambda>x. map_option (\<lambda>_. True) (ge x)) in
     case unpack_account_2022 U account_data of
       Some a \<Rightarrow> Inr (XE_TokenAccount a
         \<lparr>tx_confidential_transfer = ge X_ConfidentialTransferAccount, tx_cpi_guard = ge X_CpiGuard,
          tx_memo_transfer = ge X_MemoTransfer, tx_transfer_fee_amount = ge X_TransferFeeAmount,
          tx_immutable_owner = has X_ImmutableOwner,
          tx_non_transferable_account = has X_NonTransferableAccount\<rparr>)
     | None \<Rightarrow>
        (case unpack_mint_2022 U account_data of
           Some m \<Rightarrow> Inr (XE_MintAccount m
             \<lparr>mx_default_account_state = ge X_DefaultAccountState,
              mx_confidential_transfer_mint = ge X_ConfidentialTransferMint,
              mx_confidential_transfer_fee_config = ge X_ConfidentialTransferFeeConfig,
              mx_interest_bearing_config = ge X_InterestBearingConfig,
              mx_transfer_fee_config = ge X_TransferFeeConfig,
              mx_mint_close_authority = ge X_MintCloseAuthority,
              mx_permanent_delegate = ge X_PermanentDelegate,
              mx_metadata_pointer = ge X_MetadataPointer,
              mx_metadata = get_metadata_extension U account_data,
              mx_transfer_hook = ge X_TransferHook, mx_group_pointer = ge X_GroupPointer,
              mx_token_group = ge X_TokenGroup, mx_group_member_pointer = ge X_GroupMemberPointer,
              mx_token_group_member = ge X_TokenGroupMember,
              mx_non_transferable = has X_NonTransferable,
              mx_immutable_owner = has X_ImmutableOwner\<rparr>)
         | None \<Rightarrow> Inl InvalidDataLength))"

definition token_metadata_handle_account :: "unpackers \<Rightarrow> bytes \<Rightarrow> token_metadata_account_data bb_result" where
  "token_metadata_handle_account U account_data =
    (if account_data = [] then Inr TM_EmptyAccount
     else io (de_tm_key U (take 1 account_data)) (\<lambda>key.
       case key of
         K_EditionV1 \<Rightarrow> io (de_edition U account_data) (\<lambda>a. Inr (TM_EditionV1 a))
       | K_MasterEditionV1 \<Rightarrow> io (de_master_edition_v1 U account_data) (\<lambda>a. Inr (TM_MasterEditionV1 a))
       | K_MasterEditionV2 \<Rightarrow> io (de_master_edition_v2 U account_data) (\<lambda>a. Inr (TM_MasterEditionV2 a))
       | K_UseAuthorityRecord \<Rightarrow>
           (case de_use_authority_record U account_data of Some e \<Rightarrow> Inl (IOError e) | None \<Rightarrow> Inr TM_UseAuthorityRecord)
       | K_EditionMarker \<Rightarrow>
           (case de_edition_marker U account_data of Some e \<Rightarrow> Inl (IOError e) | None \<Rightarrow> Inr TM_EditionMarker)
       | K_CollectionAuthorityRecord \<Rightarrow>
           (case de_collection_authority_record U account_data of
              Some e \<Rightarrow> Inl (IOError e) | None \<Rightarrow> Inr TM_CollectionAuthorityRecord)
       | K_MetadataV1 \<Rightarrow> io (safe_deserialize_metadata U account_data) (\<lambda>a. Inr (TM_MetadataV1 a))
       | K_Uninitialized \<Rightarrow> Inl UninitializedAccount
       | _ \<Rightarrow> Inl AccountTypeNotImplemented))"

section \<open>Round trip of the inscription layout\<close>

lemma length_to_le_bytes [simp]: "length (to_le_bytes k n) = k"
  by (induction k arbitrary: n) simp_all

lemma from_to_le_bytes: "n < 256 ^ k \<Longrightarrow> from_le_bytes (to_le_bytes k n) = n"
proof (induction k arbitrary: n)
  case (Suc k)
  have "unat (of_nat (n mod 256) :: u8) = n mod 256" by (simp add: unat_of_nat)
  with Suc show ?case by (simp add: less_mult_imp_div_less mult.commute)
qed simp

lemma slice_append:
  "length xs = i \<Longrightarrow> i + length ys = j \<Longrightarrow> slice (xs @ ys @ zs) i j = Some ys"
  by (auto simp: slice_def)

text \<open>The account as the inscription program lays it out.\<close>

definition option_layout :: "bytes option \<Rightarrow> bytes" where
  "option_layout v = (case v of None \<Rightarrow> [0] | Some h \<Rightarrow> 1 # to_le_bytes 4 (length h) @ h)"

definition inscription_layout :: "pubkey \<Rightarrow> pubkey \<Rightarrow> pubkey \<Rightarrow> u64 \<Rightarrow> u32 \<Rightarrow> bytes \<Rightarrow> bytes \<Rightarrow> bytes option \<Rightarrow> bytes" where
  "inscription_layout authority mint ins order sz content encoding vh =
     INSCRIPTION_ACC_DATA_DISC @ authority @ mint @ ins @ to_le_bytes 8 (unat order) @
     to_le_bytes 4 (unat sz) @ to_le_bytes 4 (length content) @ content @
     to_le_bytes 4 (length encoding) @ encoding @ option_layout vh"

lemma unpack_validation_hash_layout:
  assumes "length pre = p" "\<forall>h. vh = Some h \<longrightarrow> valid_utf8 h \<and> length h < 2 ^ 32"
  shows "unpack_validation_hash (pre @ option_layout vh) p =
    Some (map_option (map (\<lambda>b. char_of (unat b))) vh)"
proof (cases vh)
  case None
  then show ?thesis
    using slice_append [of pre p "[0]" "p + 1" "[]"] assms(1)
    by (simp add: unpack_validation_hash_def option_layout_def)
next
  case (Some h)
  let ?l = "to_le_bytes 4 (length h)"
  have "length h < 256 ^ 4" using assms(2) Some by simp
  then have len: "from_le_bytes ?l = length h" by (rule from_to_le_bytes)
  have "slice (pre @ 1 # ?l @ h) p (p + 1) = Some [1]"
    using slice_append [of pre p "[1]" "p + 1" "?l @ h"] assms(1) by simp
  moreover have "slice (pre @ 1 # ?l @ h) (p + 1) (p + 5) = Some ?l"
    using slice_append [of "pre @ [1]" "p + 1" ?l "p + 5" h] assms(1) by simp
  moreover have "slice (pre @ 1 # ?l @ h) (p + 5) (p + 5 + length h) = Some h"
    using slice_append [of "pre @ 1 # ?l" "p + 5" h "p + 5 + length h" "[]"] assms(1) by simp
  ultimately show ?thesis
    using assms(2) Some
    by (simp add: unpack_validation_hash_def option_layout_def len from_utf8_unwrap_def)
qed

text \<open>
  C30: Inscription accounts are read back as they were written: whatever the content type,
  encoding and optional validation hash (valid UTF-8, lengths that fit the 32-bit prefixes),
  the parser returns exactly the fields of the layout and does not panic.
\<close>

theorem inscription_roundtrip:
  assumes keys: "length authority = 32" "length mint = 32" "length ins = 32"
    and content: "valid_utf8 content" "length content < 2 ^ 32"
    and encoding: "valid_utf8 encoding" "length encoding < 2 ^ 32"
    and vh: "\<forall>h. vh = Some h \<longrightarrow> valid_utf8 h \<and> length h < 2 ^ 32"
  shows "try_unpack_data E (inscription_layout authority mint ins order sz content encoding vh) =
    Some (Inr \<lparr>in_authority = bs58_encode E authority, in_root = bs58_encode E mint,
      in_content = map (\<lambda>b. char_of (unat b)) content,
      in_encoding = map (\<lambda>b. char_of (unat b)) encoding,
      in_inscription_data = bs58_encode E ins, in_order = order, in_size = sz,
      in_validation_hash = map_option (map (\<lambda>b. char_of (unat b))) vh\<rparr>)"
proof -
  let ?D = INSCRIPTION_ACC_DATA_DISC
  let ?o = "to_le_bytes 8 (unat order)" and ?s = "to_le_bytes 4 (unat sz)"
  let ?cl = "to_le_bytes 4 (length content)" and ?el = "to_le_bytes 4 (length encoding)"
  let ?v = "option_layout vh"
  let ?data = "inscription_layout authority mint ins order sz content encoding vh"
  define c e where "c = length content" and "e = length encoding"
  have D: "length ?D = 8" by (simp add: INSCRIPTION_ACC_DATA_DISC_def)
  note lay = inscription_layout_def
  have "slice ?data 0 8 = Some ?D"
    using slice_append [of "[]" 0 ?D 8] D unfolding lay by simp
  moreover have "slice ?data 8 40 = Some authority"
    unfolding lay by (rule slice_append) (simp_all add: D keys)
  moreover have "slice ?data 40 72 = Some mint"
    using slice_append [of "?D @ authority" 40 mint 72] D keys unfolding lay by simp
  moreover have "slice ?data 72 104 = Some ins"
    using slice_append [of "?D @ authority @ mint" 72 ins 104] D keys unfolding lay by simp
  moreover have "slice ?data 104 112 = Some ?o"
    using slice_append [of "?D @ authority @ mint @ ins" 104 ?o 112] D keys unfolding lay by simp
  moreover have "slice ?data 112 116 = Some ?s"
    using slice_append [of "?D @ authority @ mint @ ins @ ?o" 112 ?s 116] D keys unfolding lay by simp
  moreover have "slice ?data 116 120 = Some ?cl"
    using slice_append [of "?D @ authority @ mint @ ins @ ?o @ ?s" 116 ?cl 120] D keys
    unfolding lay by simp
  moreover have "slice ?data 120 (120 + c) = Some content"
    using slice_append [of "?D @ authority @ mint @ ins @ ?o @ ?s @ ?cl" 120 content "120 + c"] D keys
    unfolding lay by (simp add: c_def)
  moreover have "slice ?data (120 + c) (124 + c) = Some ?el"
    using slice_append [of "?D @ authority @ mint @ ins @ ?o @ ?s @ ?cl @ content" "120 + c" ?el "124 + c"]
      D keys unfolding lay by (simp add: c_def)
  moreover have "slice ?data (124 + c) (124 + c + e) = Some encoding"
    using slice_append [of "?D @ authority @ mint @ ins @ ?o @ ?s @ ?cl @ content @ ?el" "124 + c"
        encoding "124 + c + e"] D keys unfolding lay by (simp add: c_def e_def)
  moreover have "unpack_validation_hash ?data (124 + c + e) =
      Some (map_option (map (\<lambda>b. char_of (unat b))) vh)"
    using unpack_validation_hash_layout [of "?D @ authority @ mint @ ins @ ?o @ ?s @ ?cl @ content @ ?el @ encoding"
        "124 + c + e" vh] D keys vh unfolding lay by (simp add: c_def e_def)
  moreover have "BASE_SIZE \<le> length ?data"
    by (simp add: lay BASE_SIZE_def D keys)
  moreover have "from_le_bytes ?o = unat order" "from_le_bytes ?s = unat sz"
    using unsigned_less [of order, where ?'a = nat] unsigned_less [of sz, where ?'a = nat] by (intro from_to_le_bytes; simp)+
  moreover have "from_le_bytes ?cl = c" "from_le_bytes ?el = e"
    using content(2) encoding(2) by (auto intro!: from_to_le_bytes simp: c_def e_def)
  ultimately show ?thesis
    using content(1) encoding(1)
    by (simp add: try_unpack_data_def unpack_fields_def from_utf8_unwrap_def Let_def)
qed

theorem inscription_roundtrip_witness:
  "try_unpack_data ext0 (inscription_layout (replicate 32 1) (replicate 32 2) (replicate 32 3) 7 9
      [97] [98, 99] (Some [100])) =
    Some (Inr \<lparr>in_authority = bs58_encode ext0 (replicate 32 1), in_root = bs58_encode ext0 (replicate 32 2),
      in_content = ''a'', in_encoding = ''bc'', in_inscription_data = bs58_encode ext0 (replicate 32 3),
      in_order = 7, in_size = 9, in_validation_hash = Some ''d''\<rparr>)"
proof -
  have "map (\<lambda>b. char_of (unat b)) [97 :: u8] = ''a''" "map (\<lambda>b. char_of (unat b)) [98 :: u8, 99] = ''bc''"
    "map (\<lambda>b. char_of (unat b)) [100 :: u8] = ''d''" "valid_utf8 [97]" "valid_utf8 [98, 99]" "valid_utf8 [100]"
    by code_simp+
  then show ?thesis
    by (subst inscription_roundtrip) simp_all
qed

end
