(* ===== verification/Account_Upserts.thy ===== *)
theory Account_Upserts
  imports Bubblegum Account_Parsers
begin

text \<open>
  Account updates of \<open>program_transformers/src\<close>: the slot-guarded upserts on \<open>asset\<close>
  (\<open>asset_upserts.rs\<close>), the token program (\<open>token/mod.rs\<close>), Token-2022
  (\<open>token_extensions/mod.rs\<close>), inscriptions, the agent registry, and the helpers of \<open>lib.rs\<close>
  they share. Account updates carry a slot instead of a sequence number, and each group of
  columns keeps the slot that last wrote it.
\<close>

section \<open>Columns of the asset row\<close>

definition upsert_assets_token_account_columns ::
    "(string \<Rightarrow> program_transformer_error) \<Rightarrow> bytes \<Rightarrow> bytes option \<Rightarrow> bool \<Rightarrow> bytes option \<Rightarrow> i64 option \<Rightarrow> stmt" where
  "upsert_assets_token_account_columns err mint_id owner frozen delegate slot =
    (let cols = (\<lambda>r. r\<lparr>a_owner := owner, a_frozen := frozen, a_delegate := delegate,
                     a_slot_updated_token_account := slot\<rparr>)
     in (err,
         upsert_asset cols
           (\<lambda>r. sql_or (sql_cmp (\<ge>) slot (a_slot_updated_token_account r))
                  (is_null (a_slot_updated_token_account r)))
           (\<lambda>r. (cols r)\<lparr>a_slot_updated := greatest_slot (a_slot_updated r) slot\<rparr>)
           mint_id))"

definition upsert_assets_mint_account_columns ::
    "(string \<Rightarrow> program_transformer_error) \<Rightarrow> bytes \<Rightarrow> int \<Rightarrow> i64 \<Rightarrow> json option \<Rightarrow> stmt" where
  "upsert_assets_mint_account_columns err mint_id supply slot extensions =
    (let cols = (\<lambda>r. r\<lparr>a_supply := supply, a_slot_updated_mint_account := Some slot,
                     a_mint_extensions := extensions, a_asset_data := Some mint_id\<rparr>)
     in (err,
         upsert_asset
           (\<lambda>r. (cols r)\<lparr>a_supply_mint := Some mint_id, a_slot_updated := Some slot,
                  a_specification_asset_class := Some SAC_FungibleToken, a_owner_type := OT_Token\<rparr>)
           (\<lambda>r. sql_or (sql_cmp (\<ge>) (Some slot) (a_slot_updated_mint_account r))
                  (is_null (a_slot_updated_mint_account r)))
           (\<lambda>r. (cols r)\<lparr>a_slot_updated := greatest_slot (a_slot_updated r) (Some slot)\<rparr>)
           mint_id))"

record asset_metadata_account_columns =
  mc_mint :: bytes
  mc_owner_type :: owner_type
  mc_specification_asset_class :: "specification_asset_class option"
  mc_royalty_amount :: int
  mc_asset_data :: "bytes option"
  mc_slot_updated_metadata_account :: u64
  mc_mpl_core_plugins :: "json option"
  mc_mpl_core_unknown_plugins :: "json option"
  mc_mpl_core_collection_num_minted :: "int option"
  mc_mpl_core_collection_current_size :: "int option"
  mc_mpl_core_plugins_json_version :: "int option"
  mc_mpl_core_external_plugins :: "json option"
  mc_mpl_core_unknown_external_plugins :: "json option"
  mc_is_agent :: bool
  mc_asset_signer :: "bytes option"

definition metadata_cols :: "asset_metadata_account_columns \<Rightarrow> asset \<Rightarrow> asset" where
  "metadata_cols c r = r\<lparr>a_owner_type := mc_owner_type c, a_specification_version := Some SV_V1,
     a_specification_asset_class := mc_specification_asset_class c, a_tree_id := None,
     a_nonce := Some 0, a_seq := Some 0, a_leaf := None, a_data_hash := None,
     a_creator_hash := None, a_compressed := False, a_compressible := False,
     a_royalty_target_type := RT_Creators, a_royalty_target := None,
     a_royalty_amount := mc_royalty_amount c, a_asset_data := mc_asset_data c,
     a_slot_updated_metadata_account := Some (as_i64 (mc_slot_updated_metadata_account c)),
     a_burnt := False, a_mpl_core_plugins := mc_mpl_core_plugins c,
     a_mpl_core_unknown_plugins := mc_mpl_core_unknown_plugins c,
     a_mpl_core_collection_num_minted := mc_mpl_core_collection_num_minted c,
     a_mpl_core_collection_current_size := mc_mpl_core_collection_current_size c,
     a_mpl_core_plugins_json_version := mc_mpl_core_plugins_json_version c,
     a_mpl_core_external_plugins := mc_mpl_core_external_plugins c,
     a_mpl_core_unknown_external_plugins := mc_mpl_core_unknown_external_plugins c,
     a_is_agent := mc_is_agent c, a_asset_signer := mc_asset_signer c\<rparr>"

definition upsert_assets_metadata_account_columns :: "asset_metadata_account_columns \<Rightarrow> stmt" where
  "upsert_assets_metadata_account_columns c =
    (let slot = as_i64 (mc_slot_updated_metadata_account c)
     in (StorageWriteError,
         upsert_asset (metadata_cols c)
           (\<lambda>r. sql_or (sql_cmp (\<ge>) (Some slot) (a_slot_updated_metadata_account r))
                  (is_null (a_slot_updated_metadata_account r)))
           (\<lambda>r. (metadata_cols c r)\<lparr>a_slot_updated := greatest_slot (a_slot_updated r) (Some slot)\<rparr>)
           (mc_mint c)))"

section \<open>Helpers of lib.rs\<close>

text \<open>
  The retries wait for another writer; without one the same query is asked again, so a run
  of the model asks it once per interval. \<open>record_metric\<close> only counts.
\<close>

fun find_model_with_retry :: "(string \<Rightarrow> program_transformer_error) \<Rightarrow> (db \<Rightarrow> 'm option) \<Rightarrow> nat list \<Rightarrow>
    'm option handler" where
  "find_model_with_retry err select [] = return_m None"
| "find_model_with_retry err select (interval # retry_intervals) =
    bind_m (query err select) (\<lambda>model.
      case model of Some m \<Rightarrow> return_m (Some m)
      | None \<Rightarrow> find_model_with_retry err select retry_intervals)"

definition RETRY_INTERVALS :: "nat list" where
  "RETRY_INTERVALS = [0, 5, 10]"

fun filter_non_null_fields :: "json \<Rightarrow> json option" where
  "filter_non_null_fields JNull = None"
| "filter_non_null_fields (JObj obj) =
    (if \<forall>kv\<in>set obj. snd kv = JNull then None
     else (let filtered_map = filter (\<lambda>kv. snd kv \<noteq> JNull) obj in
           if filtered_map = [] then None else Some (JObj filtered_map)))"
| "filter_non_null_fields value = Some value"

definition delete_token :: "pubkey \<Rightarrow> stmt" where
  "delete_token k = (StorageWriteError, \<lambda>d. d\<lparr>tokens_t := filter (\<lambda>t. tk_mint t \<noteq> k) (tokens_t d)\<rparr>)"

definition mark_burnt :: "pubkey \<Rightarrow> stmt" where
  "mark_burnt k = (StorageWriteError,
     \<lambda>d. d\<lparr>asset_t := map (\<lambda>r. if a_id r = k then r\<lparr>a_burnt := True\<rparr> else r) (asset_t d)\<rparr>)"

definition delete_token_account :: "pubkey \<Rightarrow> stmt" where
  "delete_token_account k = (StorageWriteError,
     \<lambda>d. d\<lparr>token_accounts_t := filter (\<lambda>t. ta_pubkey t \<noteq> k) (token_accounts_t d)\<rparr>)"

text \<open>
  Closing an account: every database error is logged and dropped, the failed lookup of the
  mint included. The two statements joined by \<open>tokio::join!\<close> touch different tables; the model
  sends them in the order they are written.
\<close>

definition handle_token_program_close_ix :: "pubkey \<Rightarrow> unit handler" where
  "handle_token_program_close_ix acc_to_close w =
    (case query StorageWriteError (\<lambda>d. lookup tk_mint acc_to_close (tokens_t d)) w of
       (Inr (Some _), w1) \<Rightarrow>
         bind_m (ignore_error (execute (delete_token acc_to_close)))
           (\<lambda>_. ignore_error (execute (mark_burnt acc_to_close))) w1
     | (_, w1) \<Rightarrow> ignore_error (execute (delete_token_account acc_to_close)) w1)"

section \<open>The token program\<close>

record account_info =
  ac_slot :: u64
  ac_pubkey :: pubkey
  ac_owner :: pubkey
  ac_data :: bytes

text \<open>\<open>with_ext\<close>: Token-2022 updates the extensions column too, the token program does not.\<close>

definition upsert_token_account :: "bool \<Rightarrow> token_accounts \<Rightarrow> stmt" where
  "upsert_token_account with_ext new =
    (StorageWriteError,
     \<lambda>d. d\<lparr>token_accounts_t := upsert ta_pubkey new
       (\<lambda>r. if ta_slot_updated new > ta_slot_updated r
            then new\<lparr>ta_extensions := (if with_ext then ta_extensions new else ta_extensions r)\<rparr>
            else r)
       (token_accounts_t d)\<rparr>)"

definition upsert_token :: "bool \<Rightarrow> tokens \<Rightarrow> stmt" where
  "upsert_token with_ext new =
    (StorageWriteError,
     \<lambda>d. d\<lparr>tokens_t := upsert tk_mint new
       (\<lambda>r. if tk_slot_updated new \<ge> tk_slot_updated r
            then new\<lparr>tk_extensions := (if with_ext then tk_extensions new else tk_extensions r)\<rparr>
            else r)
       (tokens_t d)\<rparr>)"

definition token_is_non_fungible :: "tokens \<Rightarrow> bool" where
  "token_is_non_fungible t = (tk_decimals t = 0 \<and> tk_supply t = 1)"

definition token_account_model :: "account_info \<Rightarrow> spl_account \<Rightarrow> json option \<Rightarrow> token_accounts" where
  "token_account_model info ta extensions =
    \<lparr>ta_pubkey = ac_pubkey info, ta_mint = sa_mint ta, ta_amount = as_i64 (sa_amount ta),
     ta_owner = sa_owner ta, ta_frozen = (sa_state ta = AS_Frozen), ta_close_authority = None,
     ta_delegate = sa_delegate ta, ta_delegated_amount = as_i64 (sa_delegated_amount ta),
     ta_slot_updated = as_i64 (ac_slot info), ta_token_program = ac_owner info,
     ta_extensions = extensions\<rparr>"

definition token_model :: "account_info \<Rightarrow> spl_mint \<Rightarrow> json option \<Rightarrow> tokens" where
  "token_model info m extensions =
    \<lparr>tk_mint = ac_pubkey info, tk_supply = uint (sm_supply m), tk_decimals = uint (sm_decimals m),
     tk_token_program = ac_owner info, tk_mint_authority = sm_mint_authority m,
     tk_freeze_authority = sm_freeze_authority m, tk_close_authority = None,
     tk_extension_data = None, tk_slot_updated = as_i64 (ac_slot info), tk_extensions = extensions\<rparr>"

text \<open>The part both programs share: store the account, then the asset's owner if it is an NFT.\<close>

definition save_token_account :: "bool \<Rightarrow> account_info \<Rightarrow> spl_account \<Rightarrow> json option \<Rightarrow> unit handler" where
  "save_token_account with_ext info ta extensions =
    bind_m (execute (upsert_token_account with_ext (token_account_model info ta extensions))) (\<lambda>_.
      bind_m (query StorageWriteError (\<lambda>d. lookup tk_mint (sa_mint ta) (tokens_t d))) (\<lambda>token.
        if (case token of Some t \<Rightarrow> token_is_non_fungible t | None \<Rightarrow> False) then
          transaction [upsert_assets_token_account_columns StorageWriteError (sa_mint ta)
            (Some (sa_owner ta)) (sa_state ta = AS_Frozen) (sa_delegate ta)
            (Some (as_i64 (ac_slot info)))]
        else return_m ()))"

definition save_mint_account :: "bool \<Rightarrow> account_info \<Rightarrow> spl_mint \<Rightarrow> json option \<Rightarrow> unit handler" where
  "save_mint_account with_ext info m extensions =
    bind_m (execute (upsert_token with_ext (token_model info m extensions))) (\<lambda>_.
      transaction [upsert_assets_mint_account_columns StorageWriteError (ac_pubkey info)
        (uint (sm_supply m)) (as_i64 (ac_slot info)) extensions])"

definition handle_token_program_account :: "account_info \<Rightarrow> token_program_entity \<Rightarrow> unit handler" where
  "handle_token_program_account account_info parsing_result =
    (case parsing_result of
       TE_TokenAccount ta \<Rightarrow> save_token_account False account_info ta None
     | TE_Mint m \<Rightarrow> save_mint_account False account_info m None
     | TE_CloseIx _ \<Rightarrow> raise_m NotImplemented)"

section \<open>Token-2022\<close>

definition upsert_shadow_asset_data :: "shadow_metadata \<Rightarrow> bytes \<Rightarrow> i64 \<Rightarrow> stmt" where
  "upsert_shadow_asset_data metadata key_bytes slot =
    (let new = \<lparr>ad_id = key_bytes, ad_chain_data_mutability = CM_Mutable,
                ad_chain_data = shm_value metadata, ad_metadata_url = shm_uri metadata,
                ad_metadata_mutability = M_Mutable, ad_metadata = JStr ''processing'',
                ad_slot_updated = slot, ad_reindex = Some True,
                ad_raw_name = Some (str_bytes (shm_name metadata)),
                ad_raw_symbol = Some (str_bytes (shm_symbol metadata)), ad_base_info_seq = Some 0\<rparr>
     in (StorageWriteError,
         \<lambda>d. d\<lparr>asset_data_t := upsert ad_id new
           (\<lambda>r. if slot \<ge> ad_slot_updated r
                then new\<lparr>ad_metadata_mutability := ad_metadata_mutability r, ad_metadata := ad_metadata r\<rparr>
                else r) (asset_data_t d)\<rparr>))"

definition upsert_assets_metadata_cols :: "bytes \<Rightarrow> i64 \<Rightarrow> stmt" where
  "upsert_assets_metadata_cols mint_id slot =
    (let cols = (\<lambda>r. r\<lparr>a_slot_updated_metadata_account := Some slot\<rparr>)
     in (StorageWriteError,
         upsert_asset cols
           (\<lambda>r. sql_or (sql_cmp (\<ge>) (Some slot) (a_slot_updated_metadata_account r))
                  (is_null (a_slot_updated_metadata_account r)))
           cols mint_id))"

definition upsert_asset_data_2022 :: "shadow_metadata \<Rightarrow> bytes \<Rightarrow> i64 \<Rightarrow> download_metadata_info option handler" where
  "upsert_asset_data_2022 metadata key_bytes slot =
    bind_m (execute (upsert_shadow_asset_data metadata key_bytes slot)) (\<lambda>_.
      bind_m (transaction [upsert_assets_metadata_cols key_bytes slot]) (\<lambda>_.
        return_m (if shm_uri metadata = [] then None
                  else Some \<lparr>dm_asset_data_id = key_bytes, dm_uri = shm_uri metadata\<rparr>)))"

definition handle_token_extensions_program_account ::
    "ext \<Rightarrow> account_info \<Rightarrow> token_extensions_program_entity \<Rightarrow> unit handler" where
  "handle_token_extensions_program_account E account_info parsing_result =
    (case parsing_result of
       XE_TokenAccount ta extensions \<Rightarrow>
         save_token_account True account_info ta
           (if token_ext_is_some extensions then filter_non_null_fields (token_ext_value extensions) else None)
     | XE_MintAccount m extensions \<Rightarrow>
         bind_m (save_mint_account True account_info m
             (if mint_ext_is_some extensions then filter_non_null_fields (mint_ext_value extensions) else None))
           (\<lambda>_. case mx_metadata extensions of
              Some metadata \<Rightarrow>
                bind_m (upsert_asset_data_2022 metadata (ac_pubkey account_info) (as_i64 (ac_slot account_info)))
                  (notify_download E)
            | None \<Rightarrow> return_m ())
     | XE_CloseIx _ \<Rightarrow> raise_m NotImplemented)"

section \<open>Inscriptions and the agent registry\<close>

text \<open>Parameters: serde on third-party structs, Solana's key parsing and program addresses.\<close>

record serde =
  inscription_to_value :: "inscription_data \<Rightarrow> string + json"
  master_edition_to_value :: "master_edition \<Rightarrow> string + json"
  edition_to_value :: "edition \<Rightarrow> string + json"
  pubkey_from_str :: "string \<Rightarrow> string + pubkey"
  master_edition_find_pda :: "pubkey \<Rightarrow> pubkey"
  WSOL_PUBKEY :: pubkey

definition upsert_inscription :: "attachments \<Rightarrow> stmt" where
  "upsert_inscription new =
    (StorageWriteError,
     \<lambda>d. d\<lparr>attachments_t := upsert at_id new
       (\<lambda>r. if at_slot_updated new > at_slot_updated r
            then r\<lparr>at_data := at_data new, at_slot_updated := at_slot_updated new\<rparr> else r)
       (attachments_t d)\<rparr>)"

definition handle_token_inscription_program_update :: "serde \<Rightarrow> account_info \<Rightarrow> inscription_data \<Rightarrow> unit handler" where
  "handle_token_inscription_program_update S account_info data =
    (case inscription_to_value S data of
       Inl e \<Rightarrow> raise_m (SerializatonError e)
     | Inr ser \<Rightarrow>
        (case pubkey_from_str S (in_root data) of
           Inl e \<Rightarrow> raise_m (ParsingError e)
         | Inr asset_id \<Rightarrow>
             execute (upsert_inscription
               \<lparr>at_id = ac_pubkey account_info, at_asset_id = Some asset_id,
                at_attachment_type = VA_TokenInscription, at_initialized = True,
                at_data = Some ser, at_slot_updated = as_i64 (ac_slot account_info)\<rparr>)))"

definition update_agent_token :: "bytes \<Rightarrow> bytes option \<Rightarrow> i64 \<Rightarrow> stmt" where
  "update_agent_token asset_id agent_token slot_i =
    (AssetIndexError,
     \<lambda>d. d\<lparr>asset_t := map
       (\<lambda>r. if a_id r = asset_id \<and> \<not> a_burnt r \<and> a_specification_asset_class r = Some SAC_MplCoreAsset \<and>
               holds (sql_or (is_null (a_slot_updated_agent_registry r))
                       (sql_cmp (\<le>) (a_slot_updated_agent_registry r) (Some slot_i)))
            then r\<lparr>a_agent_token := agent_token, a_slot_updated_agent_registry := Some slot_i,
                   a_slot_updated := greatest_slot (a_slot_updated r) (Some slot_i)\<rparr>
            else r) (asset_t d)\<rparr>)"

definition handle_agent_registry_account :: "parsed_agent_identity option \<Rightarrow> u64 \<Rightarrow> unit handler" where
  "handle_agent_registry_account parsed slot =
    (case parsed of
       None \<Rightarrow> return_m ()
     | Some inner \<Rightarrow>
         bind_m (find_model_with_retry StorageWriteError (asset_row (ag_asset inner)) RETRY_INTERVALS) (\<lambda>model.
           case model of
             None \<Rightarrow> return_m ()
           | Some asset_model \<Rightarrow>
               if a_burnt asset_model then return_m ()
               else execute (update_agent_token (ag_asset inner) (ag_agent_token_mint inner) (as_i64 slot))))"

end
