(* ===== verification/Token_Metadata.thy ===== *)
theory Token_Metadata
  imports Account_Upserts
begin

text \<open>
  The token metadata program: \<open>program_transformers/src/token_metadata\<close> (editions, the asset of a
  metadata account, closed accounts). The statements on the side tables that MPL core writes the
  same way are defined here once (\<open>upsert_account_authority\<close>, \<open>upsert_account_collection\<close>,
  \<open>upsert_account_creators\<close>, \<open>upsert_account_asset_data\<close>).
\<close>

section \<open>Editions\<close>

definition upsert_edition_attachment :: "attachments \<Rightarrow> stmt" where
  "upsert_edition_attachment new =
    (StorageWriteError,
     \<lambda>d. d\<lparr>attachments_t := upsert at_id new
       (\<lambda>r. if at_slot_updated new \<ge> at_slot_updated r
            then r\<lparr>at_attachment_type := at_attachment_type new, at_data := at_data new,
                   at_slot_updated := at_slot_updated new\<rparr> else r)
       (attachments_t d)\<rparr>)"

definition edition_attachment :: "v1_account_attachments \<Rightarrow> pubkey \<Rightarrow> u64 \<Rightarrow> json \<Rightarrow> attachments" where
  "edition_attachment version i slot ser =
    \<lparr>at_id = i, at_asset_id = None, at_attachment_type = version, at_initialized = False,
     at_data = Some ser, at_slot_updated = as_i64 slot\<rparr>"

text \<open>Each runs in a transaction of its own, opened by the caller before the serialisation.\<close>

definition in_transaction :: "program_transformer_error + stmt list \<Rightarrow> unit handler" where
  "in_transaction r =
    (case r of Inr ss \<Rightarrow> transaction ss
     | Inl e \<Rightarrow> bind_m (execute control) (\<lambda>_. raise_m e))"

definition save_master_edition ::
    "serde \<Rightarrow> v1_account_attachments \<Rightarrow> pubkey \<Rightarrow> u64 \<Rightarrow> master_edition \<Rightarrow> program_transformer_error + stmt list" where
  "save_master_edition S version i slot me_data =
    (case master_edition_to_value S me_data of
       Inl e \<Rightarrow> Inl (SerializatonError e)
     | Inr ser \<Rightarrow> Inr [upsert_edition_attachment (edition_attachment version i slot ser)])"

definition save_v2_master_edition :: "serde \<Rightarrow> pubkey \<Rightarrow> u64 \<Rightarrow> master_edition \<Rightarrow> program_transformer_error + stmt list" where
  "save_v2_master_edition S i slot me_data = save_master_edition S VA_MasterEditionV2 i slot me_data"

definition save_v1_master_edition :: "serde \<Rightarrow> pubkey \<Rightarrow> u64 \<Rightarrow> master_edition \<Rightarrow> program_transformer_error + stmt list" where
  "save_v1_master_edition S i slot me_data =
     save_master_edition S VA_MasterEditionV1 i slot
       \<lparr>me_key = K_MasterEditionV1, me_supply = me_supply me_data, me_max_supply = me_max_supply me_data\<rparr>"

definition save_edition :: "serde \<Rightarrow> pubkey \<Rightarrow> u64 \<Rightarrow> edition \<Rightarrow> program_transformer_error + stmt list" where
  "save_edition S i slot e_data =
    (case edition_to_value S e_data of
       Inl e \<Rightarrow> Inl (SerializatonError e)
     | Inr ser \<Rightarrow> Inr [upsert_edition_attachment (edition_attachment VA_Edition i slot ser)])"

section \<open>Closed accounts\<close>

definition burn_v1_asset :: "pubkey \<Rightarrow> u64 \<Rightarrow> stmt" where
  "burn_v1_asset i slot =
    (let slot_i = as_i64 slot; cols = (\<lambda>r. r\<lparr>a_slot_updated := Some slot_i, a_burnt := True\<rparr>)
     in (StorageWriteError,
         upsert_asset cols (\<lambda>r. sql_cmp (>) (Some slot_i) (a_slot_updated r)) cols i))"

section \<open>Statements on the side tables\<close>

definition upsert_account_asset_data :: "asset_data \<Rightarrow> stmt" where
  "upsert_account_asset_data new =
    (AssetIndexError,
     \<lambda>d. d\<lparr>asset_data_t := upsert ad_id new
       (\<lambda>r. if ad_slot_updated new > ad_slot_updated r
            then new\<lparr>ad_metadata := ad_metadata r\<rparr> else r) (asset_data_t d)\<rparr>)"

definition upsert_attachment_do_nothing :: "attachments \<Rightarrow> stmt" where
  "upsert_attachment_do_nothing new =
    (AssetIndexError, \<lambda>d. d\<lparr>attachments_t := upsert at_id new (\<lambda>r. r) (attachments_t d)\<rparr>)"

text \<open>\<open>AND authority IS DISTINCT FROM excluded.authority\<close>: an unchanged authority keeps its slot.\<close>

definition upsert_authority_row :: "asset_authority \<Rightarrow> asset_authority list \<Rightarrow> asset_authority list" where
  "upsert_authority_row new t =
     upsert au_asset_id new
       (\<lambda>r. if au_slot_updated new > au_slot_updated r \<and> au_authority r \<noteq> au_authority new
            then r\<lparr>au_authority := au_authority new, au_seq := au_seq new,
                   au_slot_updated := au_slot_updated new\<rparr>
            else r) t"

definition account_authority :: "bytes \<Rightarrow> bytes \<Rightarrow> i64 \<Rightarrow> asset_authority" where
  "account_authority i authority slot_i =
    \<lparr>au_asset_id = i, au_scopes = None, au_authority = authority, au_seq = 0, au_slot_updated = slot_i\<rparr>"

definition upsert_account_authority :: "bytes \<Rightarrow> bytes \<Rightarrow> i64 \<Rightarrow> stmt" where
  "upsert_account_authority i authority slot_i =
    (AssetIndexError,
     \<lambda>d. d\<lparr>asset_authority_t :=
       upsert_authority_row (account_authority i authority slot_i) (asset_authority_t d)\<rparr>)"

definition upsert_account_collection :: "bytes \<Rightarrow> string option \<Rightarrow> bool \<Rightarrow> i64 \<Rightarrow> stmt" where
  "upsert_account_collection i value verified slot_i =
    (let new = \<lparr>gr_asset_id = i, gr_group_key = collection_group, gr_group_value = value, gr_seq = None,
                gr_slot_updated = Some slot_i, gr_verified = verified, gr_group_info_seq = Some 0\<rparr>
     in (AssetIndexError,
         \<lambda>d. d\<lparr>asset_grouping_t := upsert gr_collection_key new
           (\<lambda>r. if holds (sql_or (sql_cmp (\<ge>) (Some slot_i) (gr_slot_updated r)) (is_null (gr_slot_updated r)))
                then r\<lparr>gr_group_value := value, gr_verified := verified, gr_slot_updated := Some slot_i,
                       gr_group_info_seq := Some 0\<rparr>
                else r)
           (asset_grouping_t d)\<rparr>))"

definition upsert_account_creator_row :: "asset_creators \<Rightarrow> asset_creators list \<Rightarrow> asset_creators list" where
  "upsert_account_creator_row new t =
     upsert cr_key new
       (\<lambda>r. if holds (sql_or (sql_cmp (\<ge>) (cr_slot_updated new) (cr_slot_updated r))
                            (is_null (cr_slot_updated r)))
            then r\<lparr>cr_creator := cr_creator new, cr_share := cr_share new, cr_verified := cr_verified new,
                   cr_seq := cr_seq new, cr_slot_updated := cr_slot_updated new\<rparr>
            else r) t"

definition account_creator_rows :: "bytes \<Rightarrow> creator list \<Rightarrow> i64 \<Rightarrow> asset_creators list" where
  "account_creator_rows i creators slot_i =
     map (\<lambda>(p, c). \<lparr>cr_asset_id = i, cr_creator = cc_address c, cr_share = uint (cc_share c),
            cr_verified = cc_verified c, cr_seq = Some 0, cr_slot_updated = Some slot_i,
            cr_position = sint (of_nat p :: 16 word)\<rparr>)
       (enumerate 0 creators)"

definition upsert_account_creators :: "bytes \<Rightarrow> creator list \<Rightarrow> i64 \<Rightarrow> stmt list" where
  "upsert_account_creators i creators slot_i =
    (if creators = [] then []
     else [(AssetIndexError, \<lambda>d. d\<lparr>asset_creators_t :=
              fold upsert_account_creator_row (account_creator_rows i creators slot_i) (asset_creators_t d)\<rparr>)])"

section \<open>The asset of a metadata account\<close>

definition index_and_fetch_mint_data :: "bytes \<Rightarrow> tokens option handler" where
  "index_and_fetch_mint_data mint_id =
    bind_m (find_model_with_retry StorageWriteError (\<lambda>d. lookup tk_mint mint_id (tokens_t d)) RETRY_INTERVALS)
      (\<lambda>token. case token of
         Some t \<Rightarrow> bind_m (execute (upsert_assets_mint_account_columns AssetIndexError mint_id (tk_supply t)
                     (tk_slot_updated t) (tk_extensions t))) (\<lambda>_. return_m (Some t))
       | None \<Rightarrow> return_m None)"

definition latest_token_account :: "bytes \<Rightarrow> db \<Rightarrow> token_accounts option" where
  "latest_token_account mint_id d =
    (case sort_key (\<lambda>t. - ta_slot_updated t)
            (filter (\<lambda>t. ta_mint t = mint_id \<and> ta_amount t > 0) (token_accounts_t d)) of
       [] \<Rightarrow> None | t # _ \<Rightarrow> Some t)"

definition index_token_account_data :: "bytes \<Rightarrow> unit handler" where
  "index_token_account_data mint_id =
    bind_m (find_model_with_retry DatabaseError (latest_token_account mint_id) RETRY_INTERVALS)
      (\<lambda>ta. case ta of
         Some t \<Rightarrow> execute (upsert_assets_token_account_columns AssetIndexError mint_id (Some (ta_owner t))
                     (ta_frozen t) (ta_delegate t) (Some (ta_slot_updated t)))
       | None \<Rightarrow> return_m ())"

definition class_of_standard :: "token_standard option \<Rightarrow> specification_asset_class" where
  "class_of_standard ts =
    (case ts of
       Some TS_NonFungible \<Rightarrow> SAC_Nft
     | Some TS_FungibleAsset \<Rightarrow> SAC_FungibleAsset
     | Some TS_Fungible \<Rightarrow> SAC_FungibleToken
     | Some TS_NonFungibleEdition \<Rightarrow> SAC_Nft
     | Some TS_ProgrammableNonFungible \<Rightarrow> SAC_ProgrammableNft
     | Some TS_ProgrammableNonFungibleEdition \<Rightarrow> SAC_ProgrammableNft
     | None \<Rightarrow> SAC_Unknown)"

definition ownership_of_class :: "specification_asset_class \<Rightarrow> owner_type" where
  "ownership_of_class c =
    (case c of SAC_FungibleAsset \<Rightarrow> OT_Token | SAC_FungibleToken \<Rightarrow> OT_Token
     | SAC_Unknown \<Rightarrow> OT_Unknown | _ \<Rightarrow> OT_Single)"

text \<open>Wrapped SOL is fungible; what the standard leaves unknown is decided by the supply.\<close>

definition classify :: "serde \<Rightarrow> tm_metadata \<Rightarrow> int \<Rightarrow> owner_type \<times> specification_asset_class" where
  "classify S metadata supply =
    (let class0 = class_of_standard (tm_token_standard metadata);
         own0 = ownership_of_class class0;
         (own1, class1) = (if tm_mint metadata = WSOL_PUBKEY S then (OT_Token, SAC_FungibleToken) else (own0, class0));
         own2 = (if own1 = OT_Unknown
                 then (if supply = 1 then OT_Single else if supply > 1 then OT_Token else OT_Unknown) else own1);
         class2 = (if class1 = SAC_Unknown then (if supply > 1 then SAC_FungibleToken else SAC_Unknown) else class1)
     in (own2, class2))"

definition standard_is_non_fungible :: "token_standard \<Rightarrow> bool" where
  "standard_is_non_fungible t =
     (t \<in> {TS_NonFungible, TS_NonFungibleEdition, TS_ProgrammableNonFungible, TS_ProgrammableNonFungibleEdition})"

definition v1_asset_data :: "tm_metadata \<Rightarrow> json \<Rightarrow> string \<Rightarrow> i64 \<Rightarrow> asset_data" where
  "v1_asset_data metadata chain_data_json uri slot_i =
    \<lparr>ad_id = tm_mint metadata, ad_chain_data_mutability = chain_mutability_of (tm_is_mutable metadata),
     ad_chain_data = chain_data_json, ad_metadata_url = uri, ad_metadata_mutability = M_Mutable,
     ad_metadata = JStr ''processing'', ad_slot_updated = slot_i, ad_reindex = Some True,
     ad_raw_name = Some (str_bytes (tm_name metadata)), ad_raw_symbol = Some (str_bytes (tm_symbol metadata)),
     ad_base_info_seq = Some 0\<rparr>"

definition v1_chain_data :: "tm_metadata \<Rightarrow> chain_data_v1" where
  "v1_chain_data metadata = sanitize
    \<lparr>cd_name = tm_name metadata, cd_symbol = tm_symbol metadata, cd_edition_nonce = tm_edition_nonce metadata,
     cd_primary_sale_happened = tm_primary_sale_happened metadata,
     cd_token_standard = tm_token_standard metadata, cd_uses = tm_uses metadata\<rparr>"

definition v1_asset_columns :: "tm_metadata \<Rightarrow> owner_type \<Rightarrow> specification_asset_class \<Rightarrow> i64 \<Rightarrow>
    asset_metadata_account_columns" where
  "v1_asset_columns metadata ownership_type cls slot_i =
    \<lparr>mc_mint = tm_mint metadata, mc_owner_type = ownership_type, mc_specification_asset_class = Some cls,
     mc_royalty_amount = uint (tm_seller_fee_basis_points metadata), mc_asset_data = Some (tm_mint metadata),
     mc_slot_updated_metadata_account = word_of_int slot_i, mc_mpl_core_plugins = None,
     mc_mpl_core_unknown_plugins = None, mc_mpl_core_collection_num_minted = None,
     mc_mpl_core_collection_current_size = None, mc_mpl_core_plugins_json_version = None,
     mc_mpl_core_external_plugins = None, mc_mpl_core_unknown_external_plugins = None,
     mc_is_agent = False, mc_asset_signer = None\<rparr>"

definition v1_asset_stmts :: "ext \<Rightarrow> serde \<Rightarrow> tm_metadata \<Rightarrow> owner_type \<Rightarrow> specification_asset_class \<Rightarrow> json \<Rightarrow>
    string \<Rightarrow> i64 \<Rightarrow> stmt list" where
  "v1_asset_stmts E S metadata ownership_type cls chain_data_json uri slot_i =
    (let i = tm_mint metadata;
         (collection_value, collection_verified) =
           (case tm_collection metadata of Some c \<Rightarrow> (Some (bs58_encode E (co_key c)), co_verified c)
                                         | None \<Rightarrow> (None, False))
     in [upsert_account_asset_data (v1_asset_data metadata chain_data_json uri slot_i),
         upsert_assets_metadata_account_columns (v1_asset_columns metadata ownership_type cls slot_i),
         upsert_attachment_do_nothing
           \<lparr>at_id = master_edition_find_pda S i, at_asset_id = None, at_attachment_type = VA_MasterEditionV2,
            at_initialized = False, at_data = None, at_slot_updated = slot_i\<rparr>,
         upsert_account_authority i (tm_update_authority metadata) slot_i,
         upsert_account_collection i collection_value collection_verified slot_i] @
        upsert_account_creators i (case tm_creators metadata of Some cs \<Rightarrow> cs | None \<Rightarrow> []) slot_i)"

definition upsert_asset_v1_account_attachments :: "serde \<Rightarrow> pubkey \<Rightarrow> u64 \<Rightarrow> stmt" where
  "upsert_asset_v1_account_attachments S mint_pubkey slot =
    (StorageWriteError,
     \<lambda>d. d\<lparr>attachments_t := upsert at_id
       \<lparr>at_id = master_edition_find_pda S mint_pubkey, at_asset_id = Some mint_pubkey,
        at_attachment_type = VA_MasterEditionV2, at_initialized = False, at_data = None,
        at_slot_updated = as_i64 slot\<rparr>
       (\<lambda>r. r\<lparr>at_asset_id := Some mint_pubkey\<rparr>) (attachments_t d)\<rparr>)"

definition save_v1_asset :: "ext \<Rightarrow> serde \<Rightarrow> tm_metadata \<Rightarrow> u64 \<Rightarrow> download_metadata_info option handler" where
  "save_v1_asset E S metadata slot =
    (let i = tm_mint metadata; slot_i = as_i64 slot; uri = remove_nul (str_trim (tm_uri metadata)) in
     bind_m (index_and_fetch_mint_data i) (\<lambda>token.
       let supply = (case token of Some t \<Rightarrow> tk_supply t | None \<Rightarrow> 1);
           (ownership_type, cls) = classify S metadata supply
       in bind_m (if ownership_type = OT_Single \<or> ownership_type = OT_Unknown
                  then index_token_account_data i else return_m ()) (\<lambda>_.
            case chain_data_to_value E (v1_chain_data metadata) of
              Inl e \<Rightarrow> raise_m (DeserializationError e)
            | Inr chain_data_json \<Rightarrow>
                bind_m (transaction (v1_asset_stmts E S metadata ownership_type cls chain_data_json uri slot_i)) (\<lambda>_.
                  bind_m (if (case tm_token_standard metadata of Some t \<Rightarrow> standard_is_non_fungible t | None \<Rightarrow> False)
                          then execute (upsert_asset_v1_account_attachments S i slot) else return_m ()) (\<lambda>_.
                    return_m (if uri = [] then None else Some (download_metadata_info_new i uri)))))))"

definition handle_token_metadata_account :: "ext \<Rightarrow> serde \<Rightarrow> account_info \<Rightarrow> token_metadata_account_data \<Rightarrow> unit handler" where
  "handle_token_metadata_account E S info data =
    (case data of
       TM_EmptyAccount \<Rightarrow> execute (burn_v1_asset (ac_pubkey info) (ac_slot info))
     | TM_MasterEditionV1 m \<Rightarrow> in_transaction (save_v1_master_edition S (ac_pubkey info) (ac_slot info) m)
     | TM_MetadataV1 m \<Rightarrow> bind_m (save_v1_asset E S m (ac_slot info)) (notify_download E)
     | TM_MasterEditionV2 m \<Rightarrow> in_transaction (save_v2_master_edition S (ac_pubkey info) (ac_slot info) m)
     | TM_EditionV1 e \<Rightarrow> in_transaction (save_edition S (ac_pubkey info) (ac_slot info) e)
     | _ \<Rightarrow> raise_m NotImplemented)"

end
