(* ===== verification/Mpl_Core.thy ===== *)
theory Mpl_Core
  imports Token_Metadata "HOL-Library.AList"
begin

text \<open>
  MPL core assets, collections and groups: \<open>program_transformers/src/mpl_core_program\<close> and the
  parser in \<open>blockbuster/src/programs/mpl_core_program\<close>. The account is decoded by the third-party
  crate; its plugins enter as the values serde gives for them, and the repository's rewriting of
  those values is modelled in full.
\<close>

section \<open>Accounts\<close>

datatype update_authority = UA_Address pubkey | UA_Collection pubkey | UA_None

datatype plugin_authority = PA_Owner | PA_UpdateAuthority | PA_Address pubkey | PA_None

datatype plugin_type = PT_Royalties | PT_TransferDelegate | PT_FreezeDelegate | PT_Groups | PT_Other string

datatype plugin =
    PL_Royalties u16 "creator list"
  | PL_FreezeDelegate bool
  | PL_Groups "pubkey list"
  | PL_Other

record plugin_schema =
  ps_authority :: plugin_authority
  ps_data :: plugin

datatype external_plugin_type = EP_AgentIdentity | EP_Other

text \<open>The \<open>_value\<close> fields are what \<open>serde_json::to_value\<close> returns; \<open>None\<close> is an empty list.\<close>

record indexable_asset =
  ia_owner :: "pubkey option"
  ia_update_authority :: update_authority
  ia_name :: string
  ia_uri :: string
  ia_num_minted :: "u32 option"
  ia_current_size :: "u32 option"
  ia_plugins :: "(plugin_type \<times> plugin_schema) list"
  ia_external_plugin_types :: "external_plugin_type list"
  ia_plugins_value :: "string + json"
  ia_unknown_plugins_value :: "(string + json) option"
  ia_external_plugins_value :: "string + json"
  ia_unknown_external_plugins_value :: "(string + json) option"

datatype mpl_core_account_data =
    MC_Asset indexable_asset
  | MC_Collection indexable_asset
  | MC_Group indexable_asset "pubkey list"
  | MC_HashedAsset
  | MC_EmptyAccount

datatype mpl_core_key =
    MK_Uninitialized | MK_AssetV1 | MK_HashedAssetV1 | MK_PluginHeaderV1 | MK_PluginRegistryV1
  | MK_CollectionV1 | MK_GroupV1

record core_unpackers =
  de_core_key :: "bytes \<Rightarrow> string + mpl_core_key"
  fetch_indexable :: "mpl_core_key \<Rightarrow> bytes \<Rightarrow> string + indexable_asset"
  group_parent_groups :: "bytes \<Rightarrow> string + pubkey list"

definition mpl_core_handle_account :: "core_unpackers \<Rightarrow> bytes \<Rightarrow> mpl_core_account_data bb_result" where
  "mpl_core_handle_account C account_data =
    (if account_data = [] then Inr MC_EmptyAccount
     else io (de_core_key C (take 1 account_data)) (\<lambda>key.
       case key of
         MK_AssetV1 \<Rightarrow> io (fetch_indexable C key account_data) (\<lambda>a. Inr (MC_Asset a))
       | MK_CollectionV1 \<Rightarrow> io (fetch_indexable C key account_data) (\<lambda>a. Inr (MC_Collection a))
       | MK_GroupV1 \<Rightarrow> io (group_parent_groups C account_data) (\<lambda>g.
           io (fetch_indexable C key account_data) (\<lambda>a. Inr (MC_Group a g)))
       | MK_Uninitialized \<Rightarrow> Inr MC_EmptyAccount
       | _ \<Rightarrow> Inl AccountTypeNotImplemented))"

section \<open>Rewriting the plugins' JSON\<close>

text \<open>
  \<open>serde_json\<close> keeps insertion order here (\<open>preserve_order\<close>): inserting replaces in place or appends,
  removing moves the last entry into the gap.
\<close>

type_synonym jmap = "(string \<times> json) list"

definition jmap_insert :: "string \<Rightarrow> json \<Rightarrow> jmap \<Rightarrow> jmap" where
  "jmap_insert k v m = AList.update k v m"

fun jmap_remove :: "string \<Rightarrow> jmap \<Rightarrow> jmap" where
  "jmap_remove k [] = []"
| "jmap_remove k (x # xs) =
    (if fst x = k then (if xs = [] then [] else last xs # butlast xs) else x # jmap_remove k xs)"

definition jmap_modify :: "string \<Rightarrow> (json \<Rightarrow> json) \<Rightarrow> jmap \<Rightarrow> jmap" where
  "jmap_modify k f m = map (\<lambda>kv. if fst kv = k then (fst kv, f (snd kv)) else kv) m"

definition in_object :: "(jmap \<Rightarrow> jmap) \<Rightarrow> json \<Rightarrow> json" where
  "in_object f v = (case v of JObj m \<Rightarrow> JObj (f m) | _ \<Rightarrow> v)"

definition flatten_single :: "json \<Rightarrow> json" where
  "flatten_single v =
    (case v of
       JObj ((_, inner) # _) \<Rightarrow>
         (case inner of JObj inner_data \<Rightarrow> JObj (fold (\<lambda>(k, x) m. jmap_insert k x m) inner_data []) | _ \<Rightarrow> JObj [])
     | _ \<Rightarrow> v)"

definition remove_nesting_from_plugin :: "string \<Rightarrow> json \<Rightarrow> json" where
  "remove_nesting_from_plugin nested_key plugin = in_object (jmap_modify nested_key flatten_single) plugin"

definition over_plugins :: "(json \<Rightarrow> json) \<Rightarrow> json \<Rightarrow> json" where
  "over_plugins f plugins_json =
    (case plugins_json of
       JObj plugins \<Rightarrow> JObj (map (\<lambda>kv. (fst kv, f (snd kv))) plugins)
     | JArr plugins \<Rightarrow> JArr (map f plugins)
     | v \<Rightarrow> v)"

definition remove_plugins_nesting :: "string \<Rightarrow> json \<Rightarrow> json" where
  "remove_plugins_nesting nested_key plugins_json = over_plugins (remove_nesting_from_plugin nested_key) plugins_json"

definition transform_authority :: "json \<Rightarrow> json" where
  "transform_authority authority =
    (case authority of
       JObj ((authority_type, v) # rest) \<Rightarrow>
         (let removed = jmap_remove authority_type ((authority_type, v) # rest) in
          case v of
            JObj pubkey_obj \<Rightarrow>
              (case map_of pubkey_obj ''address'' of
                 Some address_value \<Rightarrow>
                   JObj (jmap_insert ''address'' address_value (jmap_insert ''type'' (JStr authority_type) removed))
               | None \<Rightarrow> JObj removed)
          | _ \<Rightarrow> JObj removed)
     | JStr authority_type \<Rightarrow> JObj [(''type'', JStr authority_type), (''address'', JNull)]
     | v \<Rightarrow> v)"

definition transform_authority_in_object :: "jmap \<Rightarrow> jmap" where
  "transform_authority_in_object plugin = jmap_modify ''authority'' transform_authority plugin"

definition transform_data_authority_in_object :: "jmap \<Rightarrow> jmap" where
  "transform_data_authority_in_object plugin =
     jmap_modify ''adapter_config'' (in_object (jmap_modify ''data_authority'' transform_authority)) plugin"

definition transform_linked_app_data_parent_key_in_object :: "jmap \<Rightarrow> jmap" where
  "transform_linked_app_data_parent_key_in_object plugin =
     jmap_modify ''adapter_config''
       (in_object (jmap_modify ''parent_key'' (in_object (jmap_modify ''LinkedAppData'' transform_authority)))) plugin"

definition transform_plugins_authority :: "json \<Rightarrow> json" where
  "transform_plugins_authority plugins_json =
     over_plugins (in_object (transform_linked_app_data_parent_key_in_object \<circ>
       transform_data_authority_in_object \<circ> transform_authority_in_object)) plugins_json"

text \<open>One pass over the keys present at the start; the values are rewritten independently of it.\<close>

definition rename_key :: "(string \<Rightarrow> string) \<Rightarrow> string \<Rightarrow> jmap \<Rightarrow> jmap" where
  "rename_key snake key obj =
    (case map_of obj key of Some val \<Rightarrow> jmap_insert (snake key) val (jmap_remove key obj) | None \<Rightarrow> obj)"

definition rename_keys :: "(string \<Rightarrow> string) \<Rightarrow> jmap \<Rightarrow> jmap" where
  "rename_keys snake obj = fold (rename_key snake) (map fst obj) obj"

fun convert_keys_to_snake_case :: "(string \<Rightarrow> string) \<Rightarrow> json \<Rightarrow> json" where
  "convert_keys_to_snake_case snake (JObj obj) =
     JObj (rename_keys snake (map (\<lambda>(k, v). (k, convert_keys_to_snake_case snake v)) obj))"
| "convert_keys_to_snake_case snake (JArr arr) = JArr (map (convert_keys_to_snake_case snake) arr)"
| "convert_keys_to_snake_case snake v = v"

section \<open>Statements\<close>

definition group_key :: string where
  "group_key = ''group''"

text \<open>The partial unique indexes on \<open>asset_grouping\<close> beside the collection's; NULLs never conflict.\<close>

definition gr_group_null_key :: "asset_grouping \<Rightarrow> bytes option" where
  "gr_group_null_key r =
    (if gr_group_key r = group_key \<and> gr_group_value r = None then Some (gr_asset_id r) else None)"

definition gr_other_key :: "asset_grouping \<Rightarrow> (bytes \<times> string \<times> string) option" where
  "gr_other_key r =
    (case gr_group_value r of
       Some v \<Rightarrow> if gr_group_key r \<noteq> collection_group then Some (gr_asset_id r, gr_group_key r, v) else None
     | None \<Rightarrow> None)"

definition group_row :: "bytes \<Rightarrow> string option \<Rightarrow> i64 \<Rightarrow> asset_grouping" where
  "group_row i value slot_i =
    \<lparr>gr_asset_id = i, gr_group_key = group_key, gr_group_value = value, gr_seq = None,
     gr_slot_updated = Some slot_i, gr_verified = True, gr_group_info_seq = Some 0\<rparr>"

definition touch_group :: "i64 \<Rightarrow> asset_grouping \<Rightarrow> asset_grouping" where
  "touch_group slot_i r =
    (if holds (sql_or (sql_cmp (\<ge>) (Some slot_i) (gr_slot_updated r)) (is_null (gr_slot_updated r)))
     then r\<lparr>gr_slot_updated := Some slot_i, gr_verified := True, gr_group_info_seq := Some 0\<rparr> else r)"

text \<open>
  The groups in one statement, for values that are all different: with a value listed twice the database refuses it
  (\<open>refused_twice\<close> below), as one statement may not update a row twice.
\<close>

definition upsert_groups :: "bytes \<Rightarrow> string list \<Rightarrow> i64 \<Rightarrow> stmt" where
  "upsert_groups i group_values slot_i =
    (AssetIndexError,
     \<lambda>d. d\<lparr>asset_grouping_t :=
       (if group_values = []
        then upsert gr_group_null_key (group_row i None slot_i) (touch_group slot_i) (asset_grouping_t d)
        else fold (\<lambda>v. upsert gr_other_key (group_row i (Some v) slot_i) (touch_group slot_i))
               group_values (asset_grouping_t d))\<rparr>)"

definition refused_twice :: program_transformer_error where
  "refused_twice = AssetIndexError ''ON CONFLICT DO UPDATE command cannot affect row a second time''"

definition build_group_values :: "ext \<Rightarrow> string list option \<Rightarrow> indexable_asset \<Rightarrow> string list" where
  "build_group_values E group_relationships a =
    (case group_relationships of
       Some parent_groups \<Rightarrow> parent_groups
     | None \<Rightarrow>
        (case map_of (ia_plugins a) PT_Groups of
           Some p \<Rightarrow> (case ps_data p of PL_Groups gs \<Rightarrow> map (bs58_encode E) gs | _ \<Rightarrow> [])
         | None \<Rightarrow> []))"

definition update_group_asset_authorities :: "ext \<Rightarrow> bytes \<Rightarrow> bytes \<Rightarrow> i64 \<Rightarrow> stmt" where
  "update_group_asset_authorities E group_id authority slot =
    (AssetIndexError,
     \<lambda>d. d\<lparr>asset_authority_t := map
       (\<lambda>r. if au_authority r \<noteq> authority \<and> au_slot_updated r < slot \<and>
               (\<exists>g\<in>set (asset_grouping_t d). gr_asset_id g = au_asset_id r \<and> gr_group_key g = collection_group \<and>
                  gr_group_value g = Some (bs58_encode E group_id) \<and>
                  (\<exists>a\<in>set (asset_t d). a_id a = au_asset_id r \<and> \<not> a_compressed a))
            then r\<lparr>au_authority := authority, au_slot_updated := slot\<rparr> else r)
       (asset_authority_t d)\<rparr>)"

section \<open>The handler\<close>

text \<open>
  A transaction whose later steps may be a failing computation (\<open>Inl\<close>), with one statement sent on
  another connection after its first ones: that statement commits on its own, sees none of the
  open transaction's writes, and stays when the transaction is rolled back.
\<close>

fun run_steps :: "(program_transformer_error + stmt) list \<Rightarrow> unit handler" where
  "run_steps [] = return_m ()"
| "run_steps (Inl e # _) = raise_m e"
| "run_steps (Inr s # steps) = bind_m (execute s) (\<lambda>_. run_steps steps)"

definition transaction_with_side :: "stmt \<Rightarrow> stmt list \<Rightarrow> (program_transformer_error + stmt) list \<Rightarrow> unit handler" where
  "transaction_with_side first side rest w =
    (case run_all [control, first] w of
       (Inl e, w1) \<Rightarrow> (Inl e, w1\<lparr>w_db := w_db w\<rparr>)
     | (Inr _, w1) \<Rightarrow>
        (case run_all side (w1\<lparr>w_db := w_db w\<rparr>) of
           (Inl e, w2) \<Rightarrow> (Inl e, w2)
         | (Inr _, w2) \<Rightarrow>
            (case run_steps (rest @ [Inr control]) (w2\<lparr>w_db := snd first (w_db w2)\<rparr>) of
               (Inl e, w3) \<Rightarrow> (Inl e, w3\<lparr>w_db := w_db w2\<rparr>)
             | (Inr u, w3) \<Rightarrow> (Inr u, w3))))"

text \<open>\<open>rows_affected() > 0\<close> of the authority upsert.\<close>

definition authority_changed :: "db \<Rightarrow> asset_authority \<Rightarrow> bool" where
  "authority_changed d new =
    (case lookup au_asset_id (au_asset_id new) (asset_authority_t d) of
       None \<Rightarrow> True
     | Some r \<Rightarrow> au_slot_updated new > au_slot_updated r \<and> au_authority r \<noteq> au_authority new)"

definition find_update_authority :: "indexable_asset \<Rightarrow> bytes handler" where
  "find_update_authority a =
    (case ia_update_authority a of
       UA_Address address \<Rightarrow> return_m address
     | UA_Collection address \<Rightarrow>
         bind_m (find_model_with_retry StorageWriteError
                  (\<lambda>d. lookup au_asset_id address (asset_authority_t d)) RETRY_INTERVALS)
           (\<lambda>m. return_m (case m of Some r \<Rightarrow> au_authority r | None \<Rightarrow> []))
     | UA_None \<Rightarrow> return_m (replicate 32 0))"

definition core_chain_data :: "indexable_asset \<Rightarrow> chain_data_v1" where
  "core_chain_data a = sanitize \<lparr>cd_name = ia_name a, cd_symbol = [], cd_edition_nonce = None,
     cd_primary_sale_happened = False, cd_token_standard = None, cd_uses = None\<rparr>"

definition core_asset_data :: "bytes \<Rightarrow> indexable_asset \<Rightarrow> json \<Rightarrow> string \<Rightarrow> i64 \<Rightarrow> asset_data" where
  "core_asset_data i a chain_data_json uri slot_i =
    \<lparr>ad_id = i,
     ad_chain_data_mutability = (if ia_update_authority a = UA_None then CM_Immutable else CM_Mutable),
     ad_chain_data = chain_data_json, ad_metadata_url = uri, ad_metadata_mutability = M_Mutable,
     ad_metadata = JStr ''processing'', ad_slot_updated = slot_i, ad_reindex = Some True,
     ad_raw_name = Some (str_bytes (ia_name a)), ad_raw_symbol = None, ad_base_info_seq = Some 0\<rparr>"

definition royalties_of :: "indexable_asset \<Rightarrow> u16 \<times> creator list" where
  "royalties_of a =
    (case map_of (ia_plugins a) PT_Royalties of
       Some p \<Rightarrow> (case ps_data p of PL_Royalties bp cs \<Rightarrow> (bp, cs) | _ \<Rightarrow> (0, []))
     | None \<Rightarrow> (0, []))"

definition transfer_delegate_of :: "indexable_asset \<Rightarrow> bytes option \<Rightarrow> bytes \<Rightarrow> bytes option" where
  "transfer_delegate_of a owner_id update_authority =
    (case map_of (ia_plugins a) PT_TransferDelegate of
       None \<Rightarrow> None
     | Some p \<Rightarrow>
        (case ps_authority p of
           PA_Owner \<Rightarrow> owner_id
         | PA_UpdateAuthority \<Rightarrow> Some update_authority
         | PA_Address address \<Rightarrow> Some address
         | PA_None \<Rightarrow> None))"

definition frozen_of :: "indexable_asset \<Rightarrow> bool" where
  "frozen_of a =
    (case map_of (ia_plugins a) PT_FreezeDelegate of
       Some p \<Rightarrow> (case ps_data p of PL_FreezeDelegate b \<Rightarrow> b | _ \<Rightarrow> False)
     | None \<Rightarrow> False)"

definition known_plugins_json :: "(string \<Rightarrow> string) \<Rightarrow> string \<Rightarrow> json \<Rightarrow> json" where
  "known_plugins_json snake nested_key v =
     convert_keys_to_snake_case snake (transform_plugins_authority (remove_plugins_nesting nested_key v))"

definition unknown_plugins_json :: "(string \<Rightarrow> string) \<Rightarrow> json \<Rightarrow> json" where
  "unknown_plugins_json snake v = convert_keys_to_snake_case snake (transform_plugins_authority v)"

definition plugin_values :: "(string \<Rightarrow> string) \<Rightarrow> indexable_asset \<Rightarrow>
    string + (json \<times> json option \<times> json \<times> json option)" where
  "plugin_values snake a =
    (case ia_plugins_value a of Inl e \<Rightarrow> Inl e | Inr pl \<Rightarrow>
     (case (case ia_unknown_plugins_value a of None \<Rightarrow> Inr None | Some r \<Rightarrow> map_sum id Some r) of
        Inl e \<Rightarrow> Inl e | Inr unk \<Rightarrow>
      (case ia_external_plugins_value a of Inl e \<Rightarrow> Inl e | Inr ext \<Rightarrow>
       (case (case ia_unknown_external_plugins_value a of None \<Rightarrow> Inr None | Some r \<Rightarrow> map_sum id Some r) of
          Inl e \<Rightarrow> Inl e | Inr uext \<Rightarrow>
          Inr (known_plugins_json snake ''data'' pl, map_option (unknown_plugins_json snake) unk,
               known_plugins_json snake ''adapter_config'' ext,
               map_option (unknown_plugins_json snake) uext)))))"

definition core_columns :: "bytes \<Rightarrow> indexable_asset \<Rightarrow> specification_asset_class \<Rightarrow> u64 \<Rightarrow>
    json \<times> json option \<times> json \<times> json option \<Rightarrow> bool \<Rightarrow> bytes option \<Rightarrow> asset_metadata_account_columns" where
  "core_columns i a cls slot pls is_agent asset_signer =
    (case pls of (pl, unk, ext, uext) \<Rightarrow>
      \<lparr>mc_mint = i, mc_owner_type = OT_Single, mc_specification_asset_class = Some cls,
       mc_royalty_amount = uint (fst (royalties_of a)), mc_asset_data = Some i,
       mc_slot_updated_metadata_account = slot, mc_mpl_core_plugins = Some pl,
       mc_mpl_core_unknown_plugins = unk,
       mc_mpl_core_collection_num_minted = map_option sint (ia_num_minted a),
       mc_mpl_core_collection_current_size = map_option sint (ia_current_size a),
       mc_mpl_core_plugins_json_version = Some 1, mc_mpl_core_external_plugins = Some ext,
       mc_mpl_core_unknown_external_plugins = uext, mc_is_agent = is_agent,
       mc_asset_signer = asset_signer\<rparr>)"

definition core_steps :: "ext \<Rightarrow> (string \<Rightarrow> string) \<Rightarrow> bytes \<Rightarrow> indexable_asset \<Rightarrow> bytes option \<Rightarrow>
    specification_asset_class \<Rightarrow> string list option \<Rightarrow> bool \<Rightarrow> bytes option \<Rightarrow> bytes \<Rightarrow> string \<Rightarrow> u64 \<Rightarrow>
    (program_transformer_error + stmt) list" where
  "core_steps E snake i a owner_id cls group_relationships is_agent asset_signer update_authority uri slot =
    (let slot_i = as_i64 slot;
         (value, verified) = (case ia_update_authority a of
            UA_Collection address \<Rightarrow> (Some (bs58_encode E address), True) | _ \<Rightarrow> (None, False))
     in case chain_data_to_value E (core_chain_data a) of
          Inl e \<Rightarrow> [Inl (DeserializationError e)]
        | Inr chain_data_json \<Rightarrow>
            Inr (upsert_account_asset_data (core_asset_data i a chain_data_json uri slot_i)) #
            (case plugin_values snake a of
               Inl e \<Rightarrow> [Inl (DeserializationError e)]
             | Inr pls \<Rightarrow>
                (let group_values = build_group_values E group_relationships a in
                 map Inr
                 ([upsert_assets_metadata_account_columns (core_columns i a cls slot pls is_agent asset_signer),
                   upsert_assets_mint_account_columns StorageWriteError i 1 slot_i None,
                   upsert_assets_token_account_columns StorageWriteError i owner_id (frozen_of a)
                     (transfer_delegate_of a owner_id update_authority) (Some slot_i),
                   upsert_account_collection i value verified slot_i] @
                  upsert_account_creators i (map (\<lambda>c. c\<lparr>cc_verified := True\<rparr>) (snd (royalties_of a))) slot_i) @
                 (if distinct group_values then [Inr (upsert_groups i group_values slot_i)] else [Inl refused_twice]))))"

text \<open>The MPL core program id and \<open>heck\<close>'s \<open>to_snake_case\<close> are parameters.\<close>

definition save_core_asset :: "ext \<Rightarrow> (string \<Rightarrow> string) \<Rightarrow> pubkey \<Rightarrow> pubkey \<Rightarrow> mpl_core_account_data \<Rightarrow> u64 \<Rightarrow>
    download_metadata_info option handler" where
  "save_core_asset E snake mpl_core_id i account_data slot =
    (case (case account_data of MC_Asset a \<Rightarrow> Some (a, None) | MC_Collection a \<Rightarrow> Some (a, None)
             | MC_Group a gs \<Rightarrow> Some (a, Some (map (bs58_encode E) gs)) | _ \<Rightarrow> None) of
       None \<Rightarrow> raise_m NotImplemented
     | Some (a, group_relationships) \<Rightarrow>
        (let is_asset = (case account_data of MC_Asset _ \<Rightarrow> True | _ \<Rightarrow> False);
             is_collection = (case account_data of MC_Collection _ \<Rightarrow> True | _ \<Rightarrow> False);
             is_agent = (is_asset \<and> EP_AgentIdentity \<in> set (ia_external_plugin_types a));
             asset_signer = (if is_asset
               then Some (find_program_address E [str_bytes ''mpl-core-execute'', i] mpl_core_id) else None);
             uri = remove_nul (str_trim (ia_uri a))
         in bind_m (find_update_authority a) (\<lambda>update_authority.
              let (owner_id, cls) = (if is_asset then (ia_owner a, SAC_MplCoreAsset)
                    else if is_collection then (Some update_authority, SAC_MplCoreCollection)
                    else (Some update_authority, SAC_MplCoreGroup));
                  new = account_authority i update_authority (as_i64 slot)
              in bind_m (\<lambda>w. transaction_with_side
                     (upsert_account_authority i update_authority (as_i64 slot))
                     (if authority_changed (w_db w) new \<and> is_collection
                      then [update_group_asset_authorities E i update_authority (as_i64 slot)] else [])
                     (core_steps E snake i a owner_id cls group_relationships is_agent asset_signer
                        update_authority uri slot) w)
                   (\<lambda>_. return_m (if uri = [] then None else Some (download_metadata_info_new i uri))))))"

definition handle_mpl_core_account :: "ext \<Rightarrow> (string \<Rightarrow> string) \<Rightarrow> pubkey \<Rightarrow> account_info \<Rightarrow>
    mpl_core_account_data \<Rightarrow> unit handler" where
  "handle_mpl_core_account E snake mpl_core_id info data =
    (case data of
       MC_EmptyAccount \<Rightarrow> execute (burn_v1_asset (ac_pubkey info) (ac_slot info))
     | MC_HashedAsset \<Rightarrow> raise_m NotImplemented
     | _ \<Rightarrow> bind_m (save_core_asset E snake mpl_core_id (ac_pubkey info) data (ac_slot info)) (notify_download E))"

end
