(* ===== verification/Program_Transformer.thy ===== *)
theory Program_Transformer
  imports Mpl_Core
begin

text \<open>
  The entry points of \<open>program_transformers/src/lib.rs\<close>: a transaction is broken into instructions
  for the known programs, each is parsed and handled; an account update goes to the handler of
  the program that owns it. A panic (indexing out of bounds while ordering or unpacking) is \<open>None\<close>.
\<close>

section \<open>Parsers by program\<close>

datatype program_parser =
    BubblegumParser | TokenMetadataParser | TokenProgramParser | MplCoreParser
  | Token2022ProgramParser | TokenInscriptionParser | AgentRegistryParser

record program_ids =
  id_bubblegum :: pubkey
  id_token_metadata :: pubkey
  id_token :: pubkey
  id_mpl_core :: pubkey
  id_token_2022 :: pubkey
  id_inscription :: pubkey
  id_agent_registry :: pubkey

text \<open>Everything outside the repository, in one record.\<close>

record env =
  e_ext :: ext
  e_borsh :: borsh
  e_unpackers :: unpackers
  e_core :: core_unpackers
  e_serde :: serde
  e_ids :: program_ids
  e_snake :: "string \<Rightarrow> string"

definition parsers :: "program_ids \<Rightarrow> (pubkey \<times> program_parser) list" where
  "parsers p =
    [(id_bubblegum p, BubblegumParser), (id_token_metadata p, TokenMetadataParser),
     (id_token p, TokenProgramParser), (id_mpl_core p, MplCoreParser),
     (id_token_2022 p, Token2022ProgramParser), (id_inscription p, TokenInscriptionParser),
     (id_agent_registry p, AgentRegistryParser)]"

definition key_set :: "program_ids \<Rightarrow> pubkey set" where
  "key_set p = set (map fst (parsers p))"

definition match_program :: "program_ids \<Rightarrow> pubkey \<Rightarrow> program_parser option" where
  "match_program p key = map_of (parsers p) key"

text \<open>\<open>ProgramParseResult\<close>, with \<open>Unknown\<close> for \<open>NotUsed\<close>.\<close>

datatype program_parse_result =
    R_Bubblegum bubblegum_instruction
  | R_AgentRegistry "parsed_agent_identity option"
  | R_MplCore mpl_core_account_data
  | R_TokenMetadata token_metadata_account_data
  | R_TokenProgramEntity token_program_entity
  | R_TokenExtensionsProgramEntity token_extensions_program_entity
  | R_TokenInscriptionAccount inscription_data
  | R_Unknown

fun bb_message :: "blockbuster_error \<Rightarrow> string" where
  "bb_message InstructionParsingError = ''Instruction Data Parsing Error''"
| "bb_message (IOError e) = ''IO Error '' @ e"
| "bb_message BB_DeserializationError = ''Could not deserialize data''"
| "bb_message MissingBubblegumEventData = ''Missing Bubblegum event data''"
| "bb_message InvalidDataLength = ''Data length is invalid.''"
| "bb_message UnknownAccountDiscriminator = ''Unknown anchor account discriminator.''"
| "bb_message InvalidAccountType = ''Account type is not valid''"
| "bb_message FailedToDeserializeToMasterEdition = ''Master edition version is invalid''"
| "bb_message UninitializedAccount = ''Uninitialized account type''"
| "bb_message AccountTypeNotImplemented = ''Account Type Not implemented''"
| "bb_message InstructionTypeNotImplemented = ''Instruction Type Not implemented''"
| "bb_message (CustomDeserializationError e) = ''Could not deserialize data: '' @ e"

definition from_blockbuster :: "'a bb_result \<Rightarrow> ('a \<Rightarrow> 'b handler) \<Rightarrow> 'b handler" where
  "from_blockbuster r k = (case r of Inl e \<Rightarrow> raise_m (ParsingError (bb_message e)) | Inr x \<Rightarrow> k x)"

definition parse_instruction :: "env \<Rightarrow> program_parser \<Rightarrow> instruction_bundle \<Rightarrow> program_parse_result bb_result" where
  "parse_instruction V p ix =
    (case p of
       BubblegumParser \<Rightarrow> map_sum id R_Bubblegum (handle_instruction (e_borsh V) ix)
     | TokenProgramParser \<Rightarrow> Inr (case close_instruction ix of
          Some k \<Rightarrow> R_TokenProgramEntity (TE_CloseIx k) | None \<Rightarrow> R_Unknown)
     | Token2022ProgramParser \<Rightarrow> Inr (case close_instruction ix of
          Some k \<Rightarrow> R_TokenExtensionsProgramEntity (XE_CloseIx k) | None \<Rightarrow> R_Unknown)
     | _ \<Rightarrow> Inr R_Unknown)"

definition parse_account :: "env \<Rightarrow> program_parser \<Rightarrow> bytes \<Rightarrow> program_parse_result bb_result option" where
  "parse_account V p account_data =
    (case p of
       TokenMetadataParser \<Rightarrow>
         Some (map_sum id R_TokenMetadata (token_metadata_handle_account (e_unpackers V) account_data))
     | TokenProgramParser \<Rightarrow>
         Some (map_sum id R_TokenProgramEntity (token_handle_account (e_unpackers V) account_data))
     | MplCoreParser \<Rightarrow> Some (map_sum id R_MplCore (mpl_core_handle_account (e_core V) account_data))
     | Token2022ProgramParser \<Rightarrow>
         Some (map_sum id R_TokenExtensionsProgramEntity (token_2022_handle_account (e_unpackers V) account_data))
     | TokenInscriptionParser \<Rightarrow>
         map_option (map_sum id R_TokenInscriptionAccount) (try_unpack_data (e_ext V) account_data)
     | AgentRegistryParser \<Rightarrow> Some (Inr (R_AgentRegistry (agent_registry_parse account_data)))
     | BubblegumParser \<Rightarrow> Some (Inr R_Unknown))"

section \<open>Transactions\<close>

record transaction_info =
  ti_slot :: u64
  ti_signature :: bytes
  ti_account_keys :: "pubkey list"
  ti_message_instructions :: "compiled_instruction list"
  ti_meta_inner_instructions :: "inner_instructions list"

definition break_transaction :: "program_ids \<Rightarrow> transaction_info \<Rightarrow> (ix_pair \<times> ix_pair list option) list option" where
  "break_transaction p tx =
     order_instructions (key_set p) (ti_account_keys tx) (ti_message_instructions tx)
       (ti_meta_inner_instructions tx)"

text \<open>The accounts an instruction names: an index past the end is dropped.\<close>

definition ix_accounts :: "pubkey list \<Rightarrow> u8 list \<Rightarrow> pubkey list" where
  "ix_accounts account_keys accounts =
     map (\<lambda>a. account_keys ! unat a) (filter (\<lambda>a. unat a < length account_keys) accounts)"

definition max_account :: "u8 list \<Rightarrow> nat" where
  "max_account accounts = fold (\<lambda>a m. max (unat a) m) accounts 0"

definition bundle_of :: "ext \<Rightarrow> transaction_info \<Rightarrow> ix_pair \<Rightarrow> ix_pair list option \<Rightarrow> instruction_bundle" where
  "bundle_of E tx outer_ix inner_ix =
    \<lparr>ib_txn_id = bs58_encode E (ti_signature tx), ib_program = fst outer_ix, ib_instruction = Some (snd outer_ix),
     ib_inner_ix = inner_ix, ib_keys = ix_accounts (ti_account_keys tx) (ci_accounts (snd outer_ix)),
     ib_slot = ti_slot tx\<rparr>"

text \<open>One round of the loop: whether the instruction counts as not implemented.\<close>

definition handle_one :: "env \<Rightarrow> transaction_info \<Rightarrow> ix_pair \<times> ix_pair list option \<Rightarrow> bool handler" where
  "handle_one V tx item =
    (case item of (outer_ix, inner_ix) \<Rightarrow>
      if length (ti_account_keys tx) < max_account (ci_accounts (snd outer_ix)) then
        raise_m (DeserializationError ''Missing Accounts in Serialized Ixn/Txn'')
      else
        (let ix = bundle_of (e_ext V) tx outer_ix inner_ix in
         case match_program (e_ids V) (ib_program ix) of
           None \<Rightarrow> return_m False
         | Some p \<Rightarrow> from_blockbuster (parse_instruction V p ix) (\<lambda>result.
             case result of
               R_Bubblegum parsing_result \<Rightarrow>
                 bind_m (handle_bubblegum_instruction (e_ext V) parsing_result ix) (\<lambda>_. return_m False)
             | R_TokenProgramEntity entity \<Rightarrow>
                 (case entity of
                    TE_CloseIx k \<Rightarrow> bind_m (handle_token_program_close_ix k) (\<lambda>_. return_m False)
                  | _ \<Rightarrow> return_m False)
             | R_TokenExtensionsProgramEntity entity \<Rightarrow>
                 (case entity of
                    XE_CloseIx k \<Rightarrow> bind_m (handle_token_program_close_ix k) (\<lambda>_. return_m False)
                  | _ \<Rightarrow> return_m False)
             | _ \<Rightarrow> return_m True)))"

fun handle_all :: "env \<Rightarrow> transaction_info \<Rightarrow> (ix_pair \<times> ix_pair list option) list \<Rightarrow> nat \<Rightarrow> nat handler" where
  "handle_all V tx [] not_impl = return_m not_impl"
| "handle_all V tx (item # items) not_impl =
     bind_m (handle_one V tx item) (\<lambda>b. handle_all V tx items (if b then Suc not_impl else not_impl))"

definition handle_transaction :: "env \<Rightarrow> transaction_info \<Rightarrow> unit handler option" where
  "handle_transaction V tx =
    (case break_transaction (e_ids V) tx of
       None \<Rightarrow> None
     | Some instructions \<Rightarrow>
         Some (bind_m (handle_all V tx instructions 0) (\<lambda>not_impl.
           if not_impl = length instructions then raise_m NotImplemented else return_m ())))"

section \<open>Account updates\<close>

definition handle_account_update :: "env \<Rightarrow> account_info \<Rightarrow> unit handler option" where
  "handle_account_update V info =
    (case match_program (e_ids V) (ac_owner info) of
       None \<Rightarrow> Some (return_m ())
     | Some p \<Rightarrow>
         map_option (\<lambda>r. from_blockbuster r (\<lambda>result.
           case result of
             R_TokenMetadata data \<Rightarrow> handle_token_metadata_account (e_ext V) (e_serde V) info data
           | R_TokenProgramEntity entity \<Rightarrow> handle_token_program_account info entity
           | R_TokenExtensionsProgramEntity entity \<Rightarrow> handle_token_extensions_program_account (e_ext V) info entity
           | R_MplCore data \<Rightarrow> handle_mpl_core_account (e_ext V) (e_snake V) (id_mpl_core (e_ids V)) info data
           | R_AgentRegistry parsed \<Rightarrow> handle_agent_registry_account parsed (ac_slot info)
           | R_TokenInscriptionAccount data \<Rightarrow> handle_token_inscription_program_update (e_serde V) info data
           | _ \<Rightarrow> raise_m NotImplemented))
         (parse_account V p (ac_data info)))"

end
