(* ===== verification/Account_Properties.thy ===== *)
theory Account_Properties
  imports Program_Transformer
begin

text \<open>
  What the account handlers promise. Each slot-guarded group of columns is a last-writer-wins
  register (interpretations of \<open>lww_framed\<close>), so account updates may arrive in any order; where
  the guard of a statement does not give that, a theorem says what happens instead.
\<close>

section \<open>Token account columns\<close>

type_synonym token_columns = "bytes option \<times> bool \<times> bytes option \<times> i64 option"

definition token_view :: "asset \<Rightarrow> token_columns" where
  "token_view r = (a_owner r, a_frozen r, a_delegate r, a_slot_updated_token_account r)"

record token_update =
  tu_mint :: bytes
  tu_owner :: "bytes option"
  tu_frozen :: bool
  tu_delegate :: "bytes option"
  tu_slot :: i64

definition apply_token_update :: "token_update \<Rightarrow> db \<Rightarrow> db" where
  "apply_token_update u =
     snd (upsert_assets_token_account_columns StorageWriteError (tu_mint u) (tu_owner u) (tu_frozen u)
       (tu_delegate u) (Some (tu_slot u)))"

definition token_value :: "token_update \<Rightarrow> token_columns" where
  "token_value u = (tu_owner u, tu_frozen u, tu_delegate u, Some (tu_slot u))"

definition token_ver :: "token_columns \<Rightarrow> i64 option" where
  "token_ver v = snd (snd (snd v))"

lemma token_view_upsert:
  "token_view (asset_cur j (snd (upsert_assets_token_account_columns err i ow fr de (Some s)) d)) =
    (if j = i \<and> acc_ge (a_slot_updated_token_account (asset_cur i d)) s
     then (ow, fr, de, Some s) else token_view (asset_cur j d))"
  by (auto simp: upsert_assets_token_account_columns_def Let_def asset_cur_def asset_row_upsert
      upsert_asset_frame token_view_def asset_default_def split: option.splits)

lemma token_ver_view [simp]: "token_ver (token_view r) = a_slot_updated_token_account r"
  by (simp add: token_ver_def token_view_def)

interpretation token_cols: lww_framed apply_token_update "\<lambda>d. token_view (asset_cur i d)" token_value tu_slot
    token_ver acc_ge "\<lambda>_. True" "\<lambda>u. tu_mint u = i" "\<lambda>_. True" for i
  by unfold_locales
    (auto simp: apply_token_update_def token_view_upsert token_value_def token_ver_def [of "(_, _)"])

section \<open>Token account updates as deliveries\<close>

text \<open>
  A delivery of either token program: which one, the account, its state and its extensions.
  \<open>nft_update\<close> is what it says about the asset of its mint.
\<close>

type_synonym token_delivery = "bool \<times> account_info \<times> spl_account \<times> json option"

definition deliver_token :: "token_delivery \<Rightarrow> world \<Rightarrow> world" where
  "deliver_token x w = (case x of (e2022, info, ta, ex) \<Rightarrow> snd (save_token_account e2022 info ta ex w))"

definition nft_update :: "token_delivery \<Rightarrow> token_update" where
  "nft_update x = (case x of (e2022, info, ta, ex) \<Rightarrow>
     \<lparr>tu_mint = sa_mint ta, tu_owner = Some (sa_owner ta), tu_frozen = (sa_state ta = AS_Frozen),
      tu_delegate = sa_delegate ta, tu_slot = as_i64 (ac_slot info)\<rparr>)"

definition is_nft :: "db \<Rightarrow> bytes \<Rightarrow> bool" where
  "is_nft d m = (case lookup tk_mint m (tokens_t d) of Some t \<Rightarrow> token_is_non_fungible t | None \<Rightarrow> False)"

lemma upsert_token_account_frame [frame_simps]:
  "asset_t (snd (upsert_token_account b new) d) = asset_t d"
  "tokens_t (snd (upsert_token_account b new) d) = tokens_t d"
  "db_now (snd (upsert_token_account b new) d) = db_now d"
  by (simp_all add: upsert_token_account_def)

lemma token_columns_frame [frame_simps]:
  "tokens_t (snd (upsert_assets_token_account_columns err i ow fr de s) d) = tokens_t d"
  by (simp add: upsert_assets_token_account_columns_def Let_def upsert_asset_def)

lemma deliver_token_effect:
  assumes "no_faults w"
  shows "no_faults (deliver_token x w)"
    "tokens_t (w_db (deliver_token x w)) = tokens_t (w_db w)"
    "token_view (asset_cur j (w_db (deliver_token x w))) =
      (if is_nft (w_db w) (tu_mint (nft_update x))
       then token_view (asset_cur j (apply_token_update (nft_update x) (w_db w)))
       else token_view (asset_cur j (w_db w)))"
proof -
  obtain e info ta ex where x: "x = (e, info, ta, ex)" by (cases x)
  let ?d = "snd (upsert_token_account e (token_account_model info ta ex)) (w_db w)"
  have cur: "asset_cur k ?d = asset_cur k (w_db w)" for k
    by (rule asset_cur_other_tables) (simp_all add: frame_simps)
  show "no_faults (deliver_token x w)"
    "tokens_t (w_db (deliver_token x w)) = tokens_t (w_db w)"
    "token_view (asset_cur j (w_db (deliver_token x w))) =
      (if is_nft (w_db w) (tu_mint (nft_update x))
       then token_view (asset_cur j (apply_token_update (nft_update x) (w_db w)))
       else token_view (asset_cur j (w_db w)))"
    using assms
    by (simp_all add: deliver_token_def x save_token_account_def bind_m_def execute_ok query_ok transaction_ok
        return_m_def frame_simps nft_update_def is_nft_def apply_token_update_def token_view_upsert cur
        split: option.splits)
qed

interpretation nft_owner: lww_framed deliver_token "\<lambda>w. token_view (asset_cur i (w_db w))"
    "\<lambda>x. token_value (nft_update x)" "\<lambda>x. tu_slot (nft_update x)" token_ver acc_ge
    "\<lambda>w. no_faults w \<and> is_nft (w_db w) i" "\<lambda>x. tu_mint (nft_update x) = i" "\<lambda>_. True" for i
proof
  fix w x
  assume "no_faults w \<and> is_nft (w_db w) i" "tu_mint (nft_update x) = i"
  then show "token_view (asset_cur i (w_db (deliver_token x w))) =
      (if acc_ge (token_ver (token_view (asset_cur i (w_db w)))) (tu_slot (nft_update x))
       then token_value (nft_update x) else token_view (asset_cur i (w_db w)))"
    using deliver_token_effect(3) [of w i x]
    by (simp add: apply_token_update_def token_view_upsert token_value_def)
next
  fix w x
  assume "no_faults w \<and> is_nft (w_db w) i" "\<not> tu_mint (nft_update x) = i"
  then show "token_view (asset_cur i (w_db (deliver_token x w))) = token_view (asset_cur i (w_db w))"
    using deliver_token_effect(3) [of w i x] by (simp add: apply_token_update_def token_view_upsert)
qed (auto simp: deliver_token_effect is_nft_def token_value_def token_ver_def)

text \<open>An NFT's mint and its accounts, for evaluating the properties.\<close>

definition nft_world0 :: world where
  "nft_world0 = world0\<lparr>w_db := empty_db\<lparr>tokens_t :=
     [\<lparr>tk_mint = [3], tk_supply = 1, tk_decimals = 0, tk_token_program = [], tk_mint_authority = None,
       tk_freeze_authority = None, tk_close_authority = None, tk_extension_data = None, tk_slot_updated = 1,
       tk_extensions = None\<rparr>]\<rparr>\<rparr>"

definition token_account0 :: "pubkey \<Rightarrow> u64 \<Rightarrow> spl_account" where
  "token_account0 ow amount = \<lparr>sa_mint = [3], sa_owner = ow, sa_amount = amount, sa_delegate = None,
     sa_state = AS_Initialized, sa_delegated_amount = 0\<rparr>"

definition account_info0 :: "pubkey \<Rightarrow> u64 \<Rightarrow> account_info" where
  "account_info0 k slot = \<lparr>ac_slot = slot, ac_pubkey = k, ac_owner = [], ac_data = []\<rparr>"

lemmas nft_defs = nft_world0_def token_account0_def account_info0_def world0_def empty_db_def

lemma nft_world0_facts:
  "no_faults nft_world0" "is_nft (w_db nft_world0) [3]"
  "a_slot_updated_token_account (asset_cur [3] (w_db nft_world0)) = None"
  by (simp_all add: nft_defs no_faults_def is_nft_def token_is_non_fungible_def asset_cur_def asset_default_def)

text \<open>
  C28: The owner of an NFT converges. Deliver token account updates of either token program in
  any order and any number of times; if updates of the mint's accounts with one slot agree and
  none ties with the slot stored, the asset ends with the same owner, frozen flag and
  delegate. (\<open>empty_account_takes_ownership\<close> is what happens when two of them do not agree.)
\<close>

theorem nft_owner_convergence:
  assumes "no_faults w" "is_nft (w_db w) i" and sets: "set xs = set ys"
    and agree: "\<forall>x\<in>set xs. \<forall>y\<in>set xs. tu_mint (nft_update x) = i \<longrightarrow> tu_mint (nft_update y) = i \<longrightarrow>
      tu_slot (nft_update x) = tu_slot (nft_update y) \<longrightarrow> nft_update x = nft_update y"
    and fresh: "\<forall>x\<in>set xs. a_slot_updated_token_account (asset_cur i (w_db w)) \<noteq> Some (tu_slot (nft_update x))"
  shows "token_view (asset_cur i (w_db (fold deliver_token xs w))) =
    token_view (asset_cur i (w_db (fold deliver_token ys w)))"
proof (rule nft_owner.convergence_framed [OF _ _ sets])
  show "\<forall>x\<in>set xs. \<forall>y\<in>set xs. tu_mint (nft_update x) = i \<longrightarrow> tu_mint (nft_update y) = i \<longrightarrow>
      tu_slot (nft_update x) = tu_slot (nft_update y) \<longrightarrow> token_value (nft_update x) = token_value (nft_update y)"
    using agree by metis
  show "\<forall>x\<in>set xs. tu_mint (nft_update x) = i \<longrightarrow>
      token_ver (token_view (asset_cur i (w_db w))) \<noteq> Some (tu_slot (nft_update x))"
    using fresh by simp
qed (use assms(1,2) in auto)

theorem nft_owner_convergence_witness:
  "token_view (asset_cur [3] (w_db (fold deliver_token
     [(False, account_info0 [4] 10, token_account0 [1] 1, None),
      (True, account_info0 [5] 20, token_account0 [2] 1, None)] nft_world0))) =
   token_view (asset_cur [3] (w_db (fold deliver_token
     [(True, account_info0 [5] 20, token_account0 [2] 1, None),
      (False, account_info0 [4] 10, token_account0 [1] 1, None)] nft_world0)))"
  by (rule nft_owner_convergence)
    (auto simp: nft_world0_facts nft_update_def token_account0_def account_info0_def as_i64_def)

text \<open>
  A token account that holds nothing still takes the asset over. The handlers do not look
  at the amount: an update of an empty token account of an NFT's mint, at the slot stored or a
  later one, makes its owner the owner of the asset. A transfer updates the emptied and the
  filled account in one slot, so which of the two is delivered last decides the owner shown.
\<close>

theorem empty_account_takes_ownership:
  assumes "no_faults w" "is_nft (w_db w) (sa_mint ta)" "sa_amount ta = 0"
    and "acc_ge (a_slot_updated_token_account (asset_cur (sa_mint ta) (w_db w))) (as_i64 (ac_slot info))"
  shows "a_owner (asset_cur (sa_mint ta)
      (w_db (snd (handle_token_program_account info (TE_TokenAccount ta) w)))) = Some (sa_owner ta)"
proof -
  have "token_view (asset_cur (sa_mint ta) (w_db (deliver_token (False, info, ta, None) w))) =
      (Some (sa_owner ta), sa_state ta = AS_Frozen, sa_delegate ta, Some (as_i64 (ac_slot info)))"
    using deliver_token_effect(3) [OF assms(1), of "sa_mint ta" "(False, info, ta, None)"] assms
    by (simp add: nft_update_def apply_token_update_def token_view_upsert)
  then show ?thesis
    by (simp add: deliver_token_def handle_token_program_account_def token_view_def)
qed

theorem empty_account_takes_ownership_witness:
  "a_owner (asset_cur [3] (w_db (snd (handle_token_program_account (account_info0 [4] 10)
     (TE_TokenAccount (token_account0 [1] 0)) nft_world0)))) = Some [1]"
  using empty_account_takes_ownership [of nft_world0 "token_account0 [1] 0" "account_info0 [4] 10"]
  by (simp add: nft_world0_facts token_account0_def)

section \<open>Burns and metadata\<close>

definition metadata_ver :: "asset \<Rightarrow> i64 option" where
  "metadata_ver r = a_slot_updated_metadata_account r"

lemma asset_cur_metadata_columns:
  "a_burnt (asset_cur j (snd (upsert_assets_metadata_account_columns c) d)) =
    (if j = mc_mint c \<and> acc_ge (metadata_ver (asset_cur (mc_mint c) d)) (as_i64 (mc_slot_updated_metadata_account c))
     then False else a_burnt (asset_cur j d))"
  "a_slot_updated (asset_cur j (snd (upsert_assets_metadata_account_columns c) d)) =
    (if j = mc_mint c \<and> asset_row j d \<noteq> None \<and>
        acc_ge (metadata_ver (asset_cur (mc_mint c) d)) (as_i64 (mc_slot_updated_metadata_account c))
     then greatest_slot (a_slot_updated (asset_cur j d)) (Some (as_i64 (mc_slot_updated_metadata_account c)))
     else a_slot_updated (asset_cur j d))"
  by (auto simp: upsert_assets_metadata_account_columns_def Let_def asset_cur_def asset_row_upsert
      upsert_asset_frame metadata_ver_def metadata_cols_def asset_default_def split: option.splits)

lemma asset_cur_burn_v1:
  "a_burnt (asset_cur j (snd (burn_v1_asset i slot) d)) =
    (a_burnt (asset_cur j d) \<or> j = i \<and> (case asset_row i d of None \<Rightarrow> True
       | Some r \<Rightarrow> (case a_slot_updated r of None \<Rightarrow> False | Some s \<Rightarrow> s < as_i64 slot)))"
  "metadata_ver (asset_cur j (snd (burn_v1_asset i slot) d)) = metadata_ver (asset_cur j d)"
  by (auto simp: burn_v1_asset_def Let_def asset_cur_def asset_row_upsert sql_simps
      upsert_asset_frame metadata_ver_def asset_default_def split: option.splits)

text \<open>
  A late metadata update brings a burnt asset back. The upsert of the metadata columns
  clears \<open>burnt\<close> and compares its slot with the last metadata slot only, not with the slot of the
  burn: after a burn, an update from before the burn that is newer than the stored metadata
  marks the asset as not burnt. Delivered in slot order the asset ends burnt.
\<close>

theorem burn_depends_on_order:
  assumes row: "asset_row i d = Some r" and i: "mc_mint c = i"
    and slots: "a_slot_updated r = Some s" "s \<le> as_i64 (mc_slot_updated_metadata_account c)" "0 \<le> s"
      "as_i64 (mc_slot_updated_metadata_account c) < as_i64 burn_slot"
    and newer: "acc_ge (metadata_ver r) (as_i64 (mc_slot_updated_metadata_account c))"
  shows "\<not> a_burnt (asset_cur i (snd (upsert_assets_metadata_account_columns c) (snd (burn_v1_asset i burn_slot) d))) \<and>
    a_burnt (asset_cur i (snd (burn_v1_asset i burn_slot) (snd (upsert_assets_metadata_account_columns c) d)))"
proof
  have cur: "asset_cur i d = r" using row by (simp add: asset_cur_def)
  show "\<not> a_burnt (asset_cur i (snd (upsert_assets_metadata_account_columns c) (snd (burn_v1_asset i burn_slot) d)))"
    using newer by (simp add: asset_cur_metadata_columns asset_cur_burn_v1 i cur)
  let ?d = "snd (upsert_assets_metadata_account_columns c) d"
  have "a_slot_updated (asset_cur i ?d) = Some (as_i64 (mc_slot_updated_metadata_account c))"
    using newer slots row by (simp add: asset_cur_metadata_columns i cur greatest_slot_def max_def)
  moreover obtain r' where "asset_row i ?d = Some r'"
    using row i by (auto simp: upsert_assets_metadata_account_columns_def Let_def asset_row_upsert metadata_cols_def)
  ultimately show "a_burnt (asset_cur i (snd (burn_v1_asset i burn_slot) ?d))"
    using slots(4) by (simp add: asset_cur_burn_v1) (simp add: asset_cur_def)
qed

definition core_columns0 :: asset_metadata_account_columns where
  "core_columns0 = \<lparr>mc_mint = [3], mc_owner_type = OT_Single, mc_specification_asset_class = Some SAC_MplCoreAsset,
     mc_royalty_amount = 0, mc_asset_data = Some [3], mc_slot_updated_metadata_account = 20,
     mc_mpl_core_plugins = None, mc_mpl_core_unknown_plugins = None, mc_mpl_core_collection_num_minted = None,
     mc_mpl_core_collection_current_size = None, mc_mpl_core_plugins_json_version = None,
     mc_mpl_core_external_plugins = None, mc_mpl_core_unknown_external_plugins = None, mc_is_agent = False,
     mc_asset_signer = None\<rparr>"

theorem burn_depends_on_order_witness:
  "let d = empty_db\<lparr>asset_t := [(asset_default 0 [3])\<lparr>a_slot_updated := Some 10, a_slot_updated_metadata_account := Some 10\<rparr>]\<rparr>
   in \<not> a_burnt (asset_cur [3] (snd (upsert_assets_metadata_account_columns core_columns0) (snd (burn_v1_asset [3] 30) d))) \<and>
      a_burnt (asset_cur [3] (snd (burn_v1_asset [3] 30) (snd (upsert_assets_metadata_account_columns core_columns0) d)))"
  unfolding Let_def
  by (rule burn_depends_on_order [where s = 10 and
        r = "(asset_default 0 [3])\<lparr>a_slot_updated := Some 10, a_slot_updated_metadata_account := Some 10\<rparr>"])
    (simp_all add: core_columns0_def as_i64_def metadata_ver_def acc_ge_def)

text \<open>
  Closing a metadata account burns the wrong row. The assets of the token metadata program
  are keyed by their mint, but the handler of an emptied metadata account marks the row keyed by
  the metadata account itself: no other row changes, the asset's row included.
\<close>

theorem closed_metadata_account_misses_asset:
  assumes "handle_token_metadata_account E S info TM_EmptyAccount w = (res, w')"
    and "mint_id \<noteq> ac_pubkey info"
  shows "asset_row mint_id (w_db w') = asset_row mint_id (w_db w)"
  using assms
  by (auto simp: handle_token_metadata_account_def execute_def burn_v1_asset_def Let_def asset_row_upsert
      split: option.splits)

definition serde0 :: serde where
  "serde0 = \<lparr>inscription_to_value = (\<lambda>d. Inr (JStr (in_content d))), master_edition_to_value = (\<lambda>m. Inr JNull),
     edition_to_value = (\<lambda>e. Inr JNull), pubkey_from_str = (\<lambda>s. Inr (str_bytes s)),
     master_edition_find_pda = (\<lambda>k. 1 # k), WSOL_PUBKEY = [255]\<rparr>"

theorem closed_metadata_account_misses_asset_witness:
  "asset_row [3] (w_db (snd (handle_token_metadata_account ext0 serde0 (account_info0 [8] 30) TM_EmptyAccount
      (world0\<lparr>w_db := empty_db\<lparr>asset_t := [asset_default 0 [3]]\<rparr>\<rparr>)))) = Some (asset_default 0 [3])"
  using closed_metadata_account_misses_asset [of ext0 serde0 "account_info0 [8] 30"
      "world0\<lparr>w_db := empty_db\<lparr>asset_t := [asset_default 0 [3]]\<rparr>\<rparr>" _ _ "[3]", OF prod.collapse [symmetric]]
  by (simp add: account_info0_def)

text \<open>
  A stale authority can win. Because an unchanged authority does not raise its slot, the
  authority column does not converge: with authority \<open>A\<close> stored, the confirmation of \<open>A\<close> at a later
  slot followed by the late delivery of an intermediate authority \<open>B\<close> leaves \<open>B\<close>, whereas the
  slot order leaves \<open>A\<close>.
\<close>

theorem authority_depends_on_order:
  assumes "lookup au_asset_id i t = Some r" "au_slot_updated r < s2" "s2 < s3" "au_authority r \<noteq> B"
  shows "map_option au_authority (lookup au_asset_id i
      (upsert_authority_row (account_authority i B s2) (upsert_authority_row (account_authority i (au_authority r) s3) t))) =
      Some B \<and>
    map_option au_authority (lookup au_asset_id i
      (upsert_authority_row (account_authority i (au_authority r) s3) (upsert_authority_row (account_authority i B s2) t))) =
      Some (au_authority r)"
  using assms by (simp add: upsert_authority_row_def account_authority_def lookup_upsert)

theorem authority_depends_on_order_witness:
  "map_option au_authority (lookup au_asset_id [3] (upsert_authority_row (account_authority [3] [2] 20)
      (upsert_authority_row (account_authority [3] [1] 30) [account_authority [3] [1] 10]))) = Some [2] \<and>
   map_option au_authority (lookup au_asset_id [3] (upsert_authority_row (account_authority [3] [1] 30)
      (upsert_authority_row (account_authority [3] [2] 20) [account_authority [3] [1] 10]))) = Some [1]"
  using authority_depends_on_order [of "[3]" "[account_authority [3] [1] 10]" "account_authority [3] [1] 10" 20 30 "[2]"]
  by (simp add: account_authority_def)

lemma filter_non_null_keeps:
  "\<exists>kv\<in>set m. snd kv \<noteq> JNull \<Longrightarrow> filter_non_null_fields (JObj m) \<noteq> None"
  by (auto simp: filter_empty_conv)

text \<open>
  Two extensions of a mint are lost when they are its only ones: \<open>is_some\<close> does not ask for
  \<open>non_transferable\<close> and \<open>immutable_owner\<close>, so a mint with nothing else is stored without
  extensions although their value has non-null fields to keep.
\<close>

theorem lone_non_transferable_dropped:
  assumes "\<not> mint_ext_is_some x" "mx_non_transferable x \<noteq> None \<or> mx_immutable_owner x \<noteq> None" "no_faults w"
    and "acc_ge (a_slot_updated_mint_account (asset_cur (ac_pubkey info) (w_db w))) (as_i64 (ac_slot info))"
  shows "filter_non_null_fields (mint_ext_value x) \<noteq> None \<and>
    a_mint_extensions (asset_cur (ac_pubkey info)
      (w_db (snd (handle_token_extensions_program_account E info (XE_MintAccount m x) w)))) = None"
proof
  have "\<exists>kv\<in>{(''non_transferable'', opt_value JBool (mx_non_transferable x)),
      (''immutable_owner'', opt_value JBool (mx_immutable_owner x))}. snd kv \<noteq> JNull"
    using assms(2) by (auto simp: opt_value_def)
  then show "filter_non_null_fields (mint_ext_value x) \<noteq> None"
    unfolding mint_ext_value_def by (intro filter_non_null_keeps) auto
  have "mx_metadata x = None" using assms(1) by (simp add: mint_ext_is_some_def)
  moreover have "asset_row j (snd (upsert_token b n) d) = asset_row j d" "db_now (snd (upsert_token b n) d) = db_now d" for j b n d
    by (simp_all add: upsert_token_def)
  ultimately show "a_mint_extensions (asset_cur (ac_pubkey info)
      (w_db (snd (handle_token_extensions_program_account E info (XE_MintAccount m x) w)))) = None"
    using assms(1,3,4)
    by (auto simp: handle_token_extensions_program_account_def save_mint_account_def bind_m_def execute_ok
        transaction_ok return_m_def upsert_assets_mint_account_columns_def Let_def asset_cur_def asset_row_upsert
        upsert_asset_frame split: option.splits)
qed

definition lone_extension0 :: mint_account_extensions where
  "lone_extension0 = \<lparr>mx_default_account_state = None, mx_confidential_transfer_mint = None,
     mx_confidential_transfer_fee_config = None, mx_interest_bearing_config = None, mx_transfer_fee_config = None,
     mx_mint_close_authority = None, mx_permanent_delegate = None, mx_metadata_pointer = None, mx_metadata = None,
     mx_transfer_hook = None, mx_group_pointer = None, mx_token_group = None, mx_group_member_pointer = None,
     mx_token_group_member = None, mx_non_transferable = Some True, mx_immutable_owner = None\<rparr>"

theorem lone_non_transferable_dropped_witness:
  "a_mint_extensions (asset_cur [3] (w_db (snd (handle_token_extensions_program_account ext0 (account_info0 [3] 10)
     (XE_MintAccount \<lparr>sm_mint_authority = None, sm_supply = 1, sm_decimals = 0, sm_freeze_authority = None\<rparr>
       lone_extension0) nft_world0)))) = None"
proof -
  have "a_slot_updated_mint_account (asset_cur [3] (w_db nft_world0)) = None"
    by (simp add: nft_defs asset_cur_def asset_default_def)
  with lone_non_transferable_dropped [of lone_extension0 nft_world0 "account_info0 [3] 10" ext0] show ?thesis
    by (simp add: lone_extension0_def mint_ext_is_some_def nft_world0_facts account_info0_def)
qed

end
