(* ===== verification/Transaction_Properties.thy ===== *)
theory Transaction_Properties
  imports Account_Properties Bubblegum_Views
begin

text \<open>
  What \<open>handle_transaction\<close> sees of a transaction: the order of the instructions against a
  reference definition, the accounts each gets, and what the whole transaction comes to.
\<close>

section \<open>Order of instructions\<close>

text \<open>The reference: inner instructions of each outer one, then the outer one, as far as their program resolves.\<close>

definition resolve :: "pubkey list \<Rightarrow> compiled_instruction list \<Rightarrow> ix_pair list" where
  "resolve keys cs =
     map (\<lambda>c. (keys ! unat (ci_program_id_index c), c))
       (filter (\<lambda>c. unat (ci_program_id_index c) < length keys) cs)"

definition flat_instructions :: "pubkey list \<Rightarrow> compiled_instruction list \<Rightarrow> inner_instructions list \<Rightarrow> ix_pair list" where
  "flat_instructions keys ms metas =
     concat (map (\<lambda>(k, m). resolve keys (inner_for metas k @ [m])) (enumerate 0 ms))"

lemma hoist_fst: "map fst (hoist_known_programs P xs) = filter (\<lambda>p. fst p \<in> P) xs"
proof -
  have "map (\<lambda>x. (fst (snd x), snd (snd x))) (filter (\<lambda>x. fst (snd x) \<in> P) (enumerate n xs)) =
      filter (\<lambda>p. fst p \<in> P) xs" for n
    by (induction xs arbitrary: n) auto
  then show ?thesis by (simp add: hoist_known_programs_def case_prod_unfold comp_def)
qed

lemma pair_with_program_resolve:
  "pair_with_program keys cs =
    (if \<forall>c\<in>set cs. unat (ci_program_id_index c) < length keys then Some (resolve keys cs) else None)"
  by (induction cs) (auto simp: resolve_def)

lemma order_from_reference:
  "case order_from P keys n ms metas of
     None \<Rightarrow> \<exists>k<length ms. \<exists>c\<in>set (inner_for metas (n + k)). \<not> unat (ci_program_id_index c) < length keys
   | Some out \<Rightarrow> map fst out = filter (\<lambda>p. fst p \<in> P)
       (concat (map (\<lambda>(k, m). resolve keys (inner_for metas k @ [m])) (enumerate n ms)))"
proof (induction ms arbitrary: n)
  case (Cons m ms)
  show ?case
  proof (cases "\<forall>c\<in>set (inner_for metas n). unat (ci_program_id_index c) < length keys")
    case True
    then have pw: "pair_with_program keys (inner_for metas n) = Some (resolve keys (inner_for metas n))"
      by (simp add: pair_with_program_resolve)
    show ?thesis
    proof (cases "order_from P keys (Suc n) ms metas")
      case None
      with Cons.IH [of "Suc n"] obtain k c where "k < length ms" "c \<in> set (inner_for metas (n + Suc k))"
        "\<not> unat (ci_program_id_index c) < length keys" by auto
      with None pw show ?thesis by (auto simp: Let_def intro!: exI [of _ "Suc k"])
    next
      case (Some out)
      with Cons.IH [of "Suc n"] pw show ?thesis
        by (auto simp: Let_def hoist_fst resolve_def)
    qed
  next
    case False
    then have "pair_with_program keys (inner_for metas n) = None" by (simp add: pair_with_program_resolve)
    with False show ?thesis by (auto intro!: exI [of _ 0])
  qed
qed simp

text \<open>
  C29: Ordering loses, invents and reorders nothing. \<open>order_instructions\<close> returns, in order, exactly
  the instructions of known programs among all of the transaction's, every inner instruction
  before the outer one it belongs to; it panics only where an inner instruction names a program
  index past the account keys.
\<close>

theorem order_instructions_reference:
  "case order_instructions P keys ms metas of
     None \<Rightarrow> \<exists>k<length ms. \<exists>c\<in>set (inner_for metas k). \<not> unat (ci_program_id_index c) < length keys
   | Some out \<Rightarrow> map fst out = filter (\<lambda>p. fst p \<in> P) (flat_instructions keys ms metas)"
  using order_from_reference [where P = P and keys = keys and n = 0 and ms = ms and metas = metas]
  by (simp only: order_instructions_def flat_instructions_def add_0_left)

section \<open>Concrete inputs\<close>

text \<open>
  An instance of every parameter (parsers that refuse everything) and a transaction that closes a
  token account through the token program.
\<close>

definition borsh0 :: borsh where
  "borsh0 = \<lparr>get_instruction_type = (\<lambda>_. N_Unknown), spl_noop_id = [20], mpl_noop_id = [21], bgum_id = [7],
     de_event = (\<lambda>_. Inl ''e''), de_event_type = (\<lambda>_. Inl ''e''), de_leaf_schema_event = (\<lambda>_. Inl ''e''),
     de_metadata_args = (\<lambda>_. Inl ''e''), de_verify_creator = (\<lambda>_. Inl ''e''), de_unverify_creator = (\<lambda>_. Inl ''e''),
     de_update_metadata = (\<lambda>_. Inl ''e''), de_mint_v2 = (\<lambda>_. Inl ''e''), de_verify_creator_v2 = (\<lambda>_. Inl ''e''),
     de_unverify_creator_v2 = (\<lambda>_. Inl ''e''), de_update_metadata_v2 = (\<lambda>_. Inl ''e'')\<rparr>"

definition unpackers0 :: unpackers where
  "unpackers0 = \<lparr>unpack_account = (\<lambda>_. None), unpack_mint = (\<lambda>_. None), unpack_account_2022 = (\<lambda>_. None),
     unpack_mint_2022 = (\<lambda>_. None), get_extension = (\<lambda>_ _. None), get_metadata_extension = (\<lambda>_. None),
     de_tm_key = (\<lambda>_. Inl ''e''), de_edition = (\<lambda>_. Inl ''e''), de_master_edition_v1 = (\<lambda>_. Inl ''e''),
     de_master_edition_v2 = (\<lambda>_. Inl ''e''), de_use_authority_record = (\<lambda>_. None), de_edition_marker = (\<lambda>_. None),
     de_collection_authority_record = (\<lambda>_. None), safe_deserialize_metadata = (\<lambda>_. Inl ''e'')\<rparr>"

definition env0 :: env where
  "env0 = \<lparr>e_ext = ext0, e_borsh = borsh0, e_unpackers = unpackers0,
     e_core = \<lparr>de_core_key = (\<lambda>_. Inl ''e''), fetch_indexable = (\<lambda>_ _. Inl ''e''), group_parent_groups = (\<lambda>_. Inl ''e'')\<rparr>,
     e_serde = serde0,
     e_ids = \<lparr>id_bubblegum = [7], id_token_metadata = [10], id_token = [11], id_mpl_core = [12], id_token_2022 = [13],
              id_inscription = [14], id_agent_registry = [15]\<rparr>,
     e_snake = (\<lambda>s. s)\<rparr>"

definition close_tx0 :: transaction_info where
  "close_tx0 = \<lparr>ti_slot = 5, ti_signature = [1], ti_account_keys = [[11], [4]],
     ti_message_instructions = [\<lparr>ci_program_id_index = 0, ci_accounts = [1], ci_data = [9]\<rparr>],
     ti_meta_inner_instructions = []\<rparr>"

section \<open>Accounts of an instruction\<close>

lemma max_account_Max: "max_account as = Max (insert 0 (unat ` set as))"
  using Max.set_eq_fold [of 0 "map unat as"] by (simp add: max_account_def fold_map comp_def)

text \<open>
  Accounts are resolved by position, or refused. When every index of an instruction is in
  range, the handler gets the account keys at those positions, in order; when some index is
  more than one past the end, the instruction fails before anything is parsed or written.
\<close>

theorem accounts_resolved_or_refused:
  "((\<forall>a\<in>set (ci_accounts cix). unat a < length (ti_account_keys tx)) \<longrightarrow>
      ib_keys (bundle_of E tx (p, cix) inner) = map (\<lambda>a. ti_account_keys tx ! unat a) (ci_accounts cix)) \<and>
   ((\<exists>a\<in>set (ci_accounts cix). length (ti_account_keys tx) < unat a) \<longrightarrow>
      handle_one V tx ((p, cix), inner) w =
        (Inl (DeserializationError ''Missing Accounts in Serialized Ixn/Txn''), w))"
proof (intro conjI impI)
  assume "\<forall>a\<in>set (ci_accounts cix). unat a < length (ti_account_keys tx)"
  then show "ib_keys (bundle_of E tx (p, cix) inner) = map (\<lambda>a. ti_account_keys tx ! unat a) (ci_accounts cix)"
    by (simp add: bundle_of_def ix_accounts_def)
next
  assume "\<exists>a\<in>set (ci_accounts cix). length (ti_account_keys tx) < unat a"
  then have "length (ti_account_keys tx) < max_account (ci_accounts cix)"
    by (auto simp: max_account_Max less_max_iff_disj Max_gr_iff)
  then show "handle_one V tx ((p, cix), inner) w =
      (Inl (DeserializationError ''Missing Accounts in Serialized Ixn/Txn''), w)"
    by (simp add: handle_one_def raise_m_def)
qed

theorem accounts_resolved_or_refused_witness:
  "ib_keys (bundle_of ext0 close_tx0 ([11], \<lparr>ci_program_id_index = 0, ci_accounts = [1, 0], ci_data = [9]\<rparr>) None) =
     [[4], [11]] \<and>
   fst (handle_one env0 close_tx0 (([11], \<lparr>ci_program_id_index = 0, ci_accounts = [3], ci_data = [9]\<rparr>), None) world0) =
     Inl (DeserializationError ''Missing Accounts in Serialized Ixn/Txn'')"
  using accounts_resolved_or_refused [of "\<lparr>ci_program_id_index = 0, ci_accounts = [1, 0], ci_data = [9]\<rparr>" close_tx0 ext0 "[11]" None]
    accounts_resolved_or_refused [of "\<lparr>ci_program_id_index = 0, ci_accounts = [3], ci_data = [9]\<rparr>" close_tx0 ext0 "[11]" None env0 world0]
  by (simp add: close_tx0_def)

text \<open>
  The index one past the end slips through. The guard compares the number of keys with the
  greatest index, not with that index plus one: an instruction whose greatest index equals the
  number of keys is not refused, and the account it names silently disappears from the keys, so
  every later account moves up by one position.
\<close>

theorem index_one_past_end_dropped:
  assumes "ci_accounts cix \<noteq> []" "max_account (ci_accounts cix) = length (ti_account_keys tx)"
    and "0 < length (ti_account_keys tx)"
  shows "\<not> length (ti_account_keys tx) < max_account (ci_accounts cix) \<and>
    length (ib_keys (bundle_of E tx (p, cix) inner)) < length (ci_accounts cix)"
proof
  obtain a where "a \<in> set (ci_accounts cix)" "unat a = length (ti_account_keys tx)"
    using Max_in [of "insert 0 (unat ` set (ci_accounts cix))"] assms(2,3) by (auto simp: max_account_Max)
  then show "length (ib_keys (bundle_of E tx (p, cix) inner)) < length (ci_accounts cix)"
    by (auto simp: bundle_of_def ix_accounts_def intro!: length_filter_less)
qed (use assms(2) in simp)

theorem index_one_past_end_dropped_witness:
  "length (ib_keys (bundle_of ext0 close_tx0 ([11], \<lparr>ci_program_id_index = 0, ci_accounts = [2, 1], ci_data = [9]\<rparr>) None)) < 2"
  using index_one_past_end_dropped [of "\<lparr>ci_program_id_index = 0, ci_accounts = [2, 1], ci_data = [9]\<rparr>" close_tx0 ext0 "[11]" None]
  by (simp add: close_tx0_def max_account_def)

section \<open>What a transaction comes to\<close>

text \<open>What an instruction asks for, by what its parser makes of it: nothing, or the work of one handler.\<close>

fun handler_of :: "env \<Rightarrow> instruction_bundle \<Rightarrow> program_parse_result \<Rightarrow> unit handler option" where
  "handler_of V ix (R_Bubblegum pr) = Some (handle_bubblegum_instruction (e_ext V) pr ix)"
| "handler_of V ix (R_TokenProgramEntity (TE_CloseIx k)) = Some (handle_token_program_close_ix k)"
| "handler_of V ix (R_TokenExtensionsProgramEntity (XE_CloseIx k)) = Some (handle_token_program_close_ix k)"
| "handler_of V ix _ = None"

definition item_parsed :: "env \<Rightarrow> transaction_info \<Rightarrow> ix_pair \<times> ix_pair list option \<Rightarrow> program_parse_result option" where
  "item_parsed V tx item =
    (if length (ti_account_keys tx) < max_account (ci_accounts (snd (fst item))) then None
     else
       let ix = bundle_of (e_ext V) tx (fst item) (snd item) in
       Option.bind (match_program (e_ids V) (fst (fst item))) (\<lambda>p.
         case parse_instruction V p ix of Inl _ \<Rightarrow> None | Inr result \<Rightarrow> Some result))"

definition items_work :: "env \<Rightarrow> transaction_info \<Rightarrow> (ix_pair \<times> ix_pair list option) list \<Rightarrow> unit handler list" where
  "items_work V tx items = List.map_filter (\<lambda>item.
     Option.bind (item_parsed V tx item) (handler_of V (bundle_of (e_ext V) tx (fst item) (snd item)))) items"

fun run_in_order :: "unit handler list \<Rightarrow> unit handler" where
  "run_in_order [] = return_m ()"
| "run_in_order (h # hs) = bind_m h (\<lambda>_. run_in_order hs)"

lemma parse_instruction_entities:
  "parse_instruction V p ix = Inr (R_TokenProgramEntity entity) \<Longrightarrow> \<exists>k. entity = TE_CloseIx k"
  "parse_instruction V p ix = Inr (R_TokenExtensionsProgramEntity entity') \<Longrightarrow> \<exists>k. entity' = XE_CloseIx k"
  by (cases p; cases "handle_instruction (e_borsh V) ix"; auto simp: parse_instruction_def split: option.splits)+

lemma handle_one_parsed:
  assumes "match_program (e_ids V) (fst (fst item)) \<noteq> None"
  shows "case item_parsed V tx item of
     None \<Rightarrow> \<exists>e. e \<noteq> NotImplemented \<and> handle_one V tx item = raise_m e
   | Some result \<Rightarrow>
      (case handler_of V (bundle_of (e_ext V) tx (fst item) (snd item)) result of
         None \<Rightarrow> handle_one V tx item = return_m True
       | Some h \<Rightarrow> handle_one V tx item = bind_m h (\<lambda>_. return_m False))"
proof -
  obtain outer inner where item: "item = (outer, inner)" by (cases item)
  obtain p where p: "match_program (e_ids V) (fst outer) = Some p" using assms item by auto
  have prog: "ib_program (bundle_of (e_ext V) tx outer inner) = fst outer" by (simp add: bundle_of_def)
  let ?ix = "bundle_of (e_ext V) tx outer inner"
  show ?thesis
  proof (cases "length (ti_account_keys tx) < max_account (ci_accounts (snd outer))")
    case True
    then show ?thesis by (auto simp: item_parsed_def handle_one_def item)
  next
    case False
    show ?thesis
    proof (cases "parse_instruction V p ?ix")
      case (Inl e)
      with False p prog show ?thesis by (auto simp: item_parsed_def handle_one_def item Let_def from_blockbuster_def)
    next
      case (Inr result)
      with False p prog parse_instruction_entities [of V p ?ix] show ?thesis
        by (cases result) (auto simp: item_parsed_def handle_one_def item Let_def from_blockbuster_def)
    qed
  qed
qed

lemma handler_errors:
  assumes "handler_of V ix result = Some h" "h w = (Inl e, w')"
  shows "e \<noteq> NotImplemented"
  using assms
proof (cases "(V, ix, result)" rule: handler_of.cases)
  case 1
  with assms show ?thesis using handle_errors by fastforce
qed (auto simp: handle_token_program_close_ix_def bind_m_def ignore_error_def split: prod.splits sum.splits option.splits)

lemma handle_all_work:
  assumes "\<forall>item\<in>set items. match_program (e_ids V) (fst (fst item)) \<noteq> None"
  shows "(handle_all V tx items n w = (Inr k, w') \<longleftrightarrow>
      (\<forall>item\<in>set items. item_parsed V tx item \<noteq> None) \<and> run_in_order (items_work V tx items) w = (Inr (), w') \<and>
      k + length (items_work V tx items) = n + length items) \<and>
    fst (handle_all V tx items n w) \<noteq> Inl NotImplemented"
  using assms
proof (induction items arbitrary: n w)
  case Nil
  then show ?case by (auto simp: return_m_def items_work_def)
next
  case (Cons item items)
  let ?ix = "bundle_of (e_ext V) tx (fst item) (snd item)"
  note one = handle_one_parsed [of V item tx]
  note IH = Cons.IH
  show ?case
  proof (cases "item_parsed V tx item")
    case None
    with one Cons.prems show ?thesis by (auto simp: bind_m_def raise_m_def)
  next
    case (Some result)
    show ?thesis
    proof (cases "handler_of V ?ix result")
      case None
      with one Cons.prems Some have "handle_one V tx item = return_m True" by simp
      with IH [of "Suc n" w] Cons.prems None Some show ?thesis
        by (simp add: bind_m_def return_m_def items_work_def List.map_filter_simps)
    next
      case (Some h)
      with one Cons.prems \<open>item_parsed V tx item = Some result\<close>
      have h: "handle_one V tx item = bind_m h (\<lambda>_. return_m False)" by simp
      have work: "items_work V tx (item # items) = h # items_work V tx items"
        using Some \<open>item_parsed V tx item = Some result\<close> by (simp add: items_work_def List.map_filter_simps)
      obtain r w1 where run: "h w = (r, w1)" by fastforce
      show ?thesis
      proof (cases r)
        case (Inl e)
        with handler_errors [OF Some, of w e w1] run h work show ?thesis by (simp add: bind_m_def)
      next
        case (Inr x)
        with IH [of n w1] Cons.prems run h work \<open>item_parsed V tx item = Some result\<close> show ?thesis
          by (simp add: bind_m_def return_m_def)
      qed
    qed
  qed
qed

lemma work_length: "\<forall>item\<in>set items. item_parsed V tx item \<noteq> None \<Longrightarrow> length (items_work V tx items) \<le> length items"
  by (induction items) (auto simp: items_work_def List.map_filter_simps split: option.splits)

lemma broken_known:
  assumes "break_transaction ids tx = Some items"
  shows "\<forall>item\<in>set items. match_program ids (fst (fst item)) \<noteq> None"
proof
  fix item assume "item \<in> set items"
  then have "fst item \<in> set (map fst items)" by simp
  also have "map fst items = filter (\<lambda>p. fst p \<in> key_set ids)
      (flat_instructions (ti_account_keys tx) (ti_message_instructions tx) (ti_meta_inner_instructions tx))"
    using assms order_from_reference [where P = "key_set ids" and keys = "ti_account_keys tx" and n = 0
        and ms = "ti_message_instructions tx" and metas = "ti_meta_inner_instructions tx"]
    by (simp add: break_transaction_def order_instructions_def flat_instructions_def)
  finally show "match_program ids (fst (fst item)) \<noteq> None"
    by (auto simp: match_program_def key_set_def map_of_eq_None_iff)
qed

text \<open>
  C31: What a transaction comes to. \<open>handle_transaction\<close> returns \<open>Ok\<close> exactly if every instruction of a known program can be
  read (its accounts are there and its parser accepts it), at least one of them has a handler (Bubblegum, or the
  closing of a token account), and these handlers, run in order, succeed; what it leaves is what they leave. It
  returns \<open>NotImplemented\<close> exactly if all can be read and none has a handler, and has then changed nothing.
\<close>

theorem transaction_outcome:
  assumes "break_transaction (e_ids V) tx = Some items" "handle_transaction V tx = Some h"
  shows "(h w = (Inr (), w') \<longleftrightarrow>
      (\<forall>item\<in>set items. item_parsed V tx item \<noteq> None) \<and> items_work V tx items \<noteq> [] \<and>
      run_in_order (items_work V tx items) w = (Inr (), w')) \<and>
    (h w = (Inl NotImplemented, w') \<longleftrightarrow>
      (\<forall>item\<in>set items. item_parsed V tx item \<noteq> None) \<and> items_work V tx items = [] \<and> w' = w)"
proof -
  have h: "h = bind_m (handle_all V tx items 0)
      (\<lambda>k. if k = length items then raise_m NotImplemented else return_m ())"
    using assms by (simp add: handle_transaction_def)
  note all = handle_all_work [OF broken_known [OF assms(1)], of tx 0 w]
  obtain r w1 where run: "handle_all V tx items 0 w = (r, w1)" by fastforce
  show ?thesis
  proof (cases r)
    case (Inl e)
    have "\<nexists>k w'. handle_all V tx items 0 w = (Inr k, w')" using run Inl by simp
    then have bad: "\<not> ((\<forall>item\<in>set items. item_parsed V tx item \<noteq> None) \<and> run_in_order (items_work V tx items) w = (Inr (), w''))" for w''
      using all [of "length items - length (items_work V tx items)" w''] work_length [of items V tx] by auto
    have "e \<noteq> NotImplemented" using all run Inl by auto
    then show ?thesis using run Inl bad [of w'] bad [of w]
      by (auto simp: h bind_m_def return_m_def)
  next
    case (Inr k)
    with run all [of k w1] have k: "(\<forall>item\<in>set items. item_parsed V tx item \<noteq> None)"
      "run_in_order (items_work V tx items) w = (Inr (), w1)" "k + length (items_work V tx items) = length items" by auto
    then have "k = length items \<longleftrightarrow> items_work V tx items = []" by auto
    with k run Inr show ?thesis by (auto simp: h bind_m_def raise_m_def return_m_def)
  qed
qed

theorem transaction_outcome_witness:
  "\<exists>items h w'. break_transaction (e_ids env0) close_tx0 = Some items \<and> handle_transaction env0 close_tx0 = Some h \<and>
    h world0 = (Inr (), w') \<and> run_in_order (items_work env0 close_tx0 items) world0 = (Inr (), w') \<and> items_work env0 close_tx0 items \<noteq> []"
proof -
  let ?h = "the (handle_transaction env0 close_tx0)"
  have h: "handle_transaction env0 close_tx0 = Some ?h"
    by (simp add: handle_transaction_def break_transaction_def order_instructions_def close_tx0_def env0_def
        key_set_def parsers_def inner_for_def hoist_known_programs_def Let_def)
  then obtain items where items: "break_transaction (e_ids env0) close_tx0 = Some items"
    by (auto simp: handle_transaction_def split: option.splits)
  have "(case handle_transaction env0 close_tx0 of None \<Rightarrow> Inl NotImplemented | Some k \<Rightarrow> fst (k world0)) = Inr ()"
    by code_simp
  then have run: "?h world0 = (Inr (), snd (?h world0))" using h by (simp split: option.splits add: prod_eq_iff)
  from transaction_outcome [OF items h, of world0 "snd (?h world0)"] run items h show ?thesis by blast
qed

end
