(* ===== verification/Asset_Scopes.thy ===== *)
theory Asset_Scopes
  imports Merkle_Proof "HOL-Library.List_Lexorder" "HOL-Library.Product_Lexorder" "HOL-Library.Option_ord"
begin

text \<open>
  The queries of the read API: \<open>digital_asset_types/src/dao/scopes/asset.rs\<close> with the types of
  \<open>dao/mod.rs\<close> and \<open>dao/full_asset.rs\<close>. A query reads one state of the tables; where the source
  gives no \<open>ORDER BY\<close> the rows come in the order of the table, which stands for any order. Byte
  strings compare lexicographically, a missing value sorts after every other (PostgreSQL's
  \<open>NULLS LAST\<close>), and descending order is the reverse.
\<close>

section \<open>Paging\<close>

datatype sort_order = Asc | Desc

datatype asset_column = Col_Id | Col_CreatedAt | Col_SlotUpdated

record cursor =
  cu_id :: "bytes option"

definition cursor_default :: cursor where
  "cursor_default = \<lparr>cu_id = None\<rparr>"

datatype pagination =
    Keyset "bytes option" "bytes option"
  | Page u64
  | Cursor cursor

record page_options =
  po_limit :: u64
  po_page :: "u64 option"
  po_before :: "bytes option"
  po_after :: "bytes option"
  po_cursor :: "cursor option"

record options =
  show_unverified_collections :: bool
  show_collection_metadata :: bool
  show_zero_balance :: bool
  show_inscription :: bool
  show_fungible :: bool
  show_native_balance :: bool

text \<open>\<open>(page - 1) * limit\<close> is 64-bit arithmetic.\<close>

definition paginate :: "pagination \<Rightarrow> u64 \<Rightarrow> sort_order \<Rightarrow> ('r \<Rightarrow> bytes) \<Rightarrow> 'r list \<Rightarrow> 'r list" where
  "paginate pagination limit sort_direction column rows =
     take (unat limit)
      (case pagination of
         Keyset before after \<Rightarrow>
           filter (\<lambda>r. (case before of Some b \<Rightarrow> column r < b | None \<Rightarrow> True) \<and>
                       (case after of Some a \<Rightarrow> column r > a | None \<Rightarrow> True)) rows
       | Page page \<Rightarrow> (if page > 0 then drop (unat ((page - 1) * limit)) rows else rows)
       | Cursor cursor \<Rightarrow>
           (case cu_id cursor of
              None \<Rightarrow> rows
            | Some i \<Rightarrow> filter (\<lambda>r. if sort_direction = Asc then column r > i else column r < i) rows))"

definition sort_col :: "asset_column \<Rightarrow> asset \<Rightarrow> bool \<times> int" where
  "sort_col c a =
    (case c of
       Col_Id \<Rightarrow> (False, 0)
     | Col_CreatedAt \<Rightarrow> (case a_created_at a of Some t \<Rightarrow> (False, t) | None \<Rightarrow> (True, 0))
     | Col_SlotUpdated \<Rightarrow> (case a_slot_updated a of Some t \<Rightarrow> (False, t) | None \<Rightarrow> (True, 0)))"

definition order_rows :: "asset_column option \<Rightarrow> sort_order \<Rightarrow> asset list \<Rightarrow> asset list" where
  "order_rows sort_by sort_direction rows =
    (case sort_by of
       None \<Rightarrow> rows
     | Some c \<Rightarrow>
         (let sorted_rows = sort_key (\<lambda>a. (sort_col c a, a_id a)) rows
          in if sort_direction = Asc then sorted_rows else rev sorted_rows))"

section \<open>Joins and conditions\<close>

definition left_join :: "('r \<Rightarrow> bytes) \<Rightarrow> 'r list \<Rightarrow> asset \<Rightarrow> 'r option list" where
  "left_join k rows a =
    (let rs = filter (\<lambda>r. k r = a_id a) rows in if rs = [] then [None] else map Some rs)"

definition col_eq :: "('r \<Rightarrow> 'v) \<Rightarrow> 'v \<Rightarrow> 'r option \<Rightarrow> cond" where
  "col_eq col v r = sql_cmp (=) (map_option col r) (Some v)"

text \<open>A row of the join is the asset again, once for every related row that meets the condition.\<close>

definition joined :: "(asset \<Rightarrow> 'r option \<Rightarrow> cond) \<Rightarrow> ('r \<Rightarrow> bytes) \<Rightarrow> 'r list \<Rightarrow> asset list \<Rightarrow> asset list" where
  "joined condition k rows assets =
     concat (map (\<lambda>a. map (\<lambda>_. a) (filter (\<lambda>r. holds (condition a r)) (left_join k rows a))) assets)"

section \<open>Stale rows\<close>

definition max_opt :: "'a::linorder list \<Rightarrow> 'a option" where
  "max_opt xs = (case xs of [] \<Rightarrow> None | y # ys \<Rightarrow> Some (fold max ys y))"

definition retain_max :: "('r \<Rightarrow> 'a::linorder) \<Rightarrow> 'r list \<Rightarrow> 'r list" where
  "retain_max f rs =
    (case max_opt (map f rs) of Some m \<Rightarrow> filter (\<lambda>r. f r = m) rs | None \<Rightarrow> rs)"

definition filter_out_stale_creators :: "asset_creators list \<Rightarrow> asset_creators list" where
  "filter_out_stale_creators creators =
    (if creators \<noteq> [] \<and> cr_creator (hd creators) = [] then []
     else
       (let newest = retain_max cr_slot_updated creators
        in if \<exists>c\<in>set newest. cr_seq c = Some 0 then filter (\<lambda>c. cr_seq c = Some 0) newest
           else retain_max cr_seq newest))"

type_synonym group_with_data = "asset_grouping \<times> asset_data option"

definition filter_out_stale_asset_groupings :: "group_with_data list \<Rightarrow> group_with_data list" where
  "filter_out_stale_asset_groupings groups =
    (case max_opt (map (\<lambda>ag. gr_slot_updated (fst ag)) (filter (\<lambda>ag. gr_group_key (fst ag) = ''group'') groups)) of
       Some m \<Rightarrow> filter (\<lambda>ag. gr_group_key (fst ag) \<noteq> ''group'' \<or>
                    gr_slot_updated (fst ag) = m \<and> gr_group_value (fst ag) \<noteq> None) groups
     | None \<Rightarrow> groups)"

section \<open>Full assets\<close>

record full_asset =
  fa_asset :: asset
  fa_data :: asset_data
  fa_token_info :: "tokens option"
  fa_authorities :: "asset_authority list"
  fa_creators :: "asset_creators list"
  fa_inscription :: "attachments option"
  fa_groups :: "group_with_data list"

type_synonym assets_map = "(bytes \<times> full_asset) list"

text \<open>An \<open>IndexMap\<close> is an association list in insertion order; \<open>get_mut\<close> changes the entry there is.\<close>

definition insert_full :: "(bytes \<times> asset_data) list \<Rightarrow> asset \<Rightarrow> assets_map \<Rightarrow> assets_map" where
  "insert_full asset_data_map a acc =
    (case Option.bind (a_asset_data a) (map_of asset_data_map) of
       Some ad \<Rightarrow> AList.update (a_id a)
         \<lparr>fa_asset = a, fa_data = ad, fa_token_info = None, fa_authorities = [], fa_creators = [],
          fa_inscription = None, fa_groups = []\<rparr> acc
     | None \<Rightarrow> acc)"

definition attach :: "('x \<Rightarrow> bytes) \<Rightarrow> ('x \<Rightarrow> full_asset \<Rightarrow> full_asset) \<Rightarrow> 'x list \<Rightarrow> assets_map \<Rightarrow> assets_map" where
  "attach k f xs m = fold (\<lambda>x. AList.map_entry (k x) (f x)) xs m"

definition find_tokens :: "db \<Rightarrow> bytes list \<Rightarrow> tokens list" where
  "find_tokens d ids = filter (\<lambda>t. tk_mint t \<in> set ids) (tokens_t d)"

text \<open>
  The grouping query: collection rows only with a value, unverified rows only on demand. The
  column \<open>verified\<close> has no NULL in the model's rows. \<open>find_also_related(asset_data)\<close> follows the
  relation of \<open>dao/extensions/asset_grouping.rs\<close>, from the row's \<open>asset_id\<close>.
\<close>

definition grouping_shown :: "bool \<Rightarrow> asset_grouping \<Rightarrow> bool" where
  "grouping_shown unverified_too g =
    ((gr_group_key g = ''collection'' \<and> gr_group_value g \<noteq> None \<or> gr_group_key g \<noteq> ''collection'') \<and>
     (unverified_too \<or> gr_verified g))"

definition related_data :: "db \<Rightarrow> bool \<Rightarrow> asset_grouping \<Rightarrow> asset_data option" where
  "related_data d with_data g = (if with_data then lookup ad_id (gr_asset_id g) (asset_data_t d) else None)"

definition grouping_query :: "db \<Rightarrow> (bytes \<Rightarrow> bool) \<Rightarrow> bool \<Rightarrow> bool \<Rightarrow> group_with_data list" where
  "grouping_query d wanted unverified_too with_data =
     map (\<lambda>g. (g, related_data d with_data g))
       (sort_key gr_asset_id
         (filter (\<lambda>g. wanted (gr_asset_id g) \<and> grouping_shown unverified_too g) (asset_grouping_t d)))"

definition get_related_for_assets :: "db \<Rightarrow> asset list \<Rightarrow> options \<Rightarrow> bytes option \<Rightarrow> full_asset list" where
  "get_related_for_assets d assets opts required_creator =
    (let asset_ids = map a_id assets;
         asset_data_map = collect_map ad_id (\<lambda>ad. ad) (filter (\<lambda>ad. ad_id ad \<in> set asset_ids) (asset_data_t d));
         m0 = fold (insert_full asset_data_map) assets [];
         creators = sort_key (\<lambda>c. (cr_asset_id c, cr_position c))
           (filter (\<lambda>c. cr_asset_id c \<in> set (map fst m0)) (asset_creators_t d));
         m1 = attach cr_asset_id (\<lambda>c fa. fa\<lparr>fa_creators := fa_creators fa @ [c]\<rparr>) creators m0;
         m2 = map (\<lambda>(i, fa). (i, fa\<lparr>fa_creators := filter_out_stale_creators (fa_creators fa)\<rparr>)) m1;
         m3 = (case required_creator of
                 None \<Rightarrow> m2
               | Some required \<Rightarrow>
                   filter (\<lambda>(i, fa). \<exists>c\<in>set (fa_creators fa). cr_creator c = required) m2);
         ids = map fst m3;
         authorities = sort_key au_asset_id (filter (\<lambda>a. au_asset_id a \<in> set ids) (asset_authority_t d));
         m4 = attach au_asset_id (\<lambda>a fa. fa\<lparr>fa_authorities := fa_authorities fa @ [a]\<rparr>) authorities m3;
         m5 = (if show_fungible opts
               then attach tk_mint (\<lambda>t fa. fa\<lparr>fa_token_info := Some t\<rparr>) (find_tokens d ids) m4 else m4);
         m6 = (if show_inscription opts
               then attach at_id (\<lambda>a fa. fa\<lparr>fa_inscription := Some a\<rparr>)
                      (filter (\<lambda>a. \<exists>i\<in>set asset_ids. at_asset_id a = Some i) (attachments_t d)) m5
               else m5);
         m7 = attach (\<lambda>ga. gr_asset_id (fst ga)) (\<lambda>ga fa. fa\<lparr>fa_groups := fa_groups fa @ [ga]\<rparr>)
                (grouping_query d (\<lambda>i. i \<in> set ids) (show_unverified_collections opts)
                   (show_collection_metadata opts)) m6
     in map (\<lambda>(i, fa). fa\<lparr>fa_groups := filter_out_stale_asset_groupings (fa_groups fa)\<rparr>) m7)"

section \<open>Lists of assets\<close>

definition get_by_related_condition :: "db \<Rightarrow> (asset \<Rightarrow> 'r option \<Rightarrow> cond) \<Rightarrow> ('r \<Rightarrow> bytes) \<Rightarrow> 'r list \<Rightarrow>
    asset_column option \<Rightarrow> sort_order \<Rightarrow> pagination \<Rightarrow> u64 \<Rightarrow> options \<Rightarrow> bytes option \<Rightarrow> full_asset list" where
  "get_by_related_condition d condition k rows sort_by sort_direction pagination limit opts required_creator =
     get_related_for_assets d
       (paginate pagination limit sort_direction a_id
          (order_rows sort_by sort_direction (joined condition k rows (asset_t d)))) opts required_creator"

definition get_by_creator :: "db \<Rightarrow> bytes \<Rightarrow> bool \<Rightarrow> asset_column option \<Rightarrow> sort_order \<Rightarrow> pagination \<Rightarrow> u64 \<Rightarrow>
    options \<Rightarrow> full_asset list" where
  "get_by_creator d creator only_verified sort_by sort_direction pagination limit opts =
     get_by_related_condition d
       (\<lambda>a r. sql_and (col_eq cr_creator creator r)
          (sql_and (Some (a_supply a > 0)) (if only_verified then col_eq cr_verified True r else Some True)))
       cr_asset_id (asset_creators_t d) sort_by sort_direction pagination limit opts (Some creator)"

definition max_group_slot :: "db \<Rightarrow> bytes \<Rightarrow> string \<Rightarrow> i64 option" where
  "max_group_slot d asset_id key =
     max_opt (List.map_filter gr_slot_updated
       (filter (\<lambda>g. gr_asset_id g = asset_id \<and> gr_group_key g = key) (asset_grouping_t d)))"

definition get_grouping :: "db \<Rightarrow> string \<Rightarrow> string \<Rightarrow> u64" where
  "get_grouping d key value =
     of_nat (length (filter (\<lambda>g. gr_group_key g = key \<and> gr_group_value g = Some value \<and> gr_verified g \<and>
       sql_eq (gr_slot_updated g) (max_group_slot d (gr_asset_id g) key)) (asset_grouping_t d)))"

definition in_group :: "string \<Rightarrow> string \<Rightarrow> full_asset \<Rightarrow> bool" where
  "in_group key value fa =
     (\<exists>ga\<in>set (fa_groups fa). gr_group_key (fst ga) = key \<and> gr_group_value (fst ga) = Some value)"

definition get_by_grouping :: "db \<Rightarrow> string \<Rightarrow> string \<Rightarrow> asset_column option \<Rightarrow> sort_order \<Rightarrow> pagination \<Rightarrow> u64 \<Rightarrow>
    options \<Rightarrow> full_asset list" where
  "get_by_grouping d key value sort_by sort_direction pagination limit opts =
     filter (in_group key value)
       (get_by_related_condition d
         (\<lambda>a r. sql_and
            (sql_and (sql_and (col_eq gr_group_key key r)
                       (sql_cmp (=) (Option.bind r gr_group_value) (Some value)))
               (if show_unverified_collections opts then Some True
                else sql_or (col_eq gr_verified True r) (is_null (map_option gr_verified r))))
            (Some (a_supply a > 0)))
         gr_asset_id (asset_grouping_t d) sort_by sort_direction pagination limit opts None)"

definition get_by_authority :: "db \<Rightarrow> bytes \<Rightarrow> asset_column option \<Rightarrow> sort_order \<Rightarrow> pagination \<Rightarrow> u64 \<Rightarrow>
    options \<Rightarrow> full_asset list" where
  "get_by_authority d authority sort_by sort_direction pagination limit opts =
     get_by_related_condition d
       (\<lambda>a r. sql_and (col_eq au_authority authority r) (Some (a_supply a > 0)))
       au_asset_id (asset_authority_t d) sort_by sort_direction pagination limit opts None"

text \<open>
  \<open>get_assets_by_condition\<close> takes the rows its joins give: with no join, the assets that meet the
  condition.
\<close>

definition get_assets_by_condition :: "db \<Rightarrow> asset list \<Rightarrow> asset_column option \<Rightarrow> sort_order \<Rightarrow> pagination \<Rightarrow>
    u64 \<Rightarrow> options \<Rightarrow> full_asset list" where
  "get_assets_by_condition d rows sort_by sort_direction pagination limit opts =
     get_related_for_assets d
       (paginate pagination limit sort_direction a_id (order_rows sort_by sort_direction rows)) opts None"

definition get_assets_by_owner :: "db \<Rightarrow> bytes \<Rightarrow> asset_column option \<Rightarrow> sort_order \<Rightarrow> pagination \<Rightarrow> u64 \<Rightarrow>
    options \<Rightarrow> full_asset list" where
  "get_assets_by_owner d owner sort_by sort_direction pagination limit opts =
     get_assets_by_condition d
       (filter (\<lambda>a. sql_eq (a_owner a) (Some owner) \<and> a_supply a > 0) (asset_t d))
       sort_by sort_direction pagination limit opts"

definition get_assets :: "db \<Rightarrow> bytes list \<Rightarrow> pagination \<Rightarrow> u64 \<Rightarrow> options \<Rightarrow> full_asset list" where
  "get_assets d asset_ids pagination limit opts =
     get_assets_by_condition d (filter (\<lambda>a. a_id a \<in> set asset_ids \<and> a_supply a > 0) (asset_t d))
       None Asc pagination limit opts"

section \<open>One asset\<close>

text \<open>
  Parameters: PostgreSQL's \<open>->>\<close> on a JSON value, serde's deserialisation of editions, the
  address of a mint's master edition, and the message with which the database refuses to
  compare a number with a byte string.
\<close>

record reader =
  json_text :: "json \<Rightarrow> string option"
  edition_number :: "json \<Rightarrow> string + u64"
  master_edition_supply :: "json \<Rightarrow> string + u64 \<times> u64 option"
  find_master_edition :: "pubkey \<Rightarrow> pubkey"
  type_error :: string

definition json_field :: "reader \<Rightarrow> string \<Rightarrow> json \<Rightarrow> string option" where
  "json_field R k j = (case j of JObj kvs \<Rightarrow> Option.bind (map_of kvs k) (json_text R) | _ \<Rightarrow> None)"

definition data_field_is :: "reader \<Rightarrow> string \<Rightarrow> string \<Rightarrow> attachments \<Rightarrow> bool" where
  "data_field_is R k v a = (\<exists>j. at_data a = Some j \<and> json_field R k j = Some v)"

lemma data_field_is_code [code]:
  "data_field_is R k v a = (case at_data a of Some j \<Rightarrow> json_field R k j = Some v | None \<Rightarrow> False)"
  by (simp add: data_field_is_def split: option.splits)

definition get_inscription_by_mint :: "ext \<Rightarrow> reader \<Rightarrow> db \<Rightarrow> bytes \<Rightarrow> attachments dapi_result" where
  "get_inscription_by_mint E R d mint_id =
    (case find (data_field_is R ''root'' (bs58_encode E mint_id)) (attachments_t d) of
       Some t \<Rightarrow> Inr t
     | None \<Rightarrow> Inl (RecordNotFound ''Inscription Not Found''))"

definition get_by_id :: "ext \<Rightarrow> reader \<Rightarrow> db \<Rightarrow> bytes \<Rightarrow> options \<Rightarrow> full_asset dapi_result" where
  "get_by_id E R d asset_id opts =
    (let inscription = (if show_inscription opts
            then (case get_inscription_by_mint E R d asset_id of Inr t \<Rightarrow> Some t | Inl _ \<Rightarrow> None) else None);
         token_info = (if show_fungible opts
            then (case find_tokens d [asset_id] of t # _ \<Rightarrow> Some t | [] \<Rightarrow> None) else None)
     in case asset_row asset_id d of
          None \<Rightarrow> Inl (RecordNotFound ''Asset Not Found'')
        | Some a \<Rightarrow>
           (case Option.bind (a_asset_data a) (\<lambda>i. asset_data_row i d) of
              None \<Rightarrow> Inl (RecordNotFound ''Asset Not Found'')
            | Some data \<Rightarrow>
                if a_supply a = 0 then Inl (DbCustom ''Asset has no supply'')
                else Inr
                  \<lparr>fa_asset = a, fa_data = data, fa_token_info = token_info,
                   fa_authorities = filter (\<lambda>r. au_asset_id r = a_id a) (asset_authority_t d),
                   fa_creators = filter_out_stale_creators (sort_key cr_position
                     (filter (\<lambda>c. cr_asset_id c = a_id a) (asset_creators_t d))),
                   fa_inscription = inscription,
                   fa_groups = filter_out_stale_asset_groupings
                     (grouping_query d (\<lambda>i. i = a_id a) False (show_collection_metadata opts))\<rparr>))"

section \<open>Signatures, token accounts, editions\<close>

text \<open>
  \<open>paginate\<close> binds the bounds as byte strings, but here the column is the number \<open>seq\<close>: a bound
  makes the database refuse the statement.
\<close>

definition bounded :: "pagination \<Rightarrow> bool" where
  "bounded pagination =
    (case pagination of
       Keyset before after \<Rightarrow> before \<noteq> None \<or> after \<noteq> None
     | Page _ \<Rightarrow> False
     | Cursor cursor \<Rightarrow> cursor \<noteq> cursor_default)"

definition fetch_transactions :: "ext \<Rightarrow> reader \<Rightarrow> db \<Rightarrow> bytes \<Rightarrow> i64 \<Rightarrow> pagination \<Rightarrow> u64 \<Rightarrow> sort_order option \<Rightarrow>
    (string \<times> string) list dapi_result" where
  "fetch_transactions E R d tree leaf_idx pagination limit sort_direction =
    (let sort_order = (case sort_direction of Some s \<Rightarrow> s | None \<Rightarrow> Desc);
         by_seq = sort_key ca_seq (filter (\<lambda>c. ca_tree c = tree \<and> ca_leaf_idx c = leaf_idx) (cl_audits_t d));
         rows = (if sort_order = Asc then by_seq else rev by_seq)
     in if bounded pagination then Inl (DbCustom (type_error R))
        else Inr (map (\<lambda>t. (bs58_encode E (ca_tx t), to_pascal_case (ca_instruction t)))
                   (paginate pagination limit sort_order ca_tx rows)))"

definition get_asset_signatures :: "ext \<Rightarrow> reader \<Rightarrow> db \<Rightarrow> bytes option \<Rightarrow> bytes option \<Rightarrow> i64 option \<Rightarrow>
    pagination \<Rightarrow> u64 \<Rightarrow> sort_order option \<Rightarrow> (string \<times> string) list dapi_result" where
  "get_asset_signatures E R d asset_id tree_id leaf_idx pagination limit sort_direction =
    (case (tree_id, leaf_idx) of
       (Some tree, Some leaf) \<Rightarrow> fetch_transactions E R d tree leaf pagination limit sort_direction
     | _ \<Rightarrow>
        (case asset_id of
           None \<Rightarrow> Inl (DbCustom ''Either 'id' or both 'tree' and 'leafIndex' must be provided'')
         | Some i \<Rightarrow>
            (case asset_row i d of
               None \<Rightarrow> Inr []
             | Some a \<Rightarrow>
                (case a_tree_id a of
                   None \<Rightarrow> Inl (RecordNotFound ''Tree not found'')
                 | Some tree \<Rightarrow>
                     if tree = [] then Inl (DbCustom ''Empty tree for asset'')
                     else
                      (case a_nonce a of
                         None \<Rightarrow> Inl (RecordNotFound ''Leaf ID does not exist'')
                       | Some leaf \<Rightarrow>
                           fetch_transactions E R d tree leaf pagination limit sort_direction)))))"

definition get_token_accounts :: "db \<Rightarrow> bytes option \<Rightarrow> bytes option \<Rightarrow> pagination \<Rightarrow> u64 \<Rightarrow> options \<Rightarrow>
    token_accounts list dapi_result" where
  "get_token_accounts d owner_address mint_address pagination limit opts =
    (if owner_address = None \<and> mint_address = None
     then Inl (DbCustom ''Either 'ownerAddress' or 'mintAddress' must be provided'')
     else Inr (paginate pagination limit Asc ta_pubkey
       (filter (\<lambda>t. (if show_zero_balance opts then ta_amount t \<ge> 0 else ta_amount t > 0) \<and>
          (case owner_address of Some owner \<Rightarrow> ta_owner t = owner | None \<Rightarrow> True) \<and>
          (case mint_address of Some mint_id \<Rightarrow> ta_mint t = mint_id | None \<Rightarrow> True)) (token_accounts_t d))))"

record nft_edition =
  ne_mint_address :: string
  ne_edition_number :: u64
  ne_edition_address :: string

record nft_editions =
  es_total :: u32
  es_limit :: u32
  es_master_edition_address :: string
  es_supply :: u64
  es_max_supply :: "u64 option"
  es_editions :: "nft_edition list"
  es_page :: "u32 option"
  es_before :: "string option"
  es_after :: "string option"
  es_cursor :: "string option"

definition attachment_to_nft_edition :: "ext \<Rightarrow> reader \<Rightarrow> attachments \<Rightarrow> nft_edition dapi_result" where
  "attachment_to_nft_edition E R a =
    (case at_data a of
       None \<Rightarrow> Inl (RecordNotFound ''Edition data not found'')
     | Some j \<Rightarrow>
        (case edition_number R j of
           Inl e \<Rightarrow> Inl (DbCustom e)
         | Inr n \<Rightarrow> Inr
             \<lparr>ne_mint_address = (case at_asset_id a of Some i \<Rightarrow> bs58_encode E i | None \<Rightarrow> []),
              ne_edition_number = n, ne_edition_address = bs58_encode E (at_id a)\<rparr>))"

fun collect_results :: "('e + 'a) list \<Rightarrow> 'e + 'a list" where
  "collect_results [] = Inr []"
| "collect_results (Inl e # _) = Inl e"
| "collect_results (Inr x # rs) = map_sum id ((#) x) (collect_results rs)"

definition edition_rows :: "ext \<Rightarrow> reader \<Rightarrow> db \<Rightarrow> pubkey \<Rightarrow> attachments list" where
  "edition_rows E R d master_edition_pubkey =
     filter (\<lambda>a. at_attachment_type a = VA_Edition \<and>
                 data_field_is R ''parent'' (bs58_encode E master_edition_pubkey) a) (attachments_t d)"

text \<open>\<open>String::from_utf8\<close> on the bounds of a keyset page: \<open>utf8\<close>.\<close>

definition get_nft_editions :: "ext \<Rightarrow> reader \<Rightarrow> (bytes \<Rightarrow> string option) \<Rightarrow> db \<Rightarrow> pubkey \<Rightarrow> pagination \<Rightarrow> u64 \<Rightarrow>
    nft_editions dapi_result" where
  "get_nft_editions E R utf8 d mint_address pagination limit =
    (let master = find_master_edition R mint_address in
     case lookup at_id master (attachments_t d) of
       None \<Rightarrow> Inl (RecordNotFound ''Master Edition not found'')
     | Some master_edition \<Rightarrow>
        (case at_data master_edition of
           None \<Rightarrow> Inl (RecordNotFound ''Master Edition data not found'')
         | Some j \<Rightarrow>
            (case master_edition_supply R j of
               Inl e \<Rightarrow> Inl (DbCustom e)
             | Inr (supply, max_supply) \<Rightarrow>
                (case collect_results (map (attachment_to_nft_edition E R)
                        (paginate pagination limit Asc at_id (edition_rows E R d master))) of
                   Inl e \<Rightarrow> Inl e
                 | Inr editions \<Rightarrow> Inr
                     \<lparr>es_total = of_nat (length editions), es_limit = ucast limit,
                      es_master_edition_address = bs58_encode E master, es_supply = supply,
                      es_max_supply = max_supply, es_editions = editions,
                      es_page = (case pagination of Page page \<Rightarrow> Some (ucast page) | _ \<Rightarrow> None),
                      es_before = (case pagination of Keyset before _ \<Rightarrow> Option.bind before utf8 | _ \<Rightarrow> None),
                      es_after = (case pagination of Keyset _ after \<Rightarrow> Option.bind after utf8 | _ \<Rightarrow> None),
                      es_cursor = (case pagination of
                         Cursor _ \<Rightarrow> (if editions = [] then None else Some (ne_edition_address (last editions)))
                       | _ \<Rightarrow> None)\<rparr>))))"

end
