(* ===== verification/Versioned_Rows.thy ===== *)
theory Versioned_Rows
  imports Das_Prelude
begin

text \<open>
  An interface between a writer that upserts several rows per update and a reader that keeps the
  newest of them. Where \<open>lww\<close> follows one row, \<open>versioned_rows\<close> follows the part of a table with the
  keys of one owner: every row there was upserted, and for no key is an older one kept.
\<close>

definition newest :: "('r \<Rightarrow> 'k) \<Rightarrow> ('r \<Rightarrow> 'v::linorder) \<Rightarrow> 'r set \<Rightarrow> 'r list \<Rightarrow> bool" where
  "newest key ver R u =
    (table_ok key u \<and> set u \<subseteq> R \<and> (\<forall>r\<in>R. \<exists>r'\<in>set u. key r' = key r \<and> ver r \<le> ver r'))"

lemma newest_mem:
  assumes "newest key ver R u" "m \<in> R" "\<And>r. r \<in> R \<Longrightarrow> key r = key m \<Longrightarrow> ver m \<le> ver r \<Longrightarrow> r = m"
  shows "m \<in> set u"
proof -
  obtain r where "r \<in> set u" "key r = key m" "ver m \<le> ver r"
    using assms(1,2) by (auto simp: newest_def)
  then show ?thesis using assms by (auto simp: newest_def)
qed

lemma newest_empty: "newest key ver {} u \<longleftrightarrow> u = []"
  by (auto simp: newest_def table_ok_def)

text \<open>Tables: which rows an upsert leaves, which it leaves of one owner, and other keys for it.\<close>

lemma set_upsert:
  assumes "table_ok key t"
  shows "set (upsert key new upd t) =
    (case lookup key (key new) t of None \<Rightarrow> insert new (set t)
     | Some r \<Rightarrow> insert (upd r) (set t - {r}))"
  using assms
proof (induction t)
  case (Cons x t)
  then show ?case
    by (auto simp: table_ok_def split: option.splits dest: lookup_key lookup_mem)
qed simp

lemma filter_upsert:
  assumes "\<And>r. key (upd r) = key r"
  shows "filter (\<lambda>r. sel (key r)) (upsert key new upd t) =
    (if sel (key new) then upsert key new upd (filter (\<lambda>r. sel (key r)) t)
     else filter (\<lambda>r. sel (key r)) t)"
  using assms by (induction t) auto

lemma upsert_other_key:
  assumes "\<And>r. r \<in> set t \<Longrightarrow> key r = key new \<longleftrightarrow> key' r = key' new"
  shows "upsert key new upd t = upsert key' new upd t"
  using assms by (induction t) auto

locale versioned_rows =
  fixes key :: "'r \<Rightarrow> 'k" and ver :: "'r \<Rightarrow> 'v::linorder"
    and put :: "'r \<Rightarrow> 'r \<Rightarrow> 'r" and good :: "'r \<Rightarrow> bool"
  assumes put_key: "key (put new r) = key r"
    and put_newer: "good new \<Longrightarrow> good r \<Longrightarrow> key r = key new \<Longrightarrow>
      put new r = (if ver r \<le> ver new then new else r)"
begin

lemma newest_upsert:
  assumes "newest key ver R u" "good new" "\<forall>r\<in>R. good r"
  shows "newest key ver (insert new R) (upsert key new (put new) u)"
proof (cases "lookup key (key new) u")
  case None
  then have "set (upsert key new (put new) u) = insert new (set u)"
    using assms(1) by (simp add: newest_def set_upsert)
  then show ?thesis
    using assms(1) table_ok_upsert [of key "put new", OF put_key] by (auto simp: newest_def)
next
  case (Some r)
  then have r: "r \<in> set u" "key r = key new" by (auto dest: lookup_mem lookup_key)
  then have "good r" using assms(1,3) by (auto simp: newest_def)
  with r(2) have put: "put new r = (if ver r \<le> ver new then new else r)" by (intro put_newer assms(2))
  have rows: "set (upsert key new (put new) u) = insert (if ver r \<le> ver new then new else r) (set u - {r})"
    using assms(1) Some by (simp add: newest_def set_upsert put)
  have "\<exists>r'\<in>set (upsert key new (put new) u). key r' = key x \<and> ver x \<le> ver r'" if x: "x \<in> insert new R" for x
  proof (cases "x = new")
    case True
    then show ?thesis using rows r(2) by (cases "ver r \<le> ver new") auto
  next
    case False
    then obtain r' where r': "r' \<in> set u" "key r' = key x" "ver x \<le> ver r'"
      using x assms(1) by (auto simp: newest_def)
    show ?thesis
    proof (cases "r' = r")
      case True
      then show ?thesis using rows r' r(2) by (cases "ver r \<le> ver new") auto
    qed (use rows r' in auto)
  qed
  moreover have "set (upsert key new (put new) u) \<subseteq> insert new R"
    using rows r(1) assms(1) by (auto simp: newest_def split: if_splits)
  moreover have "table_ok key (upsert key new (put new) u)"
    using assms(1) by (intro table_ok_upsert put_key) (simp add: newest_def)
  ultimately show ?thesis by (simp add: newest_def)
qed

lemma newest_fold:
  assumes "newest key ver R (filter (\<lambda>r. sel (key r)) t)" "\<forall>r\<in>R. good r" "\<forall>r\<in>set news. good r"
  shows "newest key ver (R \<union> {r \<in> set news. sel (key r)})
    (filter (\<lambda>r. sel (key r)) (fold (\<lambda>new. upsert key new (put new)) news t))"
  using assms
proof (induction news arbitrary: R t)
  case (Cons new news)
  have "newest key ver (if sel (key new) then insert new R else R)
      (filter (\<lambda>r. sel (key r)) (upsert key new (put new) t))"
    using newest_upsert [OF Cons.prems(1)] Cons.prems by (simp add: filter_upsert put_key)
  moreover have "\<forall>r\<in>if sel (key new) then insert new R else R. good r" using Cons.prems by simp
  ultimately have "newest key ver ((if sel (key new) then insert new R else R) \<union> {r \<in> set news. sel (key r)})
      (filter (\<lambda>r. sel (key r)) (fold (\<lambda>new. upsert key new (put new)) news (upsert key new (put new) t)))"
    using Cons.prems(3) by (intro Cons.IH) simp_all
  moreover have "(if sel (key new) then insert new R else R) \<union> {r \<in> set news. sel (key r)} =
      R \<union> {r \<in> set (new # news). sel (key r)}"
    by auto
  ultimately show ?case by simp
qed simp

end

end
