(* ===== verification/Stale_Rows.thy ===== *)
theory Stale_Rows
  imports Asset_Scopes Mpl_Core Versioned_Rows
begin

text \<open>
  The creators and groups of an asset are many rows of one table, written by an upsert per
  position or value. An update with fewer of them leaves rows of older updates behind; the
  reader drops these (\<open>filter_out_stale_creators\<close>, \<open>filter_out_stale_asset_groupings\<close>). The theorems
  join writer and reader: out of order or repeated, the newest update is what is shown.
\<close>

section \<open>Maxima\<close>

lemma max_opt_Max: "xs \<noteq> [] \<Longrightarrow> max_opt xs = Some (Max (set xs))"
  by (cases xs) (simp_all add: max_opt_def Max.set_eq_fold flip: list.set(2))

lemma retain_max_eq:
  assumes "m \<in> f ` set rs" "\<And>r. r \<in> set rs \<Longrightarrow> f r \<le> m"
  shows "retain_max f rs = filter (\<lambda>r. f r = m) rs"
proof -
  have "max_opt (map f rs) = Some (Max (f ` set rs))"
    using assms(1) max_opt_Max [of "map f rs"] by (cases rs) simp_all
  moreover have "Max (f ` set rs) = m" using assms by (auto intro: Max_eqI)
  ultimately show ?thesis by (simp add: retain_max_def)
qed

section \<open>Creators\<close>

text \<open>An update of the creators of an asset: the asset, the creators, the slot and the sequence number.\<close>

record creator_update =
  cu_asset :: bytes
  cu_creators :: "creator list"
  cu_slot :: i64
  cu_seq :: i64

definition store_creators :: "creator_update \<Rightarrow> db \<Rightarrow> db" where
  "store_creators u = snd (upsert_asset_creators (cu_asset u) (cu_creators u) (cu_slot u) (cu_seq u))"

definition update_rows :: "creator_update \<Rightarrow> asset_creators list" where
  "update_rows u = creator_rows (cu_asset u) (cu_creators u) (cu_slot u) (cu_seq u)"

definition shown_creators :: "db \<Rightarrow> bytes \<Rightarrow> asset_creators list" where
  "shown_creators d i =
     filter_out_stale_creators (sort_key cr_position (filter (\<lambda>c. cr_asset_id c = i) (asset_creators_t d)))"

text \<open>
  A row of the creators table is keyed by asset and position; among the rows Bubblegum writes
  the sequence number is the version. An upsert that is accepted makes the row the new one.
\<close>

definition put_creator :: "asset_creators \<Rightarrow> asset_creators \<Rightarrow> asset_creators" where
  "put_creator new r =
    (if holds (sql_or (sql_and (sql_cmp (\<noteq>) (cr_seq r) (Some 0)) (sql_cmp (\<ge>) (cr_seq new) (cr_seq r)))
                (is_null (cr_seq r)))
     then r\<lparr>cr_creator := cr_creator new, cr_share := cr_share new, cr_verified := cr_verified new,
            cr_seq := cr_seq new, cr_slot_updated := cr_slot_updated new\<rparr>
     else r)"

definition creator_ver :: "asset_creators \<Rightarrow> int" where
  "creator_ver r = (case cr_seq r of Some q \<Rightarrow> q | None \<Rightarrow> 0)"

definition has_seq :: "asset_creators \<Rightarrow> bool" where
  "has_seq r = (cr_seq r \<noteq> None \<and> cr_seq r \<noteq> Some 0)"

interpretation creators: versioned_rows cr_key creator_ver put_creator has_seq
proof unfold_locales
  fix new r :: asset_creators
  show "cr_key (put_creator new r) = cr_key r" by (simp add: put_creator_def cr_key_def)
next
  fix new r assume "has_seq new" "has_seq r" "cr_key r = cr_key new"
  then show "put_creator new r = (if creator_ver r \<le> creator_ver new then new else r)"
    by (cases r; cases new) (auto simp: put_creator_def has_seq_def creator_ver_def cr_key_def sql_simps)
qed

lemma store_creators_table:
  "asset_creators_t (store_creators u d) =
    fold (\<lambda>new. upsert cr_key new (put_creator new)) (update_rows u) (asset_creators_t d)"
proof -
  have "upsert_creator_row = (\<lambda>new. upsert cr_key new (put_creator new))"
    by (simp add: fun_eq_iff upsert_creator_row_def put_creator_def [abs_def])
  then show ?thesis by (simp add: store_creators_def upsert_asset_creators_def update_rows_def)
qed

lemma fold_store_creators:
  "asset_creators_t (fold store_creators us d) =
    fold (\<lambda>new. upsert cr_key new (put_creator new)) (concat (map update_rows us)) (asset_creators_t d)"
  by (induction us arbitrary: d) (simp_all add: store_creators_table)

text \<open>The rows one update writes.\<close>

lemma update_rows_fields:
  assumes "r \<in> set (update_rows u)"
  shows "cr_asset_id r = cu_asset u" "cr_seq r = Some (cu_seq u)" "cr_slot_updated r = Some (cu_slot u)"
  using assms by (auto simp: update_rows_def creator_rows_def split: if_splits)

definition update_ok :: "creator_update \<Rightarrow> bool" where
  "update_ok u = (cu_seq u \<noteq> 0 \<and> length (cu_creators u) < 2 ^ 15 \<and>
     (\<forall>c\<in>set (cu_creators u). cc_address c \<noteq> []))"

lemma position_of_nat: "p < 2 ^ 15 \<Longrightarrow> sint (of_nat p :: 16 word) = int p"
  by (simp add: sint_uint uint_nat unsigned_of_nat take_bit_nat_eq_self signed_take_bit_int_eq_self)

lemma update_rows_positions:
  assumes "update_ok u"
  shows "map cr_position (update_rows u) = map int [0..<max 1 (length (cu_creators u))]"
proof (cases "cu_creators u")
  case Nil
  then show ?thesis by (simp add: update_rows_def creator_rows_def)
next
  case (Cons c cs)
  then have "map cr_position (update_rows u) =
      map (\<lambda>p. sint (of_nat p :: 16 word)) (map fst (enumerate 0 (cu_creators u)))"
    by (simp add: update_rows_def creator_rows_def case_prod_unfold comp_def del: map_fst_enumerate)
  also have "\<dots> = map int [0..<length (cu_creators u)]"
    using assms by (auto simp: update_ok_def position_of_nat simp del: upt_Suc)
  finally show ?thesis using Cons by (simp add: max_def)
qed

lemma has_seq_update: "update_ok u \<Longrightarrow> r \<in> set (update_rows u) \<Longrightarrow> has_seq r"
  by (simp add: has_seq_def update_ok_def update_rows_fields)

lemma positions_inj:
  assumes "update_ok u" "r \<in> set (update_rows u)" "r' \<in> set (update_rows u)" "cr_position r = cr_position r'"
  shows "r = r'"
proof -
  have "distinct (map cr_position (update_rows u))"
    using update_rows_positions [OF assms(1)] by (simp add: distinct_map)
  then show ?thesis using assms(2-4) by (auto simp: distinct_map dest: inj_onD)
qed

lemma position_nonneg: "update_ok u \<Longrightarrow> r \<in> set (update_rows u) \<Longrightarrow> 0 \<le> cr_position r"
proof -
  assume "update_ok u" "r \<in> set (update_rows u)"
  then have "cr_position r \<in> set (map int [0..<max 1 (length (cu_creators u))])"
    using update_rows_positions [of u] by (metis image_eqI list.set_map)
  then show "0 \<le> cr_position r" by auto
qed

lemma update_rows_first:
  assumes "update_ok u"
  shows "hd (update_rows u) \<in> set (update_rows u) \<and> cr_position (hd (update_rows u)) = 0 \<and>
    (cr_creator (hd (update_rows u)) = [] \<longleftrightarrow> cu_creators u = [])"
proof (cases "cu_creators u")
  case (Cons c cs)
  then show ?thesis using assms
    by (simp add: update_rows_def creator_rows_def update_ok_def)
qed (simp add: update_rows_def creator_rows_def)

text \<open>Sorting by position is determined by the rows, when the positions differ.\<close>

lemma hd_sorted_by:
  assumes "sorted (map f xs)" "inj_on f (set xs)" "x \<in> set xs" "\<And>y. y \<in> set xs \<Longrightarrow> f x \<le> f y"
  shows "hd xs = (x :: 'a) \<and> (f :: 'a \<Rightarrow> int) (hd xs) = f x"
proof (cases xs)
  case (Cons y ys)
  then have "f y \<le> f x" using assms(1,3) by auto
  then have "f y = f x" using assms(4) [of y] Cons by simp
  then show ?thesis using assms(2,3) Cons by (auto dest: inj_onD)
qed (use assms(3) in simp)

lemma sort_key_unique:
  assumes "set xs = set ys" "distinct (map f xs)" "distinct (map f ys)" "sorted (map f ys)"
  shows "sort_key (f :: 'a \<Rightarrow> int) xs = ys"
proof (rule map_sorted_distinct_set_unique [of f])
  show "inj_on f (set (sort_key f xs) \<union> set ys)" using assms(1,2) by (simp add: distinct_map)
  show "distinct (map f (sort_key f xs))" using assms(2) by (simp add: distinct_map)
qed (use assms in simp_all)

text \<open>What is in the table for an asset, after any deliveries of updates.\<close>

lemma creator_rows_left:
  assumes ok: "\<And>u. u \<in> set us \<Longrightarrow> update_ok u"
    and m: "m \<in> set us" "cu_asset m = i"
    and newest: "\<And>u. u \<in> set us \<Longrightarrow> cu_asset u = i \<Longrightarrow> cu_seq u \<le> cu_seq m \<and> (cu_seq u = cu_seq m \<longrightarrow> u = m)"
    and start: "\<And>r. r \<in> set (asset_creators_t d) \<Longrightarrow> cr_asset_id r \<noteq> i"
    and L: "L = filter (\<lambda>c. cr_asset_id c = i) (asset_creators_t (fold store_creators us d))"
  shows "distinct (map cr_position L)"
    and "set (update_rows m) \<subseteq> set L"
    and "r \<in> set L \<Longrightarrow> \<exists>u\<in>set us. cu_asset u = i \<and> r \<in> set (update_rows u)"
proof -
  define R where "R = {r \<in> set (concat (map update_rows us)). fst (cr_key r) = i}"
  have "newest cr_key creator_ver ({} \<union> R)
      (filter (\<lambda>r. fst (cr_key r) = i) (asset_creators_t (fold store_creators us d)))"
    unfolding fold_store_creators R_def
  proof (rule creators.newest_fold)
    show "newest cr_key creator_ver {} (filter (\<lambda>r. fst (cr_key r) = i) (asset_creators_t d))"
      using start by (auto simp: newest_empty filter_empty_conv cr_key_def)
    show "\<forall>r\<in>set (concat (map update_rows us)). has_seq r" using ok by (auto dest: has_seq_update)
  qed simp
  then have n: "newest cr_key creator_ver R L" by (simp add: L cr_key_def)
  have R: "\<exists>u\<in>set us. cu_asset u = i \<and> r \<in> set (update_rows u)" if "r \<in> R" for r
    using that by (auto simp: R_def cr_key_def update_rows_fields)
  have dist: "distinct (map cr_key L)" using n by (simp add: newest_def table_ok_def)
  have "inj_on cr_position (set L)"
  proof (rule inj_onI)
    fix x y assume xy: "x \<in> set L" "y \<in> set L" "cr_position x = cr_position y"
    then have "cr_key x = cr_key y" by (simp add: L cr_key_def)
    with xy dist show "x = y" by (auto simp: distinct_map dest: inj_onD)
  qed
  then show "distinct (map cr_position L)" using dist by (simp add: distinct_map)
  show "\<exists>u\<in>set us. cu_asset u = i \<and> r \<in> set (update_rows u)" if "r \<in> set L"
    using that n R by (auto simp: newest_def)
  show "set (update_rows m) \<subseteq> set L"
  proof
    fix x assume x: "x \<in> set (update_rows m)"
    show "x \<in> set L"
    proof (rule newest_mem [OF n])
      show "x \<in> R" using x m by (auto simp: R_def cr_key_def update_rows_fields)
      fix r assume r: "r \<in> R" "cr_key r = cr_key x" "creator_ver x \<le> creator_ver r"
      then obtain u where u: "u \<in> set us" "cu_asset u = i" "r \<in> set (update_rows u)" using R by blast
      then have "u = m" using newest [of u] r(3) x by (simp add: creator_ver_def update_rows_fields)
      then show "r = x" using positions_inj [OF ok [OF m(1)]] u(3) x r(2) by (simp add: cr_key_def)
    qed
  qed
qed

lemma shown_creators_newest:
  assumes "\<forall>u\<in>set us. update_ok u"
    and "m \<in> set us" "cu_asset m = i"
    and "\<forall>u\<in>set us. cu_asset u = i \<longrightarrow> cu_seq u \<le> cu_seq m \<and> (cu_seq u = cu_seq m \<longrightarrow> u = m)"
    and "\<forall>u\<in>set us. cu_asset u = i \<longrightarrow> cu_slot u \<le> cu_slot m"
    and "\<forall>r\<in>set (asset_creators_t d). cr_asset_id r \<noteq> i"
  shows "shown_creators (fold store_creators us d) i = (if cu_creators m = [] then [] else update_rows m)"
proof -
  define L where "L = filter (\<lambda>c. cr_asset_id c = i) (asset_creators_t (fold store_creators us d))"
  define S where "S = sort_key cr_position L"
  note left = creator_rows_left [of us m i d L, OF _ assms(2,3) _ _ L_def]
  have dist: "distinct (map cr_position L)" by (rule left) (use assms in auto)
  have mrows: "set (update_rows m) \<subseteq> set L" by (rule left) (use assms in auto)
  have src: "\<exists>u\<in>set us. cu_asset u = i \<and> r \<in> set (update_rows u)" if "r \<in> set L" for r
    by (rule left(3) [OF _ _ _ that]) (use assms in auto)
  have ok: "update_ok m" using assms(1,2) by simp
  note first = update_rows_first [OF ok]
  have hd: "hd S = hd (update_rows m)"
  proof (rule hd_sorted_by [THEN conjunct1, of cr_position])
    show "sorted (map cr_position S)" "inj_on cr_position (set S)"
      using dist by (simp_all add: S_def distinct_map)
    show "hd (update_rows m) \<in> set S" using first mrows by (auto simp: S_def)
    show "cr_position (hd (update_rows m)) \<le> cr_position y" if "y \<in> set S" for y
      using that src [of y] first assms(1) by (auto simp: S_def dest: position_nonneg)
  qed
  have older: "cr_slot_updated r \<le> Some (cu_slot m) \<and> cr_seq r \<le> Some (cu_seq m) \<and> cr_seq r \<noteq> Some 0 \<and>
      (cr_seq r = Some (cu_seq m) \<longrightarrow> r \<in> set (update_rows m))" if "r \<in> set S" for r
    using that src [of r] assms(1,4,5) by (auto simp: S_def update_ok_def update_rows_fields)
  have mS: "hd (update_rows m) \<in> set S" using first mrows by (auto simp: S_def)
  define N where "N = filter (\<lambda>r. cr_slot_updated r = Some (cu_slot m)) S"
  have newest: "retain_max cr_slot_updated S = N"
    unfolding N_def
    by (rule retain_max_eq) (use mS first older in
      \<open>auto simp: update_rows_fields intro!: rev_image_eqI [of "hd (update_rows m)"]\<close>)
  have "retain_max cr_seq N = filter (\<lambda>r. cr_seq r = Some (cu_seq m)) N"
    by (rule retain_max_eq) (use mS first older in
      \<open>auto simp: N_def update_rows_fields intro!: rev_image_eqI [of "hd (update_rows m)"]\<close>)
  moreover have "filter (\<lambda>r. cr_seq r = Some (cu_seq m)) N = update_rows m"
  proof -
    have "filter (\<lambda>r. cr_seq r = Some (cu_seq m)) N = filter (\<lambda>r. r \<in> set (update_rows m)) S"
      unfolding N_def filter_filter by (rule filter_cong) (use older in \<open>auto simp: update_rows_fields\<close>)
    also have "\<dots> = sort_key cr_position (filter (\<lambda>r. r \<in> set (update_rows m)) L)"
      by (simp add: S_def filter_sort)
    also have "\<dots> = update_rows m"
    proof (rule sort_key_unique)
      show "set (filter (\<lambda>r. r \<in> set (update_rows m)) L) = set (update_rows m)" using mrows by auto
      show "distinct (map cr_position (filter (\<lambda>r. r \<in> set (update_rows m)) L))"
        using dist by (rule distinct_map_filter)
      show "distinct (map cr_position (update_rows m))" "sorted (map cr_position (update_rows m))"
        unfolding update_rows_positions [OF ok] by (simp_all add: distinct_map sorted_map)
    qed
    finally show ?thesis .
  qed
  moreover have "\<not> (\<exists>c\<in>set N. cr_seq c = Some 0)" using older by (auto simp: N_def)
  moreover have "S \<noteq> []" using mS by auto
  ultimately show ?thesis
    using hd first newest
    by (simp add: shown_creators_def filter_out_stale_creators_def flip: L_def S_def)
qed

definition creator0 :: "u8 \<Rightarrow> creator" where
  "creator0 k = \<lparr>cc_address = [k], cc_verified = True, cc_share = 50\<rparr>"

definition creator_update0 :: creator_update where
  "creator_update0 = \<lparr>cu_asset = [1], cu_creators = [creator0 1, creator0 2], cu_slot = 10, cu_seq = 3\<rparr>"

definition creator_update1 :: creator_update where
  "creator_update1 = \<lparr>cu_asset = [1], cu_creators = [creator0 2], cu_slot = 10, cu_seq = 5\<rparr>"

text \<open>A small database with one asset, and parameters that read strings out of JSON.\<close>

definition asset0 :: "bytes \<Rightarrow> asset" where
  "asset0 i = (asset_default 0 i)\<lparr>a_asset_data := Some i, a_supply := 1\<rparr>"

definition asset_data0 :: "bytes \<Rightarrow> asset_data" where
  "asset_data0 i = \<lparr>ad_id = i, ad_chain_data_mutability = CM_Mutable, ad_chain_data = JNull, ad_metadata_url = [],
     ad_metadata_mutability = M_Mutable, ad_metadata = JNull, ad_slot_updated = 1, ad_reindex = None,
     ad_raw_name = None, ad_raw_symbol = None, ad_base_info_seq = None\<rparr>"

definition read_db0 :: db where
  "read_db0 = empty_db\<lparr>asset_t := [asset0 [1]], asset_data_t := [asset_data0 [1]]\<rparr>"

definition reader0 :: reader where
  "reader0 = \<lparr>json_text = (\<lambda>j. case j of JStr s \<Rightarrow> Some s | _ \<Rightarrow> None), edition_number = (\<lambda>_. Inr 1),
     master_edition_supply = (\<lambda>_. Inr (0, None)), find_master_edition = (\<lambda>k. k), type_error = ''type''\<rparr>"

definition options0 :: options where
  "options0 = \<lparr>show_unverified_collections = False, show_collection_metadata = False, show_zero_balance = False,
     show_inscription = False, show_fungible = False, show_native_balance = False\<rparr>"

lemma get_by_id_fields:
  assumes "get_by_id E R d i opts = Inr fa"
  shows "asset_row i d = Some (fa_asset fa)" "a_id (fa_asset fa) = i"
    "fa_creators fa = shown_creators d i"
    "fa_groups fa = filter_out_stale_asset_groupings
       (grouping_query d (\<lambda>j. j = i) False (show_collection_metadata opts))"
proof -
  obtain a where a: "asset_row i d = Some a" using assms by (auto simp: get_by_id_def Let_def split: option.splits)
  then have i: "a_id a = i" by (rule lookup_key)
  obtain ad where "Option.bind (a_asset_data a) (\<lambda>j. asset_data_row j d) = Some ad"
    using assms a by (auto simp: get_by_id_def Let_def split: option.splits)
  with assms a i show "asset_row i d = Some (fa_asset fa)" "a_id (fa_asset fa) = i"
    "fa_creators fa = shown_creators d i"
    "fa_groups fa = filter_out_stale_asset_groupings
       (grouping_query d (\<lambda>j. j = i) False (show_collection_metadata opts))"
    by (auto simp: get_by_id_def Let_def shown_creators_def split: if_splits)
qed

lemma get_by_id_ok:
  assumes "asset_row i d = Some a" "a_asset_data a = Some j" "asset_data_row j d = Some ad" "a_supply a \<noteq> 0"
  shows "\<exists>fa. get_by_id E R d i opts = Inr fa"
  using assms by (simp add: get_by_id_def)

lemma sample_asset_found:
  assumes "asset_t d = asset_t read_db0" "asset_data_t d = asset_data_t read_db0"
  obtains fa where "get_by_id E R d [1] opts = Inr fa"
proof -
  have "\<exists>fa. get_by_id E R d [1] opts = Inr fa"
  proof (rule get_by_id_ok)
    show "asset_row [1] d = Some (asset0 [1])" unfolding assms by (simp add: read_db0_def asset0_def)
    show "asset_data_row [1] d = Some (asset_data0 [1])" unfolding assms by (simp add: read_db0_def asset_data0_def)
  qed (simp_all add: asset0_def)
  then show ?thesis using that by blast
qed


lemma store_creators_frame [simp]:
  "asset_t (fold store_creators us d) = asset_t d" "asset_data_t (fold store_creators us d) = asset_data_t d"
  by (induction us arbitrary: d) (simp_all add: store_creators_def upsert_asset_creators_def)


section \<open>Groups\<close>

text \<open>
  The groups of an MPL core asset: one row per group, or a row without a value when there are
  none. The slot is the version.
\<close>

record group_update =
  gu_asset :: bytes
  gu_values :: "string list"
  gu_slot :: i64

definition store_groups :: "group_update \<Rightarrow> db \<Rightarrow> db" where
  "store_groups u = snd (upsert_groups (gu_asset u) (gu_values u) (gu_slot u))"

definition group_rows :: "group_update \<Rightarrow> asset_grouping list" where
  "group_rows u = map (\<lambda>v. group_row (gu_asset u) v (gu_slot u))
     (if gu_values u = [] then [None] else map Some (gu_values u))"

definition gr_full_key :: "asset_grouping \<Rightarrow> bytes \<times> string \<times> string option" where
  "gr_full_key r = (gr_asset_id r, gr_group_key r, gr_group_value r)"

definition group_ver :: "asset_grouping \<Rightarrow> int" where
  "group_ver r = (case gr_slot_updated r of Some q \<Rightarrow> q | None \<Rightarrow> 0)"

definition is_group_row :: "asset_grouping \<Rightarrow> bool" where
  "is_group_row r = (\<exists>i v q. r = group_row i v q)"

interpretation groups: versioned_rows gr_full_key group_ver "\<lambda>new. touch_group (group_ver new)" is_group_row
proof unfold_locales
  fix new r
  show "gr_full_key (touch_group (group_ver new) r) = gr_full_key r"
    by (simp add: touch_group_def gr_full_key_def)
next
  fix new r assume "is_group_row new" "is_group_row r" "gr_full_key r = gr_full_key new"
  then show "touch_group (group_ver new) r = (if group_ver r \<le> group_ver new then new else r)"
    by (auto simp: is_group_row_def group_row_def touch_group_def gr_full_key_def group_ver_def acc_ge_def)
qed

lemma store_groups_table:
  "asset_grouping_t (store_groups u d) =
    fold (\<lambda>new. upsert gr_full_key new (touch_group (group_ver new))) (group_rows u) (asset_grouping_t d)"
proof (cases "gu_values u = []")
  case True
  have "upsert gr_group_null_key (group_row i None q) f t = upsert gr_full_key (group_row i None q) f t" for i q f t
    by (rule upsert_other_key) (auto simp: gr_group_null_key_def gr_full_key_def group_row_def)
  with True show ?thesis
    by (simp add: store_groups_def upsert_groups_def group_rows_def) (simp add: group_ver_def group_row_def)
next
  case False
  have key: "upsert gr_other_key (group_row i (Some v) q) f = upsert gr_full_key (group_row i (Some v) q) f" for i v q f
    by (rule ext, rule upsert_other_key)
      (auto simp: gr_other_key_def gr_full_key_def group_row_def group_key_def collection_group_def split: option.splits)
  have ver: "group_ver (group_row i v q) = q" for i v q by (simp add: group_ver_def group_row_def)
  have "fold (\<lambda>v. upsert gr_other_key (group_row i (Some v) q) (touch_group q)) ws t =
      fold (\<lambda>new. upsert gr_full_key new (touch_group (group_ver new))) (map (\<lambda>v. group_row i (Some v) q) ws) t"
    for i q ws t by (simp add: fold_map comp_def key ver)
  with False show ?thesis
    by (simp add: store_groups_def upsert_groups_def group_rows_def comp_def)
qed

lemma fold_store_groups:
  "asset_grouping_t (fold store_groups us d) =
    fold (\<lambda>new. upsert gr_full_key new (touch_group (group_ver new))) (concat (map group_rows us)) (asset_grouping_t d)"
  by (induction us arbitrary: d) (simp_all add: store_groups_table)

lemma group_rows_fields:
  assumes "r \<in> set (group_rows u)"
  shows "gr_asset_id r = gu_asset u" "gr_group_key r = ''group''" "gr_slot_updated r = Some (gu_slot u)"
    "gr_verified r" "is_group_row r" "gr_group_value r \<noteq> None \<longleftrightarrow> gu_values u \<noteq> []"
    "gr_group_value r = Some v \<Longrightarrow> v \<in> set (gu_values u)"
  using assms by (auto simp: group_rows_def group_row_def group_key_def is_group_row_def split: if_splits)

text \<open>What is in the table for an asset's groups.\<close>

lemma group_rows_left:
  assumes m: "m \<in> set us" "gu_asset m = i"
    and newest: "\<And>u. u \<in> set us \<Longrightarrow> gu_asset u = i \<Longrightarrow> gu_slot u \<le> gu_slot m \<and> (gu_slot u = gu_slot m \<longrightarrow> u = m)"
    and start: "\<And>r. r \<in> set (asset_grouping_t d) \<Longrightarrow> gr_asset_id r = i \<Longrightarrow> gr_group_key r \<noteq> ''group''"
    and L: "L = filter (\<lambda>r. gr_asset_id r = i \<and> gr_group_key r = ''group'') (asset_grouping_t (fold store_groups us d))"
  shows "set (group_rows m) \<subseteq> set L"
    and "r \<in> set L \<Longrightarrow> \<exists>u\<in>set us. gu_asset u = i \<and> r \<in> set (group_rows u)"
proof -
  define sel where "sel k \<longleftrightarrow> fst k = i \<and> fst (snd k) = ''group''" for k :: "bytes \<times> string \<times> string option"
  have sel: "sel (gr_full_key r) \<longleftrightarrow> gr_asset_id r = i \<and> gr_group_key r = ''group''" for r
    by (simp add: sel_def gr_full_key_def)
  define R where "R = {r \<in> set (concat (map group_rows us)). sel (gr_full_key r)}"
  have "newest gr_full_key group_ver ({} \<union> R)
      (filter (\<lambda>r. sel (gr_full_key r)) (asset_grouping_t (fold store_groups us d)))"
    unfolding fold_store_groups R_def
  proof (rule groups.newest_fold)
    show "newest gr_full_key group_ver {} (filter (\<lambda>r. sel (gr_full_key r)) (asset_grouping_t d))"
      using start by (auto simp: newest_empty filter_empty_conv sel)
    show "\<forall>r\<in>set (concat (map group_rows us)). is_group_row r" by (auto simp: group_rows_fields)
  qed simp
  then have n: "newest gr_full_key group_ver R L" by (simp add: L sel)
  have R: "\<exists>u\<in>set us. gu_asset u = i \<and> r \<in> set (group_rows u)" if "r \<in> R" for r
    using that by (auto simp: R_def sel group_rows_fields)
  show "\<exists>u\<in>set us. gu_asset u = i \<and> r \<in> set (group_rows u)" if "r \<in> set L"
    using that n R by (auto simp: newest_def)
  show "set (group_rows m) \<subseteq> set L"
  proof
    fix x assume x: "x \<in> set (group_rows m)"
    show "x \<in> set L"
    proof (rule newest_mem [OF n])
      show "x \<in> R" using x m by (auto simp: R_def sel group_rows_fields)
      fix r assume r: "r \<in> R" "gr_full_key r = gr_full_key x" "group_ver x \<le> group_ver r"
      then obtain u where u: "u \<in> set us" "gu_asset u = i" "r \<in> set (group_rows u)" using R by blast
      then have "u = m" using newest [of u] r(3) x by (simp add: group_ver_def group_rows_fields)
      then show "r = x" using u(3) x r(2) by (auto simp: gr_full_key_def group_rows_def group_row_def)
    qed
  qed
qed

lemma max_opt_eq: "m \<in> set xs \<Longrightarrow> (\<And>x. x \<in> set xs \<Longrightarrow> x \<le> m) \<Longrightarrow> max_opt xs = Some m"
  by (subst max_opt_Max) (auto intro: Max_eqI)

text \<open>
  C33: The newest groups are the groups shown. Deliver the group updates of an MPL core asset in any
  order and any number of times: \<open>get_by_id\<close> returns the asset as a member of exactly the groups of the
  update with the highest slot, of none when that update has none.
\<close>

theorem newest_groups_shown:
  assumes "m \<in> set us" "gu_asset m = i"
    and "\<forall>u\<in>set us. gu_asset u = i \<longrightarrow> gu_slot u \<le> gu_slot m \<and> (gu_slot u = gu_slot m \<longrightarrow> u = m)"
    and "\<forall>r\<in>set (asset_grouping_t d). gr_asset_id r = i \<longrightarrow> gr_group_key r \<noteq> ''group''"
    and "get_by_id E R (fold store_groups us d) i opts = Inr fa"
  shows "in_group ''group'' v fa \<longleftrightarrow> v \<in> set (gu_values m)"
proof -
  let ?d = "fold store_groups us d"
  define L where "L = filter (\<lambda>r. gr_asset_id r = i \<and> gr_group_key r = ''group'') (asset_grouping_t ?d)"
  define Q where "Q = grouping_query ?d (\<lambda>j. j = i) False (show_collection_metadata opts)"
  note left = group_rows_left [of m us i d L, OF assms(1,2) _ _ L_def]
  have mrows: "set (group_rows m) \<subseteq> set L" by (rule left) (use assms in auto)
  have src: "\<exists>u\<in>set us. gu_asset u = i \<and> r \<in> set (group_rows u)" if "r \<in> set L" for r
    by (rule left(2) [OF _ _ that]) (use assms in auto)
  have inQ: "ga \<in> set Q \<and> gr_group_key (fst ga) = ''group'' \<longleftrightarrow>
      fst ga \<in> set L \<and> snd ga = related_data ?d (show_collection_metadata opts) (fst ga)" for ga
  proof -
    have "ga \<in> set Q \<longleftrightarrow> fst ga \<in> set (asset_grouping_t ?d) \<and> gr_asset_id (fst ga) = i \<and>
        grouping_shown False (fst ga) \<and> snd ga = related_data ?d (show_collection_metadata opts) (fst ga)"
      by (cases ga) (auto simp: Q_def grouping_query_def)
    moreover have "gr_verified (fst ga)" if "fst ga \<in> set L"
      using src [OF that] group_rows_fields(4) by blast
    ultimately show ?thesis by (auto simp: grouping_shown_def L_def)
  qed
  let ?slots = "map (\<lambda>ga. gr_slot_updated (fst ga)) (filter (\<lambda>ga. gr_group_key (fst ga) = ''group'') Q)"
  have "max_opt ?slots = Some (Some (gu_slot m))"
  proof (rule max_opt_eq)
    define r where "r = hd (group_rows m)"
    have "group_rows m \<noteq> []" by (simp add: group_rows_def)
    then have r: "r \<in> set (group_rows m)" by (simp add: r_def)
    have "(r, related_data ?d (show_collection_metadata opts) r) \<in> set Q" "gr_group_key r = ''group''"
      using r mrows inQ [of "(r, related_data ?d (show_collection_metadata opts) r)"] by auto
    with group_rows_fields(3) [OF r] show "Some (gu_slot m) \<in> set ?slots" by force
    fix x assume "x \<in> set ?slots"
    then obtain ga where "fst ga \<in> set L" "x = gr_slot_updated (fst ga)" using inQ by auto
    then show "x \<le> Some (gu_slot m)" using src [of "fst ga"] assms(3) by (auto simp: group_rows_fields)
  qed
  then have fg: "fa_groups fa = filter (\<lambda>ag. gr_group_key (fst ag) \<noteq> ''group'' \<or>
      gr_slot_updated (fst ag) = Some (gu_slot m) \<and> gr_group_value (fst ag) \<noteq> None) Q"
    using get_by_id_fields(4) [OF assms(5)]
    by (simp add: filter_out_stale_asset_groupings_def flip: Q_def)
  have "in_group ''group'' v fa \<longleftrightarrow>
      (\<exists>ga\<in>set Q. gr_group_key (fst ga) = ''group'' \<and> gr_slot_updated (fst ga) = Some (gu_slot m) \<and>
        gr_group_value (fst ga) = Some v)"
    unfolding in_group_def fg by fastforce
  also have "\<dots> \<longleftrightarrow> (\<exists>r\<in>set L. gr_slot_updated r = Some (gu_slot m) \<and> gr_group_value r = Some v)"
    using inQ by (metis fst_conv snd_conv)
  also have "\<dots> \<longleftrightarrow> (\<exists>r\<in>set (group_rows m). gr_group_value r = Some v)"
    using mrows src assms(3) group_rows_fields(3) by (metis option.inject subsetD)
  also have "\<dots> \<longleftrightarrow> v \<in> set (gu_values m)"
    by (auto simp: group_rows_def group_row_def)
  finally show ?thesis .
qed

lemma store_groups_frame [simp]:
  "asset_t (fold store_groups us d) = asset_t d" "asset_data_t (fold store_groups us d) = asset_data_t d"
  by (induction us arbitrary: d) (simp_all add: store_groups_def upsert_groups_def)

definition group_update0 :: "string list \<Rightarrow> i64 \<Rightarrow> group_update" where
  "group_update0 vs q = \<lparr>gu_asset = [1], gu_values = vs, gu_slot = q\<rparr>"

theorem newest_groups_shown_witness:
  "\<exists>fa. get_by_id ext0 reader0
      (fold store_groups [group_update0 [''B''] 7, group_update0 [''A'', ''B''] 5] read_db0) [1] options0 = Inr fa \<and>
    \<not> in_group ''group'' ''A'' fa \<and> in_group ''group'' ''B'' fa"
proof -
  let ?d = "fold store_groups [group_update0 [''B''] 7, group_update0 [''A'', ''B''] 5] read_db0"
  obtain fa where fa: "get_by_id ext0 reader0 ?d [1] options0 = Inr fa"
    by (rule sample_asset_found [of ?d]) (simp_all only: store_groups_frame)
  have "in_group ''group'' v fa \<longleftrightarrow> v \<in> set (gu_values (group_update0 [''B''] 7))" for v
    by (rule newest_groups_shown [OF _ _ _ _ fa]) (simp_all add: group_update0_def read_db0_def empty_db_def)
  with fa show ?thesis by (auto simp: group_update0_def)
qed

end
