(* ===== verification/Read_Properties.thy ===== *)
theory Read_Properties
  imports Stale_Rows
begin

text \<open>
  What the queries of \<open>scopes/asset.rs\<close> return: paging visits every row once, the stale rows the
  ingester leaves behind are filtered out, and where the filters fall short.
\<close>

section \<open>Paging\<close>

lemma page_of_nat:
  assumes "p * unat limit < 2 ^ 64" "0 < limit"
  shows "unat ((of_nat (Suc p) - 1) * limit :: u64) = p * unat limit"
proof -
  have "1 \<le> unat limit" using assms(2) by (simp add: word_less_nat_alt)
  then have "p \<le> p * unat limit" by simp
  with assms(1) have p: "p < 2 ^ 64" by linarith
  have "(of_nat (Suc p) - 1 :: u64) = of_nat p" by simp
  then have "unat ((of_nat (Suc p) - 1) * limit :: u64) = (unat (of_nat p :: u64) * unat limit) mod 2 ^ 64"
    by (simp add: unat_word_ariths)
  also have "unat (of_nat p :: u64) = p"
    using p by (simp add: unsigned_of_nat take_bit_nat_eq_self)
  finally show ?thesis using assms(1) by simp
qed

lemma paginate_page:
  assumes "p * unat limit < 2 ^ 64" "0 < limit" "Suc p < 2 ^ 64"
  shows "paginate (Page (of_nat (Suc p))) limit dir column rows = take (unat limit) (drop (p * unat limit) rows)"
proof -
  have "(0 :: u64) < of_nat (Suc p)"
    using assms(3) by (simp add: word_less_nat_alt unsigned_of_nat take_bit_nat_eq_self del: of_nat_Suc)
  then show ?thesis
    using page_of_nat [OF assms(1,2)] by (simp add: paginate_def del: of_nat_Suc)
qed

lemma concat_chunks: "concat (map (\<lambda>p. take k (drop (p * k) xs)) [0..<n]) = take (n * k) xs"
proof (induction n)
  case (Suc n)
  have "take (Suc n * k) xs = take (n * k) xs @ take k (drop (n * k) xs)"
    by (simp only: mult_Suc add.commute [of k] take_add)
  with Suc show ?case by simp
qed simp

text \<open>
  C34: Numbered pages cut a result into pieces. For any number of pages whose offsets fit 64 bits,
  the pages put together are the first rows of the result, each row once and in order; the last
  page is short, and pages past the end are empty.
\<close>

theorem pages_partition:
  assumes "0 < limit" "n * unat limit < 2 ^ 64" "n < 2 ^ 64 - 1"
  shows "concat (map (\<lambda>p. paginate (Page (of_nat (Suc p))) limit dir column rows) [0..<n]) =
    take (n * unat limit) rows"
proof -
  have "paginate (Page (of_nat (Suc p))) limit dir column rows = take (unat limit) (drop (p * unat limit) rows)"
    if "p < n" for p
  proof (rule paginate_page)
    have "p * unat limit \<le> n * unat limit" using that by simp
    then show "p * unat limit < 2 ^ 64" using assms(2) by (rule le_less_trans)
    show "Suc p < 2 ^ 64" using that assms(3) by linarith
  qed (rule assms(1))
  then have "map (\<lambda>p. paginate (Page (of_nat (Suc p))) limit dir column rows) [0..<n] =
      map (\<lambda>p. take (unat limit) (drop (p * unat limit) rows)) [0..<n]"
    by simp
  then show ?thesis by (simp only: concat_chunks)
qed

theorem pages_partition_witness:
  "concat (map (\<lambda>p. paginate (Page (of_nat (Suc p))) 2 Asc (\<lambda>x :: u8. [x]) [5, 6, 7]) [0..<2]) = [5, 6, 7]"
  using pages_partition [where limit = 2 and n = 2 and dir = Asc and column = "\<lambda>x :: u8. [x]" and rows = "[5, 6, 7]"]
  by simp

section \<open>One asset and a list of one\<close>

lemma attach_single:
  "attach k f xs [(i, fa)] = [(i, fold (\<lambda>x fa. if k x = i then f x fa else fa) xs fa)]"
  by (induction xs arbitrary: fa) (auto simp: attach_def)

lemma fold_guard: "fold (\<lambda>x y. if P x then f x y else y) xs y = fold f (filter P xs) y"
  by (induction xs arbitrary: y) simp_all

lemma push_creators:
  "fold (\<lambda>c fa. fa\<lparr>fa_creators := fa_creators fa @ [c]\<rparr>) cs fa = fa\<lparr>fa_creators := fa_creators fa @ cs\<rparr>"
  by (induction cs arbitrary: fa) simp_all

lemma push_authorities:
  "fold (\<lambda>c fa. fa\<lparr>fa_authorities := fa_authorities fa @ [c]\<rparr>) cs fa = fa\<lparr>fa_authorities := fa_authorities fa @ cs\<rparr>"
  by (induction cs arbitrary: fa) simp_all

lemma push_groups:
  "fold (\<lambda>c fa. fa\<lparr>fa_groups := fa_groups fa @ [c]\<rparr>) cs fa = fa\<lparr>fa_groups := fa_groups fa @ cs\<rparr>"
  by (induction cs arbitrary: fa) simp_all

lemma sort_key_same:
  assumes "\<forall>x\<in>set xs. k x = c"
  shows "sort_key k xs = xs"
  using sort_key_stable [of k c xs] assms by (simp add: filter_True)

lemma sort_key_pair:
  assumes "\<forall>x\<in>set xs. g x = c"
  shows "sort_key (\<lambda>x. (g x, f x)) xs = sort_key f xs"
proof -
  have "insort_key (\<lambda>x. (g x, f x)) y ys = insort_key f y ys" if "g y = c" "\<forall>x\<in>set ys. g x = c" for y ys
    using that by (induction ys) auto
  then show ?thesis
    using assms by (induction xs) simp_all
qed

lemma attach_Nil [simp]: "attach k f xs [] = []"
  by (induction xs) (simp_all add: attach_def)

lemma filter_table_ok:
  assumes "table_ok key t"
  shows "filter (\<lambda>r. key r = k) t = (case lookup key k t of Some r \<Rightarrow> [r] | None \<Rightarrow> [])"
  using assms
proof (induction t)
  case (Cons x t)
  then have "lookup key (key x) t = None" by (simp add: lookup_None table_ok_def)
  with Cons show ?case by (auto simp: table_ok_def split: option.splits)
qed simp

lemma find_tokens_single:
  "table_ok tk_mint (tokens_t d) \<Longrightarrow>
    find_tokens d [i] = (case lookup tk_mint i (tokens_t d) of Some t \<Rightarrow> [t] | None \<Rightarrow> [])"
  by (simp add: find_tokens_def filter_table_ok)

text \<open>\<open>get_related_for_assets\<close> on one asset whose data row is there.\<close>

lemma get_related_single:
  assumes "table_ok ad_id (asset_data_t d)" "table_ok tk_mint (tokens_t d)"
    and "a_id a = i" "a_asset_data a = Some i" "asset_data_row i d = Some ad"
    and "\<not> show_unverified_collections opts" "\<not> show_inscription opts"
  shows "get_related_for_assets d [a] opts None =
    [\<lparr>fa_asset = a, fa_data = ad,
      fa_token_info = (if show_fungible opts then lookup tk_mint i (tokens_t d) else None),
      fa_authorities = filter (\<lambda>r. au_asset_id r = i) (asset_authority_t d),
      fa_creators = shown_creators d i, fa_inscription = None,
      fa_groups = filter_out_stale_asset_groupings
        (grouping_query d (\<lambda>j. j = i) False (show_collection_metadata opts))\<rparr>]"
proof -
  let ?fa = "\<lparr>fa_asset = a, fa_data = ad, fa_token_info = None, fa_authorities = [], fa_creators = [],
    fa_inscription = None, fa_groups = []\<rparr>"
  have data: "collect_map ad_id (\<lambda>ad. ad) (filter (\<lambda>ad. ad_id ad \<in> set (map a_id [a])) (asset_data_t d)) = [(i, ad)]"
    using assms(3,5) lookup_key [OF assms(5)] by (simp add: filter_table_ok [OF assms(1)] collect_map_def)
  have m0: "fold (insert_full [(i, ad)]) [a] [] = [(i, ?fa)]"
    using assms(3,4) by (simp add: insert_full_def)
  have creators: "sort_key (\<lambda>c. (cr_asset_id c, cr_position c))
      (filter (\<lambda>c. cr_asset_id c \<in> set (map fst [(i, ?fa)])) (asset_creators_t d)) =
      sort_key cr_position (filter (\<lambda>c. cr_asset_id c = i) (asset_creators_t d))"
    by (simp add: sort_key_pair [where c = i])
  have authorities: "sort_key au_asset_id (filter (\<lambda>r. au_asset_id r = i) (asset_authority_t d)) =
      filter (\<lambda>r. au_asset_id r = i) (asset_authority_t d)"
    by (simp add: sort_key_same [where c = i])
  have groups: "filter (\<lambda>ga. gr_asset_id (fst ga) = i) (grouping_query d (\<lambda>j. j = i) False b) =
      grouping_query d (\<lambda>j. j = i) False b" for b
    by (auto simp: grouping_query_def intro!: filter_True)
  have filt: "filter (\<lambda>c. k c = i) (filter (\<lambda>c. k c = i) xs) = filter (\<lambda>c. k c = i) xs" for k :: "'x \<Rightarrow> bytes" and xs
    by simp
  have sorted: "filter (\<lambda>c. cr_asset_id c = i) (sort_key cr_position (filter (\<lambda>c. cr_asset_id c = i) t)) =
      sort_key cr_position (filter (\<lambda>c. cr_asset_id c = i) t)" for t
    by (simp add: filter_sort)
  show ?thesis
    unfolding get_related_for_assets_def Let_def data m0 creators
    using assms(6,7) lookup_key [of tk_mint i "tokens_t d"]
    by (simp add: attach_single fold_guard push_creators push_authorities push_groups authorities groups sorted
        shown_creators_def find_tokens_single [OF assms(2)] split: option.splits)
qed

text \<open>
  Asking for one asset and asking for a list of one is the same. With the unique keys of the
  schema and no option that the two read differently (unverified collections, inscriptions), the
  batch query returns the asset that \<open>get_by_id\<close> returns, and nothing when that is an error.
\<close>

theorem batch_of_one:
  assumes "table_ok a_id (asset_t d)" "table_ok ad_id (asset_data_t d)" "table_ok tk_mint (tokens_t d)"
    and "\<forall>a\<in>set (asset_t d). a_supply a \<ge> 0 \<and> (a_asset_data a = None \<or> a_asset_data a = Some (a_id a))"
    and "\<not> show_unverified_collections opts" "\<not> show_inscription opts" "0 < limit"
  shows "get_assets d [i] (Page 1) limit opts =
    (case get_by_id E R d i opts of Inr fa \<Rightarrow> [fa] | Inl _ \<Rightarrow> [])"
proof -
  have l: "0 < unat limit" using assms(7) by (simp add: word_less_nat_alt)
  have page: "get_assets d [i] (Page 1) limit opts = get_related_for_assets d
      (take (unat limit) (filter (\<lambda>a. 0 < a_supply a) (filter (\<lambda>a. a_id a = i) (asset_t d)))) opts None"
    by (simp add: get_assets_def get_assets_by_condition_def order_rows_def paginate_def conj_commute)
  have empty: "get_related_for_assets d [] opts None = []"
    by (simp add: get_related_for_assets_def Let_def split: if_splits)
  show ?thesis
  proof (cases "asset_row i d")
    case None
    then show ?thesis
      by (simp add: page filter_table_ok [OF assms(1)] empty get_by_id_def Let_def)
  next
    case (Some a)
    then have a: "a_id a = i" "a_supply a \<ge> 0" "a_asset_data a = None \<or> a_asset_data a = Some i"
      using assms(4) lookup_key [OF Some] lookup_mem [OF Some] by auto
    have sel: "get_assets d [i] (Page 1) limit opts =
        (if a_supply a = 0 then [] else get_related_for_assets d [a] opts None)"
      using l a(2) by (cases "unat limit") (auto simp: page filter_table_ok [OF assms(1)] Some empty)
    show ?thesis
    proof (cases "Option.bind (a_asset_data a) (\<lambda>j. asset_data_row j d)")
      case None
      then have "insert_full (collect_map ad_id (\<lambda>ad. ad) (filter (\<lambda>ad. ad_id ad = i) (asset_data_t d))) a [] = []"
        using a(3) by (auto simp: insert_full_def filter_table_ok [OF assms(2)] collect_map_def)
      then have "get_related_for_assets d [a] opts None = []"
        using a(1) by (simp add: get_related_for_assets_def Let_def)
      then show ?thesis using None Some sel by (simp add: get_by_id_def Let_def)
    next
      case (Some ad)
      then have "a_asset_data a = Some i" "asset_data_row i d = Some ad" using a(3) by (auto simp: bind_eq_Some_conv)
      note single = get_related_single [OF assms(2,3) a(1) this assms(5,6)]
      show ?thesis
        using \<open>asset_row i d = Some a\<close> Some sel a(1) assms(5,6)
        by (simp add: single get_by_id_def Let_def shown_creators_def find_tokens_single [OF assms(3)]
            split: option.splits)
    qed
  qed
qed

theorem batch_of_one_witness:
  "get_assets read_db0 [[1]] (Page 1) 10 options0 =
    (case get_by_id ext0 reader0 read_db0 [1] options0 of Inr fa \<Rightarrow> [fa] | Inl _ \<Rightarrow> [])"
  by (rule batch_of_one)
    (simp_all add: read_db0_def empty_db_def table_ok_def asset0_def asset_data0_def options0_def)

section \<open>Where the reader falls short\<close>

text \<open>
  The collection's metadata is the asset's own. The relation from \<open>asset_grouping\<close> to \<open>asset_data\<close>
  goes through the row's \<open>asset_id\<close>, so with \<open>showCollectionMetadata\<close> the data served beside a
  collection is never the collection's: it is the data row of the asset that was asked for.
\<close>

theorem collection_metadata_is_own:
  assumes "get_by_id E R d i opts = Inr fa" "(g, Some ad) \<in> set (fa_groups fa)"
  shows "ad_id ad = i \<and> gr_asset_id g = i"
proof -
  have "(g, Some ad) \<in> set (grouping_query d (\<lambda>j. j = i) False (show_collection_metadata opts))"
    using assms(2) unfolding get_by_id_fields(4) [OF assms(1)]
    by (auto simp: filter_out_stale_asset_groupings_def split: option.splits)
  then show ?thesis
    by (auto simp: grouping_query_def related_data_def split: if_splits dest: lookup_key [OF sym])
qed

definition grouped_db0 :: db where
  "grouped_db0 = read_db0\<lparr>asset_grouping_t := [\<lparr>gr_asset_id = [1], gr_group_key = ''collection'',
     gr_group_value = Some ''C'', gr_seq = None, gr_slot_updated = Some 1, gr_verified = True,
     gr_group_info_seq = Some 0\<rparr>]\<rparr>"

theorem collection_metadata_is_own_witness:
  "\<exists>fa g ad. get_by_id ext0 reader0 grouped_db0 [1] (options0\<lparr>show_collection_metadata := True\<rparr>) = Inr fa \<and>
    (g, Some ad) \<in> set (fa_groups fa) \<and> gr_group_value g = Some ''C'' \<and> ad_id ad = [1]"
proof -
  let ?opts = "options0\<lparr>show_collection_metadata := True\<rparr>"
  obtain fa where fa: "get_by_id ext0 reader0 grouped_db0 [1] ?opts = Inr fa"
    by (rule sample_asset_found [of grouped_db0]) (simp_all add: grouped_db0_def)
  have "fa_groups fa = [(hd (asset_grouping_t grouped_db0), Some (asset_data0 [1]))]"
    unfolding get_by_id_fields(4) [OF fa]
    by (simp add: filter_out_stale_asset_groupings_def max_opt_def grouping_query_def grouping_shown_def
        related_data_def grouped_db0_def read_db0_def asset_data0_def)
  then have mem: "(hd (asset_grouping_t grouped_db0), Some (asset_data0 [1])) \<in> set (fa_groups fa)" by simp
  have "gr_group_value (hd (asset_grouping_t grouped_db0)) = Some ''C''" by (simp add: grouped_db0_def)
  with collection_metadata_is_own [OF fa mem] fa mem show ?thesis by blast
qed

lemma attach_all:
  assumes "\<And>x fa. P (k x) fa \<Longrightarrow> P (k x) (f x fa)" "\<forall>(i, fa)\<in>set m. P i fa"
  shows "\<forall>(i, fa)\<in>set (attach k f xs m). P i fa"
  using assms(2)
proof (induction xs arbitrary: m)
  case (Cons x xs)
  have "\<forall>(i, fa)\<in>set (AList.map_entry (k x) (f x) m). P i fa"
    using Cons.prems by (induction m) (auto simp: assms(1))
  from Cons.IH [OF this] show ?case by (simp add: attach_def)
qed (simp add: attach_def)

lemma insert_full_all:
  assumes "\<And>a ad. P (a_id a) \<lparr>fa_asset = a, fa_data = ad, fa_token_info = None, fa_authorities = [],
      fa_creators = [], fa_inscription = None, fa_groups = []\<rparr>"
    and "\<forall>(i, fa)\<in>set m. P i fa"
  shows "\<forall>(i, fa)\<in>set (fold (insert_full dm) as m). P i fa"
  using assms(2)
proof (induction as arbitrary: m)
  case (Cons a as)
  have upd: "\<forall>(i, fa)\<in>set (AList.update i v m). P i fa" if "P i v" for i v
    using Cons.prems that by (induction m) auto
  have "\<forall>(i, fa)\<in>set (insert_full dm a m). P i fa"
  proof (cases "Option.bind (a_asset_data a) (map_of dm)")
    case None
    with Cons.prems show ?thesis by (simp add: insert_full_def)
  next
    case (Some ad)
    with upd [OF assms(1) [of a ad]] show ?thesis by (simp add: insert_full_def)
  qed
  from Cons.IH [OF this] show ?case by simp
qed simp

text \<open>
  Lists do not find inscriptions. A query for several assets asks for the attachments of the
  assets but then looks each one up under its own address, so an asset of the list carries an
  inscription only if the inscription account's address is the asset's: an inscription account
  elsewhere, which \<open>get_by_id\<close> finds, is dropped.
\<close>

theorem list_inscription_under_own_address:
  assumes "fa \<in> set (get_related_for_assets d assets opts required)" "fa_inscription fa = Some a"
  shows "at_id a = a_id (fa_asset fa)"
proof -
  define P where "P i fa \<longleftrightarrow> i = a_id (fa_asset fa) \<and> (\<forall>a. fa_inscription fa = Some a \<longrightarrow> at_id a = i)"
    for i and fa :: full_asset
  have map: "\<forall>(i, fa)\<in>set (map (\<lambda>(i, fa). (i, fa\<lparr>fa_creators := h fa\<rparr>)) m). P i fa"
    if "\<forall>(i, fa)\<in>set m. P i fa" for h and m :: assets_map
    using that by (auto simp: P_def)
  have filter: "\<forall>(i, fa)\<in>set (case required of None \<Rightarrow> m | Some r \<Rightarrow> filter (g r) m). P i fa"
    if "\<forall>(i, fa)\<in>set m. P i fa" for g and m :: assets_map
    using that by (auto split: option.splits)
  have cond: "\<forall>(i, fa)\<in>set (if b then m else m'). P i fa"
    if "\<forall>(i, fa)\<in>set m. P i fa" "\<forall>(i, fa)\<in>set m'. P i fa" for b and m m' :: assets_map
    using that by simp
  have "\<exists>M. get_related_for_assets d assets opts required =
      map (\<lambda>(i, fa). fa\<lparr>fa_groups := filter_out_stale_asset_groupings (fa_groups fa)\<rparr>) M \<and>
      (\<forall>(i, fa)\<in>set M. P i fa)"
    unfolding get_related_for_assets_def Let_def
    by (intro exI conjI, rule refl) (intro attach_all cond map filter insert_full_all; simp add: P_def)
  with assms show ?thesis by (fastforce simp: P_def)
qed

theorem list_inscription_under_own_address_witness:
  "\<exists>fa a. get_related_for_assets (read_db0\<lparr>attachments_t := [\<lparr>at_id = [1], at_asset_id = Some [1],
      at_attachment_type = VA_TokenInscription, at_initialized = True, at_data = None, at_slot_updated = 1\<rparr>]\<rparr>)
      [asset0 [1]] (options0\<lparr>show_inscription := True\<rparr>) None = [fa] \<and>
    fa_inscription fa = Some a \<and> at_id a = a_id (fa_asset fa)"
proof -
  let ?d = "read_db0\<lparr>attachments_t := [\<lparr>at_id = [1], at_asset_id = Some [1],
      at_attachment_type = VA_TokenInscription, at_initialized = True, at_data = None, at_slot_updated = 1\<rparr>]\<rparr>"
  let ?r = "get_related_for_assets ?d [asset0 [1]] (options0\<lparr>show_inscription := True\<rparr>) None"
  have "map (\<lambda>fa. fa_inscription fa \<noteq> None) ?r = [True]" by code_simp
  then obtain fa a where fa: "?r = [fa]" "fa_inscription fa = Some a" by auto
  then have "fa \<in> set ?r" by simp
  from list_inscription_under_own_address [OF this fa(2)] have "at_id a = a_id (fa_asset fa)" .
  with fa show ?thesis by blast
qed

text \<open>
  A verification that was withdrawn still matches. \<open>getAssetsByCreator\<close> with \<open>onlyVerified\<close> joins every
  creator row, the stale ones too, and afterwards only asks whether the creator is still listed. Here
  the creator was verified in second place and is now listed alone and unverified: the asset is
  returned, with no verified creator.
\<close>

definition withdrawn_db :: db where
  "withdrawn_db = fold store_creators
     [\<lparr>cu_asset = [1], cu_creators = [creator0 1, creator0 2], cu_slot = 10, cu_seq = 3\<rparr>,
      \<lparr>cu_asset = [1], cu_creators = [(creator0 2)\<lparr>cc_verified := False\<rparr>], cu_slot = 11, cu_seq = 4\<rparr>] read_db0"

theorem withdrawn_verification_matches:
  "map (\<lambda>fa. map (\<lambda>c. (cr_creator c, cr_verified c)) (fa_creators fa))
     (get_by_creator withdrawn_db [2] True None Asc (Page 1) 10 options0) = [[([2], False)]]"
  by code_simp

end
