(* ===== verification/Ingester_Tasks.thy ===== *)
theory Ingester_Tasks
  imports Das_World
begin

text \<open>
  The errors of the ingester (\<open>nft_ingester/src/error/mod.rs\<close>) and the shape of its tasks: a task
  takes the state it runs on to a result and the next state, or does not come back at all
  (\<open>None\<close>: it panics, or it loops for ever). \<open>bind_t\<close> is Rust's \<open>?\<close>, \<open>handle_t\<close> a \<open>match\<close> on the result.
\<close>

datatype ingester_error =
    IE_ChangeLogEventMalformed
  | IE_CompressedAssetEventMalformed
  | IE_BatchInitNetworkingError string
  | IE_BatchInitIOError
  | IE_StorageListenerError string
  | IE_StorageWriteError string
  | IE_NotImplemented
  | IE_DeserializationError string
  | IE_TaskManagerError string
  | IE_ConfigurationError string
  | IE_RpcGetDataError string
  | IE_RpcDataUnsupportedFormat string
  | IE_SerializatonError string
  | IE_MessengerError string
  | IE_ParsingError string
  | IE_DatabaseError string
  | IE_UnknownTaskType string
  | IE_TaskManagerNotStarted
  | IE_UnrecoverableTaskError string
  | IE_CacheStorageWriteError string
  | IE_HttpError string
  | IE_AssetIndexError string

type_synonym ('s, 'a) task = "'s \<Rightarrow> ((ingester_error + 'a) \<times> 's) option"

definition return_t :: "'a \<Rightarrow> ('s, 'a) task" where
  "return_t x s = Some (Inr x, s)"

definition raise_t :: "ingester_error \<Rightarrow> ('s, 'a) task" where
  "raise_t e s = Some (Inl e, s)"

definition panic_t :: "('s, 'a) task" where
  "panic_t s = None"

definition lift_t :: "ingester_error + 'a \<Rightarrow> ('s, 'a) task" where
  "lift_t r s = Some (r, s)"

definition handle_t :: "('s, 'a) task \<Rightarrow> (ingester_error + 'a \<Rightarrow> ('s, 'b) task) \<Rightarrow> ('s, 'b) task" where
  "handle_t m h s = Option.bind (m s) (\<lambda>(r, s'). h r s')"

definition bind_t :: "('s, 'a) task \<Rightarrow> ('a \<Rightarrow> ('s, 'b) task) \<Rightarrow> ('s, 'b) task" where
  "bind_t m f = handle_t m (\<lambda>r. case r of Inl e \<Rightarrow> raise_t e | Inr x \<Rightarrow> f x)"

text \<open>\<open>if let Err(err) = ... { error!(...) }\<close>: an error is logged and dropped.\<close>

definition log_error :: "('s, 'a) task \<Rightarrow> ('s, unit) task" where
  "log_error m = handle_t m (\<lambda>_. return_t ())"

fun for_each :: "('a \<Rightarrow> ('s, unit) task) \<Rightarrow> 'a list \<Rightarrow> ('s, unit) task" where
  "for_each f [] = return_t ()"
| "for_each f (x # xs) = bind_t (f x) (\<lambda>_. for_each f xs)"

lemmas task_simps = return_t_def raise_t_def panic_t_def lift_t_def handle_t_def bind_t_def log_error_def

section \<open>Invariants of tasks\<close>

text \<open>
  \<open>keeps P m\<close>: whenever the task comes back, with a value or an error, the state still satisfies \<open>P\<close>;
  \<open>comes_back P m\<close>: from a state that satisfies \<open>P\<close> it does come back, and keeps \<open>P\<close>. Both pass through
  the ways tasks are put together.
\<close>

named_theorems keeps_intros \<open>tasks that keep an invariant\<close>

definition keeps :: "('s \<Rightarrow> bool) \<Rightarrow> ('s, 'a) task \<Rightarrow> bool" where
  "keeps P m \<longleftrightarrow> (\<forall>s r s'. P s \<longrightarrow> m s = Some (r, s') \<longrightarrow> P s')"

definition comes_back :: "('s \<Rightarrow> bool) \<Rightarrow> ('s, 'a) task \<Rightarrow> bool" where
  "comes_back P m \<longleftrightarrow> (\<forall>s. P s \<longrightarrow> (\<exists>r s'. m s = Some (r, s') \<and> P s'))"

lemma keepsD: "keeps P m \<Longrightarrow> P s \<Longrightarrow> m s = Some (r, s') \<Longrightarrow> P s'"
  unfolding keeps_def by blast

lemma comes_backE:
  assumes "comes_back P m" "P s"
  obtains r s' where "m s = Some (r, s')" "P s'"
  using assms unfolding comes_back_def by blast

lemma keeps_simple [keeps_intros]:
  "keeps P (return_t x)" "keeps P (raise_t e)" "keeps P panic_t" "keeps P (lift_t r)"
  by (simp_all add: keeps_def task_simps)

lemma keeps_handle [keeps_intros]:
  assumes "keeps P m" "\<And>r. keeps P (h r)"
  shows "keeps P (handle_t m h)"
proof (unfold keeps_def, intro allI impI)
  fix s r s'
  assume "P s" "handle_t m h s = Some (r, s')"
  then obtain r1 s1 where "m s = Some (r1, s1)" "h r1 s1 = Some (r, s')"
    by (auto simp: handle_t_def bind_eq_Some_conv)
  with \<open>P s\<close> show "P s'" by (blast intro: keepsD [OF assms(1)] keepsD [OF assms(2)])
qed

lemma keeps_bind [keeps_intros]: "keeps P m \<Longrightarrow> (\<And>x. keeps P (f x)) \<Longrightarrow> keeps P (bind_t m f)"
  unfolding bind_t_def by (intro keeps_intros) (auto split: sum.split intro: keeps_intros)

lemma keeps_log_error [keeps_intros]: "keeps P m \<Longrightarrow> keeps P (log_error m)"
  unfolding log_error_def by (intro keeps_intros)

lemma keeps_for_each [keeps_intros]: "(\<And>x. keeps P (f x)) \<Longrightarrow> keeps P (for_each f xs)"
  by (induction xs) (auto intro: keeps_intros)

lemma keeps_if [keeps_intros]: "keeps P m \<Longrightarrow> keeps P n \<Longrightarrow> keeps P (if b then m else n)"
  by simp

lemma keeps_case_option [keeps_intros]:
  "keeps P m \<Longrightarrow> (\<And>x. keeps P (f x)) \<Longrightarrow> keeps P (case r of None \<Rightarrow> m | Some x \<Rightarrow> f x)"
  by (simp split: option.split)

lemma keeps_case_sum [keeps_intros]:
  "(\<And>e. keeps P (g e)) \<Longrightarrow> (\<And>x. keeps P (f x)) \<Longrightarrow> keeps P (case r of Inl e \<Rightarrow> g e | Inr x \<Rightarrow> f x)"
  by (simp split: sum.split)

lemma comes_back_simple [keeps_intros]:
  "comes_back P (return_t x)" "comes_back P (raise_t e)" "comes_back P (lift_t r)"
  by (simp_all add: comes_back_def task_simps)

lemma comes_back_handle [keeps_intros]:
  assumes "comes_back P m" "\<And>r. comes_back P (h r)"
  shows "comes_back P (handle_t m h)"
proof (unfold comes_back_def, intro allI impI)
  fix s
  assume "P s"
  then obtain r1 s1 where "m s = Some (r1, s1)" "P s1" by (rule comes_backE [OF assms(1)])
  then show "\<exists>r s'. handle_t m h s = Some (r, s') \<and> P s'"
    using comes_backE [OF assms(2), of s1 r1] by (fastforce simp: handle_t_def)
qed

lemma comes_back_bind [keeps_intros]:
  "comes_back P m \<Longrightarrow> (\<And>x. comes_back P (f x)) \<Longrightarrow> comes_back P (bind_t m f)"
  unfolding bind_t_def by (intro keeps_intros) (auto split: sum.split intro: keeps_intros)

lemma comes_back_log_error [keeps_intros]: "comes_back P m \<Longrightarrow> comes_back P (log_error m)"
  unfolding log_error_def by (intro keeps_intros)

lemma comes_back_for_each [keeps_intros]: "(\<And>x. comes_back P (f x)) \<Longrightarrow> comes_back P (for_each f xs)"
  by (induction xs) (auto intro: keeps_intros)

lemma comes_back_if [keeps_intros]: "comes_back P m \<Longrightarrow> comes_back P n \<Longrightarrow> comes_back P (if b then m else n)"
  by simp

lemma comes_back_case_option [keeps_intros]:
  "comes_back P m \<Longrightarrow> (\<And>x. comes_back P (f x)) \<Longrightarrow> comes_back P (case r of None \<Rightarrow> m | Some x \<Rightarrow> f x)"
  by (simp split: option.split)

lemma comes_back_case_sum [keeps_intros]:
  "(\<And>e. comes_back P (g e)) \<Longrightarrow> (\<And>x. comes_back P (f x)) \<Longrightarrow>
    comes_back P (case r of Inl e \<Rightarrow> g e | Inr x \<Rightarrow> f x)"
  by (simp split: sum.split)

section \<open>Printing numbers\<close>

fun show_nat :: "nat \<Rightarrow> string" where
  "show_nat n = (if n < 10 then [char_of (48 + n)] else show_nat (n div 10) @ [char_of (48 + n mod 10)])"

declare show_nat.simps [simp del]

definition show_int :: "int \<Rightarrow> string" where
  "show_int i = (if i < 0 then ''-'' @ show_nat (nat (- i)) else show_nat (nat i))"

end
