(* ===== verification/Backfiller.thy ===== *)
theory Backfiller
  imports Ingester_Tasks Change_Log Account_Parsers "HOL-Library.Signed_Division" "HOL-Library.AList"
begin

text \<open>
  The backfiller (\<open>nft_ingester/src/backfiller.rs\<close>): the filler, which takes the trees whose rows in
  \<open>backfill_items\<close> show gaps, fetches the blocks in the gaps and sends their transactions to the
  ingester again, and the finder, which queues trees of the chain the index does not know.
  Other processes write the tables while it runs: \<open>o_writes\<close> is what they did before a call.
\<close>

section \<open>The task and what it talks to\<close>

record simple_backfill_item =
  si_seq :: i64
  si_slot :: i64

record gap_info =
  gi_prev :: simple_backfill_item
  gi_curr :: simple_backfill_item

record backfill_tree =
  bt_tree :: bytes
  bt_from_seq_1 :: bool
  bt_slot :: u64

record missing_tree =
  mi_tree :: pubkey
  mi_slot :: u64

text \<open>Blocks and transactions, as far as the backfiller looks into them.\<close>

record tx_meta =
  mt_err :: "string option"
  mt_loaded_addresses :: "(string list \<times> string list) option"

record encoded_tx =
  et_transaction :: bytes
  et_meta :: "tx_meta option"

record decoded_tx =
  dx_static_account_keys :: "pubkey list"
  dx_address_table_lookups :: bool

record confirmed_block =
  bl_transactions :: "encoded_tx list"
  bl_block_time :: "int option"

record tree_header =
  th_creation_slot :: u64
  th_size :: "string + nat"

text \<open>
  What is outside: the other writers of the database and its refusals, the RPC node, the block
  cache (it may refuse or lose a block), the message queue, in each case at the n-th call of the
  task; in which order concurrent requests complete; and the parsers and constants of
  third-party crates.
\<close>

record outside =
  o_writes :: "nat \<Rightarrow> db \<Rightarrow> db"
  o_db_fault :: "nat \<Rightarrow> string option"
  o_get_signatures :: "nat \<Rightarrow> pubkey \<Rightarrow> bytes option \<Rightarrow> string + (string \<times> u64) list"
  o_get_blocks :: "nat \<Rightarrow> u64 \<Rightarrow> u64 \<Rightarrow> string + u64 list"
  o_get_block :: "nat \<Rightarrow> u64 \<Rightarrow> string + confirmed_block"
  o_get_program_accounts :: "nat \<Rightarrow> string + (pubkey \<times> bytes) list"
  o_completed :: "nat \<Rightarrow> u64 list list \<Rightarrow> u64 list list"
  o_cache_insert :: "nat \<Rightarrow> u64 \<Rightarrow> int \<Rightarrow> string + bool"
  o_cache_wait :: "nat \<Rightarrow> string option"
  o_cache_keeps :: "nat \<Rightarrow> u64 \<Rightarrow> bool"
  o_send :: "nat \<Rightarrow> bytes \<Rightarrow> string option"
  o_parse_signature :: "string \<Rightarrow> string + bytes"
  o_parse_pubkey :: "string \<Rightarrow> pubkey option"
  o_decode_tx :: "bytes \<Rightarrow> decoded_tx option"
  o_bs58_into_32 :: "string \<Rightarrow> string + pubkey"
  o_serialize_tx :: "u64 \<Rightarrow> int option \<Rightarrow> encoded_tx \<Rightarrow> string + bytes"
  o_tree_header :: "bytes \<Rightarrow> string + tree_header"
  o_tree_header_size :: nat
  o_bubblegum_ID :: pubkey
  o_custom_db_err :: "string \<Rightarrow> string"

record filler =
  f_db :: db
  f_tick :: nat
  f_failure_delay :: u64
  f_cache :: "u64 \<Rightarrow> confirmed_block option"
  f_sent :: "bytes list"
  f_slept :: "u64 list"

type_synonym 'a filler_task = "(filler, 'a) task"

definition db_call :: "outside \<Rightarrow> (db \<Rightarrow> 'a \<times> db) \<Rightarrow> 'a filler_task" where
  "db_call O' f s =
    (let n = f_tick s; d = o_writes O' n (f_db s) in
     case o_db_fault O' n of
       Some e \<Rightarrow> Some (Inl (IE_StorageWriteError e), s\<lparr>f_db := d, f_tick := Suc n\<rparr>)
     | None \<Rightarrow> Some (Inr (fst (f d)), s\<lparr>f_db := snd (f d), f_tick := Suc n\<rparr>))"

definition db_read :: "outside \<Rightarrow> (db \<Rightarrow> 'a) \<Rightarrow> 'a filler_task" where
  "db_read O' f = db_call O' (\<lambda>d. (f d, d))"

definition db_exec :: "outside \<Rightarrow> (db \<Rightarrow> db) \<Rightarrow> unit filler_task" where
  "db_exec O' f = db_call O' (\<lambda>d. ((), f d))"

definition outside_call :: "(nat \<Rightarrow> ingester_error + 'a) \<Rightarrow> 'a filler_task" where
  "outside_call f s = Some (f (f_tick s), s\<lparr>f_tick := Suc (f_tick s)\<rparr>)"

definition on_items :: "(backfill_items list \<Rightarrow> backfill_items list) \<Rightarrow> db \<Rightarrow> db" where
  "on_items f d = d\<lparr>backfill_items_t := f (backfill_items_t d)\<rparr>"

definition update_tree :: "(backfill_items \<Rightarrow> backfill_items) \<Rightarrow> bytes \<Rightarrow> db \<Rightarrow> db" where
  "update_tree upd tree = on_items (map (\<lambda>r. if bf_tree r = tree then upd r else r))"

section \<open>Flags of a tree\<close>

definition mark_tree_as_backfilled :: "outside \<Rightarrow> bytes \<Rightarrow> unit filler_task" where
  "mark_tree_as_backfilled O' tree = db_exec O' (update_tree (\<lambda>r. r\<lparr>bf_backfilled := True\<rparr>) tree)"

definition mark_tree_as_failed :: "outside \<Rightarrow> bytes \<Rightarrow> unit filler_task" where
  "mark_tree_as_failed O' tree = db_exec O' (update_tree (\<lambda>r. r\<lparr>bf_failed := True\<rparr>) tree)"

definition clear_force_chk_flag :: "outside \<Rightarrow> bytes \<Rightarrow> unit filler_task" where
  "clear_force_chk_flag O' tree = db_exec O' (update_tree (\<lambda>r. r\<lparr>bf_force_chk := False\<rparr>) tree)"

definition unlock_tree :: "outside \<Rightarrow> bytes \<Rightarrow> unit filler_task" where
  "unlock_tree O' tree = db_exec O' (update_tree (\<lambda>r. r\<lparr>bf_locked := False\<rparr>) tree)"

definition delete_extra_rows_and_mark_as_backfilled :: "outside \<Rightarrow> bytes \<Rightarrow> i64 \<Rightarrow> unit filler_task" where
  "delete_extra_rows_and_mark_as_backfilled O' tree max_seq =
    bind_t (db_read O' (\<lambda>d. filter (\<lambda>r. bf_tree r = tree) (backfill_items_t d))) (\<lambda>_.
    bind_t (db_exec O' (on_items (filter (\<lambda>r. \<not> (bf_tree r = tree \<and> bf_seq r \<noteq> max_seq))))) (\<lambda>_.
    bind_t (db_read O' (\<lambda>d. filter (\<lambda>r. bf_tree r = tree \<and> bf_seq r \<noteq> max_seq) (backfill_items_t d))) (\<lambda>items.
    bind_t (if length items > 1
            then for_each (\<lambda>item. db_exec O' (on_items (filter (\<lambda>r. bf_id r \<noteq> bf_id item)))) (drop 1 items)
            else return_t ()) (\<lambda>_.
    bind_t (mark_tree_as_backfilled O' tree) (\<lambda>_.
    bind_t (clear_force_chk_flag O' tree) (\<lambda>_.
    bind_t (unlock_tree O' tree) (\<lambda>_.
    bind_t (db_read O' (\<lambda>d. filter (\<lambda>r. bf_tree r = tree) (backfill_items_t d))) (\<lambda>_.
    return_t ()))))))))"

section \<open>Delays\<close>

definition NUM_TRIES :: nat where
  "NUM_TRIES = 5"

definition INITIAL_FAILURE_DELAY :: u64 where
  "INITIAL_FAILURE_DELAY = 100"

definition MAX_FAILURE_DELAY_MS :: u64 where
  "MAX_FAILURE_DELAY_MS = 10000"

definition saturating_mul :: "u64 \<Rightarrow> u64 \<Rightarrow> u64" where
  "saturating_mul a b = (if unat a * unat b < 2 ^ 64 then a * b else - 1)"

definition sleep_and_increase_delay :: "unit filler_task" where
  "sleep_and_increase_delay s =
    (let doubled = saturating_mul (f_failure_delay s) 2 in
     return_t () (s\<lparr>f_slept := f_slept s @ [f_failure_delay s],
       f_failure_delay := (if doubled > MAX_FAILURE_DELAY_MS then MAX_FAILURE_DELAY_MS else doubled)\<rparr>))"

definition reset_delay :: "unit filler_task" where
  "reset_delay s = return_t () (s\<lparr>f_failure_delay := INITIAL_FAILURE_DELAY\<rparr>)"

section \<open>Choosing trees\<close>

definition force_chk_trees :: "backfill_items list \<Rightarrow> (bytes \<times> i64) list" where
  "force_chk_trees t =
     remdups (map (\<lambda>r. (bf_tree r, bf_slot r))
       (filter (\<lambda>r. bf_force_chk r \<and> \<not> bf_failed r \<and> \<not> bf_locked r) t))"

definition multi_row_trees :: "backfill_items list \<Rightarrow> (bytes \<times> i64) list" where
  "multi_row_trees t =
    (let free = filter (\<lambda>r. \<not> bf_failed r \<and> \<not> bf_locked r) t in
     map (\<lambda>tree. (tree, Max (set (map bf_slot (filter (\<lambda>r. bf_tree r = tree) free)))))
       (filter (\<lambda>tree. length (filter (\<lambda>r. bf_tree r = tree) free) > 1) (remdups (map bf_tree free))))"

text \<open>
  The updates of the open transaction are only visible to itself: the rows it locked so far,
  by id.
\<close>

definition lock_rows :: "i64 list \<Rightarrow> backfill_items list \<Rightarrow> backfill_items list" where
  "lock_rows ids = map (\<lambda>r. if bf_id r \<in> set ids then r\<lparr>bf_locked := True\<rparr> else r)"

fun lock_trees :: "outside \<Rightarrow> (bytes \<times> i64) list \<Rightarrow> i64 list \<Rightarrow> i64 list filler_task" where
  "lock_trees O' [] ids = return_t ids"
| "lock_trees O' ((tree, _) # trees) ids =
     bind_t (db_read O' (\<lambda>d. map bf_id (filter (\<lambda>r. bf_tree r = tree) (backfill_items_t d))))
       (\<lambda>more. lock_trees O' trees (ids @ more))"

definition get_trees_to_backfill :: "outside \<Rightarrow> backfill_tree list filler_task" where
  "get_trees_to_backfill O' =
    bind_t (db_read O' (\<lambda>_. ())) (\<lambda>_.
    bind_t (db_read O' (\<lambda>d. force_chk_trees (backfill_items_t d))) (\<lambda>forced.
    bind_t (lock_trees O' forced []) (\<lambda>ids.
    bind_t (db_read O' (\<lambda>d. multi_row_trees (lock_rows ids (backfill_items_t d)))) (\<lambda>multi.
    bind_t (lock_trees O' multi ids) (\<lambda>ids.
    bind_t (db_exec O' (on_items (lock_rows ids))) (\<lambda>_.
    return_t
      (map (\<lambda>(tree, slot). \<lparr>bt_tree = tree, bt_from_seq_1 = True, bt_slot = of_int slot\<rparr>) forced @
       map (\<lambda>(tree, slot). \<lparr>bt_tree = tree, bt_from_seq_1 = False, bt_slot = of_int slot\<rparr>) multi)))))))"

section \<open>Gaps\<close>

definition max_seq_item :: "backfill_items list \<Rightarrow> i64 option" where
  "max_seq_item rows = (case rev (sort (map bf_seq rows)) of [] \<Rightarrow> None | q # _ \<Rightarrow> Some q)"

definition get_max_seq :: "outside \<Rightarrow> bytes \<Rightarrow> i64 option filler_task" where
  "get_max_seq O' tree = db_read O' (\<lambda>d. max_seq_item (filter (\<lambda>r. bf_tree r = tree) (backfill_items_t d)))"

definition start_seq :: "bytes \<Rightarrow> backfill_items list \<Rightarrow> i64" where
  "start_seq tree t =
    (case max_seq_item (filter (\<lambda>r. bf_tree r = tree \<and> bf_backfilled r) t) of Some q \<Rightarrow> q | None \<Rightarrow> 0)"

definition rows_from :: "bytes \<Rightarrow> i64 \<Rightarrow> backfill_items list \<Rightarrow> simple_backfill_item list" where
  "rows_from tree start t =
     sort_key si_seq (remdups (map (\<lambda>r. \<lparr>si_seq = bf_seq r, si_slot = bf_slot r\<rparr>)
       (filter (\<lambda>r. bf_seq r \<ge> start \<and> bf_tree r = tree) t)))"

fun find_gaps :: "simple_backfill_item list \<Rightarrow> string + gap_info list" where
  "find_gaps (prev # next_row # rows) =
    (if si_seq next_row = si_seq prev
     then Inl (''Error in DB, identical sequence numbers with different slots: '' @
            show_int (si_slot prev) @ '', '' @ show_int (si_slot next_row))
     else map_sum id
       (\<lambda>gaps. if si_seq next_row - si_seq prev > 1 then \<lparr>gi_prev = prev, gi_curr = next_row\<rparr> # gaps else gaps)
       (find_gaps (next_row # rows)))"
| "find_gaps _ = Inr []"

definition get_missing_data :: "outside \<Rightarrow> bytes \<Rightarrow> (i64 option \<times> gap_info list) filler_task" where
  "get_missing_data O' tree =
    bind_t (db_read O' (\<lambda>d. start_seq tree (backfill_items_t d))) (\<lambda>start.
    bind_t (db_read O' (\<lambda>d. rows_from tree start (backfill_items_t d))) (\<lambda>rows.
    case find_gaps rows of
      Inl message \<Rightarrow> raise_t (IE_StorageWriteError (o_custom_db_err O' message))
    | Inr gaps \<Rightarrow> return_t (if rows = [] then None else Some (si_seq (last rows)), gaps)))"

definition num_iter :: "i64 \<Rightarrow> i64" where
  "num_iter diff = (let k = (diff + 250000) sdiv 500000 in if k = 0 then 1 else k)"

fun windows :: "nat \<Rightarrow> i64 \<Rightarrow> i64 \<Rightarrow> i64 \<Rightarrow> (i64 \<times> i64) list" where
  "windows 0 start_slot end_slot curr_slot = []"
| "windows (Suc n) start_slot end_slot curr_slot =
     (start_slot, end_slot) # windows n end_slot (min (end_slot + 500000) curr_slot) curr_slot"

definition gap_windows :: "gap_info \<Rightarrow> (i64 \<times> i64) list" where
  "gap_windows gap =
    (let prev = si_slot (gi_prev gap); last_slot = si_slot (gi_curr gap); diff = last_slot - prev
     in windows (nat (num_iter diff)) prev (prev + min 500000 diff) last_slot)"

text \<open>The requests run concurrently; those that fail are dropped.\<close>

definition get_confirmed_slots :: "outside \<Rightarrow> (i64 \<times> i64) list \<Rightarrow> u64 list filler_task" where
  "get_confirmed_slots O' ws s =
    (let n = f_tick s;
         answers = map (\<lambda>(k, a, b). o_get_blocks O' (n + k) (of_int a) (of_int b)) (enumerate 0 ws);
         ok = List.map_filter (\<lambda>x. case x of Inr slots \<Rightarrow> Some slots | Inl _ \<Rightarrow> None) answers
     in return_t (concat (o_completed O' n ok)) (s\<lparr>f_tick := n + length ws\<rparr>))"

section \<open>Blocks and transactions\<close>

definition block_key :: "u64 \<Rightarrow> string" where
  "block_key slot = ''block'' @ show_nat (unat slot)"

definition cache_get :: "outside \<Rightarrow> u64 \<Rightarrow> confirmed_block option filler_task" where
  "cache_get O' slot s =
     outside_call (\<lambda>n. Inr (if o_cache_keeps O' n slot then f_cache s slot else None)) s"

definition cache_insert :: "outside \<Rightarrow> u64 \<Rightarrow> confirmed_block \<Rightarrow> int \<Rightarrow> bool filler_task" where
  "cache_insert O' slot block cost =
    bind_t (outside_call (\<lambda>n. map_sum IE_CacheStorageWriteError id (o_cache_insert O' n slot cost)))
      (\<lambda>written s. return_t written
         (if written then s\<lparr>f_cache := (f_cache s)(slot := Some block)\<rparr> else s))"

definition fetch_block :: "outside \<Rightarrow> u64 \<Rightarrow> confirmed_block filler_task" where
  "fetch_block O' slot =
    bind_t (cache_get O' slot) (\<lambda>cached.
      case cached of
        Some block \<Rightarrow> return_t block
      | None \<Rightarrow>
         bind_t (outside_call (\<lambda>n. map_sum IE_RpcGetDataError id (o_get_block O' n slot))) (\<lambda>block.
         bind_t (cache_insert O' slot block (min 32 (int (length (bl_transactions block))))) (\<lambda>write.
         if \<not> write
         then raise_t (IE_CacheStorageWriteError (''Cache Write Failed on '' @ block_key slot @ '' is missing.''))
         else
           bind_t (outside_call (\<lambda>n. case o_cache_wait O' n of
                     Some e \<Rightarrow> Inl (IE_CacheStorageWriteError e) | None \<Rightarrow> Inr ())) (\<lambda>_.
           bind_t (cache_get O' slot) (\<lambda>cached.
             case cached of
               None \<Rightarrow> raise_t (IE_CacheStorageWriteError
                         (''Cache Procedure Failed '' @ block_key slot @ '' is missing.''))
             | Some block \<Rightarrow> return_t block)))))"

fun decode_all :: "outside \<Rightarrow> string list \<Rightarrow> ingester_error + pubkey list" where
  "decode_all O' [] = Inr []"
| "decode_all O' (k # ks) =
    (case o_bs58_into_32 O' k of
       Inl e \<Rightarrow> Inl (IE_DeserializationError e)
     | Inr key \<Rightarrow> map_sum id ((#) key) (decode_all O' ks))"

definition tx_account_keys :: "outside \<Rightarrow> decoded_tx \<Rightarrow> tx_meta \<Rightarrow> ingester_error + pubkey list" where
  "tx_account_keys O' tx meta =
     map_sum id ((@) (dx_static_account_keys tx))
      (if dx_address_table_lookups tx
       then (case mt_loaded_addresses meta of
               Some (writable, readonly) \<Rightarrow> decode_all O' (writable @ readonly)
             | None \<Rightarrow> Inr [])
       else Inr [])"

definition send_message :: "outside \<Rightarrow> bytes \<Rightarrow> unit filler_task" where
  "send_message O' m =
    bind_t (outside_call (\<lambda>n. case o_send O' n m of Some e \<Rightarrow> Inl (IE_MessengerError e) | None \<Rightarrow> Inr ()))
      (\<lambda>_ s. return_t () (s\<lparr>f_sent := f_sent s @ [m]\<rparr>))"

definition process_tx :: "outside \<Rightarrow> bytes \<Rightarrow> u64 \<Rightarrow> int option \<Rightarrow> encoded_tx \<Rightarrow> unit filler_task" where
  "process_tx O' tree slot block_time tx =
    (case et_meta tx of
       None \<Rightarrow> return_t ()
     | Some meta \<Rightarrow>
        if mt_err meta \<noteq> None then return_t ()
        else
         (case o_decode_tx O' (et_transaction tx) of
            None \<Rightarrow> return_t ()
          | Some decoded \<Rightarrow>
             if length tree \<noteq> 32 then raise_t (IE_DeserializationError ''could not convert slice to array'')
             else
               bind_t (lift_t (tx_account_keys O' decoded meta)) (\<lambda>keys.
                 if \<forall>pk\<in>set keys. pk \<noteq> tree \<and> pk \<noteq> o_bubblegum_ID O' then return_t ()
                 else
                   bind_t (lift_t (map_sum IE_SerializatonError id (o_serialize_tx O' slot block_time tx)))
                     (send_message O'))))"

definition process_slot :: "outside \<Rightarrow> bytes \<Rightarrow> u64 \<Rightarrow> unit filler_task" where
  "process_slot O' tree slot =
     bind_t (fetch_block O' slot) (\<lambda>block.
       for_each (process_tx O' tree slot (bl_block_time block)) (bl_transactions block))"

definition plug_gap :: "outside \<Rightarrow> gap_info \<Rightarrow> bytes \<Rightarrow> unit filler_task" where
  "plug_gap O' gap tree =
     bind_t (get_confirmed_slots O' (gap_windows gap)) (for_each (process_slot O' tree))"

definition fetch_and_plug_gaps :: "outside \<Rightarrow> bytes \<Rightarrow> i64 option filler_task" where
  "fetch_and_plug_gaps O' tree =
     bind_t (get_missing_data O' tree) (\<lambda>(opt_max_seq, gaps).
     bind_t (for_each (\<lambda>gap. plug_gap O' gap tree) gaps) (\<lambda>_. return_t opt_max_seq))"

section \<open>A whole tree\<close>

fun add_signatures :: "outside \<Rightarrow> (string \<times> u64) list \<Rightarrow> bytes option \<Rightarrow> u64 list \<Rightarrow>
    ingester_error + bytes option \<times> u64 list" where
  "add_signatures O' [] last_sig slots = Inr (last_sig, slots)"
| "add_signatures O' ((sig, slot) # sigs) last_sig slots =
    (case o_parse_signature O' sig of
       Inl e \<Rightarrow> Inl (IE_RpcDataUnsupportedFormat (''Failed to parse signature '' @ e))
     | Inr s \<Rightarrow> add_signatures O' sigs (Some s) (List.insert slot slots))"

text \<open>The loop over the pages of signatures ends with a page of less than 1000.\<close>

partial_function (option) find_slots_loop :: "outside \<Rightarrow> pubkey \<Rightarrow> bytes option \<Rightarrow> u64 list \<Rightarrow> u64 list filler_task"
  where
  "find_slots_loop O' address last_sig slots s =
    (let n = f_tick s; s' = s\<lparr>f_tick := Suc n\<rparr> in
     case o_get_signatures O' n address last_sig of
       Inl e \<Rightarrow> Some (Inl (IE_RpcGetDataError (''GetSignaturesForAddressWithConfig failed '' @ e)), s')
     | Inr sigs \<Rightarrow>
        (case add_signatures O' sigs last_sig slots of
           Inl e \<Rightarrow> Some (Inl e, s')
         | Inr (last_sig', slots') \<Rightarrow>
             if sigs = [] \<or> length sigs < 1000 then Some (Inr slots', s')
             else find_slots_loop O' address last_sig' slots' s'))"

definition find_slots_via_address :: "outside \<Rightarrow> pubkey \<Rightarrow> u64 list filler_task" where
  "find_slots_via_address O' address = find_slots_loop O' address None []"

definition backfill_tree_from_seq_1 :: "outside \<Rightarrow> backfill_tree \<Rightarrow> i64 option filler_task" where
  "backfill_tree_from_seq_1 O' btree =
    (if length (bt_tree btree) \<noteq> 32
     then raise_t (IE_DeserializationError ''failed to parse pubkey: TryFromSliceError(())'')
     else
       bind_t (find_slots_via_address O' (bt_tree btree)) (\<lambda>slots.
       bind_t (for_each (\<lambda>slot. plug_gap O'
          \<lparr>gi_prev = \<lparr>si_seq = 0, si_slot = as_i64 slot\<rparr>, gi_curr = \<lparr>si_seq = 0, si_slot = as_i64 slot\<rparr>\<rparr>
          (bt_tree btree)) slots) (\<lambda>_.
       return_t (Some 0))))"

section \<open>The filler\<close>

definition clean_up_backfilled_tree :: "outside \<Rightarrow> i64 option \<Rightarrow> bytes \<Rightarrow> unit filler_task" where
  "clean_up_backfilled_tree O' opt_max_seq tree =
    (case opt_max_seq of
       Some max_seq \<Rightarrow>
         handle_t (delete_extra_rows_and_mark_as_backfilled O' tree max_seq) (\<lambda>r.
           case r of Inr _ \<Rightarrow> return_t () | Inl _ \<Rightarrow> log_error (mark_tree_as_failed O' tree))
     | None \<Rightarrow> log_error (mark_tree_as_failed O' tree))"

text \<open>\<open>attempts\<close> counts down the tries that are left after this one.\<close>

fun attempts :: "outside \<Rightarrow> backfill_tree \<Rightarrow> nat \<Rightarrow> unit filler_task" where
  "attempts O' bt 0 = return_t ()"
| "attempts O' bt (Suc left) =
     handle_t (if bt_from_seq_1 bt then backfill_tree_from_seq_1 O' bt else fetch_and_plug_gaps O' (bt_tree bt))
      (\<lambda>r. case r of
         Inr opt_max_seq \<Rightarrow>
           bind_t (clean_up_backfilled_tree O' opt_max_seq (bt_tree bt)) (\<lambda>_. reset_delay)
       | Inl _ \<Rightarrow>
           if left = 0 then log_error (mark_tree_as_failed O' (bt_tree bt))
           else bind_t sleep_and_increase_delay (\<lambda>_. attempts O' bt left))"

definition filler_round :: "outside \<Rightarrow> unit filler_task" where
  "filler_round O' =
    handle_t (get_trees_to_backfill O') (\<lambda>r.
      case r of
        Inr trees \<Rightarrow> for_each (\<lambda>bt. attempts O' bt NUM_TRIES) trees
      | Inl _ \<Rightarrow> sleep_and_increase_delay)"

fun run_filler :: "outside \<Rightarrow> nat \<Rightarrow> unit filler_task" where
  "run_filler O' 0 = return_t ()"
| "run_filler O' (Suc rounds) = bind_t (filler_round O') (\<lambda>_. run_filler O' rounds)"

section \<open>The finder\<close>

text \<open>\<open>split_at_mut\<close> and the slice of eight bytes panic on accounts that are too short.\<close>

fun trees_of_accounts :: "outside \<Rightarrow> (pubkey \<times> bytes) list \<Rightarrow> (pubkey \<times> u64 \<times> u64) list \<Rightarrow>
    (ingester_error + (pubkey \<times> u64 \<times> u64) list) option" where
  "trees_of_accounts O' [] trees = Some (Inr trees)"
| "trees_of_accounts O' ((key, data) # accounts) trees =
    (if length data < o_tree_header_size O' then None
     else
      (case o_tree_header O' (take (o_tree_header_size O') data) of
         Inl e \<Rightarrow> Some (Inl (IE_RpcGetDataError e))
       | Inr header \<Rightarrow>
          (case th_size header of
             Inl e \<Rightarrow> Some (Inl (IE_RpcGetDataError e))
           | Inr tree_size \<Rightarrow>
              if length data - o_tree_header_size O' < tree_size \<or> tree_size < 8 then None
              else trees_of_accounts O' accounts
                (AList.update key
                  (th_creation_slot header, of_nat (from_le_bytes (take 8 (drop (o_tree_header_size O') data))))
                  trees))))"

definition fetch_trees_by_gpa :: "outside \<Rightarrow> (pubkey \<times> u64 \<times> u64) list filler_task" where
  "fetch_trees_by_gpa O' =
    bind_t (outside_call (\<lambda>n. map_sum IE_RpcGetDataError id (o_get_program_accounts O' n))) (\<lambda>accounts s.
      map_option (\<lambda>r. (r, s)) (trees_of_accounts O' accounts []))"

definition without :: "bytes list \<Rightarrow> (pubkey \<times> 'a) list \<Rightarrow> (pubkey \<times> 'a) list filler_task" where
  "without trees all_trees =
    (if \<forall>t\<in>set trees. length t = 32 then return_t (filter (\<lambda>(k, _). k \<notin> set trees) all_trees) else panic_t)"

definition get_missing_trees :: "outside \<Rightarrow> string list option \<Rightarrow> missing_tree list filler_task" where
  "get_missing_trees O' backfiller_trees =
    bind_t (fetch_trees_by_gpa O') (\<lambda>all_trees.
    bind_t (case backfiller_trees of
              None \<Rightarrow> return_t all_trees
            | Some only_trees \<Rightarrow>
                if \<forall>t\<in>set only_trees. o_parse_pubkey O' t \<noteq> None
                then return_t (filter (\<lambda>(k, _). Some k \<in> set (map (o_parse_pubkey O') only_trees)) all_trees)
                else panic_t) (\<lambda>all_trees.
    bind_t (db_read O' (\<lambda>d. remdups (map bf_tree (filter (\<lambda>r. bf_failed r \<or> bf_locked r) (backfill_items_t d)))))
      (\<lambda>locked_trees.
    bind_t (without locked_trees all_trees) (\<lambda>all_trees.
    bind_t (db_read O' (\<lambda>d. remdups (map cl_tree (cl_items_t d)))) (\<lambda>local_trees.
    bind_t (without local_trees all_trees) (\<lambda>all_trees.
    return_t (map (\<lambda>(k, slot, seq). \<lparr>mi_tree = k, mi_slot = slot\<rparr>) all_trees)))))))"

definition missing_row :: "missing_tree \<Rightarrow> db \<Rightarrow> db" where
  "missing_row t d =
     d\<lparr>backfill_items_t := backfill_items_t d @
         [\<lparr>bf_id = backfill_items_id_seq d, bf_tree = mi_tree t, bf_seq = 0, bf_slot = as_i64 (mi_slot t),
           bf_force_chk = True, bf_backfilled = False, bf_failed = False, bf_locked = False\<rparr>],
       backfill_items_id_seq := backfill_items_id_seq d + 1\<rparr>"

definition force_backfill_missing_trees :: "missing_tree list \<Rightarrow> db \<Rightarrow> db" where
  "force_backfill_missing_trees missing_trees = fold missing_row missing_trees"

text \<open>
  One round of the finder. A failed \<open>begin\<close> is unwrapped; the insert takes effect with the commit,
  unless it failed, and the commit of a failed transaction rolls it back.
\<close>

definition finder_round :: "outside \<Rightarrow> string list option \<Rightarrow> unit filler_task" where
  "finder_round O' backfiller_trees =
    handle_t (get_missing_trees O' backfiller_trees) (\<lambda>missing.
      case missing of
        Inl _ \<Rightarrow> return_t ()
      | Inr missing_trees \<Rightarrow>
          handle_t (db_read O' (\<lambda>_. ())) (\<lambda>begun.
            case begun of
              Inl _ \<Rightarrow> panic_t
            | Inr _ \<Rightarrow>
                if missing_trees = [] then return_t ()
                else
                  handle_t (db_read O' (\<lambda>_. ())) (\<lambda>inserted.
                    log_error (db_exec O' (case inserted of
                      Inr _ \<Rightarrow> force_backfill_missing_trees missing_trees | Inl _ \<Rightarrow> (\<lambda>d. d))))))"

end
