(* ===== verification/Backfill_Properties.thy ===== *)
theory Backfill_Properties
  imports Backfiller
begin

text \<open>
  What the backfiller guarantees: the gaps it computes, the slots it asks for, the transactions it
  sends, and the state of the queue after a round; and where it falls short of its comments.
\<close>

section \<open>Gaps\<close>

definition in_gap :: "i64 \<Rightarrow> gap_info \<Rightarrow> bool" where
  "in_gap q g \<longleftrightarrow> si_seq (gi_prev g) < q \<and> q < si_seq (gi_curr g)"

definition seq_missing :: "i64 \<Rightarrow> i64 set \<Rightarrow> bool" where
  "seq_missing q S \<longleftrightarrow> q \<notin> S \<and> (\<exists>p\<in>S. p < q) \<and> (\<exists>c\<in>S. q < c)"

lemma in_gap_pair [simp]: "in_gap q \<lparr>gi_prev = p, gi_curr = c\<rparr> \<longleftrightarrow> si_seq p < q \<and> q < si_seq c"
  by (simp add: in_gap_def)

lemma find_gaps_ends:
  "find_gaps rows = Inr gaps \<Longrightarrow> g \<in> set gaps \<Longrightarrow> gi_prev g \<in> set rows \<and> gi_curr g \<in> set rows"
proof (induction rows arbitrary: gaps rule: find_gaps.induct)
  case (1 p c rest)
  then obtain gaps' where "find_gaps (c # rest) = Inr gaps'" "si_seq c \<noteq> si_seq p"
      "gaps = (if si_seq c - si_seq p > 1 then \<lparr>gi_prev = p, gi_curr = c\<rparr> # gaps' else gaps')"
    by (cases "find_gaps (c # rest)") (auto split: if_splits)
  with 1 show ?case by (auto split: if_splits)
qed auto

lemma find_gaps_count:
  assumes "sorted (map si_seq rows)" "find_gaps rows = Inr gaps"
  shows "length (filter (in_gap q) gaps) = (if seq_missing q (si_seq ` set rows) then 1 else 0)"
  using assms
proof (induction rows arbitrary: gaps rule: find_gaps.induct)
  case (1 p c rest)
  then obtain gaps' where gaps': "find_gaps (c # rest) = Inr gaps'" "si_seq c \<noteq> si_seq p"
      "gaps = (if si_seq c - si_seq p > 1 then \<lparr>gi_prev = p, gi_curr = c\<rparr> # gaps' else gaps')"
    by (cases "find_gaps (c # rest)") (auto split: if_splits)
  have rest: "\<forall>r\<in>set rest. si_seq c \<le> si_seq r" "si_seq p < si_seq c"
    using 1(2) gaps'(2) by auto
  note IH = "1.IH" [OF gaps'(2) _ gaps'(1)]
  have count: "length (filter (in_gap q) gaps') = (if seq_missing q (si_seq ` set (c # rest)) then 1 else 0)"
    using IH 1(2) by simp
  show ?case
  proof (cases "q \<le> si_seq c")
    case True
    then have "\<not> seq_missing q (si_seq ` set (c # rest))" using rest by (fastforce simp: seq_missing_def)
    moreover have "seq_missing q (si_seq ` set (p # c # rest)) \<longleftrightarrow> si_seq p < q \<and> q < si_seq c"
      using True rest by (fastforce simp: seq_missing_def)
    ultimately show ?thesis using count gaps'(3) by auto
  next
    case False
    then have "seq_missing q (si_seq ` set (p # c # rest)) = seq_missing q (si_seq ` set (c # rest))"
      using rest by (auto simp: seq_missing_def)
    then show ?thesis using count gaps'(3) False by auto
  qed
qed (auto simp: seq_missing_def)

lemma rows_from_sorted: "sorted (map si_seq (rows_from tree start t))"
  by (simp add: rows_from_def)

lemma rows_from_seqs:
  "si_seq ` set (rows_from tree start t) = {bf_seq r | r. r \<in> set t \<and> bf_tree r = tree \<and> start \<le> bf_seq r}"
  by (auto simp: rows_from_def image_image) 

text \<open>Nobody else writes, and the database accepts every statement.\<close>

definition alone :: "outside \<Rightarrow> bool" where
  "alone O' \<longleftrightarrow> (\<forall>n d. o_writes O' n d = d)"

definition obliging :: "outside \<Rightarrow> bool" where
  "obliging O' \<longleftrightarrow> (\<forall>n. o_db_fault O' n = None)"

lemma db_read_ok: "alone O' \<Longrightarrow> obliging O' \<Longrightarrow> db_read O' f s = Some (Inr (f (f_db s)), s\<lparr>f_tick := Suc (f_tick s)\<rparr>)"
  by (simp add: db_read_def db_call_def alone_def obliging_def Let_def)

lemma db_exec_ok:
  "alone O' \<Longrightarrow> obliging O' \<Longrightarrow> db_exec O' f s = Some (Inr (), s\<lparr>f_db := f (f_db s), f_tick := Suc (f_tick s)\<rparr>)"
  by (simp add: db_exec_def db_call_def alone_def obliging_def Let_def)

lemma get_missing_data_ok:
  assumes "alone O'" "get_missing_data O' tree s = Some (Inr (opt_max, gaps), s')"
  shows "let rows = rows_from tree (start_seq tree (backfill_items_t (f_db s))) (backfill_items_t (f_db s))
    in find_gaps rows = Inr gaps \<and> opt_max = (if rows = [] then None else Some (si_seq (last rows)))"
  using assms
  by (auto simp: get_missing_data_def task_simps db_read_def db_call_def alone_def Let_def
      split: option.splits sum.splits if_splits)

lemma max_seq_item_Some:
  assumes "max_seq_item rows = Some m"
  shows "m \<in> bf_seq ` set rows \<and> (\<forall>r\<in>set rows. bf_seq r \<le> m)"
proof -
  obtain qs where "rev (sort (map bf_seq rows)) = m # qs"
    using assms by (auto simp: max_seq_item_def split: list.splits)
  then have sorted: "sort (map bf_seq rows) = rev qs @ [m]" by (simp add: rev_swap)
  then have "set (map bf_seq rows) = set (rev qs @ [m])" by (metis set_sort)
  moreover have "sorted (rev qs @ [m])" by (metis sorted sorted_sort)
  ultimately show ?thesis by (auto simp: sorted_append)
qed

lemma max_seq_item_None: "max_seq_item rows = None \<longleftrightarrow> rows = []"
  by (auto simp: max_seq_item_def split: list.splits) (metis length_sort length_map list.size(3) length_0_conv)

text \<open>What the start leaves out: the numbers up to the highest one that is marked as backfilled.\<close>

lemma missing_from_start:
  assumes "\<forall>r\<in>set t. bf_tree r = tree \<longrightarrow> 0 \<le> bf_seq r"
  shows "seq_missing q {bf_seq r | r. r \<in> set t \<and> bf_tree r = tree \<and> start_seq tree t \<le> bf_seq r} \<longleftrightarrow>
    seq_missing q {bf_seq r | r. r \<in> set t \<and> bf_tree r = tree} \<and>
    (\<forall>r\<in>set t. bf_tree r = tree \<and> bf_backfilled r \<longrightarrow> bf_seq r < q)"
proof (cases "max_seq_item (filter (\<lambda>r. bf_tree r = tree \<and> bf_backfilled r) t)")
  case None
  then have "\<forall>r\<in>set t. \<not> (bf_tree r = tree \<and> bf_backfilled r)" "start_seq tree t = 0"
    by (simp_all add: start_seq_def) (simp add: max_seq_item_None filter_empty_conv)
  moreover from this have "{bf_seq r | r. r \<in> set t \<and> bf_tree r = tree \<and> start_seq tree t \<le> bf_seq r} =
      {bf_seq r | r. r \<in> set t \<and> bf_tree r = tree}"
    using assms by auto
  ultimately show ?thesis by auto
next
  case (Some m)
  then have start: "start_seq tree t = m" by (simp add: start_seq_def)
  obtain r where r: "r \<in> set t" "bf_tree r = tree" "bf_backfilled r" "bf_seq r = m"
    and max: "\<forall>r\<in>set t. bf_tree r = tree \<and> bf_backfilled r \<longrightarrow> bf_seq r \<le> m"
    using max_seq_item_Some [OF Some] by auto
  have above: "(\<forall>r\<in>set t. bf_tree r = tree \<and> bf_backfilled r \<longrightarrow> bf_seq r < q) \<longleftrightarrow> m < q"
    using r max by fastforce
  show ?thesis
  proof (cases "m < q")
    case True
    then show ?thesis unfolding start above seq_missing_def using r by fastforce
  next
    case False
    then show ?thesis unfolding start above seq_missing_def by auto
  qed
qed

text \<open>
  C40: The backfiller sees every gap above what it has marked as backfilled, once. When it computed the gaps of a tree and
  nobody wrote the table meanwhile, a sequence number that the table lacks although it holds smaller and larger
  ones lies in exactly one gap if it is above every number marked as backfilled, and in none if it is not; any other
  number lies in no gap; and the gaps end at rows of the table.
\<close>

theorem every_gap_found:
  assumes "alone O'" "get_missing_data O' tree s = Some (Inr (opt_max, gaps), s')"
    and "\<forall>r\<in>set (backfill_items_t (f_db s)). bf_tree r = tree \<longrightarrow> 0 \<le> bf_seq r"
  shows "(\<forall>q. length (filter (in_gap q) gaps) =
        (if seq_missing q {bf_seq r | r. r \<in> set (backfill_items_t (f_db s)) \<and> bf_tree r = tree} \<and>
            (\<forall>r\<in>set (backfill_items_t (f_db s)). bf_tree r = tree \<and> bf_backfilled r \<longrightarrow> bf_seq r < q)
         then 1 else 0)) \<and>
    (\<forall>g\<in>set gaps. \<exists>r\<in>set (backfill_items_t (f_db s)). \<exists>r'\<in>set (backfill_items_t (f_db s)).
      bf_tree r = tree \<and> bf_tree r' = tree \<and> bf_seq r = si_seq (gi_prev g) \<and> bf_slot r = si_slot (gi_prev g) \<and>
      bf_seq r' = si_seq (gi_curr g) \<and> bf_slot r' = si_slot (gi_curr g))"
proof (intro conjI allI ballI)
  let ?t = "backfill_items_t (f_db s)"
  let ?rows = "rows_from tree (start_seq tree ?t) ?t"
  have gaps: "find_gaps ?rows = Inr gaps"
    using get_missing_data_ok [OF assms(1,2)] by (simp add: Let_def)
  show "length (filter (in_gap q) gaps) =
      (if seq_missing q {bf_seq r | r. r \<in> set ?t \<and> bf_tree r = tree} \<and>
          (\<forall>r\<in>set ?t. bf_tree r = tree \<and> bf_backfilled r \<longrightarrow> bf_seq r < q) then 1 else 0)"
    for q using find_gaps_count [OF rows_from_sorted gaps, of q] missing_from_start [OF assms(3), of q] by (simp add: rows_from_seqs)
  have mem: "\<exists>r\<in>set ?t. bf_tree r = tree \<and> bf_seq r = si_seq x \<and> bf_slot r = si_slot x" if "x \<in> set ?rows" for x
    using that by (auto simp: rows_from_def)
  fix g assume "g \<in> set gaps"
  then have "gi_prev g \<in> set ?rows" "gi_curr g \<in> set ?rows" using find_gaps_ends [OF gaps] by blast+
  from mem [OF this(1)] mem [OF this(2)]
  show "\<exists>r\<in>set ?t. \<exists>r'\<in>set ?t.
      bf_tree r = tree \<and> bf_tree r' = tree \<and> bf_seq r = si_seq (gi_prev g) \<and> bf_slot r = si_slot (gi_prev g) \<and>
      bf_seq r' = si_seq (gi_curr g) \<and> bf_slot r' = si_slot (gi_curr g)"
    by blast
qed

section \<open>The slots of a gap\<close>

lemma windows_cover:
  assumes "start \<le> end_slot" "end_slot \<le> last_slot" "0 < n"
  shows "(\<exists>(a, b)\<in>set (windows n start end_slot last_slot). a \<le> x \<and> x \<le> b) \<longleftrightarrow>
    start \<le> x \<and> x \<le> min last_slot (end_slot + 500000 * (int n - 1))"
  using assms
proof (induction n arbitrary: start end_slot)
  case (Suc n)
  show ?case
  proof (cases "n = 0")
    case False
    have "(\<exists>(a, b)\<in>set (windows n end_slot (min (end_slot + 500000) last_slot) last_slot). a \<le> x \<and> x \<le> b) \<longleftrightarrow>
        end_slot \<le> x \<and> x \<le> min last_slot (min (end_slot + 500000) last_slot + 500000 * (int n - 1))"
      by (rule Suc.IH) (use Suc.prems False in auto)
    moreover have "min last_slot (min (end_slot + 500000) last_slot + 500000 * (int n - 1)) =
        min last_slot (end_slot + 500000 * int n)"
      using False by (auto simp: min_def algebra_simps)
    ultimately show ?thesis using Suc.prems(1,2) by (simp add: min_def algebra_simps) linarith
  qed (use Suc.prems in auto)
qed simp

definition gap_diff :: "gap_info \<Rightarrow> i64" where
  "gap_diff gap = si_slot (gi_curr gap) - si_slot (gi_prev gap)"

lemma num_iter_nonneg: "0 \<le> diff \<Longrightarrow> num_iter diff = max 1 ((diff + 250000) div 500000)"
  by (simp add: num_iter_def signed_divide_int_def Let_def max_def)

lemma gap_windows_cover:
  assumes "0 \<le> gap_diff gap"
  shows "(\<exists>(a, b)\<in>set (gap_windows gap). a \<le> x \<and> x \<le> b) \<longleftrightarrow>
    si_slot (gi_prev gap) \<le> x \<and> x \<le> si_slot (gi_curr gap) \<and>
    (gap_diff gap \<le> 500000 \<or> x \<le> si_slot (gi_prev gap) + 500000 * num_iter (gap_diff gap))"
proof -
  let ?n = "num_iter (gap_diff gap)" and ?p = "si_slot (gi_prev gap)" and ?c = "si_slot (gi_curr gap)"
  have n: "1 \<le> ?n" "int (nat ?n) = ?n" "0 < nat ?n" using num_iter_nonneg [OF assms] by auto
  have "gap_windows gap = windows (nat ?n) ?p (?p + min 500000 (gap_diff gap)) ?c"
    by (simp add: gap_windows_def gap_diff_def Let_def)
  then have "(\<exists>(a, b)\<in>set (gap_windows gap). a \<le> x \<and> x \<le> b) \<longleftrightarrow>
      ?p \<le> x \<and> x \<le> min ?c (?p + min 500000 (gap_diff gap) + 500000 * (?n - 1))"
    using windows_cover [of ?p "?p + min 500000 (gap_diff gap)" ?c "nat ?n" x] assms n
    by (simp add: gap_diff_def min_def)
  then show ?thesis using n(1) by (auto simp: gap_diff_def min_def)
qed

text \<open>The rounds cover the gap unless the last, short one is rounded away.\<close>

definition rounds_suffice :: "i64 \<Rightarrow> bool" where
  "rounds_suffice diff \<longleftrightarrow> diff \<le> 500000 \<or> diff mod 500000 = 0 \<or> 250000 \<le> diff mod 500000"

lemma rounds_suffice_iff:
  assumes "0 \<le> diff"
  shows "rounds_suffice diff \<longleftrightarrow> diff \<le> 500000 \<or> diff \<le> 500000 * num_iter diff"
proof -
  define q r where "q = diff div 500000" and "r = diff mod 500000"
  then have qr: "diff = 500000 * q + r" "0 \<le> r" "r < 500000" "0 \<le> q" using assms by simp_all
  have "(500000 * q + r + 250000) div 500000 = q + (if 250000 \<le> r then 1 else 0)"
    by (rule int_div_pos_eq [where r = "r + (if 250000 \<le> r then - 250000 else 250000)"])
      (use qr in \<open>simp_all split: if_splits\<close>)
  then show ?thesis
    unfolding rounds_suffice_def num_iter_nonneg [OF assms] r_def [symmetric] unfolding qr(1)
    using qr(2-4) by (auto simp: max_def)
qed

text \<open>
  Which gaps are fully asked for. The slots between two rows are requested in windows of half a
  million, and the number of windows is the length rounded to the nearest: every slot of the gap
  is in a window if and only if the gap is at most one window long, a whole number of windows, or
  its last window is at least half full. A gap of 600000 slots loses its last 100000.
\<close>

theorem gap_windows_exact:
  assumes "si_slot (gi_prev gap) \<le> si_slot (gi_curr gap)"
  shows "(\<forall>x. si_slot (gi_prev gap) \<le> x \<and> x \<le> si_slot (gi_curr gap) \<longrightarrow>
      (\<exists>(a, b)\<in>set (gap_windows gap). a \<le> x \<and> x \<le> b)) \<longleftrightarrow>
    rounds_suffice (si_slot (gi_curr gap) - si_slot (gi_prev gap))"
proof -
  have nonneg: "0 \<le> gap_diff gap" using assms by (simp add: gap_diff_def)
  have "(\<forall>x. si_slot (gi_prev gap) \<le> x \<and> x \<le> si_slot (gi_curr gap) \<longrightarrow>
      (\<exists>(a, b)\<in>set (gap_windows gap). a \<le> x \<and> x \<le> b)) \<longleftrightarrow>
    gap_diff gap \<le> 500000 \<or> gap_diff gap \<le> 500000 * num_iter (gap_diff gap)"
    unfolding gap_windows_cover [OF nonneg] using assms by (auto simp: gap_diff_def)
  then show ?thesis unfolding rounds_suffice_iff [OF nonneg, symmetric] by (simp add: gap_diff_def)
qed

definition gap0 :: "i64 \<Rightarrow> gap_info" where
  "gap0 diff = \<lparr>gi_prev = \<lparr>si_seq = 1, si_slot = 1000\<rparr>, gi_curr = \<lparr>si_seq = 9, si_slot = 1000 + diff\<rparr>\<rparr>"

theorem gap_windows_exact_witness:
  "\<exists>x. 1000 \<le> x \<and> x \<le> 601000 \<and> \<not> (\<exists>(a, b)\<in>set (gap_windows (gap0 600000)). a \<le> x \<and> x \<le> b)"
  using gap_windows_exact [of "gap0 600000"] by (simp add: gap0_def rounds_suffice_def)

section \<open>What is sent\<close>

text \<open>
  The transactions the backfiller is after: they succeeded, decode, and name the tree or the
  Bubblegum program among their accounts.
\<close>

definition touches :: "outside \<Rightarrow> bytes \<Rightarrow> encoded_tx \<Rightarrow> bool" where
  "touches O' tree tx \<longleftrightarrow>
    (\<exists>meta decoded keys. et_meta tx = Some meta \<and> mt_err meta = None \<and>
       o_decode_tx O' (et_transaction tx) = Some decoded \<and> tx_account_keys O' decoded meta = Inr keys \<and>
       (tree \<in> set keys \<or> o_bubblegum_ID O' \<in> set keys))"

definition tx_message :: "outside \<Rightarrow> bytes \<Rightarrow> u64 \<Rightarrow> confirmed_block \<Rightarrow> encoded_tx \<Rightarrow> bytes list" where
  "tx_message O' tree slot block tx =
    (if touches O' tree tx
     then (case o_serialize_tx O' slot (bl_block_time block) tx of Inr m \<Rightarrow> [m] | Inl _ \<Rightarrow> []) else [])"

definition cache_agrees :: "(u64 \<Rightarrow> confirmed_block) \<Rightarrow> filler \<Rightarrow> bool" where
  "cache_agrees chain s \<longleftrightarrow> (\<forall>slot b. f_cache s slot = Some b \<longrightarrow> b = chain slot)"

definition node_agrees :: "(u64 \<Rightarrow> confirmed_block) \<Rightarrow> outside \<Rightarrow> bool" where
  "node_agrees chain O' \<longleftrightarrow> (\<forall>n slot b. o_get_block O' n slot = Inr b \<longrightarrow> b = chain slot)"

text \<open>
  \<open>sends chain L V m\<close>: when the task \<open>m\<close> succeeds it has sent the messages \<open>L\<close>, in this order, and its
  value satisfies \<open>V\<close>; the cache keeps agreeing with the chain.
\<close>

definition sends :: "(u64 \<Rightarrow> confirmed_block) \<Rightarrow> bytes list \<Rightarrow> ('a \<Rightarrow> bool) \<Rightarrow> 'a filler_task \<Rightarrow> bool" where
  "sends chain L V m \<longleftrightarrow> (\<forall>s x s'. cache_agrees chain s \<longrightarrow> m s = Some (Inr x, s') \<longrightarrow>
     cache_agrees chain s' \<and> f_sent s' = f_sent s @ L \<and> V x)"

lemma sendsD:
  "sends chain L V m \<Longrightarrow> cache_agrees chain s \<Longrightarrow> m s = Some (Inr x, s') \<Longrightarrow>
    cache_agrees chain s' \<and> f_sent s' = f_sent s @ L \<and> V x"
  unfolding sends_def by blast

lemma bind_t_Inr:
  assumes "bind_t m f s = Some (Inr y, s')"
  obtains x s1 where "m s = Some (Inr x, s1)" "f x s1 = Some (Inr y, s')"
proof (cases "m s")
  case (Some rs)
  obtain r s1 where rs: "rs = (r, s1)" by (cases rs)
  show thesis
    using assms Some by (cases r) (auto simp: rs bind_t_def handle_t_def raise_t_def intro: that)
qed (use assms in \<open>simp add: bind_t_def handle_t_def\<close>)

lemma sends_bind:
  assumes "sends chain L V m" "\<And>x. V x \<Longrightarrow> sends chain L' V' (f x)"
  shows "sends chain (L @ L') V' (bind_t m f)"
  unfolding sends_def
proof (intro allI impI)
  fix s y s'
  assume s: "cache_agrees chain s" "bind_t m f s = Some (Inr y, s')"
  then obtain x s1 where run: "m s = Some (Inr x, s1)" "f x s1 = Some (Inr y, s')" by (auto elim: bind_t_Inr)
  note one = sendsD [OF assms(1) s(1) run(1)]
  from sendsD [OF assms(2) _ run(2)] one show "cache_agrees chain s' \<and> f_sent s' = f_sent s @ L @ L' \<and> V' y"
    by simp
qed

lemmas sends_bind_quiet = sends_bind [where L = "[]", simplified]

lemma sends_return: "V x \<Longrightarrow> sends chain [] V (return_t x)"
  by (simp add: sends_def return_t_def)

lemma sends_raise: "sends chain L V (raise_t e)"
  by (simp add: sends_def raise_t_def)

lemma sends_lift: "(\<And>x. r = Inr x \<Longrightarrow> V x) \<Longrightarrow> sends chain [] V (lift_t r)"
  by (simp add: sends_def lift_t_def)

lemma sends_outside_call: "(\<And>n x. f n = Inr x \<Longrightarrow> V x) \<Longrightarrow> sends chain [] V (outside_call f)"
  by (auto simp: sends_def outside_call_def cache_agrees_def)

lemma sends_weaken: "sends chain L V m \<Longrightarrow> (\<And>x. V x \<Longrightarrow> V' x) \<Longrightarrow> sends chain L V' m"
  unfolding sends_def by blast

lemma sends_for_each:
  assumes "\<And>x. sends chain (L x) (\<lambda>_. Q x) (f x)"
  shows "sends chain (concat (map L xs)) (\<lambda>_. \<forall>x\<in>set xs. Q x) (for_each f xs)"
proof (induction xs)
  case (Cons x xs)
  have "sends chain (L x @ concat (map L xs)) (\<lambda>_. Q x \<and> (\<forall>x\<in>set xs. Q x)) (for_each f (x # xs))"
    unfolding for_each.simps
  proof (rule sends_bind [where V = "\<lambda>_. Q x"])
    show "sends chain (L x) (\<lambda>_. Q x) (f x)" by (rule assms)
    show "sends chain (concat (map L xs)) (\<lambda>_. Q x \<and> (\<forall>x\<in>set xs. Q x)) (for_each f xs)" if "Q x"
      by (rule sends_weaken [OF Cons.IH]) (use that in blast)
  qed
  then show ?case by simp
qed (simp add: sends_return)

lemma sends_message: "sends chain [m] (\<lambda>_. True) (send_message O' m)"
  by (auto simp: sends_def send_message_def cache_agrees_def outside_call_def task_simps
      bind_eq_Some_conv split: sum.splits option.splits)

lemma sends_process_tx:
  "sends chain (tx_message O' tree slot block tx)
    (\<lambda>_. touches O' tree tx \<longrightarrow> (\<exists>m. o_serialize_tx O' slot (bl_block_time block) tx = Inr m))
    (process_tx O' tree slot (bl_block_time block) tx)"
proof -
  show ?thesis
    unfolding sends_def
  proof (intro allI impI)
    fix s x s'
    assume s: "cache_agrees chain s" "process_tx O' tree slot (bl_block_time block) tx s = Some (Inr x, s')"
    show "cache_agrees chain s' \<and> f_sent s' = f_sent s @ tx_message O' tree slot block tx \<and>
        (touches O' tree tx \<longrightarrow> (\<exists>m. o_serialize_tx O' slot (bl_block_time block) tx = Inr m))"
    proof (cases "touches O' tree tx")
      case True
      then obtain meta decoded keys where t: "et_meta tx = Some meta" "mt_err meta = None"
          "o_decode_tx O' (et_transaction tx) = Some decoded" "tx_account_keys O' decoded meta = Inr keys"
          "tree \<in> set keys \<or> o_bubblegum_ID O' \<in> set keys"
        unfolding touches_def by blast
      then have "\<not> (\<forall>pk\<in>set keys. pk \<noteq> tree \<and> pk \<noteq> o_bubblegum_ID O')" by auto
      with s(2) t obtain m where m: "o_serialize_tx O' slot (bl_block_time block) tx = Inr m"
          "send_message O' m s = Some (Inr x, s')"
        by (cases "o_serialize_tx O' slot (bl_block_time block) tx")
          (auto simp: process_tx_def task_simps split: if_splits)
      with sendsD [OF sends_message s(1) m(2)] True show ?thesis by (simp add: tx_message_def)
    next
      case False
      then have "s' = s"
        using s(2) by (auto simp: process_tx_def task_simps touches_def split: option.splits if_splits sum.splits)
      with False s(1) show ?thesis by (simp add: tx_message_def)
    qed
  qed
qed

lemma sends_cache_get: "sends chain [] (\<lambda>c. \<forall>b. c = Some b \<longrightarrow> b = chain slot) (cache_get O' slot)"
  by (auto simp: sends_def cache_get_def outside_call_def cache_agrees_def)

lemma sends_cache_insert: "sends chain [] (\<lambda>_. True) (cache_insert O' slot (chain slot) cost)"
  by (auto simp: sends_def cache_insert_def outside_call_def cache_agrees_def task_simps bind_eq_Some_conv
      split: sum.splits if_splits)

lemma sends_fetch_block:
  assumes "node_agrees chain O'"
  shows "sends chain [] (\<lambda>b. b = chain slot) (fetch_block O' slot)"
  unfolding fetch_block_def
proof (rule sends_bind_quiet [OF sends_cache_get])
  fix c assume c: "\<forall>b. c = Some b \<longrightarrow> b = chain slot"
  have again: "sends chain [] (\<lambda>b. b = chain slot)
      (case c of None \<Rightarrow> raise_t e | Some block \<Rightarrow> return_t block)"
    if "\<forall>b. c = Some b \<longrightarrow> b = chain slot" for c e
    using that by (cases c) (auto intro: sends_raise sends_return)
  show "sends chain [] (\<lambda>b. b = chain slot)
     (case c of
        Some block \<Rightarrow> return_t block
      | None \<Rightarrow>
         bind_t (outside_call (\<lambda>n. map_sum IE_RpcGetDataError id (o_get_block O' n slot))) (\<lambda>block.
         bind_t (cache_insert O' slot block (min 32 (int (length (bl_transactions block))))) (\<lambda>write.
         if \<not> write
         then raise_t (IE_CacheStorageWriteError (''Cache Write Failed on '' @ block_key slot @ '' is missing.''))
         else
           bind_t (outside_call (\<lambda>n. case o_cache_wait O' n of
                     Some e \<Rightarrow> Inl (IE_CacheStorageWriteError e) | None \<Rightarrow> Inr ())) (\<lambda>_.
           bind_t (cache_get O' slot) (\<lambda>cached.
             case cached of
               None \<Rightarrow> raise_t (IE_CacheStorageWriteError
                         (''Cache Procedure Failed '' @ block_key slot @ '' is missing.''))
             | Some block \<Rightarrow> return_t block)))))"
  proof (cases c)
    case None
    have fetched: "sends chain [] (\<lambda>b. b = chain slot)
        (outside_call (\<lambda>n. map_sum IE_RpcGetDataError id (o_get_block O' n slot)))"
    proof (rule sends_outside_call)
      fix n x
      assume "map_sum IE_RpcGetDataError id (o_get_block O' n slot) = Inr x"
      then have "o_get_block O' n slot = Inr x" by (cases "o_get_block O' n slot") simp_all
      with assms show "x = chain slot" by (auto simp: node_agrees_def)
    qed
    show ?thesis
      unfolding None option.case
      apply (rule sends_bind_quiet [OF fetched])
      apply (simp only:)
      apply (rule sends_bind_quiet [OF sends_cache_insert])
      apply (auto intro!: sends_raise sends_bind_quiet [OF sends_outside_call [where V = "\<lambda>_. True"]]
          sends_bind_quiet [OF sends_cache_get] again)
      done
  qed (use c in \<open>auto intro: sends_return\<close>)
qed

lemma sends_process_slot:
  assumes "node_agrees chain O'"
  shows "sends chain (concat (map (tx_message O' tree slot (chain slot)) (bl_transactions (chain slot))))
    (\<lambda>_. \<forall>tx\<in>set (bl_transactions (chain slot)). touches O' tree tx \<longrightarrow>
       (\<exists>m. o_serialize_tx O' slot (bl_block_time (chain slot)) tx = Inr m))
    (process_slot O' tree slot)"
  unfolding process_slot_def
  by (rule sends_bind_quiet [OF sends_fetch_block [OF assms]])
    (simp only:, rule sends_for_each, rule sends_process_tx)

lemma plug_gap_sends:
  assumes "node_agrees chain O'" "cache_agrees chain s" "plug_gap O' gap tree s = Some (Inr x, s')"
  obtains slots s1 where "get_confirmed_slots O' (gap_windows gap) s = Some (Inr slots, s1)"
    "f_sent s' = f_sent s @ concat (map (\<lambda>slot. concat (map (tx_message O' tree slot (chain slot))
       (bl_transactions (chain slot)))) slots)"
    "\<forall>slot\<in>set slots. \<forall>tx\<in>set (bl_transactions (chain slot)). touches O' tree tx \<longrightarrow>
       (\<exists>m. o_serialize_tx O' slot (bl_block_time (chain slot)) tx = Inr m)"
proof -
  obtain slots s1 where run: "get_confirmed_slots O' (gap_windows gap) s = Some (Inr slots, s1)"
      "for_each (process_slot O' tree) slots s1 = Some (Inr x, s')"
    using assms(3) unfolding plug_gap_def by (rule bind_t_Inr)
  have s1: "cache_agrees chain s1" "f_sent s1 = f_sent s"
    using run(1) assms(2) by (auto simp: get_confirmed_slots_def return_t_def Let_def cache_agrees_def)
  from sendsD [OF sends_for_each [OF sends_process_slot [OF assms(1)]] s1(1) run(2)] s1(2) that [OF run(1)]
  show thesis by simp
qed

lemma set_tx_message:
  "m \<in> set (tx_message O' tree slot block tx) \<longleftrightarrow>
    touches O' tree tx \<and> o_serialize_tx O' slot (bl_block_time block) tx = Inr m"
  by (cases "o_serialize_tx O' slot (bl_block_time block) tx"; cases "touches O' tree tx")
    (simp_all add: tx_message_def eq_commute)

text \<open>
  The RPC node's \<open>getBlocks\<close>, as documented: where it answers, the answer is the confirmed slots between the bounds. The
  answers come in any order.
\<close>

definition node_lists :: "u64 list \<Rightarrow> outside \<Rightarrow> bool" where
  "node_lists confirmed O' \<longleftrightarrow>
    (\<forall>n a b slots. o_get_blocks O' n a b = Inr slots \<longrightarrow> slots = filter (\<lambda>x. a \<le> x \<and> x \<le> b) confirmed) \<and>
    (\<forall>n xs. set (o_completed O' n xs) = set xs)"

text \<open>The windows whose request is answered when the task starts at tick \<open>n\<close>.\<close>

definition answered :: "outside \<Rightarrow> nat \<Rightarrow> (i64 \<times> i64) list \<Rightarrow> (i64 \<times> i64) list" where
  "answered O' n ws = map snd (filter (\<lambda>(k, a, b). \<not> isl (o_get_blocks O' (n + k) (of_int a) (of_int b))) (enumerate 0 ws))"

lemma set_map_filtered: "set (List.map_filter f xs) = {y. \<exists>x\<in>set xs. f x = Some y}"
  by (induction xs) (auto simp: List.map_filter_simps split: option.splits)

lemma get_confirmed_slots_all:
  assumes "node_lists confirmed O'" "get_confirmed_slots O' ws s = Some (Inr slots, s1)"
  shows "x \<in> set slots \<longleftrightarrow>
    x \<in> set confirmed \<and> (\<exists>(a, b)\<in>set (answered O' (f_tick s) ws). of_int a \<le> x \<and> x \<le> of_int b)"
proof -
  define call where "call = (\<lambda>(k, a, b). o_get_blocks O' (f_tick s + k) (of_int a) (of_int b))"
  have right: "(case r of Inl _ \<Rightarrow> None | Inr slots \<Rightarrow> Some slots) = Some ys \<longleftrightarrow> r = Inr ys" for r :: "string + u64 list" and ys
    by (cases r) simp_all
  have "set slots = \<Union> (set ` set (List.map_filter (\<lambda>x. case x of Inr slots \<Rightarrow> Some slots | Inl _ \<Rightarrow> None)
      (map call (enumerate 0 ws))))"
    using assms by (auto simp: get_confirmed_slots_def return_t_def Let_def call_def node_lists_def)
  then have "x \<in> set slots \<longleftrightarrow> (\<exists>w\<in>set (enumerate 0 ws). \<exists>ys. call w = Inr ys \<and> x \<in> set ys)"
    unfolding set_map_filtered right set_map bex_simps by blast
  also have "\<dots> \<longleftrightarrow> (\<exists>w\<in>set (enumerate 0 ws). \<not> isl (call w) \<and> x \<in> set confirmed \<and>
      of_int (fst (snd w)) \<le> x \<and> x \<le> of_int (snd (snd w)))"
  proof (rule bex_cong [OF refl])
    fix w assume "w \<in> set (enumerate 0 ws)"
    obtain k a b where w: "w = (k, a, b)" by (cases w)
    show "(\<exists>ys. call w = Inr ys \<and> x \<in> set ys) \<longleftrightarrow> \<not> isl (call w) \<and> x \<in> set confirmed \<and>
      of_int (fst (snd w)) \<le> x \<and> x \<le> of_int (snd (snd w))"
    proof (cases "call w")
      case (Inr ys)
      then have "ys = filter (\<lambda>x. of_int a \<le> x \<and> x \<le> of_int b) confirmed"
        using assms(1) unfolding node_lists_def w call_def by fastforce
      with Inr show ?thesis by (auto simp: w)
    qed simp
  qed
  finally show ?thesis unfolding answered_def call_def split_def set_map set_filter by blast
qed

lemma answered_sub: "set (answered O' n ws) \<subseteq> set ws"
  by (auto simp: answered_def in_set_enumerate_eq) (metis nth_mem snd_conv)

lemma of_int_le_u64:
  fixes x :: u64
  assumes "0 \<le> a" "a < 2 ^ 63"
  shows "of_int a \<le> x \<longleftrightarrow> a \<le> uint x" "x \<le> of_int a \<longleftrightarrow> uint x \<le> a"
proof -
  have "uint (of_int a :: u64) = a" using assms by (simp add: uint_word_of_int take_bit_int_eq_self)
  then show "of_int a \<le> x \<longleftrightarrow> a \<le> uint x" "x \<le> of_int a \<longleftrightarrow> uint x \<le> a"
    by (simp_all add: word_le_def)
qed

lemma windows_bounds:
  assumes "start \<le> end_slot" "end_slot \<le> last_slot" "(a, b) \<in> set (windows n start end_slot last_slot)"
  shows "start \<le> a \<and> b \<le> last_slot \<and> a \<le> b"
  using assms
proof (induction n arbitrary: start end_slot)
  case (Suc n)
  then show ?case using Suc.IH [of end_slot "min (end_slot + 500000) last_slot"] by fastforce
qed simp

lemma gap_windows_bounds:
  "0 \<le> gap_diff gap \<Longrightarrow> (a, b) \<in> set (gap_windows gap) \<Longrightarrow>
    si_slot (gi_prev gap) \<le> a \<and> a \<le> b \<and> b \<le> si_slot (gi_curr gap)"
  using windows_bounds [of "si_slot (gi_prev gap)" "si_slot (gi_prev gap) + min 500000 (gap_diff gap)"
      "si_slot (gi_curr gap)" a b]
  by (auto simp: gap_windows_def gap_diff_def Let_def)

lemma plug_gap_slots:
  assumes "node_lists confirmed O'" "get_confirmed_slots O' (gap_windows gap) s = Some (Inr slots, s1)"
    and "0 \<le> si_slot (gi_prev gap)" "0 \<le> gap_diff gap" "si_slot (gi_curr gap) < 2 ^ 63"
  shows "x \<in> set slots \<longleftrightarrow>
    x \<in> set confirmed \<and> (\<exists>(a, b)\<in>set (answered O' (f_tick s) (gap_windows gap)). a \<le> uint x \<and> uint x \<le> b)"
proof -
  have "(case w of (a, b) \<Rightarrow> of_int a \<le> x \<and> x \<le> of_int b) = (case w of (a, b) \<Rightarrow> a \<le> uint x \<and> uint x \<le> b)"
    if "w \<in> set (answered O' (f_tick s) (gap_windows gap))" for w
  proof -
    obtain a b where ab: "w = (a, b)" by (cases w)
    have "w \<in> set (gap_windows gap)" using that answered_sub by blast
    then have "0 \<le> a" "a < 2 ^ 63" "0 \<le> b" "b < 2 ^ 63"
      using gap_windows_bounds [OF assms(4)] ab assms(3,5) by fastforce+
    then show ?thesis by (simp add: ab of_int_le_u64)
  qed
  then show ?thesis unfolding get_confirmed_slots_all [OF assms(1,2)] by (auto cong: bex_cong)
qed

text \<open>
  C39: What a plugged gap has sent, and what it can have left out. When \<open>plug_gap\<close> succeeds, with a node that returns the
  chain's blocks, the messages sent on top of the earlier ones are exactly those of the transactions that succeeded and
  name the tree or Bubblegum, in the blocks of those windows of the gap whose \<open>getBlocks\<close> request was answered; all of
  these serialise. A request that fails is not made good, and the windows asked for cover the gap only if it is at most
  one window of 500000 slots long, a whole number of windows, or its last window is at least half full.
\<close>

theorem gap_transactions_sent:
  assumes "plug_gap O' gap tree s = Some (Inr (), s')"
    and "node_agrees chain O'" "cache_agrees chain s" "node_lists confirmed O'"
    and "0 \<le> si_slot (gi_prev gap)" "si_slot (gi_prev gap) \<le> si_slot (gi_curr gap)" "si_slot (gi_curr gap) < 2 ^ 63"
  shows "(\<exists>new. f_sent s' = f_sent s @ new \<and>
      set new = {m. \<exists>slot\<in>set confirmed. \<exists>tx\<in>set (bl_transactions (chain slot)).
        (\<exists>(a, b)\<in>set (answered O' (f_tick s) (gap_windows gap)). a \<le> uint slot \<and> uint slot \<le> b) \<and> touches O' tree tx \<and>
        o_serialize_tx O' slot (bl_block_time (chain slot)) tx = Inr m}) \<and>
    (\<forall>slot\<in>set confirmed. (\<exists>(a, b)\<in>set (answered O' (f_tick s) (gap_windows gap)). a \<le> uint slot \<and> uint slot \<le> b) \<longrightarrow>
      (\<forall>tx\<in>set (bl_transactions (chain slot)). touches O' tree tx \<longrightarrow>
        (\<exists>m. o_serialize_tx O' slot (bl_block_time (chain slot)) tx = Inr m))) \<and>
    ((\<forall>x. si_slot (gi_prev gap) \<le> x \<and> x \<le> si_slot (gi_curr gap) \<longrightarrow> (\<exists>(a, b)\<in>set (gap_windows gap). a \<le> x \<and> x \<le> b)) \<longleftrightarrow>
      rounds_suffice (si_slot (gi_curr gap) - si_slot (gi_prev gap)))"
proof -
  let ?got = "answered O' (f_tick s) (gap_windows gap)"
  obtain slots s1 where run: "get_confirmed_slots O' (gap_windows gap) s = Some (Inr slots, s1)"
    and sent: "f_sent s' = f_sent s @ concat (map (\<lambda>slot. concat (map (tx_message O' tree slot (chain slot))
       (bl_transactions (chain slot)))) slots)"
    and ser: "\<forall>slot\<in>set slots. \<forall>tx\<in>set (bl_transactions (chain slot)). touches O' tree tx \<longrightarrow>
       (\<exists>m. o_serialize_tx O' slot (bl_block_time (chain slot)) tx = Inr m)"
    by (rule plug_gap_sends [OF assms(2,3,1)])
  have "x \<in> set slots \<longleftrightarrow> x \<in> set confirmed \<and> (\<exists>(a, b)\<in>set ?got. a \<le> uint x \<and> uint x \<le> b)" for x
    by (rule plug_gap_slots [OF assms(4) run]) (use assms(5-7) in \<open>simp_all add: gap_diff_def\<close>)
  then have slots: "set slots = {x \<in> set confirmed. \<exists>(a, b)\<in>set ?got. a \<le> uint x \<and> uint x \<le> b}" by blast
  show ?thesis
  proof (intro conjI)
    show "\<exists>new. f_sent s' = f_sent s @ new \<and>
      set new = {m. \<exists>slot\<in>set confirmed. \<exists>tx\<in>set (bl_transactions (chain slot)).
        (\<exists>(a, b)\<in>set ?got. a \<le> uint slot \<and> uint slot \<le> b) \<and> touches O' tree tx \<and>
        o_serialize_tx O' slot (bl_block_time (chain slot)) tx = Inr m}"
      by (rule exI, rule conjI, rule sent, rule set_eqI,
          simp only: set_concat set_map image_image UN_iff mem_Collect_eq set_tx_message slots, blast)
    show "\<forall>slot\<in>set confirmed. (\<exists>(a, b)\<in>set ?got. a \<le> uint slot \<and> uint slot \<le> b) \<longrightarrow>
      (\<forall>tx\<in>set (bl_transactions (chain slot)). touches O' tree tx \<longrightarrow>
        (\<exists>m. o_serialize_tx O' slot (bl_block_time (chain slot)) tx = Inr m))"
      using ser unfolding slots by blast
    show "(\<forall>x. si_slot (gi_prev gap) \<le> x \<and> x \<le> si_slot (gi_curr gap) \<longrightarrow> (\<exists>(a, b)\<in>set (gap_windows gap). a \<le> x \<and> x \<le> b)) \<longleftrightarrow>
      rounds_suffice (si_slot (gi_curr gap) - si_slot (gi_prev gap))"
      by (rule gap_windows_exact [OF assms(6)])
  qed
qed

section \<open>Finding the slots of a tree ends\<close>

text \<open>
  \<open>getSignaturesForAddress\<close>, as documented: the signatures of the address from the newest to the oldest,
  at most 1000, after the one named by \<open>before\<close>.
\<close>

definition after_sig :: "outside \<Rightarrow> bytes option \<Rightarrow> (string \<times> u64) list \<Rightarrow> (string \<times> u64) list" where
  "after_sig O' before history =
    (case before of
       None \<Rightarrow> history
     | Some sig \<Rightarrow> tl (dropWhile (\<lambda>x. o_parse_signature O' (fst x) \<noteq> Inr sig) history))"

definition node_pages :: "(pubkey \<Rightarrow> (string \<times> u64) list) \<Rightarrow> outside \<Rightarrow> bool" where
  "node_pages history O' \<longleftrightarrow>
    (\<forall>n a before. o_get_signatures O' n a before = Inr (take 1000 (after_sig O' before (history a)))) \<and>
    (\<forall>a. (\<forall>x\<in>set (history a). \<exists>sig. o_parse_signature O' (fst x) = Inr sig) \<and>
      distinct (map (\<lambda>x. o_parse_signature O' (fst x)) (history a)))"

lemma after_sig_split:
  assumes "distinct (map (\<lambda>x. o_parse_signature O' (fst x)) (xs @ y # ys))" "o_parse_signature O' (fst y) = Inr sig"
  shows "after_sig O' (Some sig) (xs @ y # ys) = ys"
proof -
  have "\<forall>x\<in>set xs. o_parse_signature O' (fst x) \<noteq> Inr sig" using assms by force
  then show ?thesis using assms(2) by (simp add: after_sig_def)
qed

lemma add_signatures_ok:
  assumes "\<forall>x\<in>set sigs. \<exists>sig. o_parse_signature O' (fst x) = Inr sig"
  shows "\<exists>l slots'. add_signatures O' sigs before slots = Inr (l, slots') \<and>
    set slots' = set slots \<union> snd ` set sigs \<and>
    (if sigs = [] then l = before else map_option Inr l = Some (o_parse_signature O' (fst (last sigs))))"
  using assms
proof (induction sigs arbitrary: before slots)
  case (Cons x sigs)
  obtain sig slot where x: "x = (sig, slot)" by (cases x)
  obtain b where b: "o_parse_signature O' sig = Inr b" using Cons.prems x by auto
  from Cons.IH [of "Some b" "List.insert slot slots"] Cons.prems x b show ?case
    by (auto split: if_splits)
qed simp

lemma take_drop_next:
  assumes "drop n xs = y # ys"
  shows "take (n + 1) xs = take n xs @ [y]" "drop (n + 1) xs = ys"
  using assms take_add [of n 1 xs] drop_drop [of 1 n xs] by (simp_all add: add.commute)

lemma find_slots_loop_returns:
  assumes "node_pages history O'" "history a = seen @ rest" "after_sig O' before (history a) = rest"
  shows "\<exists>slots' n. find_slots_loop O' a before slots s = Some (Inr slots', s\<lparr>f_tick := n\<rparr>) \<and>
    set slots' = set slots \<union> snd ` set rest"
  using assms(2,3)
proof (induction "length rest" arbitrary: seen rest before slots s rule: less_induct)
  case less
  let ?page = "take 1000 rest"
  have sigs: "o_get_signatures O' n a before = Inr ?page" for n
    using assms(1) less.prems(2) by (simp add: node_pages_def)
  have "\<forall>x\<in>set (history a). \<exists>sig. o_parse_signature O' (fst x) = Inr sig"
    using assms(1) unfolding node_pages_def by blast
  then have parse: "\<forall>x\<in>set rest. \<exists>sig. o_parse_signature O' (fst x) = Inr sig"
    unfolding less.prems(1) by simp
  then have "\<forall>x\<in>set ?page. \<exists>sig. o_parse_signature O' (fst x) = Inr sig" by (blast dest: in_set_takeD)
  from add_signatures_ok [OF this, of before slots] obtain l slots' where
      add: "add_signatures O' ?page before slots = Inr (l, slots')"
        "set slots' = set slots \<union> snd ` set ?page"
        "if ?page = [] then l = before else map_option Inr l = Some (o_parse_signature O' (fst (last ?page)))"
    by blast
  show ?case
  proof (cases "?page = [] \<or> length ?page < 1000")
    case True
    then have all: "?page = rest" by auto
    show ?thesis
      using True add unfolding find_slots_loop.simps [of O' a before slots s]
      by (simp add: sigs Let_def all) blast
  next
    case False
    then obtain y ys where y: "drop 999 rest = y # ys" by (cases "drop 999 rest") auto
    have page: "?page = take 999 rest @ [y]" and ys: "drop 1000 rest = ys"
      using take_drop_next [OF y] by simp_all
    have "rest = take 999 rest @ y # ys" using y by (metis append_take_drop_id)
    then have hist: "history a = (seen @ take 999 rest) @ y # ys" using less.prems(1) by simp
    obtain sig where sig: "o_parse_signature O' (fst y) = Inr sig"
      using parse y by (metis in_set_dropD list.set_intros(1))
    then have l: "l = Some sig" using add(3) False by (simp add: page)
    have dist: "distinct (map (\<lambda>x. o_parse_signature O' (fst x)) (history a))"
      using assms(1) unfolding node_pages_def by blast
    have rest': "after_sig O' (Some sig) (history a) = ys"
      unfolding hist by (rule after_sig_split [OF dist [unfolded hist] sig])
    have "length ys < length rest" using arg_cong [OF y, of length] by simp
    from less.hyps [OF this _ rest', of "seen @ take 999 rest @ [y]" slots' "s\<lparr>f_tick := Suc (f_tick s)\<rparr>"] hist
    obtain slots'' n where "find_slots_loop O' a (Some sig) slots' (s\<lparr>f_tick := Suc (f_tick s)\<rparr>) =
        Some (Inr slots'', s\<lparr>f_tick := n\<rparr>)" "set slots'' = set slots' \<union> snd ` set ys"
      by auto
    moreover have "set rest = set ?page \<union> set ys"
      using arg_cong [OF append_take_drop_id [of 1000 rest], of set] by (simp only: set_append ys)
    then have "set slots' \<union> snd ` set ys = set slots \<union> snd ` set rest"
      unfolding add(2) by (simp only: image_Un Un_assoc)
    ultimately show ?thesis
      using False unfolding find_slots_loop.simps [of O' a before slots s]
      by (simp add: sigs Let_def add(1) l) blast
  qed
qed

lemma find_slots_returns_aux:
  assumes "node_pages history O'"
  shows "\<exists>slots n. find_slots_via_address O' a s = Some (Inr slots, s\<lparr>f_tick := n\<rparr>) \<and>
    set slots = snd ` set (history a)"
  using find_slots_loop_returns [OF assms, of a "[]" "history a" None "[]" s]
  by (simp add: find_slots_via_address_def after_sig_def)

text \<open>
  The search for a tree's slots ends. With a node that pages through a finite history, the loop
  over the pages comes back whatever the length of the history, and what it returns are the
  slots of all the tree's signatures.
\<close>

theorem find_slots_returns:
  assumes "node_pages history O'"
  shows "\<exists>slots n. find_slots_via_address O' a s = Some (Inr slots, s\<lparr>f_tick := n\<rparr>) \<and>
    set slots = snd ` set (history a)"
  by (rule find_slots_returns_aux [OF assms])

section \<open>Concrete inputs\<close>

definition tree0 :: bytes where
  "tree0 = replicate 32 9"

definition block0 :: confirmed_block where
  "block0 = \<lparr>bl_transactions = [\<lparr>et_transaction = tree0, et_meta = Some \<lparr>mt_err = None, mt_loaded_addresses = None\<rparr>\<rparr>],
     bl_block_time = None\<rparr>"

definition outside0 :: outside where
  "outside0 =
    \<lparr>o_writes = (\<lambda>_ d. d), o_db_fault = (\<lambda>_. None),
     o_get_signatures = (\<lambda>_ a before. Inr (take 1000
        (case before of None \<Rightarrow> [(''s'', 5)] | Some _ \<Rightarrow> []))),
     o_get_blocks = (\<lambda>_ a b. Inr (filter (\<lambda>x. a \<le> x \<and> x \<le> b) [5, 6])),
     o_get_block = (\<lambda>_ _. Inr block0), o_get_program_accounts = (\<lambda>_. Inr []), o_completed = (\<lambda>_ xs. xs),
     o_cache_insert = (\<lambda>_ _ _. Inr True), o_cache_wait = (\<lambda>_. None), o_cache_keeps = (\<lambda>_ _. True),
     o_send = (\<lambda>_ _. None), o_parse_signature = (\<lambda>s. Inr (str_bytes s)), o_parse_pubkey = (\<lambda>s. Some (str_bytes s)),
     o_decode_tx = (\<lambda>b. Some \<lparr>dx_static_account_keys = [b], dx_address_table_lookups = False\<rparr>),
     o_bs58_into_32 = (\<lambda>s. Inr (str_bytes s)), o_serialize_tx = (\<lambda>_ _ tx. Inr (et_transaction tx)),
     o_tree_header = (\<lambda>_. Inl []), o_tree_header_size = 56, o_bubblegum_ID = [7], o_custom_db_err = (\<lambda>m. m)\<rparr>"

definition item0 :: "i64 \<Rightarrow> i64 \<Rightarrow> i64 \<Rightarrow> backfill_items" where
  "item0 i q x = \<lparr>bf_id = i, bf_tree = tree0, bf_seq = q, bf_slot = x, bf_force_chk = False,
     bf_backfilled = False, bf_failed = False, bf_locked = False\<rparr>"

definition filler0 :: "backfill_items list \<Rightarrow> filler" where
  "filler0 t = \<lparr>f_db = empty_db\<lparr>backfill_items_t := t\<rparr>, f_tick = 0, f_failure_delay = INITIAL_FAILURE_DELAY,
     f_cache = (\<lambda>_. None), f_sent = [], f_slept = []\<rparr>"

lemma outside0_quiet: "alone outside0" "obliging outside0"
  by (simp_all add: alone_def obliging_def outside0_def)

lemma outside0_node: "node_agrees (\<lambda>_. block0) outside0" "node_lists [5, 6] outside0" "cache_agrees c (filler0 t)"
  "node_pages (\<lambda>_. [(''s'', 5)]) outside0"
  by (auto simp: node_agrees_def node_lists_def node_pages_def cache_agrees_def outside0_def filler0_def after_sig_def
      split: option.splits)

theorem every_gap_found_witness:
  "\<exists>gaps s'. get_missing_data outside0 tree0 (filler0 [item0 1 1 4, (item0 2 5 5)\<lparr>bf_backfilled := True\<rparr>, item0 3 8 6]) =
      Some (Inr (Some 8, gaps), s') \<and>
    length (filter (in_gap 6) gaps) = 1 \<and> length (filter (in_gap 3) gaps) = 0"
proof -
  let ?s = "filler0 [item0 1 1 4, (item0 2 5 5)\<lparr>bf_backfilled := True\<rparr>, item0 3 8 6]"
  have "\<exists>gaps s'. get_missing_data outside0 tree0 ?s = Some (Inr (Some 8, gaps), s')"
    by (simp add: get_missing_data_def bind_t_def handle_t_def db_read_ok [OF outside0_quiet] filler0_def item0_def
        start_seq_def max_seq_item_def rows_from_def return_t_def)
  then obtain gaps s' where run: "get_missing_data outside0 tree0 ?s = Some (Inr (Some 8, gaps), s')" by blast
  have nonneg: "\<forall>r\<in>set (backfill_items_t (f_db ?s)). bf_tree r = tree0 \<longrightarrow> 0 \<le> bf_seq r"
    by (simp add: filler0_def item0_def)
  have seqs: "{bf_seq r | r. r \<in> set (backfill_items_t (f_db ?s)) \<and> bf_tree r = tree0} = {1, 5, 8}"
    by (force simp: filler0_def item0_def)
  note count = every_gap_found [OF outside0_quiet(1) run nonneg, THEN conjunct1, rule_format, unfolded seqs]
  have "length (filter (in_gap 6) gaps) = 1" "length (filter (in_gap 3) gaps) = 0"
    unfolding count by (simp_all add: seq_missing_def filler0_def item0_def)
  with run show ?thesis by blast
qed

theorem gap_transactions_sent_witness:
  "\<exists>s' new. plug_gap outside0 \<lparr>gi_prev = \<lparr>si_seq = 1, si_slot = 4\<rparr>, gi_curr = \<lparr>si_seq = 5, si_slot = 6\<rparr>\<rparr> tree0 (filler0 []) =
      Some (Inr (), s') \<and> f_sent s' = new \<and> tree0 \<in> set new"
proof -
  let ?gap = "\<lparr>gi_prev = \<lparr>si_seq = 1, si_slot = 4\<rparr>, gi_curr = \<lparr>si_seq = 5, si_slot = 6\<rparr>\<rparr>"
  have "map_option fst (plug_gap outside0 ?gap tree0 (filler0 [])) = Some (Inr ())" by code_simp
  then obtain s' where run: "plug_gap outside0 ?gap tree0 (filler0 []) = Some (Inr (), s')" by auto
  have touches: "touches outside0 tree0 \<lparr>et_transaction = tree0, et_meta = Some \<lparr>mt_err = None, mt_loaded_addresses = None\<rparr>\<rparr>"
    by (simp add: touches_def outside0_def tx_account_keys_def)
  have got: "answered outside0 (f_tick (filler0 [])) (gap_windows ?gap) = [(4, 6)]" by code_simp
  have "\<exists>new. f_sent s' = f_sent (filler0 []) @ new \<and>
    set new = {m. \<exists>slot\<in>set [5, 6]. \<exists>tx\<in>set (bl_transactions block0).
      (\<exists>(a, b)\<in>set [(4, 6)]. a \<le> uint slot \<and> uint slot \<le> b) \<and> touches outside0 tree0 tx \<and>
      o_serialize_tx outside0 slot (bl_block_time block0) tx = Inr m}"
    using gap_transactions_sent [OF run outside0_node(1,3,2), unfolded got] by simp
  then obtain new where "f_sent s' = new" "tree0 \<in> set new"
    using touches by (auto simp: filler0_def block0_def outside0_def)
  with run show ?thesis by blast
qed

theorem find_slots_returns_witness:
  "\<exists>slots n. find_slots_via_address outside0 tree0 (filler0 []) = Some (Inr slots, (filler0 [])\<lparr>f_tick := n\<rparr>) \<and>
    set slots = {5}"
  using find_slots_returns [OF outside0_node(4), of tree0 "filler0 []"] by simp

end
