(* ===== verification/Filler_Rounds.thy ===== *)
theory Filler_Rounds
  imports Backfill_Properties
begin

text \<open>
  Rounds of the filler as a whole: its delays, what a round leaves in \<open>backfill_items\<close>, and two ways in
  which the clean-up after a round does not do what its comments say.
\<close>

section \<open>What the calls leave alone\<close>

text \<open>
  Tasks that never touch the delay and the sleeping times; tasks that never touch the database when
  nobody else does.
\<close>

definition keeps_delay :: "'a filler_task \<Rightarrow> bool" where
  "keeps_delay m \<longleftrightarrow> (\<forall>v. keeps (\<lambda>s. (f_failure_delay s, f_slept s) = v) m)"

definition keeps_db :: "'a filler_task \<Rightarrow> bool" where
  "keeps_db m \<longleftrightarrow> (\<forall>d. keeps (\<lambda>s. f_db s = d) m)"

lemma keeps_delay_intros:
  "keeps_delay (return_t x)" "keeps_delay (raise_t e)" "keeps_delay (lift_t r)"
  "keeps_delay m \<Longrightarrow> (\<And>x. keeps_delay (f x)) \<Longrightarrow> keeps_delay (bind_t m f)"
  "keeps_delay m \<Longrightarrow> (\<And>r. keeps_delay (h r)) \<Longrightarrow> keeps_delay (handle_t m h)"
  "keeps_delay m \<Longrightarrow> keeps_delay (log_error m)"
  "(\<And>x. keeps_delay (g x)) \<Longrightarrow> keeps_delay (for_each g xs)"
  "keeps_delay m \<Longrightarrow> keeps_delay m' \<Longrightarrow> keeps_delay (if b then m else m')"
  "(\<And>x y. keeps_delay (k x y)) \<Longrightarrow> keeps_delay (case p of (x, y) \<Rightarrow> k x y)"
  by (auto simp: keeps_delay_def intro: keeps_intros split: prod.split)

lemma keeps_db_intros:
  "keeps_db (return_t x)" "keeps_db (raise_t e)" "keeps_db (lift_t r)"
  "keeps_db m \<Longrightarrow> (\<And>x. keeps_db (f x)) \<Longrightarrow> keeps_db (bind_t m f)"
  "keeps_db m \<Longrightarrow> (\<And>r. keeps_db (h r)) \<Longrightarrow> keeps_db (handle_t m h)"
  "keeps_db m \<Longrightarrow> keeps_db (log_error m)"
  "(\<And>x. keeps_db (g x)) \<Longrightarrow> keeps_db (for_each g xs)"
  "keeps_db m \<Longrightarrow> keeps_db m' \<Longrightarrow> keeps_db (if b then m else m')"
  "(\<And>x y. keeps_db (k x y)) \<Longrightarrow> keeps_db (case p of (x, y) \<Rightarrow> k x y)"
  by (auto simp: keeps_db_def intro: keeps_intros split: prod.split)

lemma find_slots_loop_frame:
  "find_slots_loop O' a l sl s = Some y \<Longrightarrow> \<exists>n. snd y = s\<lparr>f_tick := n\<rparr>"
  by (erule find_slots_loop.raw_induct [where P = "\<lambda>O' a l sl s y. \<exists>n. snd y = s\<lparr>f_tick := n\<rparr>", rotated])
    (fastforce simp: Let_def split: sum.splits prod.splits if_splits)

lemma simple_frames:
  "keeps_delay (db_call O' g)" "keeps_delay (db_read O' q)" "keeps_delay (db_exec O' e)" "keeps_delay (outside_call c)"
  "keeps_delay (get_confirmed_slots O' ws)" "keeps_delay (find_slots_via_address O' a)"
  "keeps_delay (cache_get O' slot)" "keeps_delay (cache_insert O' slot b cost)" "keeps_delay (send_message O' m)"
  by (auto simp: keeps_delay_def keeps_def db_call_def db_read_def db_exec_def outside_call_def get_confirmed_slots_def
      find_slots_via_address_def cache_get_def cache_insert_def send_message_def task_simps Let_def bind_eq_Some_conv
      split: option.splits sum.splits if_splits dest!: find_slots_loop_frame)

lemma simple_db_frames:
  "alone O' \<Longrightarrow> keeps_db (db_read O' q)" "keeps_db (outside_call c)"
  "keeps_db (get_confirmed_slots O' ws)" "keeps_db (find_slots_via_address O' a)"
  "keeps_db (cache_get O' slot)" "keeps_db (cache_insert O' slot b cost)" "keeps_db (send_message O' m)"
  by (auto simp: keeps_db_def keeps_def db_call_def db_read_def outside_call_def get_confirmed_slots_def alone_def
      find_slots_via_address_def cache_get_def cache_insert_def send_message_def task_simps Let_def bind_eq_Some_conv
      split: option.splits sum.splits if_splits dest!: find_slots_loop_frame)

lemma fetch_frames:
  "keeps_delay (fetch_block O' slot)" "keeps_db (fetch_block O' slot)"
  "keeps_delay (process_tx O' tree slot bt tx)" "keeps_db (process_tx O' tree slot bt tx)"
  unfolding fetch_block_def process_tx_def
  by (intro keeps_delay_intros keeps_db_intros simple_frames simple_db_frames |
      simp split: option.split add: keeps_delay_intros keeps_db_intros simple_frames simple_db_frames)+

lemma plug_gap_frames: "keeps_delay (plug_gap O' gap tree)" "keeps_db (plug_gap O' gap tree)"
  unfolding plug_gap_def process_slot_def
  by (intro keeps_delay_intros keeps_db_intros simple_frames simple_db_frames fetch_frames)+

lemma get_missing_data_frames:
  "keeps_delay (get_missing_data O' tree)" "alone O' \<Longrightarrow> keeps_db (get_missing_data O' tree)"
  unfolding get_missing_data_def
  by (intro keeps_delay_intros keeps_db_intros simple_frames simple_db_frames | assumption |
      simp split: sum.split add: keeps_delay_intros keeps_db_intros)+

lemma backfill_frames:
  "keeps_delay (fetch_and_plug_gaps O' tree)" "alone O' \<Longrightarrow> keeps_db (fetch_and_plug_gaps O' tree)"
  "keeps_delay (backfill_tree_from_seq_1 O' bt)" "keeps_db (backfill_tree_from_seq_1 O' bt)"
  unfolding fetch_and_plug_gaps_def backfill_tree_from_seq_1_def
  by (intro keeps_delay_intros keeps_db_intros simple_frames simple_db_frames plug_gap_frames get_missing_data_frames
      | assumption)+

lemma lock_trees_delay: "keeps_delay (lock_trees O' trees ids)"
  by (induction O' trees ids rule: lock_trees.induct) (auto intro: keeps_delay_intros simple_frames)

lemma get_trees_delay: "keeps_delay (get_trees_to_backfill O')"
  unfolding get_trees_to_backfill_def by (intro keeps_delay_intros simple_frames lock_trees_delay)

lemma clean_up_delay:
  "keeps_delay (mark_tree_as_failed O' tree)" "keeps_delay (clean_up_backfilled_tree O' opt_max tree)"
  unfolding clean_up_backfilled_tree_def delete_extra_rows_and_mark_as_backfilled_def mark_tree_as_failed_def
    mark_tree_as_backfilled_def clear_force_chk_flag_def unlock_tree_def
  by (intro keeps_delay_intros simple_frames |
      simp split: option.split sum.split add: keeps_delay_intros simple_frames)+

section \<open>Delays\<close>

definition delay_in_range :: "u64 \<Rightarrow> bool" where
  "delay_in_range d \<longleftrightarrow> INITIAL_FAILURE_DELAY \<le> d \<and> d \<le> MAX_FAILURE_DELAY_MS"

definition delays_ok :: "u64 list \<Rightarrow> filler \<Rightarrow> bool" where
  "delays_ok slept s \<longleftrightarrow> delay_in_range (f_failure_delay s) \<and>
    (\<exists>ds. f_slept s = slept @ ds \<and> (\<forall>d\<in>set ds. delay_in_range d))"

lemma keeps_delays_ok: "keeps_delay m \<Longrightarrow> keeps (delays_ok slept) m"
  unfolding keeps_delay_def keeps_def delays_ok_def by fastforce

lemma doubled_in_range:
  assumes "delay_in_range d"
  shows "delay_in_range (if saturating_mul d 2 > MAX_FAILURE_DELAY_MS then MAX_FAILURE_DELAY_MS else saturating_mul d 2)"
proof -
  have d: "100 \<le> unat d" "unat d \<le> 10000"
    using assms by (simp_all add: delay_in_range_def INITIAL_FAILURE_DELAY_def MAX_FAILURE_DELAY_MS_def word_le_nat_alt)
  then have "unat (d * 2) = unat d * 2" by (simp add: unat_word_ariths)
  with d show ?thesis
    by (simp add: delay_in_range_def INITIAL_FAILURE_DELAY_def MAX_FAILURE_DELAY_MS_def saturating_mul_def
        word_le_nat_alt word_less_nat_alt)
qed

lemma sleep_keeps: "keeps (delays_ok slept) sleep_and_increase_delay"
  unfolding keeps_def sleep_and_increase_delay_def
  using doubled_in_range by (fastforce simp: delays_ok_def return_t_def Let_def)

lemma reset_keeps: "keeps (delays_ok slept) reset_delay"
  by (auto simp: keeps_def reset_delay_def return_t_def delays_ok_def delay_in_range_def
      INITIAL_FAILURE_DELAY_def MAX_FAILURE_DELAY_MS_def)

lemma attempts_keeps: "keeps (delays_ok slept) (attempts O' bt n)"
proof (induction n)
  case (Suc n)
  note quiet = backfill_frames(1,3) clean_up_delay keeps_delay_intros(6)
  show ?case
    unfolding attempts.simps
    by (intro keeps_intros keeps_delays_ok [OF keeps_delay_intros(8)] keeps_delays_ok [OF clean_up_delay(2)]
        keeps_delays_ok [OF keeps_delay_intros(6)] Suc.IH sleep_keeps reset_keeps quiet)
qed (simp add: keeps_intros)

lemma run_filler_keeps: "keeps (delays_ok slept) (run_filler O' rounds)"
proof (induction rounds)
  case (Suc rounds)
  have "keeps (delays_ok slept) (filler_round O')"
    unfolding filler_round_def
    by (intro keeps_intros keeps_delays_ok [OF get_trees_delay] attempts_keeps sleep_keeps)
  then show ?case unfolding run_filler.simps by (intro keeps_intros Suc.IH)
qed (simp add: keeps_intros)

text \<open>
  The delays stay between their bounds. Whatever the database, the node, the cache and the queue
  answer, and however many rounds run, every time the filler sleeps is between 100 ms and 10 s,
  and so is the delay it keeps for the next failure.
\<close>

theorem delays_bounded:
  assumes "delay_in_range (f_failure_delay s)" "run_filler O' rounds s = Some (r, s')"
  shows "delay_in_range (f_failure_delay s') \<and>
    (\<exists>ds. f_slept s' = f_slept s @ ds \<and> (\<forall>d\<in>set ds. delay_in_range d))"
proof -
  have "delays_ok (f_slept s) s" using assms(1) by (simp add: delays_ok_def)
  from keepsD [OF run_filler_keeps this assms(2)] show ?thesis by (simp add: delays_ok_def)
qed

theorem delays_bounded_witness:
  "\<exists>r s'. run_filler outside0 1 (filler0 [item0 1 1 4, item0 2 5 6]) = Some (r, s') \<and>
    delay_in_range (f_failure_delay s')"
proof -
  let ?s = "filler0 [item0 1 1 4, item0 2 5 6]"
  have "map_option fst (run_filler outside0 1 ?s) = Some (Inr ())" by code_simp
  then obtain s' where run: "run_filler outside0 1 ?s = Some (Inr (), s')" by auto
  have "delay_in_range (f_failure_delay ?s)"
    by (simp add: filler0_def delay_in_range_def INITIAL_FAILURE_DELAY_def MAX_FAILURE_DELAY_MS_def)
  from delays_bounded [OF this run] run show ?thesis by blast
qed

section \<open>What a round leaves\<close>

definition rows_of :: "bytes \<Rightarrow> backfill_items list \<Rightarrow> backfill_items list" where
  "rows_of tree t = filter (\<lambda>r. bf_tree r = tree) t"

lemma rows_of_map:
  assumes "\<And>r. bf_tree (upd r) = bf_tree r"
  shows "rows_of A (map (\<lambda>r. if bf_tree r = tree then upd r else r) t) =
    (if A = tree then map upd (rows_of A t) else rows_of A t)"
  using assms by (induction t) (auto simp: rows_of_def)

lemma rows_of_filter: "rows_of A (filter (\<lambda>r. bf_tree r = tree \<longrightarrow> P r) t) =
    (if A = tree then filter P (rows_of A t) else rows_of A t)"
  by (induction t) (auto simp: rows_of_def)

lemma items_on_items [simp]: "backfill_items_t (on_items f d) = f (backfill_items_t d)"
  by (simp add: on_items_def)

lemma items_update_tree [simp]:
  "backfill_items_t (update_tree upd tree d) =
    map (\<lambda>r. if bf_tree r = tree then upd r else r) (backfill_items_t d)"
  by (simp add: update_tree_def)

lemma mark_failed_ok:
  assumes "alone O'" "obliging O'"
  shows "\<exists>s'. log_error (mark_tree_as_failed O' tree) s = Some (Inr (), s') \<and>
    rows_of tree (backfill_items_t (f_db s')) =
      map (\<lambda>r. r\<lparr>bf_failed := True\<rparr>) (rows_of tree (backfill_items_t (f_db s))) \<and>
    (\<forall>A. A \<noteq> tree \<longrightarrow> rows_of A (backfill_items_t (f_db s')) = rows_of A (backfill_items_t (f_db s)))"
  by (simp add: log_error_def handle_t_def mark_tree_as_failed_def db_exec_ok [OF assms] return_t_def rows_of_map)

lemma delete_extra_ok:
  assumes "alone O'" "obliging O'"
  shows "\<exists>s'. delete_extra_rows_and_mark_as_backfilled O' tree m s = Some (Inr (), s') \<and>
    rows_of tree (backfill_items_t (f_db s')) =
      map (\<lambda>r. r\<lparr>bf_force_chk := False, bf_backfilled := True, bf_locked := False\<rparr>)
        (filter (\<lambda>r. bf_seq r = m) (rows_of tree (backfill_items_t (f_db s)))) \<and>
    (\<forall>A. A \<noteq> tree \<longrightarrow> rows_of A (backfill_items_t (f_db s')) = rows_of A (backfill_items_t (f_db s)))"
proof -
  have none: "filter (\<lambda>r. bf_tree r = tree \<and> bf_seq r \<noteq> m)
      (filter (\<lambda>r. \<not> (bf_tree r = tree \<and> bf_seq r \<noteq> m)) t) = []" for t :: "backfill_items list"
    by (auto simp: filter_empty_conv)
  show ?thesis
    by (simp only: delete_extra_rows_and_mark_as_backfilled_def bind_t_def handle_t_def db_read_ok [OF assms]
        db_exec_ok [OF assms] mark_tree_as_backfilled_def clear_force_chk_flag_def unlock_tree_def return_t_def
        bind.bind_lunit prod.case sum.case filler.simps items_on_items none list.size not_less_zero if_False
        items_update_tree)
      (simp add: return_t_def handle_t_def db_read_ok [OF assms] db_exec_ok [OF assms] rows_of_map rows_of_filter
        del: map_map, simp add: o_def)
qed

text \<open>
  What dealing with a tree once does to its rows: either all are marked as failed, or the rows with one sequence
  number are kept, free and marked as backfilled, and the others are gone. The number is 0 after a full backfill, and
  the highest one otherwise.
\<close>

definition backfilled_rows :: "i64 \<Rightarrow> backfill_items list \<Rightarrow> backfill_items list" where
  "backfilled_rows m rows =
    map (\<lambda>r. r\<lparr>bf_force_chk := False, bf_backfilled := True, bf_locked := False\<rparr>) (filter (\<lambda>r. bf_seq r = m) rows)"

definition kept_seq :: "bool \<Rightarrow> backfill_items list \<Rightarrow> i64" where
  "kept_seq full rows = (if full then 0 else Max (bf_seq ` set rows))"

definition dealt_with :: "bool \<Rightarrow> bool \<Rightarrow> backfill_items list \<Rightarrow> backfill_items list \<Rightarrow> bool" where
  "dealt_with bad full rows rows' \<longleftrightarrow>
    bad \<and> rows' = map (\<lambda>r. r\<lparr>bf_failed := True\<rparr>) rows \<or> rows' = backfilled_rows (kept_seq full rows) rows"

definition settles :: "bool \<Rightarrow> bool \<Rightarrow> bytes \<Rightarrow> filler \<Rightarrow> filler \<Rightarrow> bool" where
  "settles bad full tree s s' \<longleftrightarrow>
    dealt_with bad full (rows_of tree (backfill_items_t (f_db s))) (rows_of tree (backfill_items_t (f_db s'))) \<and>
    (\<forall>A. A \<noteq> tree \<longrightarrow> rows_of A (backfill_items_t (f_db s')) = rows_of A (backfill_items_t (f_db s)))"

lemma mark_failed_settles:
  assumes "alone O'" "obliging O'" bad
  shows "\<exists>s'. log_error (mark_tree_as_failed O' tree) s = Some (Inr (), s') \<and> settles bad full tree s s'"
  using mark_failed_ok [OF assms(1,2), of tree s] assms(3) by (force simp: settles_def dealt_with_def)

lemma clean_up_settles:
  assumes "alone O'" "obliging O'"
    and "\<And>m. opt_max = Some m \<Longrightarrow> m = kept_seq full (rows_of tree (backfill_items_t (f_db s)))"
    and "opt_max = None \<Longrightarrow> bad"
  shows "\<exists>s'. clean_up_backfilled_tree O' opt_max tree s = Some (Inr (), s') \<and> settles bad full tree s s'"
proof (cases opt_max)
  case None
  then show ?thesis using mark_failed_settles [OF assms(1,2) assms(4)] by (simp add: clean_up_backfilled_tree_def)
next
  case (Some m)
  from delete_extra_ok [OF assms(1,2), of tree m s] assms(3) [OF Some] obtain s' where
    "delete_extra_rows_and_mark_as_backfilled O' tree m s = Some (Inr (), s')" "settles bad full tree s s'"
    by (force simp: settles_def dealt_with_def backfilled_rows_def)
  with Some show ?thesis by (auto simp: clean_up_backfilled_tree_def handle_t_def return_t_def)
qed

text \<open>The number each kind of backfill hands to the clean-up.\<close>

lemma last_row_max:
  assumes "rows_from tree (start_seq tree t) t \<noteq> []"
  shows "si_seq (last (rows_from tree (start_seq tree t) t)) = Max (bf_seq ` set (rows_of tree t))"
proof -
  let ?rows = "rows_from tree (start_seq tree t) t"
  obtain ys y where ys: "?rows = ys @ [y]" using assms by (cases ?rows rule: rev_cases) auto
  have seqs: "si_seq ` set ?rows = {bf_seq r | r. r \<in> set t \<and> bf_tree r = tree \<and> start_seq tree t \<le> bf_seq r}"
    by (rule rows_from_seqs)
  have top: "x \<le> si_seq y" if "x \<in> si_seq ` set ?rows" for x
    using that rows_from_sorted [of tree "start_seq tree t" t] by (auto simp: ys sorted_append)
  have "si_seq y \<in> si_seq ` set ?rows" by (simp add: ys)
  then have y: "si_seq y \<in> bf_seq ` set (rows_of tree t)" "start_seq tree t \<le> si_seq y"
    unfolding seqs by (auto simp: rows_of_def)
  have "x \<le> si_seq y" if "x \<in> bf_seq ` set (rows_of tree t)" for x
  proof (cases "start_seq tree t \<le> x")
    case True
    then have "x \<in> si_seq ` set ?rows" using that unfolding seqs by (auto simp: rows_of_def)
    then show ?thesis by (rule top)
  qed (use y(2) in simp)
  with y(1) show ?thesis unfolding ys last_snoc by (intro Max_eqI [symmetric]) simp_all
qed

lemma backfill_number:
  assumes "alone O'"
    and "(if bt_from_seq_1 bt then backfill_tree_from_seq_1 O' bt else fetch_and_plug_gaps O' (bt_tree bt)) s = Some (Inr (Some m), s1)"
  shows "m = kept_seq (bt_from_seq_1 bt) (rows_of (bt_tree bt) (backfill_items_t (f_db s)))"
proof (cases "bt_from_seq_1 bt")
  case True
  with assms(2) show ?thesis
    by (auto simp: kept_seq_def backfill_tree_from_seq_1_def raise_t_def return_t_def elim!: bind_t_Inr split: if_splits)
next
  case False
  with assms(2) obtain gaps s2 where "get_missing_data O' (bt_tree bt) s = Some (Inr (Some m, gaps), s2)"
    by (auto simp: fetch_and_plug_gaps_def return_t_def elim!: bind_t_Inr split: prod.splits)
  from get_missing_data_ok [OF assms(1) this] last_row_max False show ?thesis
    by (auto simp: Let_def kept_seq_def split: if_splits)
qed

text \<open>Nothing outside fails; and the rows of a tree give every sequence number one slot.\<close>

definition all_well :: "outside \<Rightarrow> bool" where
  "all_well O' \<longleftrightarrow>
    (\<forall>n slot. \<not> isl (o_get_block O' n slot)) \<and> (\<forall>n slot c. o_cache_insert O' n slot c = Inr True) \<and>
    (\<forall>n. o_cache_wait O' n = None) \<and> (\<forall>n slot. o_cache_keeps O' n slot) \<and> (\<forall>n m. o_send O' n m = None) \<and>
    (\<forall>k. \<not> isl (o_bs58_into_32 O' k)) \<and> (\<forall>slot time tx. \<not> isl (o_serialize_tx O' slot time tx))"

definition one_slot_each :: "backfill_items list \<Rightarrow> bool" where
  "one_slot_each rows \<longleftrightarrow>
    (\<forall>r\<in>set rows. 0 \<le> bf_seq r \<and> (\<forall>r'\<in>set rows. bf_seq r = bf_seq r' \<longrightarrow> bf_slot r = bf_slot r'))"

text \<open>When a backfill can fail.\<close>

definition can_fail :: "outside \<Rightarrow> bool \<Rightarrow> bytes \<Rightarrow> backfill_items list \<Rightarrow> bool" where
  "can_fail O' full tree rows \<longleftrightarrow>
    \<not> (all_well O' \<and> length tree = 32 \<and> (full \<or> one_slot_each rows \<and> rows \<noteq> []))"

definition succeeds :: "'a filler_task \<Rightarrow> bool" where
  "succeeds m \<longleftrightarrow> (\<forall>s. \<exists>x s'. m s = Some (Inr x, s'))"

lemma succeeds_bind: "succeeds m \<Longrightarrow> (\<And>x. succeeds (f x)) \<Longrightarrow> succeeds (bind_t m f)"
  unfolding succeeds_def bind_t_def handle_t_def by (metis (no_types, lifting) bind.bind_lunit old.prod.case old.sum.simps(6))

lemma succeeds_return: "succeeds (return_t x)"
  by (simp add: succeeds_def return_t_def)

lemma succeeds_for_each: "(\<And>x. succeeds (f x)) \<Longrightarrow> succeeds (for_each f xs)"
  by (induction xs) (simp_all add: succeeds_return succeeds_bind)

lemma succeeds_unit: "succeeds m \<Longrightarrow> \<exists>s'. m s = Some (Inr (), s')"
  unfolding succeeds_def by auto

lemma succeeds_lift: "\<not> isl r \<Longrightarrow> succeeds (lift_t r)"
  by (cases r) (simp_all add: succeeds_def lift_t_def)

lemma succeeds_send: "all_well O' \<Longrightarrow> succeeds (send_message O' m)"
  by (simp add: succeeds_def send_message_def task_simps outside_call_def all_well_def)

lemma account_keys_well:
  assumes "all_well O'"
  shows "\<not> isl (tx_account_keys O' tx meta)"
proof -
  have "\<not> isl (decode_all O' xs)" for xs
  proof (induction xs)
    case (Cons k xs)
    have "\<not> isl (o_bs58_into_32 O' k)" using assms by (simp add: all_well_def)
    with Cons show ?case by (cases "o_bs58_into_32 O' k") (simp_all add: isl_map_sum)
  qed simp
  then show ?thesis by (auto simp: tx_account_keys_def isl_map_sum split: option.split)
qed

lemma process_tx_well:
  assumes "all_well O'" "length tree = 32"
  shows "succeeds (process_tx O' tree slot time tx)"
proof -
  have "\<not> isl (map_sum IE_SerializatonError id (o_serialize_tx O' slot time tx))"
    using assms(1) by (simp add: all_well_def isl_map_sum)
  then show ?thesis
    unfolding process_tx_def
    by (auto simp: assms(2) intro!: succeeds_return succeeds_bind succeeds_lift account_keys_well [OF assms(1)]
        succeeds_send [OF assms(1)] split: option.split)
qed

lemma fetch_block_well:
  assumes "all_well O'"
  shows "succeeds (fetch_block O' slot)"
  unfolding succeeds_def
proof
  fix s :: filler
  obtain b where "o_get_block O' (Suc (f_tick s)) slot = Inr b"
    using assms unfolding all_well_def by (metis isl_def sum.exhaust)
  then show "\<exists>x s'. fetch_block O' slot s = Some (Inr x, s')"
    using assms
    by (cases "f_cache s slot")
      (simp_all add: fetch_block_def bind_t_def handle_t_def return_t_def cache_get_def cache_insert_def outside_call_def
        all_well_def)
qed

lemma plug_gap_well:
  assumes "all_well O'" "length tree = 32"
  shows "succeeds (plug_gap O' gap tree)"
proof -
  have "succeeds (get_confirmed_slots O' ws)" for ws
    by (simp add: succeeds_def get_confirmed_slots_def return_t_def Let_def)
  then show ?thesis
    unfolding plug_gap_def process_slot_def
    by (intro succeeds_bind succeeds_for_each fetch_block_well process_tx_well assms)
qed

lemma find_gaps_total: "distinct (map si_seq rows) \<Longrightarrow> \<exists>gaps. find_gaps rows = Inr gaps"
proof (induction rows rule: find_gaps.induct)
  case (1 prev next_row rows)
  then obtain gaps where "find_gaps (next_row # rows) = Inr gaps" by auto
  with 1(2) show ?case by simp
qed simp_all

lemma rows_from_distinct:
  assumes "one_slot_each (rows_of tree t)"
  shows "distinct (map si_seq (rows_from tree start t))"
proof -
  have "inj_on si_seq (set (rows_from tree start t))"
  proof (rule inj_onI)
    fix x y
    assume "x \<in> set (rows_from tree start t)" "y \<in> set (rows_from tree start t)" and seq: "si_seq x = si_seq y"
    then obtain r r' where r: "r \<in> set (rows_of tree t)" "x = \<lparr>si_seq = bf_seq r, si_slot = bf_slot r\<rparr>"
      "r' \<in> set (rows_of tree t)" "y = \<lparr>si_seq = bf_seq r', si_slot = bf_slot r'\<rparr>"
      by (auto simp: rows_from_def rows_of_def)
    have same: "bf_seq r = bf_seq r'" using seq unfolding r(2,4) by simp
    with assms r(1,3) have "bf_slot r = bf_slot r'" unfolding one_slot_each_def by blast
    with same show "x = y" unfolding r(2,4) by simp
  qed
  then show ?thesis by (simp add: distinct_map) (simp add: rows_from_def)
qed

lemma rows_from_nonempty:
  assumes "one_slot_each (rows_of tree t)" "rows_of tree t \<noteq> []"
  shows "rows_from tree (start_seq tree t) t \<noteq> []"
proof (cases "max_seq_item (filter (\<lambda>r. bf_tree r = tree \<and> bf_backfilled r) t)")
  case None
  obtain r where "r \<in> set (rows_of tree t)" using assms(2) by (cases "rows_of tree t") auto
  moreover from this have "0 \<le> bf_seq r" using assms(1) by (simp add: one_slot_each_def)
  ultimately have "bf_seq r \<in> si_seq ` set (rows_from tree (start_seq tree t) t)"
    unfolding rows_from_seqs by (auto simp: start_seq_def None rows_of_def)
  then show ?thesis by auto
next
  case (Some m)
  obtain r where "r \<in> set t" "bf_tree r = tree" "bf_seq r = m"
    using max_seq_item_Some [OF Some] by auto
  then have "bf_seq r \<in> si_seq ` set (rows_from tree (start_seq tree t) t)"
    unfolding rows_from_seqs by (auto simp: start_seq_def Some)
  then show ?thesis by auto
qed

lemma backfill_well:
  assumes "alone O'" "obliging O'" "node_pages history O'"
    and "\<not> can_fail O' (bt_from_seq_1 bt) (bt_tree bt) (rows_of (bt_tree bt) (backfill_items_t (f_db s)))"
  shows "\<exists>m s1. (if bt_from_seq_1 bt then backfill_tree_from_seq_1 O' bt else fetch_and_plug_gaps O' (bt_tree bt)) s =
    Some (Inr (Some m), s1)"
proof -
  have well: "all_well O'" "length (bt_tree bt) = 32" using assms(4) by (simp_all add: can_fail_def)
  show ?thesis
  proof (cases "bt_from_seq_1 bt")
    case True
    have "succeeds (find_slots_via_address O' (bt_tree bt))"
      unfolding succeeds_def using find_slots_returns_aux [OF assms(3)] by blast
    then obtain slots s1 where "find_slots_via_address O' (bt_tree bt) s = Some (Inr slots, s1)"
      unfolding succeeds_def by blast
    moreover obtain s2 where "for_each (\<lambda>slot. plug_gap O'
          \<lparr>gi_prev = \<lparr>si_seq = 0, si_slot = as_i64 slot\<rparr>, gi_curr = \<lparr>si_seq = 0, si_slot = as_i64 slot\<rparr>\<rparr>
          (bt_tree bt)) slots s1 = Some (Inr (), s2)"
      using succeeds_unit [OF succeeds_for_each, of "\<lambda>slot. plug_gap O'
          \<lparr>gi_prev = \<lparr>si_seq = 0, si_slot = as_i64 slot\<rparr>, gi_curr = \<lparr>si_seq = 0, si_slot = as_i64 slot\<rparr>\<rparr> (bt_tree bt)",
          OF plug_gap_well [OF well]] by blast
    ultimately show ?thesis
      using True well(2) by (simp add: backfill_tree_from_seq_1_def bind_t_def handle_t_def return_t_def)
  next
    case False
    let ?t = "backfill_items_t (f_db s)"
    let ?rows = "rows_from (bt_tree bt) (start_seq (bt_tree bt) ?t) ?t"
    have rows: "one_slot_each (rows_of (bt_tree bt) ?t)" "rows_of (bt_tree bt) ?t \<noteq> []"
      using assms(4) False by (simp_all add: can_fail_def)
    obtain gaps where gaps: "find_gaps ?rows = Inr gaps" using find_gaps_total [OF rows_from_distinct [OF rows(1)]] by blast
    then obtain s1 where s1: "get_missing_data O' (bt_tree bt) s = Some (Inr (Some (si_seq (last ?rows)), gaps), s1)"
      using rows_from_nonempty [OF rows]
      by (simp add: get_missing_data_def bind_t_def handle_t_def db_read_ok [OF assms(1,2)] return_t_def)
    obtain s2 where "for_each (\<lambda>gap. plug_gap O' gap (bt_tree bt)) gaps s1 = Some (Inr (), s2)"
      using succeeds_unit [OF succeeds_for_each, of "\<lambda>gap. plug_gap O' gap (bt_tree bt)", OF plug_gap_well [OF well]]
      by blast
    with s1 False show ?thesis
      by (simp add: fetch_and_plug_gaps_def bind_t_def handle_t_def return_t_def)
  qed
qed

lemma settle_attempts:
  assumes "alone O'" "obliging O'" "node_pages history O'" "attempts O' bt (Suc n) s = Some (r, s')"
  defines "bad \<equiv> \<lambda>s :: filler. can_fail O' (bt_from_seq_1 bt) (bt_tree bt) (rows_of (bt_tree bt) (backfill_items_t (f_db s)))"
  shows "r = Inr () \<and> settles (bad s) (bt_from_seq_1 bt) (bt_tree bt) s s'"
  using assms(4)
proof (induction n arbitrary: s)
  fix n s
  let ?m = "if bt_from_seq_1 bt then backfill_tree_from_seq_1 O' bt else fetch_and_plug_gaps O' (bt_tree bt)"
  let ?tree = "bt_tree bt" and ?full = "bt_from_seq_1 bt"
  have quiet: "keeps_db ?m" using backfill_frames(2) [OF assms(1)] backfill_frames(4) by simp
  have step: "r = Inr () \<and> settles (bad s) ?full ?tree s s'"
    if run: "attempts O' bt (Suc n) s = Some (r, s')"
      and again: "\<And>s1. 0 < n \<Longrightarrow> attempts O' bt n s1 = Some (r, s') \<Longrightarrow> r = Inr () \<and> settles (bad s1) ?full ?tree s1 s'" for n s
  proof -
    obtain r1 s1 where m: "?m s = Some (r1, s1)" and rest: "(case r1 of
         Inr opt_max_seq \<Rightarrow> bind_t (clean_up_backfilled_tree O' opt_max_seq ?tree) (\<lambda>_. reset_delay)
       | Inl _ \<Rightarrow> if n = 0 then log_error (mark_tree_as_failed O' ?tree)
           else bind_t sleep_and_increase_delay (\<lambda>_. attempts O' bt n)) s1 = Some (r, s')"
      using run unfolding attempts.simps handle_t_def by (auto simp: bind_eq_Some_conv)
    have db: "f_db s1 = f_db s" using quiet m unfolding keeps_db_def keeps_def by blast
    have fine: "bad s1 \<or> (\<exists>m. r1 = Inr (Some m))"
      using backfill_well [OF assms(1-3), of bt s] m db by (auto simp: bad_def)
    have "r = Inr () \<and> settles (bad s1) ?full ?tree s1 s'"
    proof (cases r1)
      case (Inr opt)
      obtain s2 where "clean_up_backfilled_tree O' opt ?tree s1 = Some (Inr (), s2)" "settles (bad s1) ?full ?tree s1 s2"
        using clean_up_settles [OF assms(1,2), of opt ?full ?tree s1 "bad s1"] backfill_number [OF assms(1), of bt s _ s1] m Inr db fine
        by auto
      with rest Inr show ?thesis
        by (auto simp: bind_t_def handle_t_def reset_delay_def return_t_def settles_def)
    next
      case (Inl e)
      with fine have bad: "bad s1" by simp
      show ?thesis
      proof (cases "n = 0")
        case True
        with rest Inl mark_failed_settles [OF assms(1,2) bad, of ?tree s1] show ?thesis by auto
      next
        case False
        obtain s2 where s2: "sleep_and_increase_delay s1 = Some (Inr (), s2)" "f_db s2 = f_db s1"
          by (simp add: sleep_and_increase_delay_def return_t_def Let_def)
        with rest Inl False have "attempts O' bt n s2 = Some (r, s')" by (simp add: bind_t_def handle_t_def)
        from again [OF _ this] False s2(2) show ?thesis by (simp add: settles_def bad_def)
      qed
    qed
    with db show ?thesis by (simp add: settles_def bad_def)
  qed
  { case 0
    show ?case by (rule step [OF 0]) simp
  next
    case (Suc n)
    show ?case by (rule step [OF Suc.prems]) (rule Suc.IH) }
qed

text \<open>Every call comes back when the search for slots does.\<close>

abbreviation always_back :: "'a filler_task \<Rightarrow> bool" where
  "always_back m \<equiv> comes_back (\<lambda>_. True) m"

lemma simple_back:
  "always_back (db_call O' g)" "always_back (db_read O' q)" "always_back (db_exec O' e)" "always_back (outside_call c)"
  "always_back (get_confirmed_slots O' ws)" "always_back (cache_get O' slot)" "always_back (cache_insert O' slot b cost)"
  "always_back (send_message O' m)" "always_back sleep_and_increase_delay" "always_back reset_delay"
  by (auto simp: comes_back_def db_call_def db_read_def db_exec_def outside_call_def get_confirmed_slots_def
      cache_get_def cache_insert_def send_message_def sleep_and_increase_delay_def reset_delay_def task_simps Let_def
      split: option.splits sum.splits)

lemma find_slots_back: "node_pages history O' \<Longrightarrow> always_back (find_slots_via_address O' a)"
  unfolding comes_back_def using find_slots_returns_aux by blast

lemma plug_gap_back: "always_back (plug_gap O' gap tree)"
  unfolding plug_gap_def process_slot_def fetch_block_def process_tx_def
  by (intro keeps_intros simple_back)

lemma attempts_back:
  assumes "node_pages history O'"
  shows "always_back (attempts O' bt n)"
proof (induction n)
  case (Suc n)
  have "always_back (get_missing_data O' tree)" for tree
    unfolding get_missing_data_def by (intro keeps_intros simple_back)
  then have gaps: "always_back (fetch_and_plug_gaps O' tree)" for tree
    unfolding fetch_and_plug_gaps_def split_def by (intro keeps_intros simple_back plug_gap_back)
  have full: "always_back (backfill_tree_from_seq_1 O' bt)"
    unfolding backfill_tree_from_seq_1_def
    by (intro keeps_intros find_slots_back [OF assms] plug_gap_back)
  show ?case
    unfolding attempts.simps clean_up_backfilled_tree_def delete_extra_rows_and_mark_as_backfilled_def
      mark_tree_as_failed_def mark_tree_as_backfilled_def clear_force_chk_flag_def unlock_tree_def
    by (intro keeps_intros simple_back gaps full Suc.IH)
qed (simp add: keeps_intros)

text \<open>
  A list of trees: each is dealt with as often as it is listed. A tree that asks for a full backfill under several
  slots is listed once for each.
\<close>

lemma settle_all:
  assumes "alone O'" "obliging O'" "node_pages history O'"
    and "\<forall>bt\<in>set bts. bt_from_seq_1 bt \<longleftrightarrow> full (bt_tree bt)"
  shows "\<exists>s'. for_each (\<lambda>bt. attempts O' bt NUM_TRIES) bts s = Some (Inr (), s') \<and>
    (\<forall>A. ((\<lambda>rows. dealt_with (can_fail O' (full A) A rows) (full A) rows) ^^ length (filter (\<lambda>bt. bt_tree bt = A) bts))
      (rows_of A (backfill_items_t (f_db s))) (rows_of A (backfill_items_t (f_db s'))))"
  using assms(4)
proof (induction bts arbitrary: s)
  case (Cons bt bts)
  obtain r s1 where run: "attempts O' bt NUM_TRIES s = Some (r, s1)"
    by (rule comes_backE [OF attempts_back [OF assms(3)]]) simp_all
  let ?full = "bt_from_seq_1 bt" and ?rows = "rows_of (bt_tree bt) (backfill_items_t (f_db s))"
  have one: "r = Inr ()" "settles (can_fail O' ?full (bt_tree bt) ?rows) ?full (bt_tree bt) s s1"
    using settle_attempts [OF assms(1-3), of bt 4] run by (simp_all add: NUM_TRIES_def eval_nat_numeral)
  obtain s' where rest: "for_each (\<lambda>bt. attempts O' bt NUM_TRIES) bts s1 = Some (Inr (), s')"
    "\<And>A. ((\<lambda>rows. dealt_with (can_fail O' (full A) A rows) (full A) rows) ^^ length (filter (\<lambda>bt. bt_tree bt = A) bts))
      (rows_of A (backfill_items_t (f_db s1))) (rows_of A (backfill_items_t (f_db s')))"
    using Cons.IH [of s1] Cons.prems by auto
  have "((\<lambda>rows. dealt_with (can_fail O' (full A) A rows) (full A) rows) ^^ length (filter (\<lambda>bt. bt_tree bt = A) (bt # bts)))
      (rows_of A (backfill_items_t (f_db s))) (rows_of A (backfill_items_t (f_db s')))" for A
  proof (cases "bt_tree bt = A")
    case True
    then have "dealt_with (can_fail O' (full A) A (rows_of A (backfill_items_t (f_db s)))) (full A)
        (rows_of A (backfill_items_t (f_db s))) (rows_of A (backfill_items_t (f_db s1)))"
      using one(2) Cons.prems by (simp add: settles_def)
    from relpowp_Suc_I2 [of "\<lambda>rows. dealt_with (can_fail O' (full A) A rows) (full A) rows", OF this rest(2) [of A]]
    show ?thesis using True by simp
  next
    case False
    then show ?thesis using one(2) rest(2) [of A] by (simp add: settles_def)
  qed
  moreover have "for_each (\<lambda>bt. attempts O' bt NUM_TRIES) (bt # bts) s = Some (Inr (), s')"
    using run one(1) rest(1) by (simp add: bind_t_def handle_t_def)
  ultimately show ?case by blast
qed (simp add: return_t_def)

section \<open>Which trees a round takes\<close>

definition free_rows :: "bytes \<Rightarrow> backfill_items list \<Rightarrow> backfill_items list" where
  "free_rows tree t = filter (\<lambda>r. \<not> bf_failed r \<and> \<not> bf_locked r \<and> bf_tree r = tree) t"

lemma forced_iff: "A \<in> fst ` set (force_chk_trees t) \<longleftrightarrow> (\<exists>r\<in>set (free_rows A t). bf_force_chk r)"
  by (force simp: force_chk_trees_def free_rows_def)

lemma multi_iff: "A \<in> fst ` set (multi_row_trees t) \<longleftrightarrow> 1 < length (free_rows A t)"
proof -
  have eq: "filter (\<lambda>r. bf_tree r = A) (filter (\<lambda>r. \<not> bf_failed r \<and> \<not> bf_locked r) t) = free_rows A t"
    by (simp add: free_rows_def)
  have "1 < length (free_rows A t) \<Longrightarrow> A \<in> bf_tree ` set (free_rows A t)"
    by (cases "free_rows A t") (auto simp: free_rows_def filter_eq_Cons_iff)
  then show ?thesis
    unfolding multi_row_trees_def Let_def by (auto simp: image_image eq free_rows_def)
qed

lemma lock_trees_ok:
  assumes "alone O'" "obliging O'"
  shows "\<exists>n. lock_trees O' trees ids s = Some (Inr (ids @ concat (map (\<lambda>(tree, _). map bf_id
    (rows_of tree (backfill_items_t (f_db s)))) trees)), s\<lparr>f_tick := n\<rparr>)"
proof (induction trees arbitrary: ids s)
  case Nil
  show ?case by (rule exI [of _ "f_tick s"]) (simp add: return_t_def)
next
  case (Cons x trees)
  obtain tree slot where x: "x = (tree, slot)" by (cases x)
  show ?case
    using Cons.IH [of "ids @ map bf_id (rows_of tree (backfill_items_t (f_db s)))" "s\<lparr>f_tick := Suc (f_tick s)\<rparr>"]
    by (simp add: x bind_t_def handle_t_def db_read_ok [OF assms] rows_of_def)
qed

lemma rows_of_lock:
  assumes "\<forall>r\<in>set (rows_of A t). bf_id r \<notin> set ids"
  shows "free_rows A (lock_rows ids t) = free_rows A t" "rows_of A (lock_rows ids t) = rows_of A t"
  using assms by (induction t) (auto simp: free_rows_def rows_of_def lock_rows_def)

lemma ids_of_others:
  assumes "table_ok bf_id t" "A \<notin> fst ` set trees" "r \<in> set (rows_of A t)"
  shows "bf_id r \<notin> set (concat (map (\<lambda>(tree, _). map bf_id (rows_of tree t)) trees))"
proof
  assume "bf_id r \<in> set (concat (map (\<lambda>(tree, _). map bf_id (rows_of tree t)) trees))"
  then obtain tree slot r' where "(tree, slot) \<in> set trees" "r' \<in> set t" "bf_tree r' = tree" "bf_id r' = bf_id r"
    by (auto simp: rows_of_def)
  moreover have "r \<in> set t" "bf_tree r = A" using assms(3) by (simp_all add: rows_of_def)
  moreover have "inj_on bf_id (set t)" using assms(1) by (simp add: table_ok_def distinct_map)
  ultimately show False using assms(2) by (force dest: inj_onD)
qed

lemma multi_once:
  "length (filter (\<lambda>x. fst x = A) (multi_row_trees t)) = (if A \<in> fst ` set (multi_row_trees t) then 1 else 0)"
proof -
  have "distinct (map fst (multi_row_trees t))" by (simp add: multi_row_trees_def Let_def comp_def)
  moreover have "distinct (map fst xs) \<Longrightarrow> length (filter (\<lambda>x. fst x = A) xs) = (if A \<in> fst ` set xs then 1 else 0)"
    for xs :: "(bytes \<times> i64) list"
    by (induction xs) (fastforce simp: filter_empty_conv)+
  ultimately show ?thesis by blast
qed

lemma rows_of_lock_all:
  assumes "\<forall>r\<in>set (rows_of A t). bf_id r \<in> set ids"
  shows "rows_of A (lock_rows ids t) = map (\<lambda>r. r\<lparr>bf_locked := True\<rparr>) (rows_of A t)"
  using assms by (induction t) (auto simp: rows_of_def lock_rows_def)

lemma get_trees_ok:
  assumes "alone O'" "obliging O'" "table_ok bf_id (backfill_items_t (f_db s))"
  defines "t \<equiv> backfill_items_t (f_db s)"
  obtains bts s1 where "get_trees_to_backfill O' s = Some (Inr bts, s1)"
    "\<forall>bt\<in>set bts. bt_from_seq_1 bt \<longleftrightarrow> bt_tree bt \<in> fst ` set (force_chk_trees t)"
    "\<And>A. length (filter (\<lambda>bt. bt_tree bt = A) bts) =
      (if A \<in> fst ` set (force_chk_trees t) then length (filter (\<lambda>x. fst x = A) (force_chk_trees t))
       else if A \<in> fst ` set (multi_row_trees t) then 1 else 0)"
    "\<And>A. rows_of A (backfill_items_t (f_db s1)) =
      (if A \<in> fst ` set (force_chk_trees t) \<or> A \<in> fst ` set (multi_row_trees t)
       then map (\<lambda>r. r\<lparr>bf_locked := True\<rparr>) (rows_of A t) else rows_of A t)"
proof -
  let ?ids = "\<lambda>trees. concat (map (\<lambda>(tree, _). map bf_id (rows_of tree t)) trees)"
  define forced where "forced = force_chk_trees t"
  define multi where "multi = multi_row_trees (lock_rows (?ids forced) t)"
  define bts where "bts =
      map (\<lambda>(tree, slot). \<lparr>bt_tree = tree, bt_from_seq_1 = True, bt_slot = of_int slot :: u64\<rparr>) forced @
      map (\<lambda>(tree, slot). \<lparr>bt_tree = tree, bt_from_seq_1 = False, bt_slot = of_int slot\<rparr>) multi"
  obtain n1 where l1: "lock_trees O' forced [] (s\<lparr>f_tick := Suc (Suc (f_tick s))\<rparr>) =
      Some (Inr (?ids forced), s\<lparr>f_tick := n1\<rparr>)"
    using lock_trees_ok [OF assms(1,2), of forced "[]" "s\<lparr>f_tick := Suc (Suc (f_tick s))\<rparr>"] by (auto simp: t_def)
  obtain n2 where l2: "lock_trees O' multi (?ids forced) (s\<lparr>f_tick := Suc n1\<rparr>) =
      Some (Inr (?ids forced @ ?ids multi), s\<lparr>f_tick := n2\<rparr>)"
    using lock_trees_ok [OF assms(1,2), of multi "?ids forced" "s\<lparr>f_tick := Suc n1\<rparr>"] by (auto simp: t_def)
  let ?s1 = "s\<lparr>f_db := on_items (lock_rows (?ids forced @ ?ids multi)) (f_db s), f_tick := Suc n2\<rparr>"
  have run: "get_trees_to_backfill O' s = Some (Inr bts, ?s1)"
    by (simp add: get_trees_to_backfill_def bind_t_def handle_t_def db_read_ok [OF assms(1,2)] db_exec_ok [OF assms(1,2)]
        t_def [symmetric] forced_def [symmetric] l1 multi_def [symmetric] l2 return_t_def bts_def)
  have ok: "table_ok bf_id t" using assms(3) by (simp add: t_def)
  have free: "free_rows A (lock_rows (?ids forced) t) = free_rows A t" if "A \<notin> fst ` set forced" for A
    by (rule rows_of_lock) (use ids_of_others [OF ok that] in blast)
  have locked: "free_rows A (lock_rows (?ids forced) t) = []" if "A \<in> fst ` set forced" for A
    using that by (force simp: free_rows_def lock_rows_def filter_empty_conv rows_of_def)
  have multi: "A \<in> fst ` set multi \<longleftrightarrow> A \<notin> fst ` set forced \<and> A \<in> fst ` set (multi_row_trees t)" for A
    unfolding multi_def multi_iff using free [of A] locked [of A] by (cases "A \<in> fst ` set forced") auto
  show thesis
  proof (rule that [OF run])
    show "\<forall>bt\<in>set bts. bt_from_seq_1 bt \<longleftrightarrow> bt_tree bt \<in> fst ` set (force_chk_trees t)"
      using multi by (force simp: bts_def forced_def)
    have "length (filter (\<lambda>bt. bt_tree bt = A) bts) =
        length (filter (\<lambda>x. fst x = A) forced) + length (filter (\<lambda>x. fst x = A) multi)" for A
      by (simp add: bts_def filter_map comp_def split_def)
    moreover have "length (filter (\<lambda>x. fst x = A) forced) = 0" if "A \<notin> fst ` set forced" for A
      using that by (auto simp: filter_empty_conv)
    ultimately show "length (filter (\<lambda>bt. bt_tree bt = A) bts) =
      (if A \<in> fst ` set (force_chk_trees t) then length (filter (\<lambda>x. fst x = A) (force_chk_trees t))
       else if A \<in> fst ` set (multi_row_trees t) then 1 else 0)" for A
      using multi_once [of A "lock_rows (?ids forced) t", folded multi_def] multi [of A] by (simp add: forced_def [symmetric])
    show "rows_of A (backfill_items_t (f_db ?s1)) =
      (if A \<in> fst ` set (force_chk_trees t) \<or> A \<in> fst ` set (multi_row_trees t)
       then map (\<lambda>r. r\<lparr>bf_locked := True\<rparr>) (rows_of A t) else rows_of A t)" for A
    proof (cases "A \<in> fst ` set forced \<or> A \<in> fst ` set multi")
      case True
      then have "\<forall>r\<in>set (rows_of A t). bf_id r \<in> set (?ids (forced @ multi))" by force
      from rows_of_lock_all [OF this] have "rows_of A (backfill_items_t (f_db ?s1)) = map (\<lambda>r. r\<lparr>bf_locked := True\<rparr>) (rows_of A t)"
        by (simp add: t_def)
      with True show ?thesis unfolding multi forced_def by auto
    next
      case False
      then have "A \<notin> fst ` set (forced @ multi)" by auto
      then have "\<forall>r\<in>set (rows_of A t). bf_id r \<notin> set (?ids (forced @ multi))"
        using ids_of_others [OF ok] by blast
      from rows_of_lock(2) [OF this] have "rows_of A (backfill_items_t (f_db ?s1)) = rows_of A t" by (simp add: t_def)
      with False show ?thesis unfolding multi forced_def by auto
    qed
  qed
qed

text \<open>
  C38: A round comes back, and what it leaves of every tree. With a database that accepts the statements, nobody else
  writing and finite histories, whatever else the node, the cache and the queue answer, a round of the filler ends.
  A tree with several free rows then keeps exactly the rows of its highest sequence number (at least one), free and
  marked as backfilled, or has all its rows marked as failed and still locked. A tree with a row that asks for a full
  backfill is dealt with once for each slot it was asked under, each time either marked as failed or left with
  its rows of sequence number 0 only: with none at all when it has none, although a comment of the clean-up says that one
  row for each tree must remain. Marking as failed happens only if something outside fails, the tree is no address, or its
  rows are inconsistent (a negative number, or one number with different slots). The rows of all other trees are untouched.
\<close>

theorem round_settles:
  assumes "alone O'" "obliging O'" "node_pages history O'" "table_ok bf_id (backfill_items_t (f_db s))"
  shows "\<exists>s'. filler_round O' s = Some (Inr (), s') \<and>
    (\<forall>A. let t = backfill_items_t (f_db s); rows = rows_of A t; rows' = rows_of A (backfill_items_t (f_db s'));
           locked = map (\<lambda>r. r\<lparr>bf_locked := True\<rparr>) rows
      in if A \<in> fst ` set (force_chk_trees t)
         then (dealt_with (\<not> (all_well O' \<and> length A = 32)) True ^^ length (filter (\<lambda>x. fst x = A) (force_chk_trees t)))
           locked rows'
         else if A \<in> fst ` set (multi_row_trees t)
         then dealt_with (\<not> (all_well O' \<and> length A = 32 \<and> one_slot_each rows)) False locked rows' \<and> rows' \<noteq> []
         else rows' = rows)"
proof -
  define t where "t = backfill_items_t (f_db s)"
  define full where "full A \<longleftrightarrow> A \<in> fst ` set (force_chk_trees t)" for A
  from get_trees_ok [OF assms(1,2,4)] obtain bts s1 where
    trees: "get_trees_to_backfill O' s = Some (Inr bts, s1)"
    and flags: "\<forall>bt\<in>set bts. bt_from_seq_1 bt \<longleftrightarrow> full (bt_tree bt)"
    and times: "\<And>A. length (filter (\<lambda>bt. bt_tree bt = A) bts) =
      (if full A then length (filter (\<lambda>x. fst x = A) (force_chk_trees t))
       else if A \<in> fst ` set (multi_row_trees t) then 1 else 0)"
    and lock: "\<And>A. rows_of A (backfill_items_t (f_db s1)) =
      (if full A \<or> A \<in> fst ` set (multi_row_trees t)
       then map (\<lambda>r. r\<lparr>bf_locked := True\<rparr>) (rows_of A t) else rows_of A t)"
    unfolding full_def t_def by blast
  from settle_all [OF assms(1-3) flags, of s1] obtain s' where
    run: "for_each (\<lambda>bt. attempts O' bt NUM_TRIES) bts s1 = Some (Inr (), s')"
    and dealt: "\<And>A. ((\<lambda>rows. dealt_with (can_fail O' (full A) A rows) (full A) rows) ^^
      length (filter (\<lambda>bt. bt_tree bt = A) bts)) (rows_of A (backfill_items_t (f_db s1))) (rows_of A (backfill_items_t (f_db s')))"
    by blast
  have "filler_round O' s = Some (Inr (), s')"
    using trees run by (simp add: filler_round_def handle_t_def)
  moreover have "if full A then (dealt_with (\<not> (all_well O' \<and> length A = 32)) True ^^
        length (filter (\<lambda>x. fst x = A) (force_chk_trees t))) (map (\<lambda>r. r\<lparr>bf_locked := True\<rparr>) (rows_of A t))
        (rows_of A (backfill_items_t (f_db s')))
      else if A \<in> fst ` set (multi_row_trees t)
      then dealt_with (\<not> (all_well O' \<and> length A = 32 \<and> one_slot_each (rows_of A t))) False
        (map (\<lambda>r. r\<lparr>bf_locked := True\<rparr>) (rows_of A t)) (rows_of A (backfill_items_t (f_db s'))) \<and>
        rows_of A (backfill_items_t (f_db s')) \<noteq> []
      else rows_of A (backfill_items_t (f_db s')) = rows_of A t" for A
  proof (cases "full A")
    case True
    with dealt [of A] times [of A] lock [of A] show ?thesis by (simp add: can_fail_def)
  next
    case notfull: False
    show ?thesis
    proof (cases "A \<in> fst ` set (multi_row_trees t)")
      case True
      let ?locked = "map (\<lambda>r. r\<lparr>bf_locked := True\<rparr>) (rows_of A t)"
      have "free_rows A t \<noteq> []" using True unfolding multi_iff by auto
      then have ne: "rows_of A t \<noteq> []" by (auto simp: free_rows_def rows_of_def filter_empty_conv)
      have d: "dealt_with (can_fail O' False A ?locked) False ?locked (rows_of A (backfill_items_t (f_db s')))"
        using dealt [of A] times [of A] lock [of A] notfull True by (simp add: OO_def)
      have same: "one_slot_each ?locked = one_slot_each (rows_of A t)" by (simp add: one_slot_each_def)
      have "Max (bf_seq ` set ?locked) \<in> bf_seq ` set ?locked" by (rule Max_in) (use ne in simp_all)
      then have "filter (\<lambda>r. bf_seq r = Max (bf_seq ` set ?locked)) ?locked \<noteq> []" unfolding filter_empty_conv by force
      then have "rows_of A (backfill_items_t (f_db s')) \<noteq> []"
        using d ne unfolding dealt_with_def backfilled_rows_def kept_seq_def by auto
      with d ne notfull True same show ?thesis by (simp add: can_fail_def)
    qed (use notfull dealt [of A] times [of A] lock [of A] in simp)
  qed
  ultimately show ?thesis unfolding full_def t_def Let_def by blast
qed

theorem round_settles_witness:
  "\<exists>s'. filler_round outside0 (filler0 [item0 1 1 4, item0 2 5 6]) = Some (Inr (), s') \<and>
    rows_of tree0 (backfill_items_t (f_db s')) = [(item0 2 5 6)\<lparr>bf_backfilled := True\<rparr>]"
proof -
  let ?s = "filler0 [item0 1 1 4, item0 2 5 6]"
  have ok: "table_ok bf_id (backfill_items_t (f_db ?s))" by (simp add: table_ok_def filler0_def item0_def)
  have multi: "tree0 \<in> fst ` set (multi_row_trees (backfill_items_t (f_db ?s)))"
    unfolding multi_iff by (simp add: free_rows_def filler0_def item0_def)
  have forced: "tree0 \<notin> fst ` set (force_chk_trees (backfill_items_t (f_db ?s)))"
    unfolding forced_iff by (simp add: free_rows_def filler0_def item0_def)
  have rows: "rows_of tree0 (backfill_items_t (f_db ?s)) = [item0 1 1 4, item0 2 5 6]"
    by (simp add: rows_of_def filler0_def item0_def)
  have well: "all_well outside0 \<and> length tree0 = 32 \<and> one_slot_each [item0 1 1 4, item0 2 5 6]"
    by (simp add: all_well_def outside0_def tree0_def one_slot_each_def item0_def)
  from round_settles [OF outside0_quiet outside0_node(4) ok] forced multi rows well
  obtain s' where "filler_round outside0 ?s = Some (Inr (), s')"
    "rows_of tree0 (backfill_items_t (f_db s')) = backfilled_rows (kept_seq False (map (\<lambda>r. r\<lparr>bf_locked := True\<rparr>)
      [item0 1 1 4, item0 2 5 6])) (map (\<lambda>r. r\<lparr>bf_locked := True\<rparr>) [item0 1 1 4, item0 2 5 6])"
    unfolding Let_def dealt_with_def by (metis (no_types, lifting))
  then show ?thesis by (simp add: backfilled_rows_def kept_seq_def item0_def)
qed

section \<open>Where the clean-up falls short\<close>

definition twin_rows :: "bytes \<Rightarrow> i64 \<Rightarrow> i64 \<Rightarrow> bool \<Rightarrow> backfill_items list" where
  "twin_rows tree q x b = map (\<lambda>i. \<lparr>bf_id = i, bf_tree = tree, bf_seq = q, bf_slot = x, bf_force_chk = False,
     bf_backfilled = b, bf_failed = False, bf_locked = False\<rparr>) [1, 2]"

lemma twins_round:
  assumes "alone O'" "obliging O'" "0 \<le> q" "backfill_items_t (f_db s) = twin_rows tree q x b"
  shows "\<exists>s'. filler_round O' s = Some (Inr (), s') \<and> backfill_items_t (f_db s') = twin_rows tree q x True"
proof -
  let ?lock = "map (\<lambda>r. r\<lparr>bf_locked := True\<rparr>)"
  let ?bt = "\<lparr>bt_tree = tree, bt_from_seq_1 = False, bt_slot = of_int x\<rparr>"
  note ok = db_read_ok [OF assms(1,2)] db_exec_ok [OF assms(1,2)]
  have "\<exists>s1. get_trees_to_backfill O' s = Some (Inr [?bt], s1) \<and>
      backfill_items_t (f_db s1) = ?lock (twin_rows tree q x b)"
    using assms(4)
    by (simp add: get_trees_to_backfill_def bind_t_def handle_t_def ok return_t_def force_chk_trees_def
        multi_row_trees_def lock_rows_def twin_rows_def del: set_filter set_map)
  then obtain s1 where s1: "get_trees_to_backfill O' s = Some (Inr [?bt], s1)"
    "backfill_items_t (f_db s1) = ?lock (twin_rows tree q x b)"
    by blast
  have "\<exists>n. fetch_and_plug_gaps O' tree s1 = Some (Inr (Some q), s1\<lparr>f_tick := n\<rparr>)"
    using s1(2) assms(3)
    by (simp add: fetch_and_plug_gaps_def get_missing_data_def bind_t_def handle_t_def ok return_t_def twin_rows_def
        start_seq_def max_seq_item_def rows_from_def) blast
  then obtain n where fetched: "fetch_and_plug_gaps O' tree s1 = Some (Inr (Some q), s1\<lparr>f_tick := n\<rparr>)" by blast
  have "\<exists>s2. delete_extra_rows_and_mark_as_backfilled O' tree q (s1\<lparr>f_tick := n\<rparr>) = Some (Inr (), s2) \<and>
      backfill_items_t (f_db s2) = twin_rows tree q x True"
    using s1(2)
    by (simp add: delete_extra_rows_and_mark_as_backfilled_def mark_tree_as_backfilled_def clear_force_chk_flag_def
        unlock_tree_def bind_t_def handle_t_def ok return_t_def twin_rows_def)
  with s1(1) fetched show ?thesis
    by (auto simp: filler_round_def handle_t_def bind_t_def NUM_TRIES_def eval_nat_numeral clean_up_backfilled_tree_def
        return_t_def reset_delay_def)
qed

text \<open>
  Duplicates of the newest row are never removed. The clean-up means to remove the duplicates of
  the row it keeps, but it looks for them among the rows with another sequence number, which it
  has just deleted. Two rows of a replayed event stay, however many rounds run, and every round
  takes the tree again.
\<close>

theorem duplicates_stay:
  assumes "alone O'" "obliging O'" "0 \<le> q" "backfill_items_t (f_db s) = twin_rows tree q x b"
  shows "\<exists>s'. run_filler O' rounds s = Some (Inr (), s') \<and> length (rows_of tree (backfill_items_t (f_db s'))) = 2 \<and>
    tree \<in> fst ` set (multi_row_trees (backfill_items_t (f_db s')))"
  using assms(4)
proof (induction rounds arbitrary: s b)
  case 0
  then show ?case by (simp add: return_t_def multi_iff free_rows_def rows_of_def twin_rows_def)
next
  case (Suc rounds)
  obtain s1 where "filler_round O' s = Some (Inr (), s1)" "backfill_items_t (f_db s1) = twin_rows tree q x True"
    using twins_round [OF assms(1-3) Suc.prems] by blast
  with Suc.IH [of s1 True] show ?case by (simp add: bind_t_def handle_t_def)
qed

theorem duplicates_stay_witness:
  "\<exists>s'. run_filler outside0 3 (filler0 (twin_rows tree0 4 9 False)) = Some (Inr (), s') \<and>
    length (rows_of tree0 (backfill_items_t (f_db s'))) = 2 \<and>
    tree0 \<in> fst ` set (multi_row_trees (backfill_items_t (f_db s')))"
  by (rule duplicates_stay [OF outside0_quiet]) (simp_all add: filler0_def)

text \<open>
  A full backfill forgets the tree. After a tree was backfilled from its first transaction the
  clean-up keeps the rows with sequence number 0, although one row for each tree must remain:
  when the tree was queued by the ingester, under the number of the event it saw first, no row
  remains, and the next event of the tree asks for the full backfill again.
\<close>

theorem full_backfill_forgets:
  assumes "alone O'" "obliging O'" "bt_from_seq_1 bt" "backfill_tree_from_seq_1 O' bt s = Some (Inr m, s1)"
    and "\<forall>r\<in>set (rows_of (bt_tree bt) (backfill_items_t (f_db s))). bf_seq r \<noteq> 0"
  shows "\<exists>s'. attempts O' bt NUM_TRIES s = Some (Inr (), s') \<and>
    rows_of (bt_tree bt) (backfill_items_t (f_db s')) = [] \<and>
    (\<forall>E e slot tx ix w. no_faults w \<longrightarrow> w_db w = f_db s' \<longrightarrow> ce_id e = bt_tree bt \<longrightarrow> 1 < ce_seq e \<longrightarrow>
      bs58_decode E tx \<noteq> None \<longrightarrow> int (length (ce_path e)) - 1 = as_i64 (path_depth (ce_path e)) \<longrightarrow>
      (\<exists>r. backfill_items_t (w_db (snd (insert_change_log E e slot tx ix w))) = backfill_items_t (w_db w) @ [r] \<and>
        bf_tree r = bt_tree bt \<and> bf_force_chk r))"
proof -
  have m: "m = Some 0"
    using assms(4) by (auto simp: backfill_tree_from_seq_1_def raise_t_def return_t_def elim!: bind_t_Inr split: if_splits)
  have "f_db s1 = f_db s" using backfill_frames(4) [of O' bt] assms(4) unfolding keeps_db_def keeps_def by blast
  with delete_extra_ok [OF assms(1,2), of "bt_tree bt" 0 s1] assms(5) obtain s2 where
    s2: "delete_extra_rows_and_mark_as_backfilled O' (bt_tree bt) 0 s1 = Some (Inr (), s2)"
      "rows_of (bt_tree bt) (backfill_items_t (f_db s2)) = []"
    by (auto simp: filter_empty_conv)
  define s' where "s' = s2\<lparr>f_failure_delay := INITIAL_FAILURE_DELAY\<rparr>"
  have "attempts O' bt NUM_TRIES s = Some (Inr (), s')"
    using assms(3,4) m s2(1)
    by (simp add: NUM_TRIES_def eval_nat_numeral handle_t_def bind_t_def clean_up_backfilled_tree_def return_t_def
        reset_delay_def s'_def)
  moreover have none: "rows_of (bt_tree bt) (backfill_items_t (f_db s')) = []" using s2(2) by (simp add: s'_def)
  moreover have "\<exists>r. backfill_items_t (w_db (snd (insert_change_log E e slot tx ix w))) = backfill_items_t (w_db w) @ [r] \<and>
      bf_tree r = bt_tree bt \<and> bf_force_chk r"
    if "no_faults w" "w_db w = f_db s'" "ce_id e = bt_tree bt" "1 < ce_seq e" "bs58_decode E tx \<noteq> None"
      "int (length (ce_path e)) - 1 = as_i64 (path_depth (ce_path e))" for E e slot tx ix w
    using that none
    by (auto simp: insert_change_log_def bind_m_def run_all_ok ignore_error_def execute_ok query_ok backfill_stmt_def
        audit_stmt_def rows_of_def cl_item_stmts_rows effect_cl_items)
  ultimately show ?thesis by blast
qed

theorem full_backfill_forgets_witness:
  "\<exists>s'. attempts outside0 \<lparr>bt_tree = tree0, bt_from_seq_1 = True, bt_slot = 5\<rparr> NUM_TRIES
      (filler0 [(item0 1 7 5)\<lparr>bf_force_chk := True, bf_locked := True\<rparr>]) = Some (Inr (), s') \<and>
    rows_of tree0 (backfill_items_t (f_db s')) = []"
proof -
  let ?bt = "\<lparr>bt_tree = tree0, bt_from_seq_1 = True, bt_slot = 5 :: u64\<rparr>"
  let ?s = "filler0 [(item0 1 7 5)\<lparr>bf_force_chk := True, bf_locked := True\<rparr>]"
  have pages: "find_slots_via_address outside0 tree0 ?s = Some (Inr [5], ?s\<lparr>f_tick := 1\<rparr>)"
    unfolding find_slots_via_address_def find_slots_loop.simps [of outside0 tree0 None "[]" ?s]
    by (simp add: outside0_def filler0_def List.insert_def)
  have "map_option fst (bind_t (for_each (\<lambda>slot. plug_gap outside0
          \<lparr>gi_prev = \<lparr>si_seq = 0, si_slot = as_i64 slot\<rparr>, gi_curr = \<lparr>si_seq = 0, si_slot = as_i64 slot\<rparr>\<rparr>
          tree0) [5]) (\<lambda>_. return_t (Some 0)) (?s\<lparr>f_tick := 1\<rparr>)) = Some (Inr (Some (0 :: i64)))"
    by code_simp
  then obtain s1 where "backfill_tree_from_seq_1 outside0 ?bt ?s = Some (Inr (Some 0), s1)"
    by (auto simp: backfill_tree_from_seq_1_def tree0_def pages [unfolded tree0_def] bind_t_def [of "find_slots_via_address _ _"]
        handle_t_def [of "find_slots_via_address _ _"])
  from full_backfill_forgets [OF outside0_quiet _ this] show ?thesis
    by (auto simp: rows_of_def filler0_def item0_def)
qed

end
