(* ===== verification/Rpc_Assets.thy ===== *)
theory Rpc_Assets
  imports Asset_Scopes Account_Parsers
begin

text \<open>
  The answers of the read API: the types of \<open>digital_asset_types/src/rpc\<close> and their construction from the
  rows that a query returned (\<open>digital_asset_types/src/dapi/common/asset.rs\<close>). The floating-point
  field \<open>percent\<close> of the royalty, the basis points times 0.0001, is left out.
\<close>

section \<open>Types\<close>

datatype interface =
    IF_V1NFT | IF_V1PRINT | IF_Nft | IF_LEGACY_NFT | IF_FungibleAsset | IF_FungibleToken | IF_Identity
  | IF_Executable | IF_ProgrammableNFT | IF_MplCoreAsset | IF_MplCoreCollection | IF_MplCoreGroup
  | IF_MplBubblegumV2 | IF_Custom

definition interface_of :: "specification_versions option \<Rightarrow> specification_asset_class \<Rightarrow> interface" where
  "interface_of version c =
    (case (version, c) of
       (_, SAC_FungibleAsset) \<Rightarrow> IF_FungibleAsset
     | (_, SAC_FungibleToken) \<Rightarrow> IF_FungibleToken
     | (_, SAC_MplBubblegumV2) \<Rightarrow> IF_MplBubblegumV2
     | (_, SAC_MplCoreAsset) \<Rightarrow> IF_MplCoreAsset
     | (_, SAC_MplCoreCollection) \<Rightarrow> IF_MplCoreCollection
     | (_, SAC_MplCoreGroup) \<Rightarrow> IF_MplCoreGroup
     | (Some SV_V0, SAC_Nft) \<Rightarrow> IF_LEGACY_NFT
     | (Some SV_V1, SAC_Nft) \<Rightarrow> IF_V1NFT
     | (Some SV_V1, SAC_PrintableNft) \<Rightarrow> IF_V1NFT
     | (Some SV_V1, SAC_ProgrammableNft) \<Rightarrow> IF_ProgrammableNFT
     | _ \<Rightarrow> IF_Custom)"

definition interface_into :: "interface \<Rightarrow> specification_versions \<times> specification_asset_class" where
  "interface_into i =
    (case i of
       IF_V1NFT \<Rightarrow> (SV_V1, SAC_Nft)
     | IF_V1PRINT \<Rightarrow> (SV_V1, SAC_Print)
     | IF_LEGACY_NFT \<Rightarrow> (SV_V0, SAC_Nft)
     | IF_FungibleAsset \<Rightarrow> (SV_V1, SAC_FungibleAsset)
     | IF_FungibleToken \<Rightarrow> (SV_V1, SAC_FungibleToken)
     | IF_ProgrammableNFT \<Rightarrow> (SV_V1, SAC_ProgrammableNft)
     | IF_MplCoreAsset \<Rightarrow> (SV_V1, SAC_MplCoreAsset)
     | IF_MplCoreCollection \<Rightarrow> (SV_V1, SAC_MplCoreCollection)
     | IF_MplCoreGroup \<Rightarrow> (SV_V1, SAC_MplCoreGroup)
     | IF_MplBubblegumV2 \<Rightarrow> (SV_V1, SAC_MplBubblegumV2)
     | _ \<Rightarrow> (SV_V1, SAC_Unknown))"

datatype rpc_context = CX_WalletDefault | CX_WebDesktop | CX_WebMobile | CX_AppMobile | CX_AppDesktop | CX_App | CX_Vr

record rpc_file =
  fi_uri :: "string option"
  fi_mime :: "string option"
  fi_quality :: "string option"
  fi_contexts :: "rpc_context list option"

type_synonym metadata_map = "(string \<times> json) list"

record rpc_content =
  ct_schema :: string
  ct_json_uri :: string
  ct_files :: "rpc_file list option"
  ct_metadata :: metadata_map
  ct_links :: "(string \<times> json) list option"
  ct_category :: "json option"

datatype rpc_scope = SC_Full | SC_Royalty | SC_Metadata | SC_Extension

record rpc_authority =
  ra_address :: string
  ra_scopes :: "rpc_scope list"

record rpc_compression =
  co_eligible :: bool
  co_compressed :: bool
  co_data_hash :: string
  co_creator_hash :: string
  co_collection_hash :: "string option"
  co_asset_data_hash :: "string option"
  co_flags :: "u8 option"
  co_asset_hash :: string
  co_tree :: string
  co_seq :: i64
  co_leaf_id :: i64

record rpc_group =
  rg_group_key :: string
  rg_group_value :: "string option"
  rg_verified :: "bool option"
  rg_collection_metadata :: "metadata_map option"

datatype royalty_model = RM_Creators | RM_Fanout | RM_Single

definition royalty_model_of :: "royalty_target_type \<Rightarrow> royalty_model" where
  "royalty_model_of t =
    (case t of RT_Creators \<Rightarrow> RM_Creators | RT_Fanout \<Rightarrow> RM_Fanout | RT_Single \<Rightarrow> RM_Single | _ \<Rightarrow> RM_Creators)"

record rpc_royalty =
  ro_royalty_model :: royalty_model
  ro_target :: "string option"
  ro_basis_points :: u32
  ro_primary_sale_happened :: bool
  ro_locked :: bool

record rpc_creator =
  rc_address :: string
  rc_share :: int
  rc_verified :: bool

datatype ownership_model = OM_Single | OM_Token

definition ownership_model_of :: "owner_type \<Rightarrow> ownership_model" where
  "ownership_model_of t = (case t of OT_Token \<Rightarrow> OM_Token | OT_Single \<Rightarrow> OM_Single | _ \<Rightarrow> OM_Single)"

record rpc_ownership =
  ow_frozen :: bool
  ow_non_transferable :: "bool option"
  ow_delegated :: bool
  ow_delegate :: "string option"
  ow_ownership_model :: ownership_model
  ow_owner :: string

definition use_method_of :: "string \<Rightarrow> use_method" where
  "use_method_of s =
    (if s = ''Burn'' then UM_Burn else if s = ''Single'' then UM_Single
     else if s = ''Multiple'' then UM_Multiple else UM_Single)"

definition mutability_of :: "chain_mutability \<Rightarrow> bool" where
  "mutability_of m = (case m of CM_Mutable \<Rightarrow> True | CM_Immutable \<Rightarrow> False | _ \<Rightarrow> True)"

record rpc_supply =
  su_print_max_supply :: u64
  su_print_current_supply :: u64
  su_edition_nonce :: "u64 option"

record mpl_core_info =
  mc_num_minted :: "int option"
  mc_current_size :: "int option"
  mc_plugins_json_version :: "int option"

record token_inscription_info =
  ti_authority :: string
  ti_root :: string
  ti_inscription_data :: string
  ti_content :: string
  ti_encoding :: string
  ti_order :: u64
  ti_size :: u32
  ti_validation_hash :: "string option"

record token_info =
  tf_supply :: u64
  tf_decimals :: u8
  tf_token_program :: string
  tf_mint_authority :: "string option"
  tf_freeze_authority :: "string option"

record rpc_asset =
  rpc_interface :: interface
  rpc_id :: string
  rpc_content :: "rpc_content option"
  rpc_authorities :: "rpc_authority list option"
  rpc_compression :: "rpc_compression option"
  rpc_grouping :: "rpc_group list option"
  rpc_royalty :: "rpc_royalty option"
  rpc_creators :: "rpc_creator list option"
  rpc_ownership :: "rpc_ownership option"
  rpc_uses :: "uses option"
  rpc_supply :: "rpc_supply option"
  rpc_mutable :: bool
  rpc_burnt :: bool
  rpc_mint_extensions :: "json option"
  rpc_inscription :: "token_inscription_info option"
  rpc_token_info :: "token_info option"
  rpc_plugins :: "json option"
  rpc_unknown_plugins :: "json option"
  rpc_mpl_core_info :: "mpl_core_info option"
  rpc_external_plugins :: "json option"
  rpc_unknown_external_plugins :: "json option"
  rpc_is_agent :: "bool option"
  rpc_agent_token :: "string option"
  rpc_asset_signer :: "string option"

record rpc_token_account =
  rt_address :: string
  rt_mint :: string
  rt_amount :: u64
  rt_owner :: string
  rt_frozen :: bool
  rt_delegate :: "string option"
  rt_delegated_amount :: u64
  rt_close_authority :: "string option"
  rt_extensions :: "json option"

record das_error =
  de_id :: string
  de_error :: string

text \<open>The prices of the native balance are never filled in.\<close>

record native_balance =
  nb_lamports :: u64

record asset_list =
  al_total :: u32
  al_limit :: u32
  al_page :: "u32 option"
  al_before :: "string option"
  al_after :: "string option"
  al_cursor :: "string option"
  al_items :: "rpc_asset list"
  al_native_balance :: "native_balance option"
  al_errors :: "das_error list"

record transaction_signature_list =
  sl_total :: u32
  sl_limit :: u32
  sl_page :: "u32 option"
  sl_before :: "string option"
  sl_after :: "string option"
  sl_items :: "(string \<times> string) list"

record token_account_list =
  tl_total :: u32
  tl_limit :: u32
  tl_page :: "u32 option"
  tl_before :: "string option"
  tl_after :: "string option"
  tl_token_accounts :: "rpc_token_account list"
  tl_cursor :: "string option"
  tl_errors :: "das_error list"

text \<open>
  Parameters: the JSON paths of \<open>jsonpath_lib\<close>, the MIME type guessed from an address, \<open>serde_json\<close>'s printer
  and its reading of inscriptions, \<open>String::from_utf8\<close>, and how \<open>DbErr\<close> prints.
\<close>

record rpc_env =
  rx_select :: "json \<Rightarrow> string \<Rightarrow> json list option"
  rx_mime :: "string \<Rightarrow> string option"
  rx_to_string :: "json \<Rightarrow> string option"
  rx_inscription :: "json \<Rightarrow> string + inscription_data"
  rx_utf8 :: "bytes \<Rightarrow> string option"
  rx_db_err :: "dapi_error \<Rightarrow> string"

section \<open>JSON values\<close>

definition json_get :: "string \<Rightarrow> json \<Rightarrow> json option" where
  "json_get k j = (case j of JObj kvs \<Rightarrow> map_of kvs k | _ \<Rightarrow> None)"

definition as_str :: "json \<Rightarrow> string option" where
  "as_str j = (case j of JStr s \<Rightarrow> Some s | _ \<Rightarrow> None)"

definition as_bool :: "json \<Rightarrow> bool option" where
  "as_bool j = (case j of JBool b \<Rightarrow> Some b | _ \<Rightarrow> None)"

definition as_u64 :: "json \<Rightarrow> u64 option" where
  "as_u64 j = (case j of JNum n \<Rightarrow> if 0 \<le> n \<and> n < 2 ^ 64 then Some (of_int n) else None | _ \<Rightarrow> None)"

definition safe_select :: "rpc_env \<Rightarrow> json \<Rightarrow> string \<Rightarrow> json option" where
  "safe_select X j expr =
    (case rx_select X j expr of Some vs \<Rightarrow> if vs = [] then None else Some (last vs) | None \<Rightarrow> None)"

definition set_selected :: "rpc_env \<Rightarrow> json \<Rightarrow> string \<Rightarrow> string \<Rightarrow> metadata_map \<Rightarrow> metadata_map" where
  "set_selected X j expr k m = (case safe_select X j expr of Some v \<Rightarrow> AList.update k v m | None \<Rightarrow> m)"

section \<open>Content\<close>

definition get_mime_type_from_uri :: "rpc_env \<Rightarrow> string \<Rightarrow> string" where
  "get_mime_type_from_uri X uri = (case rx_mime X uri of Some m \<Rightarrow> m | None \<Rightarrow> ''image/png'')"

definition file_from_str :: "rpc_env \<Rightarrow> string \<Rightarrow> rpc_file" where
  "file_from_str X s =
     \<lparr>fi_uri = Some s, fi_mime = Some (get_mime_type_from_uri X s), fi_quality = None, fi_contexts = None\<rparr>"

type_synonym file_map = "(string \<times> rpc_file) list"

definition track_top_level_file :: "rpc_env \<Rightarrow> json option \<Rightarrow> file_map \<Rightarrow> file_map" where
  "track_top_level_file X top_level_file files =
    (case Option.bind top_level_file as_str of
       Some img \<Rightarrow> if map_of files img = None then AList.update img (file_from_str X img) files else files
     | None \<Rightarrow> files)"

text \<open>One entry of \<open>$.properties.files[*]\<close>.\<close>

definition add_file :: "rpc_env \<Rightarrow> json \<Rightarrow> file_map \<Rightarrow> file_map" where
  "add_file X v files =
    (case v of
       JObj _ \<Rightarrow>
        (case (case json_get ''uri'' v of Some u \<Rightarrow> Some u | None \<Rightarrow> json_get ''url'' v, json_get ''type'' v) of
           (Some u, Some m) \<Rightarrow>
            (case as_str u of
               Some str_uri \<Rightarrow>
                 AList.update str_uri
                  (case as_str m of
                     Some str_mime \<Rightarrow>
                       \<lparr>fi_uri = Some str_uri, fi_mime = Some str_mime, fi_quality = None, fi_contexts = None\<rparr>
                   | None \<Rightarrow> file_from_str X str_uri) files
             | None \<Rightarrow> files)
         | (Some u, None) \<Rightarrow>
            (let str_uri = (case rx_to_string X u of Some s \<Rightarrow> s | None \<Rightarrow> []) in
             AList.update str_uri (file_from_str X str_uri) files)
         | _ \<Rightarrow> files)
     | JStr str_uri \<Rightarrow> AList.update str_uri (file_from_str X str_uri) files
     | _ \<Rightarrow> files)"

text \<open>The stable sort puts the file of the top-level image first and leaves the others in order.\<close>

definition image_first :: "json option \<Rightarrow> rpc_file list \<Rightarrow> rpc_file list" where
  "image_first top_image files =
    (let is_image = (\<lambda>f. case (fi_uri f, top_image) of (Some x, Some y) \<Rightarrow> y = JStr x | _ \<Rightarrow> False)
     in filter is_image files @ filter (\<lambda>f. \<not> is_image f) files)"

definition v1_content_from_json :: "rpc_env \<Rightarrow> asset_data \<Rightarrow> rpc_content dapi_result" where
  "v1_content_from_json X ad =
    (let metadata = ad_metadata ad; chain_data = ad_chain_data ad;
         meta = set_selected X chain_data ''$.token_standard'' ''token_standard''
                 (set_selected X metadata ''$.attributes'' ''attributes''
                 (set_selected X metadata ''$.description'' ''description''
                 (set_selected X chain_data ''$.symbol'' ''symbol''
                 (set_selected X chain_data ''$.name'' ''name'' []))));
         links = fold (\<lambda>f. set_selected X metadata (''$.'' @ f) f) [''image'', ''animation_url'', ''external_url''] [];
         category = safe_select X metadata ''$.properties.category'';
         listed = (case rx_select X metadata ''$.properties.files[*]'' of Some vs \<Rightarrow> fold (add_file X) vs [] | None \<Rightarrow> []);
         tracked = track_top_level_file X (map_of links ''animation_url'')
                    (track_top_level_file X (map_of links ''image'') listed)
     in Inr \<lparr>ct_schema = ''https://schema.metaplex.com/nft1.0.json'', ct_json_uri = ad_metadata_url ad,
          ct_files = Some (image_first (map_of links ''image'') (map snd tracked)), ct_metadata = meta,
          ct_links = Some links, ct_category = category\<rparr>)"

definition get_content :: "rpc_env \<Rightarrow> asset_data \<Rightarrow> rpc_content option" where
  "get_content X ad = (case v1_content_from_json X ad of Inr c \<Rightarrow> Some c | Inl _ \<Rightarrow> None)"

section \<open>Assets\<close>

definition to_authority :: "ext \<Rightarrow> asset_authority list \<Rightarrow> rpc_authority list" where
  "to_authority E = map (\<lambda>a. \<lparr>ra_address = bs58_encode E (au_authority a), ra_scopes = [SC_Full]\<rparr>)"

definition to_creators :: "ext \<Rightarrow> asset_creators list \<Rightarrow> rpc_creator list" where
  "to_creators E =
     map (\<lambda>c. \<lparr>rc_address = bs58_encode E (cr_creator c), rc_share = cr_share c, rc_verified = cr_verified c\<rparr>)"

definition to_grouping :: "rpc_env \<Rightarrow> group_with_data list \<Rightarrow> options \<Rightarrow> rpc_group list dapi_result" where
  "to_grouping X groups opts =
     Inr (List.map_filter (\<lambda>(g, ad).
       map_option (\<lambda>group_value.
         \<lparr>rg_group_key = gr_group_key g, rg_group_value = Some group_value,
          rg_verified = (if show_unverified_collections opts then Some (gr_verified g) else None),
          rg_collection_metadata = map_option (\<lambda>data.
            set_selected X (ad_metadata data) ''$.external_url'' ''external_url''
             (set_selected X (ad_metadata data) ''$.image'' ''image''
             (set_selected X (ad_metadata data) ''$.symbol'' ''symbol''
             (set_selected X (ad_metadata data) ''$.name'' ''name'' [])))) ad\<rparr>)
         (gr_group_value g)) groups)"

definition get_interface :: "asset \<Rightarrow> interface dapi_result" where
  "get_interface a =
    (case a_specification_asset_class a of
       Some c \<Rightarrow> Inr (interface_of (a_specification_version a) c)
     | None \<Rightarrow> Inl (DbCustom ''interface not found''))"

definition rpc_uses_of :: "json \<Rightarrow> uses option" where
  "rpc_uses_of chain_data = map_option (\<lambda>u.
     \<lparr>us_use_method = use_method_of (case Option.bind (json_get ''use_method'' u) as_str of Some s \<Rightarrow> s | None \<Rightarrow> ''Single''),
      us_remaining = (case Option.bind (json_get ''remaining'' u) as_u64 of Some n \<Rightarrow> n | None \<Rightarrow> 0),
      us_total = (case Option.bind (json_get ''total'' u) as_u64 of Some n \<Rightarrow> n | None \<Rightarrow> 0)\<rparr>)
     (json_get ''uses'' chain_data)"

definition rpc_inscription_of :: "rpc_env \<Rightarrow> options \<Rightarrow> attachments option \<Rightarrow> token_inscription_info option" where
  "rpc_inscription_of X opts inscription =
    (if show_inscription opts
     then Option.bind inscription (\<lambda>i. Option.bind (at_data i) (\<lambda>d.
       case rx_inscription X d of
         Inl _ \<Rightarrow> None
       | Inr x \<Rightarrow> Some \<lparr>ti_authority = in_authority x, ti_root = in_root x, ti_inscription_data = in_inscription_data x,
           ti_content = in_content x, ti_encoding = in_encoding x, ti_order = in_order x, ti_size = in_size x,
           ti_validation_hash = in_validation_hash x\<rparr>))
     else None)"

definition rpc_token_info_of :: "ext \<Rightarrow> options \<Rightarrow> tokens option \<Rightarrow> token_info option" where
  "rpc_token_info_of E opts t =
    (if show_fungible opts
     then map_option (\<lambda>t.
       \<lparr>tf_supply = (if 0 \<le> tk_supply t \<and> tk_supply t < 2 ^ 64 then of_int (tk_supply t) else 0),
        tf_decimals = of_int (tk_decimals t), tf_token_program = bs58_encode E (tk_token_program t),
        tf_mint_authority = map_option (bs58_encode E) (tk_mint_authority t),
        tf_freeze_authority = map_option (bs58_encode E) (tk_freeze_authority t)\<rparr>) t
     else None)"

definition rpc_compression_of :: "ext \<Rightarrow> asset \<Rightarrow> rpc_compression" where
  "rpc_compression_of E a =
    (let trimmed = (\<lambda>e. if a_compressed a then str_trim e else []);
         or_empty = (\<lambda>s. case s of Some x \<Rightarrow> x | None \<Rightarrow> [])
     in \<lparr>co_eligible = a_compressible a, co_compressed = a_compressed a,
         co_data_hash = or_empty (map_option trimmed (a_data_hash a)),
         co_creator_hash = or_empty (map_option trimmed (a_creator_hash a)),
         co_collection_hash = map_option trimmed (a_collection_hash a),
         co_asset_data_hash = map_option trimmed (a_asset_data_hash a),
         co_flags = Option.bind (a_bubblegum_flags a) (\<lambda>v. if 0 \<le> v \<and> v < 256 then Some (of_int v) else None),
         co_asset_hash = or_empty (map_option (bs58_encode E) (a_leaf a)),
         co_tree = or_empty (map_option (bs58_encode E) (a_tree_id a)),
         co_seq = (case a_seq a of Some q \<Rightarrow> q | None \<Rightarrow> 0),
         co_leaf_id = (case a_nonce a of Some n \<Rightarrow> n | None \<Rightarrow> 0)\<rparr>)"

definition rpc_ownership_of :: "ext \<Rightarrow> asset \<Rightarrow> rpc_ownership" where
  "rpc_ownership_of E a =
     \<lparr>ow_frozen = a_frozen a, ow_non_transferable = a_non_transferable a, ow_delegated = (a_delegate a \<noteq> None),
      ow_delegate = map_option (bs58_encode E) (a_delegate a), ow_ownership_model = ownership_model_of (a_owner_type a),
      ow_owner = (case a_owner a of Some ow \<Rightarrow> bs58_encode E ow | None \<Rightarrow> [])\<rparr>"

definition is_core :: "interface \<Rightarrow> bool" where
  "is_core i = (i \<in> {IF_MplCoreAsset, IF_MplCoreCollection, IF_MplCoreGroup})"

definition asset_to_rpc :: "ext \<Rightarrow> rpc_env \<Rightarrow> full_asset \<Rightarrow> options \<Rightarrow> rpc_asset dapi_result" where
  "asset_to_rpc E X fa opts =
    (let a = fa_asset fa; data = fa_data fa in
     case to_grouping X (fa_groups fa) opts of
       Inl e \<Rightarrow> Inl e
     | Inr rpc_groups \<Rightarrow>
      (case if a_compressed a \<and> a_collection_hash a \<noteq> None then Inr IF_MplBubblegumV2 else get_interface a of
         Inl e \<Rightarrow> Inl e
       | Inr interface \<Rightarrow>
           Inr \<lparr>rpc_interface = interface, rpc_id = bs58_encode E (a_id a), rpc_content = get_content X data,
             rpc_authorities = Some (to_authority E (fa_authorities fa)),
             rpc_compression = Some (rpc_compression_of E a), rpc_grouping = Some rpc_groups,
             rpc_royalty = Some \<lparr>ro_royalty_model = royalty_model_of (a_royalty_target_type a),
               ro_target = map_option (bs58_encode E) (a_royalty_target a), ro_basis_points = of_int (a_royalty_amount a),
               ro_primary_sale_happened =
                 (case Option.bind (safe_select X (ad_chain_data data) ''$.primary_sale_happened'') as_bool of
                    Some b \<Rightarrow> b | None \<Rightarrow> False),
               ro_locked = False\<rparr>,
             rpc_creators = Some (to_creators E (fa_creators fa)), rpc_ownership = Some (rpc_ownership_of E a),
             rpc_uses = rpc_uses_of (ad_chain_data data),
             rpc_supply = (if interface \<in> {IF_V1NFT, IF_LEGACY_NFT, IF_Nft, IF_ProgrammableNFT, IF_MplBubblegumV2, IF_Custom}
               then Some \<lparr>su_print_max_supply = 0, su_print_current_supply = 0,
                 su_edition_nonce = Option.bind (safe_select X (ad_chain_data data) ''$.edition_nonce'') as_u64\<rparr>
               else None),
             rpc_mutable = mutability_of (ad_chain_data_mutability data), rpc_burnt = a_burnt a,
             rpc_mint_extensions = a_mint_extensions a,
             rpc_inscription = rpc_inscription_of X opts (fa_inscription fa),
             rpc_token_info = rpc_token_info_of E opts (fa_token_info fa), rpc_plugins = a_mpl_core_plugins a,
             rpc_unknown_plugins = a_mpl_core_unknown_plugins a,
             rpc_mpl_core_info = (if is_core interface
               then Some \<lparr>mc_num_minted = a_mpl_core_collection_num_minted a,
                 mc_current_size = a_mpl_core_collection_current_size a,
                 mc_plugins_json_version = a_mpl_core_plugins_json_version a\<rparr> else None),
             rpc_external_plugins = a_mpl_core_external_plugins a,
             rpc_unknown_external_plugins = a_mpl_core_unknown_external_plugins a,
             rpc_is_agent = (if is_core interface then Some (a_is_agent a) else None),
             rpc_agent_token = map_option (bs58_encode E) (a_agent_token a),
             rpc_asset_signer = map_option (bs58_encode E) (a_asset_signer a)\<rparr>))"

fun asset_list_to_rpc :: "ext \<Rightarrow> rpc_env \<Rightarrow> full_asset list \<Rightarrow> options \<Rightarrow> rpc_asset list \<times> das_error list" where
  "asset_list_to_rpc E X [] opts = ([], [])"
| "asset_list_to_rpc E X (fa # fas) opts =
    (let (assets, errors) = asset_list_to_rpc E X fas opts in
     case asset_to_rpc E X fa opts of
       Inr a \<Rightarrow> (a # assets, errors)
     | Inl e \<Rightarrow> (assets, \<lparr>de_id = bs58_encode E (a_id (fa_asset fa)), de_error = rx_db_err X e\<rparr> # errors))"

section \<open>Pages\<close>

datatype asset_sort_by = SB_Id | SB_Created | SB_Updated | SB_RecentAction | SB_None

record asset_sorting =
  so_sort_by :: asset_sort_by
  so_sort_direction :: "sort_order option"

definition asset_sorting_default :: asset_sorting where
  "asset_sorting_default = \<lparr>so_sort_by = SB_Id, so_sort_direction = Some Desc\<rparr>"

definition create_sorting :: "asset_sorting \<Rightarrow> sort_order \<times> asset_column option" where
  "create_sorting sorting =
    (case so_sort_direction sorting of Some d \<Rightarrow> d | None \<Rightarrow> Desc,
     case so_sort_by sorting of
       SB_Id \<Rightarrow> Some Col_Id | SB_Created \<Rightarrow> Some Col_CreatedAt | SB_Updated \<Rightarrow> Some Col_SlotUpdated
     | SB_RecentAction \<Rightarrow> Some Col_SlotUpdated | SB_None \<Rightarrow> None)"

definition create_pagination :: "page_options \<Rightarrow> pagination dapi_result" where
  "create_pagination po =
    (case po_cursor po of
       Some cursor \<Rightarrow> Inr (Cursor cursor)
     | None \<Rightarrow>
        (case (po_before po, po_after po, po_page po) of
           (_, _, None) \<Rightarrow> Inr (Keyset (po_before po) (po_after po))
         | (None, None, Some p) \<Rightarrow> Inr (Page p)
         | _ \<Rightarrow> Inl (DbCustom ''Invalid Pagination'')))"

definition page_before_after :: "rpc_env \<Rightarrow> pagination \<Rightarrow> u64 option \<times> string option \<times> string option" where
  "page_before_after X pagination =
    (case pagination of
       Keyset before after \<Rightarrow> (None, Option.bind before (rx_utf8 X), Option.bind after (rx_utf8 X))
     | Page page \<Rightarrow> (Some page, None, None)
     | Cursor _ \<Rightarrow> (None, None, None))"

definition next_cursor :: "ext \<Rightarrow> ('r \<Rightarrow> bytes) \<Rightarrow> pagination \<Rightarrow> 'r list \<Rightarrow> string option" where
  "next_cursor E k pagination rows =
    (case pagination of
       Cursor _ \<Rightarrow> (if rows = [] then None else Some (bs58_encode E (k (last rows))))
     | _ \<Rightarrow> None)"

definition build_asset_response :: "ext \<Rightarrow> rpc_env \<Rightarrow> full_asset list \<Rightarrow> u64 \<Rightarrow> pagination \<Rightarrow> options \<Rightarrow> asset_list" where
  "build_asset_response E X assets limit pagination opts =
    (let (page, before, after) = page_before_after X pagination;
         (items, errors) = asset_list_to_rpc E X assets opts
     in \<lparr>al_total = of_nat (length assets), al_limit = ucast limit, al_page = map_option ucast page,
         al_before = before, al_after = after,
         al_cursor = next_cursor E (\<lambda>fa. a_id (fa_asset fa)) pagination assets,
         al_items = items, al_native_balance = None, al_errors = errors\<rparr>)"

definition build_transaction_signatures_response :: "rpc_env \<Rightarrow> (string \<times> string) list \<Rightarrow> u64 \<Rightarrow> pagination \<Rightarrow>
    transaction_signature_list" where
  "build_transaction_signatures_response X items limit pagination =
    (let (page, before, after) = page_before_after X pagination
     in \<lparr>sl_total = of_nat (length items), sl_limit = ucast limit, sl_page = map_option ucast page,
         sl_before = before, sl_after = after, sl_items = items\<rparr>)"

definition token_account_to_rpc :: "ext \<Rightarrow> token_accounts \<Rightarrow> rpc_token_account dapi_result" where
  "token_account_to_rpc E t =
     Inr \<lparr>rt_address = bs58_encode E (ta_pubkey t), rt_mint = bs58_encode E (ta_mint t),
       rt_amount = of_int (ta_amount t), rt_owner = bs58_encode E (ta_owner t), rt_frozen = ta_frozen t,
       rt_delegate = map_option (bs58_encode E) (ta_delegate t),
       rt_delegated_amount = of_int (ta_delegated_amount t),
       rt_close_authority = map_option (bs58_encode E) (ta_close_authority t), rt_extensions = None\<rparr>"

fun token_account_list_to_rpc :: "ext \<Rightarrow> rpc_env \<Rightarrow> token_accounts list \<Rightarrow> rpc_token_account list \<times> das_error list" where
  "token_account_list_to_rpc E X [] = ([], [])"
| "token_account_list_to_rpc E X (t # ts) =
    (let (accounts, errors) = token_account_list_to_rpc E X ts in
     case token_account_to_rpc E t of
       Inr a \<Rightarrow> (a # accounts, errors)
     | Inl e \<Rightarrow> (accounts, \<lparr>de_id = bs58_encode E (ta_pubkey t), de_error = rx_db_err X e\<rparr> # errors))"

definition build_token_list_response :: "ext \<Rightarrow> rpc_env \<Rightarrow> token_accounts list \<Rightarrow> u64 \<Rightarrow> pagination \<Rightarrow>
    token_account_list" where
  "build_token_list_response E X rows limit pagination =
    (let (page, before, after) = page_before_after X pagination;
         (items, errors) = token_account_list_to_rpc E X rows
     in \<lparr>tl_total = of_nat (length rows), tl_limit = ucast limit, tl_page = map_option ucast page,
         tl_before = before, tl_after = after, tl_token_accounts = items,
         tl_cursor = next_cursor E ta_pubkey pagination rows, tl_errors = errors\<rparr>)"

end
