(* ===== verification/Dapi.thy ===== *)
theory Dapi
  imports Rpc_Assets
begin

text \<open>
  The queries of the read API as the server calls them (\<open>digital_asset_types/src/dapi\<close>), and the search
  query with its conditions (\<open>SearchAssetsQuery\<close> in \<open>digital_asset_types/src/dao/mod.rs\<close>).
\<close>

section \<open>Single assets and lists\<close>

definition get_asset :: "ext \<Rightarrow> rpc_env \<Rightarrow> reader \<Rightarrow> db \<Rightarrow> bytes \<Rightarrow> options \<Rightarrow> rpc_asset dapi_result" where
  "get_asset E X R d i opts =
    (case get_by_id E R d i opts of Inl e \<Rightarrow> Inl e | Inr fa \<Rightarrow> asset_to_rpc E X fa opts)"

definition dapi_get_assets :: "ext \<Rightarrow> rpc_env \<Rightarrow> db \<Rightarrow> bytes list \<Rightarrow> u64 \<Rightarrow> options \<Rightarrow> (string \<times> rpc_asset) list" where
  "dapi_get_assets E X d ids limit opts =
    (let pagination = Page 1;
         response = build_asset_response E X (get_assets d ids pagination limit opts) limit pagination opts
     in fold (\<lambda>a. AList.update (rpc_id a) a) (al_items response) [])"

definition dapi_list :: "ext \<Rightarrow> rpc_env \<Rightarrow> asset_sorting \<Rightarrow> page_options \<Rightarrow> options \<Rightarrow>
    (asset_column option \<Rightarrow> sort_order \<Rightarrow> pagination \<Rightarrow> u64 \<Rightarrow> full_asset list) \<Rightarrow> asset_list dapi_result" where
  "dapi_list E X sorting po opts scope =
    (case create_pagination po of
       Inl e \<Rightarrow> Inl e
     | Inr pagination \<Rightarrow>
        (let (sort_direction, sort_column) = create_sorting sorting;
             assets = scope sort_column sort_direction pagination (po_limit po)
         in Inr (build_asset_response E X assets (po_limit po) pagination opts)))"

definition dapi_assets_by_owner :: "ext \<Rightarrow> rpc_env \<Rightarrow> db \<Rightarrow> bytes \<Rightarrow> asset_sorting \<Rightarrow> page_options \<Rightarrow> options \<Rightarrow>
    asset_list dapi_result" where
  "dapi_assets_by_owner E X d owner_address sort_by po opts =
     dapi_list E X sort_by po opts (\<lambda>c dir p l. get_assets_by_owner d owner_address c dir p l opts)"

definition dapi_assets_by_group :: "ext \<Rightarrow> rpc_env \<Rightarrow> db \<Rightarrow> string \<Rightarrow> string \<Rightarrow> asset_sorting \<Rightarrow> page_options \<Rightarrow>
    options \<Rightarrow> asset_list dapi_result" where
  "dapi_assets_by_group E X d group_key group_value sort_by po opts =
     dapi_list E X sort_by po opts (\<lambda>c dir p l. get_by_grouping d group_key group_value c dir p l opts)"

definition dapi_assets_by_creator :: "ext \<Rightarrow> rpc_env \<Rightarrow> db \<Rightarrow> bytes \<Rightarrow> bool \<Rightarrow> asset_sorting \<Rightarrow> page_options \<Rightarrow>
    options \<Rightarrow> asset_list dapi_result" where
  "dapi_assets_by_creator E X d creator only_verified sort_by po opts =
     dapi_list E X sort_by po opts (\<lambda>c dir p l. get_by_creator d creator only_verified c dir p l opts)"

definition dapi_assets_by_authority :: "ext \<Rightarrow> rpc_env \<Rightarrow> db \<Rightarrow> bytes \<Rightarrow> asset_sorting \<Rightarrow> page_options \<Rightarrow> options \<Rightarrow>
    asset_list dapi_result" where
  "dapi_assets_by_authority E X d authority sort_by po opts =
     dapi_list E X sort_by po opts (\<lambda>c dir p l. get_by_authority d authority c dir p l opts)"

definition dapi_asset_signatures :: "ext \<Rightarrow> rpc_env \<Rightarrow> reader \<Rightarrow> db \<Rightarrow> bytes option \<Rightarrow> bytes option \<Rightarrow> i64 option \<Rightarrow>
    page_options \<Rightarrow> sort_order option \<Rightarrow> transaction_signature_list dapi_result" where
  "dapi_asset_signatures E X R d asset_id tree leaf_idx po sort_direction =
    (case create_pagination po of
       Inl e \<Rightarrow> Inl e
     | Inr pagination \<Rightarrow>
        (case get_asset_signatures E R d asset_id tree leaf_idx pagination (po_limit po) sort_direction of
           Inl e \<Rightarrow> Inl e
         | Inr transactions \<Rightarrow> Inr (build_transaction_signatures_response X transactions (po_limit po) pagination)))"

definition dapi_token_accounts :: "ext \<Rightarrow> rpc_env \<Rightarrow> db \<Rightarrow> bytes option \<Rightarrow> bytes option \<Rightarrow> page_options \<Rightarrow> options \<Rightarrow>
    token_account_list dapi_result" where
  "dapi_token_accounts E X d owner_address mint_address po opts =
    (case create_pagination po of
       Inl e \<Rightarrow> Inl e
     | Inr pagination \<Rightarrow>
        (case get_token_accounts d owner_address mint_address pagination (po_limit po) opts of
           Inl e \<Rightarrow> Inl e
         | Inr rows \<Rightarrow> Inr (build_token_list_response E X rows (po_limit po) pagination)))"

section \<open>Search\<close>

datatype condition_type = CT_All | CT_Any

datatype token_type_class = TT_Fungible | TT_NonFungible | TT_Compressed | TT_Nft | TT_All

record search_assets_query =
  sq_negate :: "bool option"
  sq_condition_type :: "condition_type option"
  sq_interface :: "interface option"
  sq_specification_version :: "specification_versions option"
  sq_specification_asset_class :: "specification_asset_class option"
  sq_owner_address :: "bytes option"
  sq_owner_type :: "owner_type option"
  sq_creator_address :: "bytes option"
  sq_creator_verified :: "bool option"
  sq_authority_address :: "bytes option"
  sq_grouping :: "(string \<times> string) option"
  sq_delegate :: "bytes option"
  sq_frozen :: "bool option"
  sq_supply :: "u64 option"
  sq_supply_mint :: "bytes option"
  sq_compressed :: "bool option"
  sq_compressible :: "bool option"
  sq_royalty_target_type :: "royalty_target_type option"
  sq_royalty_target :: "bytes option"
  sq_royalty_amount :: "u32 option"
  sq_burnt :: "bool option"
  sq_json_uri :: "string option"
  sq_name :: "bytes option"
  sq_token_type :: "token_type_class option"
  sq_is_agent :: "bool option"
  sq_agent_token :: "bytes option"
  sq_asset_signer :: "bytes option"

definition search_validate :: "search_assets_query \<Rightarrow> unit dapi_result" where
  "search_validate q =
    (if sq_token_type q \<noteq> None then
       if sq_owner_type q \<noteq> None
       then Inl (DbCustom ''`ownerType` is not supported when using `tokenType` field'')
       else if sq_owner_address q = None
       then Inl (DbCustom ''Must provide `ownerAddress` when using `tokenType` field'')
       else if sq_interface q \<noteq> None
       then Inl (DbCustom ''`interface` is not supported when using `tokenType` field'')
       else Inr ()
     else Inr ())"

text \<open>
  A row the conditions are evaluated on: the asset, with a row of every joined table (none where
  the left join found nothing or the table is not joined).
\<close>

record search_row =
  sr_asset :: asset
  sr_token :: "token_accounts option"
  sr_creator :: "asset_creators option"
  sr_authority :: "asset_authority option"
  sr_grouping :: "asset_grouping option"
  sr_data :: "asset_data option"

type_synonym row_cond = "search_row \<Rightarrow> cond"

definition class_in :: "specification_asset_class list \<Rightarrow> asset \<Rightarrow> cond" where
  "class_in cs a = foldr (\<lambda>c. sql_or (sql_cmp (=) (a_specification_asset_class a) (Some c))) cs (Some False)"

definition token_type_cond :: "token_type_class \<Rightarrow> asset \<Rightarrow> cond" where
  "token_type_cond t a =
    (case t of
       TT_Compressed \<Rightarrow> is_not_null (a_tree_id a)
     | TT_Nft \<Rightarrow> sql_and (is_null (a_tree_id a))
         (class_in [SAC_Nft, SAC_MplCoreAsset, SAC_ProgrammableNft, SAC_MplCoreCollection, SAC_MplCoreGroup,
            SAC_NonTransferableNft, SAC_IdentityNft, SAC_Print, SAC_PrintableNft, SAC_TransferRestrictedNft] a)
     | TT_NonFungible \<Rightarrow> sql_and (is_null (a_tree_id a))
         (class_in [SAC_Nft, SAC_MplCoreAsset, SAC_ProgrammableNft, SAC_MplCoreCollection, SAC_MplCoreGroup,
            SAC_NonTransferableNft, SAC_IdentityNft, SAC_Print, SAC_PrintableNft, SAC_TransferRestrictedNft] a)
     | TT_Fungible \<Rightarrow> class_in [SAC_FungibleAsset, SAC_FungibleToken] a
     | TT_All \<Rightarrow> is_not_null (a_specification_asset_class a))"

definition joins_tokens :: "search_assets_query \<Rightarrow> bool" where
  "joins_tokens q = (sq_owner_address q \<noteq> None \<and> sq_token_type q \<in> {Some TT_Fungible, Some TT_All})"

text \<open>\<open>add_option\<close>: a condition for a field that is set.\<close>

definition opt_cond :: "'v option \<Rightarrow> ('v \<Rightarrow> row_cond) \<Rightarrow> row_cond list" where
  "opt_cond v f = (case v of Some x \<Rightarrow> [f x] | None \<Rightarrow> [])"

definition asset_conds :: "search_assets_query \<Rightarrow> row_cond list" where
  "asset_conds q =
     opt_cond (sq_specification_version q) (\<lambda>x r. sql_cmp (=) (a_specification_version (sr_asset r)) (Some x)) @
     opt_cond (sq_token_type q) (\<lambda>x r. token_type_cond x (sr_asset r)) @
     opt_cond (sq_specification_asset_class q) (\<lambda>x r. sql_cmp (=) (a_specification_asset_class (sr_asset r)) (Some x)) @
     opt_cond (sq_owner_address q) (\<lambda>x r.
       if joins_tokens q
       then sql_or (sql_cmp (=) (a_owner (sr_asset r)) (Some x)) (col_eq ta_owner x (sr_token r))
       else sql_cmp (=) (a_owner (sr_asset r)) (Some x)) @
     opt_cond (sq_delegate q) (\<lambda>x r. sql_cmp (=) (a_delegate (sr_asset r)) (Some x)) @
     opt_cond (sq_frozen q) (\<lambda>x r. Some (a_frozen (sr_asset r) = x)) @
     opt_cond (sq_supply_mint q) (\<lambda>x r. sql_cmp (=) (a_supply_mint (sr_asset r)) (Some x)) @
     opt_cond (sq_compressed q) (\<lambda>x r. Some (a_compressed (sr_asset r) = x)) @
     opt_cond (sq_compressible q) (\<lambda>x r. Some (a_compressible (sr_asset r) = x)) @
     opt_cond (sq_royalty_target_type q) (\<lambda>x r. Some (a_royalty_target_type (sr_asset r) = x)) @
     opt_cond (sq_royalty_target q) (\<lambda>x r. sql_cmp (=) (a_royalty_target (sr_asset r)) (Some x)) @
     opt_cond (sq_royalty_amount q) (\<lambda>x r. Some (a_royalty_amount (sr_asset r) = uint x)) @
     opt_cond (sq_burnt q) (\<lambda>x r. Some (a_burnt (sr_asset r) = x)) @
     opt_cond (sq_is_agent q) (\<lambda>x r. Some (a_is_agent (sr_asset r) = x)) @
     opt_cond (sq_agent_token q) (\<lambda>x r. sql_cmp (=) (a_agent_token (sr_asset r)) (Some x)) @
     opt_cond (sq_asset_signer q) (\<lambda>x r. sql_cmp (=) (a_asset_signer (sr_asset r)) (Some x))"

definition supply_cond :: "search_assets_query \<Rightarrow> row_cond" where
  "supply_cond q r =
    (case sq_supply q of
       Some s \<Rightarrow> Some (a_supply (sr_asset r) = uint s)
     | None \<Rightarrow> sql_or (Some (a_supply (sr_asset r) \<noteq> 0)) (Some (a_burnt (sr_asset r))))"

definition owner_type_cond :: "search_assets_query \<Rightarrow> row_cond" where
  "owner_type_cond q r =
    (let a = sr_asset r in
     case sq_owner_type q of
       Some ot \<Rightarrow> Some (a_owner_type a = ot)
     | None \<Rightarrow>
        (case sq_token_type q of
           Some TT_Fungible \<Rightarrow> sql_and (Some (a_owner_type a = OT_Token)) (class_in [SAC_FungibleToken, SAC_FungibleAsset] a)
         | Some TT_All \<Rightarrow> is_not_null (a_specification_asset_class a)
         | _ \<Rightarrow> sql_and (Some (a_owner_type a = OT_Single)) (Some (a_supply a \<le> 1))))"

text \<open>
  The name goes into the text of the statement as it is; how the database reads the text is
  the parameter \<open>sql_text\<close>.
\<close>

definition name_sql :: "string \<Rightarrow> string" where
  "name_sql name = ''chain_data->>'' @ [CHR 0x27] @ ''name'' @ [CHR 0x27] @ '' LIKE '' @ [CHR 0x27] @ ''%'' @ name @ ''%'' @ [CHR 0x27]"

definition joined_conds :: "(string \<Rightarrow> asset_data option \<Rightarrow> cond) \<Rightarrow> string option \<Rightarrow> search_assets_query \<Rightarrow> row_cond list" where
  "joined_conds sql_text name q =
     opt_cond (sq_creator_address q) (\<lambda>x r. col_eq cr_creator x (sr_creator r)) @
     opt_cond (sq_creator_verified q) (\<lambda>x r. col_eq cr_verified x (sr_creator r)) @
     opt_cond (sq_authority_address q) (\<lambda>x r. col_eq au_authority x (sr_authority r)) @
     opt_cond (sq_grouping q) (\<lambda>x r. sql_and (col_eq gr_group_key (fst x) (sr_grouping r))
       (sql_cmp (=) (Option.bind (sr_grouping r) gr_group_value) (Some (snd x)))) @
     opt_cond (sq_json_uri q) (\<lambda>x r. col_eq ad_metadata_url x (sr_data r)) @
     opt_cond name (\<lambda>x r. sql_text (name_sql x) (sr_data r))"

definition combine :: "condition_type option \<Rightarrow> row_cond list \<Rightarrow> row_cond" where
  "combine ct cs r =
    (if ct = Some CT_Any then foldr (\<lambda>c. sql_or (c r)) cs (Some False)
     else foldr (\<lambda>c. sql_and (c r)) cs (Some True))"

definition search_conditions :: "rpc_env \<Rightarrow> (string \<Rightarrow> asset_data option \<Rightarrow> cond) \<Rightarrow> search_assets_query \<Rightarrow>
    row_cond dapi_result" where
  "search_conditions X sql_text q =
    (case search_validate q of
       Inl e \<Rightarrow> Inl e
     | Inr _ \<Rightarrow>
        (case map_option (rx_utf8 X) (sq_name q) of
           Some None \<Rightarrow> Inl (DbCustom ''Could not convert raw name bytes into string for comparison'')
         | name \<Rightarrow>
            (let cs = asset_conds q @ [supply_cond q, owner_type_cond q] @
                   joined_conds sql_text (Option.bind name (\<lambda>n. n)) q;
                 c = combine (sq_condition_type q) cs
             in Inr (if sq_negate q = Some True then (\<lambda>r. sql_not (c r)) else c))))"

text \<open>The rows of the joins, in the order the joins are added.\<close>

definition join_if :: "bool \<Rightarrow> ('r \<Rightarrow> bytes) \<Rightarrow> 'r list \<Rightarrow> bytes option \<Rightarrow> 'r option list" where
  "join_if b k rows key =
    (let rs = filter (\<lambda>r. Some (k r) = key) rows in if b \<and> rs \<noteq> [] then map Some rs else [None])"

definition search_rows :: "db \<Rightarrow> search_assets_query \<Rightarrow> search_row list" where
  "search_rows d q =
     concat (map (\<lambda>a.
       concat (map (\<lambda>t. concat (map (\<lambda>c. concat (map (\<lambda>au. concat (map (\<lambda>g. map (\<lambda>ad.
         \<lparr>sr_asset = a, sr_token = t, sr_creator = c, sr_authority = au, sr_grouping = g, sr_data = ad\<rparr>)
         (join_if (sq_json_uri q \<noteq> None \<or> sq_name q \<noteq> None) ad_id (asset_data_t d) (a_asset_data a)))
         (join_if (sq_grouping q \<noteq> None) gr_asset_id (asset_grouping_t d) (Some (a_id a)))))
         (join_if (sq_authority_address q \<noteq> None) au_asset_id (asset_authority_t d) (Some (a_id a)))))
         (join_if (sq_creator_address q \<noteq> None \<or> sq_creator_verified q \<noteq> None) cr_asset_id
            (asset_creators_t d) (Some (a_id a)))))
         (join_if (joins_tokens q) ta_mint (token_accounts_t d) (Some (a_id a))))) (asset_t d))"

text \<open>
  With both \<open>jsonUri\<close> and \<open>name\<close> the table \<open>asset_data\<close> is joined twice without an alias, which the database
  refuses.
\<close>

definition dapi_search_assets :: "ext \<Rightarrow> rpc_env \<Rightarrow> reader \<Rightarrow> (string \<Rightarrow> asset_data option \<Rightarrow> cond) \<Rightarrow> db \<Rightarrow>
    search_assets_query \<Rightarrow> asset_sorting \<Rightarrow> page_options \<Rightarrow> options \<Rightarrow> asset_list dapi_result" where
  "dapi_search_assets E X R sql_text d q sorting po opts =
    (case create_pagination po of
       Inl e \<Rightarrow> Inl e
     | Inr pagination \<Rightarrow>
        (let (sort_direction, sort_column) = create_sorting sorting in
         case search_conditions X sql_text q of
           Inl e \<Rightarrow> Inl e
         | Inr condition \<Rightarrow>
             if sq_json_uri q \<noteq> None \<and> sq_name q \<noteq> None then Inl (DbCustom (type_error R))
             else
               (let rows = map sr_asset (filter (\<lambda>r. holds (condition r)) (search_rows d q));
                    assets = get_assets_by_condition d rows sort_column sort_direction pagination (po_limit po) opts;
                    kept = (case sq_grouping q of
                       Some (gk, gv) \<Rightarrow> filter (in_group gk gv) assets | None \<Rightarrow> assets)
                in Inr (build_asset_response E X kept (po_limit po) pagination opts))))"

end
