(* ===== verification/Das_Api.thy ===== *)
theory Das_Api
  imports Dapi
begin

text \<open>
  The API server, \<open>das_api/src\<close>: the requests (\<open>api/mod.rs\<close>), their validation
  (\<open>validation.rs\<close> and \<open>validate_pagination\<close>), the answers cached from an upstream provider
  (\<open>fallback.rs\<close>), the native balance and every method of \<open>DasApi\<close> (\<open>api/api_impl.rs\<close>), with
  the names they are registered under (\<open>builder.rs\<close>).
\<close>

section \<open>Errors and requests\<close>

datatype das_api_error =
    PubkeyValidationError string
  | ValidationError string
  | DatabaseError dapi_error
  | PaginationError
  | PaginationEmptyError
  | BatchSizeExceededError
  | PaginationExceededError
  | CursorValidationError string
  | PaginationSortingValidationError

type_synonym 'a api_result = "das_api_error + 'a"

definition options_default :: options where
  "options_default = \<lparr>show_unverified_collections = False, show_collection_metadata = False, show_zero_balance = False,
     show_inscription = False, show_fungible = False, show_native_balance = False\<rparr>"

text \<open>The paging fields that the list requests share.\<close>

record paging_request =
  pr_limit :: "u32 option"
  pr_page :: "u32 option"
  pr_before :: "string option"
  pr_after :: "string option"
  pr_cursor :: "string option"

record get_assets_by_group_request = paging_request +
  gg_group_key :: string
  gg_group_value :: string
  gg_sort_by :: "asset_sorting option"
  gg_options :: "options option"

record get_assets_by_owner_request = paging_request +
  go_owner_address :: string
  go_sort_by :: "asset_sorting option"
  go_options :: "options option"

record get_asset_request =
  ga_id :: string
  ga_options :: "options option"

record get_assets_request =
  gs_ids :: "string list"
  gs_options :: "options option"

record get_assets_by_creator_request = paging_request +
  gc_creator_address :: string
  gc_only_verified :: "bool option"
  gc_sort_by :: "asset_sorting option"
  gc_options :: "options option"

record get_assets_by_authority_request = paging_request +
  gu_authority_address :: string
  gu_sort_by :: "asset_sorting option"
  gu_options :: "options option"

record search_assets_request = paging_request +
  sa_negate :: "bool option"
  sa_condition_type :: "condition_type option"
  sa_interface :: "interface option"
  sa_owner_address :: "string option"
  sa_owner_type :: "ownership_model option"
  sa_creator_address :: "string option"
  sa_creator_verified :: "bool option"
  sa_authority_address :: "string option"
  sa_grouping :: "(string \<times> string) option"
  sa_delegate :: "string option"
  sa_frozen :: "bool option"
  sa_supply :: "u64 option"
  sa_supply_mint :: "string option"
  sa_compressed :: "bool option"
  sa_compressible :: "bool option"
  sa_royalty_target_type :: "royalty_model option"
  sa_royalty_target :: "string option"
  sa_royalty_amount :: "u32 option"
  sa_burnt :: "bool option"
  sa_sort_by :: "asset_sorting option"
  sa_json_uri :: "string option"
  sa_options :: "options option"
  sa_name :: "string option"
  sa_token_type :: "token_type_class option"
  sa_is_agent :: "bool option"
  sa_agent_token :: "string option"
  sa_asset_signer :: "string option"

record get_asset_signatures_request = paging_request +
  gt_id :: "string option"
  gt_tree :: "string option"
  gt_leaf_index :: "i64 option"
  gt_sort_direction :: "sort_order option"

record get_token_accounts_request = paging_request +
  gk_owner_address :: "string option"
  gk_mint_address :: "string option"
  gk_options :: "options option"

record get_nft_editions_request = paging_request +
  gn_mint_address :: string

record get_grouping_response =
  gp_group_key :: string
  gp_group_name :: string
  gp_group_size :: u64

section \<open>The server and what it calls\<close>

text \<open>
  Parameters: those of the queries, \<open>Pubkey::from_str\<close>, the upstream provider's HTTP answers, serde's
  reading of its results, the node's \<open>getBalance\<close>, and whether the two statements on the cache
  succeed.
\<close>

datatype http_response =
    Http_Failed
  | Http_Status u16
  | Http_Body "json option"

record api_env =
  ax_ext :: ext
  ax_rpc :: rpc_env
  ax_reader :: reader
  ax_sql_text :: "string \<Rightarrow> asset_data option \<Rightarrow> cond"
  ax_empty_node :: "nat \<Rightarrow> hash"
  ax_from_str :: "string \<Rightarrow> pubkey option"
  ax_upstream :: "string \<Rightarrow> string \<Rightarrow> json \<Rightarrow> http_response"
  ax_asset_from_value :: "json \<Rightarrow> rpc_asset option"
  ax_proof_from_value :: "json \<Rightarrow> asset_proof option"
  ax_balance :: "string \<Rightarrow> string \<Rightarrow> json option"
  ax_cache_readable :: bool
  ax_cache_writable :: bool

record fallback =
  fb_url :: string
  fb_ttl :: u64

record das_api =
  da_fallback :: "fallback option"
  da_rpc_url :: string

record api_config =
  cf_fallback_das_url :: "string option"
  cf_fallback_das_cache_ttl_secs :: "u64 option"
  cf_rpc_url :: "string option"

definition from_config :: "api_config \<Rightarrow> das_api" where
  "from_config config =
     \<lparr>da_fallback = map_option (\<lambda>url. \<lparr>fb_url = url,
        fb_ttl = (case cf_fallback_das_cache_ttl_secs config of Some s \<Rightarrow> s | None \<Rightarrow> 3600)\<rparr>) (cf_fallback_das_url config),
      da_rpc_url = (case cf_rpc_url config of Some u \<Rightarrow> u | None \<Rightarrow> ''http://127.0.0.1:8899'')\<rparr>"

text \<open>The table \<open>das_fallback_cache\<close>, keyed by method and key; times in seconds.\<close>

record cached_answer =
  fc_method :: string
  fc_cache_key :: string
  fc_response :: json
  fc_fetched_at :: int

type_synonym fallback_cache = "cached_answer list"

definition fc_key :: "cached_answer \<Rightarrow> string \<times> string" where
  "fc_key r = (fc_method r, fc_cache_key r)"

section \<open>Fallback\<close>

definition cached :: "api_env \<Rightarrow> fallback \<Rightarrow> (json \<Rightarrow> 'a option) \<Rightarrow> int \<Rightarrow> fallback_cache \<Rightarrow> string \<Rightarrow> string \<Rightarrow> 'a option" where
  "cached A fb from_value now cache method key =
    (if ax_cache_readable A
     then Option.bind (lookup fc_key (method, key) cache) (\<lambda>row.
       if fc_fetched_at row > now - as_i64 (fb_ttl fb) then from_value (fc_response row) else None)
     else None)"

definition store :: "api_env \<Rightarrow> int \<Rightarrow> string \<Rightarrow> string \<Rightarrow> json \<Rightarrow> fallback_cache \<Rightarrow> fallback_cache" where
  "store A now method key value cache =
    (if ax_cache_writable A
     then upsert fc_key \<lparr>fc_method = method, fc_cache_key = key, fc_response = value, fc_fetched_at = now\<rparr>
            (\<lambda>row. row\<lparr>fc_response := value, fc_fetched_at := now\<rparr>) cache
     else cache)"

definition upstream_result :: "http_response \<Rightarrow> json option" where
  "upstream_result response =
    (case response of
       Http_Body (Some body) \<Rightarrow>
        (case json_get ''error'' body of
           Some _ \<Rightarrow> None
         | None \<Rightarrow> (case json_get ''result'' body of
             Some JNull \<Rightarrow> None
           | r \<Rightarrow> r))
     | _ \<Rightarrow> None)"

definition fallback_get :: "api_env \<Rightarrow> fallback \<Rightarrow> (json \<Rightarrow> 'a option) \<Rightarrow> int \<Rightarrow> fallback_cache \<Rightarrow> string \<Rightarrow> string \<Rightarrow> json \<Rightarrow>
    'a option \<times> fallback_cache" where
  "fallback_get A fb from_value now cache method key params =
    (case cached A fb from_value now cache method key of
       Some hit \<Rightarrow> (Some hit, cache)
     | None \<Rightarrow>
        (case upstream_result (ax_upstream A (fb_url fb) method params) of
           None \<Rightarrow> (None, cache)
         | Some result \<Rightarrow> (from_value result, store A now method key result cache)))"

definition from_upstream :: "api_env \<Rightarrow> das_api \<Rightarrow> (json \<Rightarrow> 'a option) \<Rightarrow> int \<Rightarrow> fallback_cache \<Rightarrow> string \<Rightarrow> string \<Rightarrow>
    json \<Rightarrow> 'a option \<times> fallback_cache" where
  "from_upstream A api from_value now cache method key params =
    (case da_fallback api of
       None \<Rightarrow> (None, cache)
     | Some fb \<Rightarrow> fallback_get A fb from_value now cache method key params)"

section \<open>Validation\<close>

definition validate_pubkey :: "api_env \<Rightarrow> string \<Rightarrow> pubkey api_result" where
  "validate_pubkey A s = (case ax_from_str A s of Some k \<Rightarrow> Inr k | None \<Rightarrow> Inl (PubkeyValidationError s))"

definition validate_search_with_name :: "string option \<Rightarrow> bytes option \<Rightarrow> bytes option api_result" where
  "validate_search_with_name name owner =
    (case name of
       Some n \<Rightarrow>
         if owner = None
         then Inl (ValidationError ''Owner address must be provided in order to search assets by name'')
         else Inr (Some (str_bytes n))
     | None \<Rightarrow> Inr None)"

definition validate_opt_pubkey :: "api_env \<Rightarrow> string option \<Rightarrow> bytes option api_result" where
  "validate_opt_pubkey A p =
    (case p of
       Some s \<Rightarrow> (case ax_from_str A s of
         Some k \<Rightarrow> Inr (Some k) | None \<Rightarrow> Inl (ValidationError (''Invalid pubkey '' @ s)))
     | None \<Rightarrow> Inr None)"

definition get_cursor :: "api_env \<Rightarrow> string option \<Rightarrow> cursor api_result" where
  "get_cursor A c =
    (case c of
       Some s \<Rightarrow> (case bs58_decode (ax_ext A) s of
         Some i \<Rightarrow> Inr \<lparr>cu_id = Some i\<rparr> | None \<Rightarrow> Inl (CursorValidationError s))
     | None \<Rightarrow> Inr cursor_default)"

text \<open>\<open>before\<close> and \<open>after\<close> are checked alike.\<close>

definition sorted_by_other :: "asset_sorting option \<Rightarrow> bool" where
  "sorted_by_other sorting = (case sorting of Some s \<Rightarrow> so_sort_by s \<noteq> SB_Id | None \<Rightarrow> False)"

definition check_bound :: "api_env \<Rightarrow> string option \<Rightarrow> asset_sorting option \<Rightarrow> string option \<Rightarrow> unit api_result" where
  "check_bound A c sorting bound =
    (case bound of
       None \<Rightarrow> Inr ()
     | Some b \<Rightarrow>
         if c \<noteq> None then Inl PaginationError
         else if sorted_by_other sorting then Inl PaginationSortingValidationError
         else map_sum id (\<lambda>_. ()) (validate_pubkey A b))"

definition check_page :: "string option \<Rightarrow> string option \<Rightarrow> string option \<Rightarrow> u32 option \<Rightarrow> unit api_result" where
  "check_page before after c page =
    (case page of
       None \<Rightarrow> Inr ()
     | Some p \<Rightarrow>
         if p = 0 then Inl PaginationEmptyError
         else if before \<noteq> None \<or> after \<noteq> None \<or> c \<noteq> None then Inl PaginationError
         else Inr ())"

definition decode_bound :: "api_env \<Rightarrow> string \<Rightarrow> bytes" where
  "decode_bound A s = (case bs58_decode (ax_ext A) s of Some b \<Rightarrow> b | None \<Rightarrow> [])"

definition validate_pagination :: "api_env \<Rightarrow> u32 option \<Rightarrow> u32 option \<Rightarrow> string option \<Rightarrow> string option \<Rightarrow> string option \<Rightarrow>
    asset_sorting option \<Rightarrow> page_options api_result" where
  "validate_pagination A limit page before after c sorting =
    (if (case limit of Some l \<Rightarrow> l > 1000 | None \<Rightarrow> False) then Inl PaginationExceededError
     else case check_page before after c page of Inl e \<Rightarrow> Inl e | Inr _ \<Rightarrow>
     (case check_bound A c sorting before of Inl e \<Rightarrow> Inl e | Inr _ \<Rightarrow>
     (case check_bound A c sorting after of Inl e \<Rightarrow> Inl e | Inr _ \<Rightarrow>
       (let po = \<lparr>po_limit = (case limit of Some l \<Rightarrow> ucast l | None \<Rightarrow> 1000), po_page = None, po_before = None,
                  po_after = None, po_cursor = None\<rparr>;
            is_cursor_enabled = (page = None \<and> before = None \<and> after = None)
        in if is_cursor_enabled
           then (if sorting = None then Inr po
                 else if sorted_by_other sorting then Inl PaginationSortingValidationError
                 else map_sum id (\<lambda>cu. po\<lparr>po_cursor := Some cu\<rparr>) (get_cursor A c))
           else Inr (po\<lparr>po_page := map_option ucast page, po_before := map_option (decode_bound A) before,
                        po_after := map_option (decode_bound A) after\<rparr>)))))"

section \<open>Methods\<close>

definition db_result :: "'a dapi_result \<Rightarrow> 'a api_result" where
  "db_result r = map_sum DatabaseError id r"

text \<open>\<open>?\<close> on a result.\<close>

definition and_then :: "'a api_result \<Rightarrow> ('a \<Rightarrow> 'b api_result) \<Rightarrow> 'b api_result" where
  "and_then r f = (case r of Inl e \<Rightarrow> Inl e | Inr x \<Rightarrow> f x)"

definition not_found :: "string \<Rightarrow> dapi_error" where
  "not_found asset_id = RecordNotFound (''Asset Proof for '' @ asset_id @ '' Not Found'')"

text \<open>\<open>SELECT 1\<close>: whether the database answers.\<close>

definition check_health :: "dapi_error option \<Rightarrow> unit api_result" where
  "check_health refused = (case refused of Some e \<Rightarrow> Inl (DatabaseError e) | None \<Rightarrow> Inr ())"

definition id_params :: "string \<Rightarrow> json" where
  "id_params i = JObj [(''id'', JStr i)]"

definition api_get_asset_proof :: "api_env \<Rightarrow> das_api \<Rightarrow> db \<Rightarrow> fallback_cache \<Rightarrow> string \<Rightarrow>
    asset_proof api_result \<times> fallback_cache" where
  "api_get_asset_proof A api d cache i =
    (case validate_pubkey A i of
       Inl e \<Rightarrow> (Inl e, cache)
     | Inr k \<Rightarrow>
        (case (case get_proof_for_asset (ax_ext A) (ax_empty_node A) d k of
                 Inl e \<Rightarrow> Inl e | Inr p \<Rightarrow> if ap_proof p = [] then Inl (not_found i) else Inr p) of
           Inr proof \<Rightarrow> (Inr proof, cache)
         | Inl e \<Rightarrow>
            (case from_upstream A api (ax_proof_from_value A) (db_now d) cache ''getAssetProof'' i (id_params i) of
               (Some proof, cache') \<Rightarrow> (Inr proof, cache')
             | (None, cache') \<Rightarrow> (Inl (DatabaseError e), cache'))))"

definition api_get_asset_proofs :: "api_env \<Rightarrow> db \<Rightarrow> string list \<Rightarrow> (string \<times> asset_proof option) list api_result" where
  "api_get_asset_proofs A d ids =
    (if length ids > 1000 then Inl BatchSizeExceededError
     else and_then (collect_results (map (validate_pubkey A) ids)) (\<lambda>id_bytes.
       and_then (db_result (get_asset_proofs (ax_ext A) (ax_empty_node A) d id_bytes)) (\<lambda>proofs.
         Inr (collect_map (\<lambda>i. i) (map_of proofs) ids))))"

definition api_get_asset :: "api_env \<Rightarrow> das_api \<Rightarrow> db \<Rightarrow> fallback_cache \<Rightarrow> get_asset_request \<Rightarrow>
    rpc_asset api_result \<times> fallback_cache" where
  "api_get_asset A api d cache payload =
    (case validate_pubkey A (ga_id payload) of
       Inl e \<Rightarrow> (Inl e, cache)
     | Inr k \<Rightarrow>
        (case get_asset (ax_ext A) (ax_rpc A) (ax_reader A) d k
                (case ga_options payload of Some o' \<Rightarrow> o' | None \<Rightarrow> options_default) of
           Inr a \<Rightarrow> (Inr a, cache)
         | Inl e \<Rightarrow>
            (case from_upstream A api (ax_asset_from_value A) (db_now d) cache ''getAsset'' (ga_id payload)
                    (id_params (ga_id payload)) of
               (Some a, cache') \<Rightarrow> (Inr a, cache')
             | (None, cache') \<Rightarrow> (Inl (DatabaseError e), cache'))))"

text \<open>\<open>Vec::dedup\<close> drops an element equal to the one before it.\<close>

definition api_get_assets :: "api_env \<Rightarrow> db \<Rightarrow> get_assets_request \<Rightarrow> rpc_asset option list api_result" where
  "api_get_assets A d payload =
    (let ids = remdups_adj (gs_ids payload) in
     if length ids > 1000 then Inl BatchSizeExceededError
     else and_then (collect_results (map (validate_pubkey A) ids)) (\<lambda>id_bytes.
       let assets = dapi_get_assets (ax_ext A) (ax_rpc A) d id_bytes (of_nat (length ids))
             (case gs_options payload of Some o' \<Rightarrow> o' | None \<Rightarrow> options_default)
       in Inr (map (map_of assets) ids)))"

definition lamports :: "api_env \<Rightarrow> das_api \<Rightarrow> string \<Rightarrow> native_balance option" where
  "lamports A api owner =
     Option.bind (ax_balance A (da_rpc_url api) owner) (\<lambda>value.
     Option.bind (json_get ''result'' value) (\<lambda>r.
     Option.bind (json_get ''value'' r) (\<lambda>v.
     map_option (\<lambda>l. \<lparr>nb_lamports = l\<rparr>) (as_u64 v))))"

definition non_empty :: "string option \<Rightarrow> string option" where
  "non_empty s = (if s = Some [] then None else s)"

definition api_get_assets_by_owner :: "api_env \<Rightarrow> das_api \<Rightarrow> db \<Rightarrow> get_assets_by_owner_request \<Rightarrow> asset_list api_result" where
  "api_get_assets_by_owner A api d p =
     and_then (validate_pubkey A (go_owner_address p)) (\<lambda>owner_address.
       let sort_by = (case go_sort_by p of Some s \<Rightarrow> s | None \<Rightarrow> asset_sorting_default);
           opts = (case go_options p of Some o' \<Rightarrow> o' | None \<Rightarrow> options_default)
       in and_then (validate_pagination A (pr_limit p) (pr_page p) (non_empty (pr_before p)) (non_empty (pr_after p))
              (pr_cursor p) (Some sort_by)) (\<lambda>po.
          and_then (db_result (dapi_assets_by_owner (ax_ext A) (ax_rpc A) d owner_address sort_by po opts)) (\<lambda>l.
          Inr (if show_native_balance opts
               then l\<lparr>al_native_balance := lamports A api (bs58_encode (ax_ext A) owner_address)\<rparr> else l))))"

definition api_get_assets_by_group :: "api_env \<Rightarrow> db \<Rightarrow> get_assets_by_group_request \<Rightarrow> asset_list api_result" where
  "api_get_assets_by_group A d p =
     and_then (validate_pubkey A (gg_group_value p)) (\<lambda>_.
       let sort_by = (case gg_sort_by p of Some s \<Rightarrow> s | None \<Rightarrow> asset_sorting_default);
           opts = (case gg_options p of Some o' \<Rightarrow> o' | None \<Rightarrow> options_default)
       in and_then (validate_pagination A (pr_limit p) (pr_page p) (non_empty (pr_before p)) (non_empty (pr_after p))
              (pr_cursor p) (Some sort_by)) (\<lambda>po.
          db_result (dapi_assets_by_group (ax_ext A) (ax_rpc A) d (gg_group_key p) (gg_group_value p) sort_by po opts)))"

definition api_get_assets_by_creator :: "api_env \<Rightarrow> db \<Rightarrow> get_assets_by_creator_request \<Rightarrow> asset_list api_result" where
  "api_get_assets_by_creator A d p =
     and_then (validate_pubkey A (gc_creator_address p)) (\<lambda>creator_address.
       let sort_by = (case gc_sort_by p of Some s \<Rightarrow> s | None \<Rightarrow> asset_sorting_default)
       in and_then (validate_pagination A (pr_limit p) (pr_page p) (pr_before p) (pr_after p) (pr_cursor p)
              (Some sort_by)) (\<lambda>po.
          db_result (dapi_assets_by_creator (ax_ext A) (ax_rpc A) d creator_address
            (case gc_only_verified p of Some b \<Rightarrow> b | None \<Rightarrow> False) sort_by po
            (case gc_options p of Some o' \<Rightarrow> o' | None \<Rightarrow> options_default))))"

definition api_get_assets_by_authority :: "api_env \<Rightarrow> db \<Rightarrow> get_assets_by_authority_request \<Rightarrow> asset_list api_result" where
  "api_get_assets_by_authority A d p =
    (let sort_by = (case gu_sort_by p of Some s \<Rightarrow> s | None \<Rightarrow> asset_sorting_default) in
     and_then (validate_pubkey A (gu_authority_address p)) (\<lambda>authority_address.
       let opts = (case gu_options p of Some o' \<Rightarrow> o' | None \<Rightarrow> options_default)
       in and_then (validate_pagination A (pr_limit p) (pr_page p) (pr_before p) (pr_after p) (pr_cursor p)
              (Some sort_by)) (\<lambda>po.
          db_result (dapi_assets_by_authority (ax_ext A) (ax_rpc A) d authority_address sort_by po opts))))"

definition search_query_of :: "api_env \<Rightarrow> search_assets_request \<Rightarrow> search_assets_query api_result" where
  "search_query_of A p =
    (let spec = map_option interface_into (sa_interface p) in
     and_then (validate_opt_pubkey A (sa_owner_address p)) (\<lambda>owner_address.
     and_then (validate_search_with_name (sa_name p) owner_address) (\<lambda>name.
     and_then (validate_opt_pubkey A (sa_creator_address p)) (\<lambda>creator_address.
     and_then (validate_opt_pubkey A (sa_delegate p)) (\<lambda>delegate.
     and_then (validate_opt_pubkey A (sa_authority_address p)) (\<lambda>authority_address.
     and_then (validate_opt_pubkey A (sa_supply_mint p)) (\<lambda>supply_mint.
     and_then (validate_opt_pubkey A (sa_royalty_target p)) (\<lambda>royalty_target.
     and_then (validate_opt_pubkey A (sa_agent_token p)) (\<lambda>agent_token.
     and_then (validate_opt_pubkey A (sa_asset_signer p)) (\<lambda>asset_signer.
       Inr \<lparr>sq_negate = sa_negate p, sq_condition_type = sa_condition_type p, sq_interface = sa_interface p,
         sq_specification_version = map_option fst spec, sq_specification_asset_class = map_option snd spec,
         sq_owner_address = owner_address,
         sq_owner_type = map_option (\<lambda>x. case x of OM_Single \<Rightarrow> OT_Single | OM_Token \<Rightarrow> OT_Token) (sa_owner_type p),
         sq_creator_address = creator_address, sq_creator_verified = sa_creator_verified p,
         sq_authority_address = authority_address, sq_grouping = sa_grouping p, sq_delegate = delegate,
         sq_frozen = sa_frozen p, sq_supply = sa_supply p, sq_supply_mint = supply_mint,
         sq_compressed = sa_compressed p, sq_compressible = sa_compressible p,
         sq_royalty_target_type = map_option (\<lambda>x. case x of
           RM_Creators \<Rightarrow> RT_Creators | RM_Fanout \<Rightarrow> RT_Fanout | RM_Single \<Rightarrow> RT_Single) (sa_royalty_target_type p),
         sq_royalty_target = royalty_target, sq_royalty_amount = sa_royalty_amount p, sq_burnt = sa_burnt p,
         sq_json_uri = sa_json_uri p, sq_name = name, sq_token_type = sa_token_type p, sq_is_agent = sa_is_agent p,
         sq_agent_token = agent_token, sq_asset_signer = asset_signer\<rparr>))))))))))"

definition api_search_assets :: "api_env \<Rightarrow> das_api \<Rightarrow> db \<Rightarrow> search_assets_request \<Rightarrow> asset_list api_result" where
  "api_search_assets A api d p =
     and_then (search_query_of A p) (\<lambda>saq.
       let opts = (case sa_options p of Some o' \<Rightarrow> o' | None \<Rightarrow> options_default);
           sort_by = (case sa_sort_by p of Some s \<Rightarrow> s | None \<Rightarrow> asset_sorting_default)
       in and_then (validate_pagination A (pr_limit p) (pr_page p) (pr_before p) (pr_after p) (pr_cursor p)
              (Some sort_by)) (\<lambda>po.
          and_then (db_result (dapi_search_assets (ax_ext A) (ax_rpc A) (ax_reader A) (ax_sql_text A) d saq sort_by po opts))
            (\<lambda>l. Inr (case (show_native_balance opts, sq_owner_address saq) of
                (True, Some owner) \<Rightarrow> l\<lparr>al_native_balance := lamports A api (bs58_encode (ax_ext A) owner)\<rparr>
              | _ \<Rightarrow> l))))"

definition api_get_asset_signatures :: "api_env \<Rightarrow> db \<Rightarrow> get_asset_signatures_request \<Rightarrow>
    transaction_signature_list api_result" where
  "api_get_asset_signatures A d p =
    (if \<not> (gt_id p \<noteq> None \<and> gt_tree p = None \<and> gt_leaf_index p = None \<or>
           gt_id p = None \<and> gt_tree p \<noteq> None \<and> gt_leaf_index p \<noteq> None)
     then Inl (ValidationError (''Must provide either 'id' or both 'tree' and 'leafIndex'' @ [CHR 0x27]))
     else and_then (validate_opt_pubkey A (gt_id p)) (\<lambda>i.
       and_then (validate_opt_pubkey A (gt_tree p)) (\<lambda>tree.
       and_then (validate_pagination A (pr_limit p) (pr_page p) (pr_before p) (pr_after p) (pr_cursor p) None) (\<lambda>po.
       db_result (dapi_asset_signatures (ax_ext A) (ax_rpc A) (ax_reader A) d i tree (gt_leaf_index p) po
         (gt_sort_direction p))))))"

definition api_get_grouping :: "db \<Rightarrow> string \<Rightarrow> string \<Rightarrow> get_grouping_response" where
  "api_get_grouping d key value =
     \<lparr>gp_group_key = key, gp_group_name = value, gp_group_size = get_grouping d key value\<rparr>"

definition api_get_token_accounts :: "api_env \<Rightarrow> db \<Rightarrow> get_token_accounts_request \<Rightarrow> token_account_list api_result" where
  "api_get_token_accounts A d p =
     and_then (validate_opt_pubkey A (gk_owner_address p)) (\<lambda>owner_address.
     and_then (validate_opt_pubkey A (gk_mint_address p)) (\<lambda>mint_address.
       let opts = (case gk_options p of Some o' \<Rightarrow> o' | None \<Rightarrow> options_default)
       in and_then (validate_pagination A (pr_limit p) (pr_page p) (pr_before p) (pr_after p) (pr_cursor p) None) (\<lambda>po.
          db_result (dapi_token_accounts (ax_ext A) (ax_rpc A) d owner_address mint_address po opts))))"

definition api_get_nft_editions :: "api_env \<Rightarrow> db \<Rightarrow> get_nft_editions_request \<Rightarrow> nft_editions api_result" where
  "api_get_nft_editions A d p =
     and_then (validate_pagination A (pr_limit p) (pr_page p) (pr_before p) (pr_after p) (pr_cursor p) None) (\<lambda>po.
     and_then (validate_pubkey A (gn_mint_address p)) (\<lambda>mint_address.
     and_then (db_result (create_pagination po)) (\<lambda>pagination.
       db_result (get_nft_editions (ax_ext A) (ax_reader A) (rx_utf8 (ax_rpc A)) d mint_address pagination (po_limit po)))))"

section \<open>Registered names\<close>

datatype api_method =
    M_Healthz | M_GetAssetProof | M_GetAssetProofs | M_GetAsset | M_GetAssets | M_GetAssetsByOwner
  | M_GetAssetsByCreator | M_GetAssetsByAuthority | M_GetAssetsByGroup | M_GetAssetSignatures
  | M_SearchAssets | M_Schema | M_GetTokenAccounts | M_GetNftEditions | M_GetGrouping

definition registered :: "(string \<times> api_method) list" where
  "registered =
    [(''healthz'', M_Healthz),
     (''get_asset_proof'', M_GetAssetProof), (''getAssetProof'', M_GetAssetProof),
     (''get_asset_proofs'', M_GetAssetProofs), (''getAssetProofs'', M_GetAssetProofs),
     (''get_asset_proof_batch'', M_GetAssetProofs), (''getAssetProofBatch'', M_GetAssetProofs),
     (''get_asset'', M_GetAsset), (''getAsset'', M_GetAsset),
     (''get_assets'', M_GetAssets), (''getAssets'', M_GetAssets),
     (''get_asset_batch'', M_GetAssets), (''getAssetBatch'', M_GetAssets),
     (''get_assets_by_owner'', M_GetAssetsByOwner), (''getAssetsByOwner'', M_GetAssetsByOwner),
     (''get_assets_by_creator'', M_GetAssetsByCreator), (''getAssetsByCreator'', M_GetAssetsByCreator),
     (''getAssetsByAuthority'', M_GetAssetsByAuthority),
     (''get_assets_by_group'', M_GetAssetsByGroup), (''getAssetsByGroup'', M_GetAssetsByGroup),
     (''getAssetSignatures'', M_GetAssetSignatures), (''getSignaturesForAsset'', M_GetAssetSignatures),
     (''search_assets'', M_SearchAssets), (''searchAssets'', M_SearchAssets),
     (''schema'', M_Schema),
     (''get_token_accounts'', M_GetTokenAccounts), (''getTokenAccounts'', M_GetTokenAccounts),
     (''get_nft_editions'', M_GetNftEditions), (''getNftEditions'', M_GetNftEditions)]"

text \<open>The names that the contract documents (\<open>#[rpc(name = ...)]\<close>).\<close>

definition documented :: "(string \<times> api_method) list" where
  "documented =
    [(''getAssetProof'', M_GetAssetProof), (''getAssetProofs'', M_GetAssetProofs), (''getAsset'', M_GetAsset),
     (''getAssets'', M_GetAssets), (''getAssetsByOwner'', M_GetAssetsByOwner), (''getAssetsByGroup'', M_GetAssetsByGroup),
     (''getAssetsByCreator'', M_GetAssetsByCreator), (''getAssetsByAuthority'', M_GetAssetsByAuthority),
     (''searchAssets'', M_SearchAssets), (''getAssetSignatures'', M_GetAssetSignatures),
     (''getGrouping'', M_GetGrouping), (''getTokenAccounts'', M_GetTokenAccounts), (''getNftEditions'', M_GetNftEditions)]"

end
