(* ===== verification/Api_Properties.thy ===== *)
theory Api_Properties
  imports Das_Api Read_Properties
begin

text \<open>
  Properties of the API server: the pages a request may ask for, what a client sees that follows the
  cursor, the methods that ignore it, the search conditions, and the answers that come from upstream.
\<close>

section \<open>Pages\<close>

text \<open>The page that the server builds for a request it accepts.\<close>

definition built_page :: "api_env \<Rightarrow> u32 option \<Rightarrow> string option \<Rightarrow> string option \<Rightarrow> string option \<Rightarrow>
    asset_sorting option \<Rightarrow> pagination" where
  "built_page A page before after c sorting =
    (case page of
       Some n \<Rightarrow> Page (ucast n)
     | None \<Rightarrow>
         if before \<noteq> None \<or> after \<noteq> None \<or> sorting = None
         then Keyset (map_option (decode_bound A) before) (map_option (decode_bound A) after)
         else Cursor \<lparr>cu_id = Option.bind c (bs58_decode (ax_ext A))\<rparr>)"

lemma validate_pagination_Ok:
  assumes "validate_pagination A limit page before after c sorting = Inr po"
  shows "create_pagination po = Inr (built_page A page before after c sorting)"
    and "po_limit po = (case limit of Some l \<Rightarrow> ucast l | None \<Rightarrow> 1000)"
    and "\<forall>l. limit = Some l \<longrightarrow> l \<le> 1000"
    and "page \<noteq> Some 0"
    and "length (filter id [page \<noteq> None, before \<noteq> None \<or> after \<noteq> None, c \<noteq> None]) \<le> 1"
    and "\<forall>s. before = Some s \<or> after = Some s \<longrightarrow> ax_from_str A s \<noteq> None"
    and "sorting \<noteq> None \<Longrightarrow> \<forall>s. c = Some s \<longrightarrow> bs58_decode (ax_ext A) s \<noteq> None"
  using assms
  by (auto simp: validate_pagination_def check_page_def check_bound_def create_pagination_def built_page_def
      get_cursor_def cursor_default_def validate_pubkey_def Let_def not_less split: if_splits option.splits sum.splits)

text \<open>
  The page a request asks for: the one with the number it gives, the rows past the cursor it gives, or else the rows
  between the addresses it gives.
\<close>

definition asked_page :: "api_env \<Rightarrow> u32 option \<Rightarrow> string option \<Rightarrow> string option \<Rightarrow> string option \<Rightarrow> pagination" where
  "asked_page A page before after c =
    (case (page, c) of
       (Some n, _) \<Rightarrow> Page (ucast n)
     | (None, Some s) \<Rightarrow> Cursor \<lparr>cu_id = bs58_decode (ax_ext A) s\<rparr>
     | (None, None) \<Rightarrow> Keyset (Option.bind before (ax_from_str A)) (Option.bind after (ax_from_str A)))"

text \<open>
  C36: Accepted pages are well formed, and all but one kind are the pages asked for. When \<open>validate_pagination\<close> accepts a
  request, the limit is the one asked for and at most 1000, the request named at most one way of paging, and a page number
  is not zero. \<open>create_pagination\<close> never answers with its error, and the page it builds fetches from any table the rows that the page
  asked for fetches, unless the request gives a cursor to a method without a sorting: then the cursor, although accepted,
  is dropped, and the page is the first one whatever the cursor says. (An address read by \<open>Pubkey::from_str\<close> is the base58
  decoding of its text.)
\<close>

theorem accepted_pages:
  assumes "validate_pagination A limit page before after c sorting = Inr po"
    and "\<And>s k. ax_from_str A s = Some k \<Longrightarrow> bs58_decode (ax_ext A) s = Some k"
  shows "unat (po_limit po) = (case limit of Some l \<Rightarrow> unat l | None \<Rightarrow> 1000) \<and> unat (po_limit po) \<le> 1000 \<and> page \<noteq> Some 0 \<and>
    length (filter id [page \<noteq> None, before \<noteq> None \<or> after \<noteq> None, c \<noteq> None]) \<le> 1 \<and>
    (\<exists>p. create_pagination po = Inr p \<and>
      (if c \<noteq> None \<and> sorting = None then p = Keyset None None
       else \<forall>dir column rows. paginate p (po_limit po) dir column rows =
         paginate (asked_page A page before after c) (po_limit po) dir column rows))"
proof -
  note ok = validate_pagination_Ok [OF assms(1)]
  have size: "unat (ucast l :: u64) = unat l" for l :: u32
    using unsigned_less [of l, where ?'a = nat] by (simp add: unsigned_ucast_eq take_bit_nat_eq_self)
  have limit: "unat (po_limit po) = (case limit of Some l \<Rightarrow> unat l | None \<Rightarrow> 1000)"
    using ok(2) size by (simp split: option.splits)
  moreover have "unat (po_limit po) \<le> 1000"
  proof (cases limit)
    case (Some l)
    then have "unat l \<le> unat (1000 :: u32)" using ok(3) by (simp only: word_le_nat_alt)
    with Some limit show ?thesis by simp
  qed (use limit in simp)
  moreover have bound: "map_option (decode_bound A) b = Option.bind b (ax_from_str A)" if "b = before \<or> b = after" for b
    using that ok(6) assms(2) by (cases b) (auto simp: decode_bound_def)
  have "if c \<noteq> None \<and> sorting = None then built_page A page before after c sorting = Keyset None None
       else \<forall>dir column rows. paginate (built_page A page before after c sorting) (po_limit po) dir column rows =
         paginate (asked_page A page before after c) (po_limit po) dir column rows"
    using ok(5,7) bound [of before] bound [of after]
    by (cases page; cases c; cases before; cases after; cases sorting)
      (auto simp: built_page_def asked_page_def paginate_def split: if_splits)
  ultimately show ?thesis using ok(1,4,5) by blast
qed

theorem accepted_pages_witness:
  "\<exists>A po. validate_pagination A (Some 5) (Some 3) None None None (Some asset_sorting_default) = Inr po \<and>
    (\<exists>p. create_pagination po = Inr p \<and>
      (\<forall>dir column rows. paginate p (po_limit po) dir column (rows :: nat list) =
        paginate (Page 3) (po_limit po) dir column rows))"
proof -
  fix A :: api_env
  let ?A = "A\<lparr>ax_from_str := \<lambda>_. None\<rparr>"
  obtain po where po: "validate_pagination ?A (Some 5) (Some 3) None None None (Some asset_sorting_default) = Inr po"
    by (simp add: validate_pagination_def check_page_def check_bound_def Let_def)
  have parse: "bs58_decode (ax_ext ?A) s = Some k" if "ax_from_str ?A s = Some k" for s k using that by simp
  from accepted_pages [where ?'a = nat, OF po parse]
  have "\<exists>p. create_pagination po = Inr p \<and> (\<forall>dir column rows. paginate p (po_limit po) dir column (rows :: nat list) =
        paginate (Page 3) (po_limit po) dir column rows)"
    by (simp add: asked_page_def)
  with po show ?thesis by blast
qed

section \<open>Following the cursor\<close>

text \<open>Which keys come after a key in a direction, and what a cursor page holds.\<close>

definition past :: "sort_order \<Rightarrow> bytes \<Rightarrow> bytes \<Rightarrow> bool" where
  "past dir i k = (if dir = Asc then k > i else k < i)"

lemma past_simps: "past Asc = (<)" "past Desc = (>)"
  by (auto simp: past_def fun_eq_iff)

lemma past_irrefl [simp]: "\<not> past dir k k"
  by (simp add: past_def)

lemma paginate_cursor:
  "paginate (Cursor \<lparr>cu_id = i\<rparr>) limit dir column rows =
    take (unat limit) (filter (\<lambda>r. case i of None \<Rightarrow> True | Some k \<Rightarrow> past dir k (column r)) rows)"
  by (auto simp: paginate_def past_def split: option.splits)

lemma filter_past:
  assumes "sorted_wrt (past dir) (map column (seen @ rest))" "seen \<noteq> []"
  shows "filter (\<lambda>r. past dir (column (last seen)) (column r)) (seen @ rest) = rest"
proof -
  obtain ys y where seen: "seen = ys @ [y]" using assms(2) by (cases seen rule: rev_cases) auto
  have "\<not> past dir (column y) (column r)" if "r \<in> set seen" for r
    using that assms(1) by (auto simp: seen sorted_wrt_append past_def split: if_splits dest: order.asym)
  moreover have "past dir (column y) (column r)" if "r \<in> set rest" for r
    using that assms(1) by (auto simp: seen sorted_wrt_append)
  ultimately have "filter (\<lambda>r. past dir (column y) (column r)) seen = []"
    "filter (\<lambda>r. past dir (column y) (column r)) rest = rest"
    by (simp_all add: filter_empty_conv)
  then show ?thesis by (simp add: seen)
qed

lemma sorted_by_id:
  assumes "distinct (map a_id rows)"
  shows "sorted_wrt (past dir) (map a_id (order_rows (Some Col_Id) dir rows))"
proof -
  let ?s = "sort_key a_id rows"
  have eq: "order_rows (Some Col_Id) dir rows = (if dir = Asc then ?s else rev ?s)"
    using sort_key_pair [of rows "\<lambda>a. (False, 0 :: int)" "(False, 0)" a_id]
    by (simp add: order_rows_def sort_col_def)
  have "distinct (map a_id ?s)" using assms by (simp add: distinct_map)
  then have "sorted_wrt (<) (map a_id ?s)"
    using sorted_sort_key [of a_id rows] by (simp only: strict_sorted_iff)
  then show ?thesis
    unfolding eq by (cases dir) (simp_all add: past_simps rev_map [symmetric] sorted_wrt_rev)
qed

section \<open>The assets of a page\<close>

lemma attach_assets:
  assumes "\<And>x fa. fa_asset (f x fa) = fa_asset fa"
  shows "map (\<lambda>(i, fa). fa_asset fa) (attach k f xs m) = map (\<lambda>(i, fa). fa_asset fa) m"
proof (induction xs arbitrary: m)
  case (Cons x xs)
  have "map (\<lambda>(i, fa). fa_asset fa) (AList.map_entry (k x) (f x) m) = map (\<lambda>(i, fa). fa_asset fa) m"
    by (induction m) (auto simp: assms)
  with Cons show ?case by (simp add: attach_def)
qed (simp add: attach_def)

lemma update_fresh: "k \<notin> fst ` set m \<Longrightarrow> AList.update k v m = m @ [(k, v)]"
  by (induction m) auto

lemma insert_full_assets:
  assumes "distinct (map a_id as)" "fst ` set m \<inter> a_id ` set as = {}"
  shows "map (\<lambda>(i, fa). fa_asset fa) (fold (insert_full dm) as m) =
    map (\<lambda>(i, fa). fa_asset fa) m @ filter (\<lambda>a. Option.bind (a_asset_data a) (map_of dm) \<noteq> None) as"
  using assms
proof (induction as arbitrary: m)
  case (Cons a as)
  show ?case
  proof (cases "Option.bind (a_asset_data a) (map_of dm)")
    case None
    then have "insert_full dm a m = m" by (simp add: insert_full_def)
    with None Cons.IH [of m] Cons.prems show ?thesis by simp
  next
    case (Some ad)
    moreover have "a_id a \<notin> fst ` set m" using Cons.prems(2) by auto
    ultimately have step: "insert_full dm a m = m @ [(a_id a, \<lparr>fa_asset = a, fa_data = ad, fa_token_info = None,
        fa_authorities = [], fa_creators = [], fa_inscription = None, fa_groups = []\<rparr>)]"
      by (simp add: insert_full_def update_fresh)
    show ?thesis
      unfolding fold_Cons comp_def step by (subst Cons.IH) (use Cons.prems Some in auto)
  qed
qed simp

lemma dom_collect:
  "dom (map_of (fold (\<lambda>x m. AList.update (k x) (v x) m) xs m)) = dom (map_of m) \<union> k ` set xs"
  by (induction xs arbitrary: m) (auto simp: update_conv')

text \<open>
  An asset whose data row is stored, and one that the answer can show: it has a class too, or is a compressed asset of
  the second version.
\<close>

definition has_data_row :: "db \<Rightarrow> asset \<Rightarrow> bool" where
  "has_data_row d a = (a_asset_data a \<noteq> None \<and> asset_data_row (a_id a) d \<noteq> None)"

definition asset_shown :: "db \<Rightarrow> asset \<Rightarrow> bool" where
  "asset_shown d a = (has_data_row d a \<and>
     (a_specification_asset_class a \<noteq> None \<or> a_compressed a \<and> a_collection_hash a \<noteq> None))"

text \<open>The data of an asset is stored under its own address, if at all.\<close>

definition own_data_row :: "asset \<Rightarrow> bool" where
  "own_data_row a = (a_asset_data a = None \<or> a_asset_data a = Some (a_id a))"

lemma get_related_assets:
  assumes "\<forall>a\<in>set as. own_data_row a" and "distinct (map a_id as)"
  shows "map fa_asset (get_related_for_assets d as opts None) = filter (has_data_row d) as"
proof -
  let ?dm = "collect_map ad_id (\<lambda>ad. ad) (filter (\<lambda>ad. ad_id ad \<in> set (map a_id as)) (asset_data_t d))"
  have dom: "dom (map_of ?dm) = ad_id ` {ad \<in> set (asset_data_t d). ad_id ad \<in> set (map a_id as)}"
    unfolding collect_map_def dom_collect by simp
  have "Option.bind (a_asset_data a) (map_of ?dm) \<noteq> None \<longleftrightarrow> has_data_row d a" if "a \<in> set as" for a
  proof -
    have "map_of ?dm (a_id a) \<noteq> None \<longleftrightarrow> a_id a \<in> dom (map_of ?dm)" by auto
    also have "\<dots> \<longleftrightarrow> asset_data_row (a_id a) d \<noteq> None"
      using that unfolding dom lookup_def find_None_iff by (auto simp: image_iff)
    finally show ?thesis using assms(1) that by (auto simp: own_data_row_def has_data_row_def)
  qed
  then have "filter (\<lambda>a. Option.bind (a_asset_data a) (map_of ?dm) \<noteq> None) as = filter (has_data_row d) as"
    by (intro filter_cong) simp_all
  then have "map (\<lambda>(i, fa). fa_asset fa) (fold (insert_full ?dm) as []) = filter (has_data_row d) as"
    using insert_full_assets [of as "[]" ?dm] assms(2) by simp
  moreover have "(\<lambda>(i, fa). fa_asset fa) \<circ> (\<lambda>(i, fa). (i, fa\<lparr>fa_creators := h fa\<rparr>)) = (\<lambda>(i :: bytes, fa). fa_asset fa)"
    "fa_asset \<circ> (\<lambda>(i :: bytes, fa). fa\<lparr>fa_groups := g fa\<rparr>) = (\<lambda>(i, fa). fa_asset fa)"
    for h :: "full_asset \<Rightarrow> asset_creators list" and g :: "full_asset \<Rightarrow> group_with_data list"
    by auto
  ultimately show ?thesis
    unfolding get_related_for_assets_def Let_def by (simp add: attach_assets)
qed

lemma asset_list_to_rpc_ids:
  "map rpc_id (fst (asset_list_to_rpc E X fas opts)) = map (\<lambda>fa. bs58_encode E (a_id (fa_asset fa)))
    (filter (\<lambda>fa. a_specification_asset_class (fa_asset fa) \<noteq> None \<or>
       a_compressed (fa_asset fa) \<and> a_collection_hash (fa_asset fa) \<noteq> None) fas)"
  by (induction fas)
    (auto simp: asset_to_rpc_def to_grouping_def get_interface_def Let_def split: prod.splits option.splits)

text \<open>The assets of an owner in the order of the answer.\<close>

definition owned :: "db \<Rightarrow> bytes \<Rightarrow> sort_order \<Rightarrow> asset list" where
  "owned d owner dir = order_rows (Some Col_Id) dir
     (filter (\<lambda>a. sql_eq (a_owner a) (Some owner) \<and> a_supply a > 0) (asset_t d))"

lemma set_owned: "set (owned d owner dir) = {a \<in> set (asset_t d). sql_eq (a_owner a) (Some owner) \<and> a_supply a > 0}"
  by (simp add: owned_def order_rows_def Let_def)

lemma owned_sorted:
  "table_ok a_id (asset_t d) \<Longrightarrow> sorted_wrt (past dir) (map a_id (owned d owner dir))"
  unfolding owned_def by (rule sorted_by_id) (simp add: table_ok_def distinct_map_filter)

lemma sorted_past_distinct: "sorted_wrt (past dir) xs \<Longrightarrow> distinct xs"
  by (induction xs) auto

lemma owner_page:
  fixes owner :: bytes
  assumes "table_ok a_id (asset_t d)" "\<forall>a\<in>set (asset_t d). own_data_row a"
    and "create_sorting sorting = (dir, Some Col_Id)" "create_pagination po = Inr (Cursor cu)"
  defines "page \<equiv> paginate (Cursor cu) (po_limit po) dir a_id (owned d owner dir)"
  shows "\<exists>l. dapi_assets_by_owner E X d owner sorting po opts = Inr l \<and>
    map rpc_id (al_items l) = map (\<lambda>a. bs58_encode E (a_id a)) (filter (asset_shown d) page) \<and>
    al_cursor l = (if filter (has_data_row d) page = [] then None else Some (bs58_encode E (a_id (last (filter (has_data_row d) page)))))"
proof -
  have sub: "set page \<subseteq> set (owned d owner dir)"
    unfolding page_def by (auto simp: paginate_def dest!: in_set_takeD split: option.splits)
  have "sorted_wrt (past dir) (map a_id page)"
    using owned_sorted [OF assms(1), of dir owner]
    by (auto simp: page_def paginate_def take_map sorted_wrt_map intro!: sorted_wrt_take sorted_wrt_filter
        split: option.splits)
  then have dist: "distinct (map a_id page)" by (rule sorted_past_distinct)
  define fas where "fas = get_related_for_assets d page opts None"
  have fas: "map fa_asset fas = filter (has_data_row d) page"
    unfolding fas_def using sub assms(2) dist by (intro get_related_assets) (auto simp: set_owned)
  have "map rpc_id (fst (asset_list_to_rpc E X fas opts)) = map (\<lambda>a. bs58_encode E (a_id a))
      (filter (\<lambda>a. a_specification_asset_class a \<noteq> None \<or> a_compressed a \<and> a_collection_hash a \<noteq> None) (map fa_asset fas))"
    unfolding asset_list_to_rpc_ids by (simp add: filter_map comp_def)
  also have "\<dots> = map (\<lambda>a. bs58_encode E (a_id a)) (filter (asset_shown d) page)"
    unfolding fas by (simp add: asset_shown_def [abs_def] conj_commute)
  finally have items: "map rpc_id (fst (asset_list_to_rpc E X fas opts)) =
      map (\<lambda>a. bs58_encode E (a_id a)) (filter (asset_shown d) page)" .
  have last: "fas \<noteq> [] \<Longrightarrow> fa_asset (last fas) = last (filter (has_data_row d) page)" "fas = [] \<longleftrightarrow> filter (has_data_row d) page = []"
    using fas by (auto simp: last_map [symmetric])
  have "dapi_assets_by_owner E X d owner sorting po opts =
      Inr (build_asset_response E X fas (po_limit po) (Cursor cu) opts)"
    using assms(3,4)
    by (simp add: dapi_assets_by_owner_def dapi_list_def get_assets_by_owner_def get_assets_by_condition_def
        fas_def page_def owned_def)
  then show ?thesis
    using items last
    by (auto simp: build_asset_response_def next_cursor_def page_before_after_def split: prod.splits)
qed

text \<open>A client that asks for the assets of an owner and follows the cursor for at most \<open>n\<close> pages.\<close>

fun follow_owner :: "nat \<Rightarrow> api_env \<Rightarrow> das_api \<Rightarrow> db \<Rightarrow> get_assets_by_owner_request \<Rightarrow> rpc_asset list api_result" where
  "follow_owner 0 A api d p = Inr []"
| "follow_owner (Suc n) A api d p =
    (case api_get_assets_by_owner A api d p of
       Inl e \<Rightarrow> Inl e
     | Inr l \<Rightarrow>
        (case al_cursor l of
           None \<Rightarrow> Inr (al_items l)
         | Some c \<Rightarrow> map_sum id ((@) (al_items l)) (follow_owner n A api d (p\<lparr>pr_cursor := Some c\<rparr>))))"

definition owner_sorting :: "get_assets_by_owner_request \<Rightarrow> asset_sorting" where
  "owner_sorting p = (case go_sort_by p of Some s \<Rightarrow> s | None \<Rightarrow> asset_sorting_default)"

text \<open>A request that pages by cursor: sorted by id, no page number, no bounds.\<close>

definition pages_by_cursor :: "get_assets_by_owner_request \<Rightarrow> bool" where
  "pages_by_cursor p =
    (pr_page p = None \<and> pr_before p = None \<and> pr_after p = None \<and> so_sort_by (owner_sorting p) = SB_Id \<and>
     (case pr_limit p of Some l \<Rightarrow> 0 < l \<and> l \<le> 1000 | None \<Rightarrow> True))"

definition page_limit :: "get_assets_by_owner_request \<Rightarrow> u64" where
  "page_limit p = (case pr_limit p of Some l \<Rightarrow> ucast l | None \<Rightarrow> 1000)"

lemma page_limit_pos: "pages_by_cursor p \<Longrightarrow> 0 < unat (page_limit p)"
proof (cases "pr_limit p")
  case (Some l)
  assume "pages_by_cursor p"
  then have "unat l \<noteq> 0" using Some by (auto simp: pages_by_cursor_def unat_eq_0)
  moreover have "unat (ucast l :: u64) = unat l"
    using unsigned_less [of l, where ?'a = nat] by (simp add: unsigned_ucast_eq take_bit_nat_eq_self)
  ultimately show ?thesis using Some by (simp add: page_limit_def)
qed (simp add: page_limit_def)

lemma api_owner_page:
  fixes owner :: bytes
  assumes "table_ok a_id (asset_t d)" "\<forall>a\<in>set (asset_t d). own_data_row a"
    and "ax_from_str A (go_owner_address p) = Some owner" "pages_by_cursor p"
    and "fst (create_sorting (owner_sorting p)) = dir"
    and "pr_cursor p = map_option (bs58_encode (ax_ext A)) i"
    and "\<And>b. bs58_decode (ax_ext A) (bs58_encode (ax_ext A) b) = Some b"
  defines "page \<equiv> paginate (Cursor \<lparr>cu_id = i\<rparr>) (page_limit p) dir a_id (owned d owner dir)"
  shows "\<exists>l. api_get_assets_by_owner A api d p = Inr l \<and>
    map rpc_id (al_items l) = map (\<lambda>a. bs58_encode (ax_ext A) (a_id a)) (filter (asset_shown d) page) \<and>
    al_cursor l = (if filter (has_data_row d) page = [] then None
      else Some (bs58_encode (ax_ext A) (a_id (last (filter (has_data_row d) page)))))"
proof -
  let ?opts = "case go_options p of Some o' \<Rightarrow> o' | None \<Rightarrow> options_default"
  define po where "po = \<lparr>po_limit = page_limit p, po_page = None, po_before = None, po_after = None,
      po_cursor = Some \<lparr>cu_id = i\<rparr>\<rparr>"
  have sorting: "create_sorting (owner_sorting p) = (dir, Some Col_Id)"
    using assms(4,5) by (auto simp: create_sorting_def pages_by_cursor_def)
  have "create_pagination po = Inr (Cursor \<lparr>cu_id = i\<rparr>)" by (simp add: po_def create_pagination_def)
  from owner_page [where owner = owner and E = "ax_ext A" and X = "ax_rpc A" and opts = ?opts,
      OF assms(1,2) sorting this]
  obtain l where l: "dapi_assets_by_owner (ax_ext A) (ax_rpc A) d owner (owner_sorting p) po ?opts = Inr l"
    "map rpc_id (al_items l) = map (\<lambda>a. bs58_encode (ax_ext A) (a_id a)) (filter (asset_shown d) page)"
    "al_cursor l = (if filter (has_data_row d) page = [] then None
      else Some (bs58_encode (ax_ext A) (a_id (last (filter (has_data_row d) page)))))"
    unfolding page_def by (auto simp: po_def)
  have "validate_pagination A (pr_limit p) (pr_page p) (non_empty (pr_before p)) (non_empty (pr_after p)) (pr_cursor p)
      (Some (owner_sorting p)) = Inr po"
    using assms(4,6,7)
    by (auto simp: validate_pagination_def check_page_def check_bound_def get_cursor_def cursor_default_def
        sorted_by_other_def pages_by_cursor_def non_empty_def po_def page_limit_def split: option.splits)
  with l assms(3) show ?thesis
    by (auto simp: api_get_assets_by_owner_def validate_pubkey_def and_then_def db_result_def Let_def
        owner_sorting_def [symmetric])
qed

text \<open>
  The rows before the first stretch of \<open>n\<close> rows (or of all that are left) none of which satisfies \<open>P\<close>.
\<close>

fun before_blank :: "nat \<Rightarrow> ('a \<Rightarrow> bool) \<Rightarrow> 'a list \<Rightarrow> 'a list" where
  "before_blank n P [] = []"
| "before_blank n P (x # xs) = (if \<exists>y\<in>set (take n (x # xs)). P y then x # before_blank n P xs else [])"

lemma before_blank_step:
  assumes "P y" "length ps < n"
  shows "before_blank n P (ps @ y # rs) = ps @ y # before_blank n P rs"
  using assms
proof (induction ps)
  case (Cons p ps)
  then have "y \<in> set (take n (p # ps @ y # rs))" by (auto simp: take_Cons' in_set_conv_nth nth_append intro!: exI [of _ "length ps"])
  with Cons show ?case by auto
qed (auto simp: take_Cons')

lemma before_blank_none: "\<forall>y\<in>set (take n xs). \<not> P y \<Longrightarrow> before_blank n P xs = []"
  by (cases xs) auto

lemma before_blank_all:
  assumes "\<forall>k. k + n \<le> length xs \<longrightarrow> (\<exists>y\<in>set (take n (drop k xs)). P y)"
  shows "filter P (before_blank n P xs) = filter P xs"
  using assms
proof (induction xs)
  case (Cons x xs)
  show ?case
  proof (cases "\<exists>y\<in>set (take n (x # xs)). P y")
    case True
    have "\<exists>y\<in>set (take n (drop k xs)). P y" if "k + n \<le> length xs" for k
      using Cons.prems [rule_format, of "Suc k"] that by simp
    with True Cons.IH show ?thesis by simp
  next
    case False
    then have "\<not> n \<le> length (x # xs)" using Cons.prems [rule_format, of 0] by auto
    then have "take n (x # xs) = x # xs" by simp
    with False show ?thesis by (auto simp: filter_empty_conv)
  qed
qed simp

lemma last_split:
  assumes "\<exists>y\<in>set xs. P y"
  obtains ps y rs where "xs = ps @ y # rs" "P y" "\<forall>r\<in>set rs. \<not> P r" "last (filter P xs) = y"
  using assms
proof (induction xs arbitrary: thesis rule: rev_induct)
  case (snoc x xs)
  show thesis
  proof (cases "P x")
    case True
    then show thesis using snoc.prems(1) [of xs x "[]"] by simp
  next
    case False
    with snoc.prems(2) have "\<exists>y\<in>set xs. P y" by auto
    then obtain ps y rs where "xs = ps @ y # rs" "P y" "\<forall>r\<in>set rs. \<not> P r" "last (filter P xs) = y"
      using snoc.IH by blast
    with False show thesis using snoc.prems(1) [of ps y "rs @ [x]"] by simp
  qed
qed simp

lemma follow_owner_rest:
  fixes owner :: bytes
  assumes "table_ok a_id (asset_t d)" "\<forall>a\<in>set (asset_t d). own_data_row a"
    and "ax_from_str A (go_owner_address p) = Some owner" "pages_by_cursor p"
    and "fst (create_sorting (owner_sorting p)) = dir"
    and "\<And>b. bs58_decode (ax_ext A) (bs58_encode (ax_ext A) b) = Some b"
    and "pr_cursor p = (if seen = [] then None else Some (bs58_encode (ax_ext A) (a_id (last seen))))"
    and "owned d owner dir = seen @ rest" "length rest < n"
  shows "\<exists>items. follow_owner n A api d p = Inr items \<and>
    map rpc_id items = map (\<lambda>a. bs58_encode (ax_ext A) (a_id a))
      (filter (asset_shown d) (before_blank (unat (page_limit p)) (has_data_row d) rest))"
  using assms(3-5,7-9)
proof (induction n arbitrary: p seen rest)
  case (Suc n)
  let ?L = "unat (page_limit p)"
  define i where "i = (if seen = [] then None else Some (a_id (last seen)))"
  have sorted: "sorted_wrt (past dir) (map a_id (seen @ rest))"
    using owned_sorted [OF assms(1), of dir owner] Suc.prems(5) by simp
  have cur: "pr_cursor p = map_option (bs58_encode (ax_ext A)) i" by (simp add: i_def Suc.prems(4))
  have page: "paginate (Cursor \<lparr>cu_id = i\<rparr>) (page_limit p) dir a_id (owned d owner dir) = take ?L rest"
    unfolding paginate_cursor Suc.prems(5) i_def
    using filter_past [OF sorted] by (cases "seen = []") simp_all
  obtain l where l: "api_get_assets_by_owner A api d p = Inr l"
    "map rpc_id (al_items l) = map (\<lambda>a. bs58_encode (ax_ext A) (a_id a)) (filter (asset_shown d) (take ?L rest))"
    "al_cursor l = (if filter (has_data_row d) (take ?L rest) = [] then None
      else Some (bs58_encode (ax_ext A) (a_id (last (filter (has_data_row d) (take ?L rest))))))"
    using api_owner_page [OF assms(1,2) Suc.prems(1-3) cur assms(6)] unfolding page by auto
  show ?case
  proof (cases "\<exists>a\<in>set (take ?L rest). has_data_row d a")
    case True
    then obtain ps y rs where split: "take ?L rest = ps @ y # rs" "has_data_row d y" "\<forall>r\<in>set rs. \<not> has_data_row d r"
      "last (filter (has_data_row d) (take ?L rest)) = y" by (rule last_split)
    define rest' where "rest' = rs @ drop ?L rest"
    have "rest = take ?L rest @ drop ?L rest" by (rule append_take_drop_id [symmetric])
    then have rest: "rest = ps @ y # rest'" unfolding split(1) rest'_def by simp
    have "length (take ?L rest) \<le> ?L" by simp
    then have short: "length ps < ?L" unfolding split(1) by simp
    have none: "filter (asset_shown d) rs = []" using split(3) by (auto simp: filter_empty_conv asset_shown_def)
    let ?p = "p\<lparr>pr_cursor := Some (bs58_encode (ax_ext A) (a_id y))\<rparr>"
    have same: "pages_by_cursor ?p" "page_limit ?p = page_limit p" "owner_sorting ?p = owner_sorting p"
      "go_owner_address ?p = go_owner_address p"
      using Suc.prems(2) by (simp_all add: pages_by_cursor_def page_limit_def owner_sorting_def)
    have "\<exists>items. follow_owner n A api d ?p = Inr items \<and>
        map rpc_id items = map (\<lambda>a. bs58_encode (ax_ext A) (a_id a))
          (filter (asset_shown d) (before_blank (unat (page_limit ?p)) (has_data_row d) rest'))"
      by (rule Suc.IH [where seen = "seen @ ps @ [y]"]) (use Suc.prems same rest in simp_all)
    then obtain items where items: "follow_owner n A api d ?p = Inr items"
      "map rpc_id items = map (\<lambda>a. bs58_encode (ax_ext A) (a_id a)) (filter (asset_shown d) (before_blank ?L (has_data_row d) rest'))"
      using same(2) by auto
    have cursor: "al_cursor l = Some (bs58_encode (ax_ext A) (a_id y))"
      using l(3) split True by (auto simp: filter_empty_conv)
    have "follow_owner (Suc n) A api d p = Inr (al_items l @ items)" using l(1) cursor items(1) by simp
    moreover have "map rpc_id (al_items l @ items) = map (\<lambda>a. bs58_encode (ax_ext A) (a_id a))
        (filter (asset_shown d) (before_blank ?L (has_data_row d) rest))"
    proof -
      have "before_blank ?L (has_data_row d) rest = ps @ y # before_blank ?L (has_data_row d) rest'"
        unfolding rest by (rule before_blank_step) (use split(2) short in simp_all)
      moreover have "filter (asset_shown d) (take ?L rest) = filter (asset_shown d) (ps @ [y])"
        unfolding split(1) using none by simp
      ultimately show ?thesis using l(2) items(2) by simp
    qed
    ultimately show ?thesis by blast
  next
    case False
    then have "al_cursor l = None" "al_items l = []"
      using l(2,3) by (auto simp: filter_empty_conv asset_shown_def)
    with l(1) False show ?thesis by (simp add: before_blank_none)
  qed
qed simp

text \<open>
  C35: What a client sees that follows the cursor of \<open>getAssetsByOwner\<close>. When the data of an asset, if stored, is under its own
  address, and base58 decodes what it encodes, asking for one page after the other returns, after enough pages, each once
  and in the order of the addresses in the direction asked for, exactly those of the owner's assets with a supply that can be
  shown (their data row is stored, and they have a class or are compressed assets of the second version) and come before
  the first stretch, as long as a page, of assets without a data row: the page that meets such a stretch has no item and no
  cursor, so the client stops although more assets follow. Without such a stretch the client gets all that can be shown.
\<close>

theorem owner_cursor_result:
  fixes owner :: bytes
  assumes "table_ok a_id (asset_t d)" "\<forall>a\<in>set (asset_t d). own_data_row a"
    and "ax_from_str A (go_owner_address p) = Some owner" "pages_by_cursor p" "pr_cursor p = None"
    and "fst (create_sorting (owner_sorting p)) = dir"
    and "\<And>b. bs58_decode (ax_ext A) (bs58_encode (ax_ext A) b) = Some b"
    and "length (owned d owner dir) < n"
  shows "\<exists>items. follow_owner n A api d p = Inr items \<and>
    map rpc_id items = map (\<lambda>a. bs58_encode (ax_ext A) (a_id a))
      (filter (asset_shown d) (before_blank (unat (page_limit p)) (has_data_row d) (owned d owner dir))) \<and>
    ((\<forall>k. k + unat (page_limit p) \<le> length (owned d owner dir) \<longrightarrow>
        (\<exists>a\<in>set (take (unat (page_limit p)) (drop k (owned d owner dir))). has_data_row d a)) \<longrightarrow>
      map rpc_id items = map (\<lambda>a. bs58_encode (ax_ext A) (a_id a)) (filter (asset_shown d) (owned d owner dir)))"
proof -
  let ?b = "before_blank (unat (page_limit p)) (has_data_row d) (owned d owner dir)"
  have fl: "filter (asset_shown d) xs = filter (asset_shown d) (filter (has_data_row d) xs)" for xs
    by (simp add: asset_shown_def conj_commute cong: filter_cong)
  obtain items where items: "follow_owner n A api d p = Inr items"
    "map rpc_id items = map (\<lambda>a. bs58_encode (ax_ext A) (a_id a)) (filter (asset_shown d) ?b)"
    using follow_owner_rest [OF assms(1-4,6,7), of "[]" "owned d owner dir" n api] assms(5,8) by auto
  moreover have "filter (asset_shown d) ?b = filter (asset_shown d) (owned d owner dir)"
    if "\<forall>k. k + unat (page_limit p) \<le> length (owned d owner dir) \<longrightarrow>
        (\<exists>a\<in>set (take (unat (page_limit p)) (drop k (owned d owner dir))). has_data_row d a)"
    using before_blank_all [OF that] fl by metis
  ultimately show ?thesis by auto
qed

text \<open>A small server: every string is an address, upstream knows nothing.\<close>

definition rpc_env0 :: rpc_env where
  "rpc_env0 = \<lparr>rx_select = (\<lambda>_ _. None), rx_mime = (\<lambda>_. None), rx_to_string = (\<lambda>_. None), rx_inscription = (\<lambda>_. Inl []),
     rx_utf8 = (\<lambda>_. None), rx_db_err = (\<lambda>_. [])\<rparr>"

definition api_env0 :: api_env where
  "api_env0 = \<lparr>ax_ext = ext0, ax_rpc = rpc_env0, ax_reader = reader0, ax_sql_text = (\<lambda>_ _. None), ax_empty_node = (\<lambda>_. []),
     ax_from_str = (\<lambda>s. Some (str_bytes s)), ax_upstream = (\<lambda>_ _ _. Http_Failed), ax_asset_from_value = (\<lambda>_. None),
     ax_proof_from_value = (\<lambda>_. None), ax_balance = (\<lambda>_ _. None), ax_cache_readable = True, ax_cache_writable = True\<rparr>"

definition das_api0 :: das_api where
  "das_api0 = \<lparr>da_fallback = None, da_rpc_url = []\<rparr>"

definition owner_request0 :: get_assets_by_owner_request where
  "owner_request0 = \<lparr>pr_limit = Some 2, pr_page = None, pr_before = None, pr_after = None, pr_cursor = None,
     go_owner_address = ''A'', go_sort_by = None, go_options = None\<rparr>"

definition owned_db0 :: db where
  "owned_db0 = empty_db\<lparr>
     asset_t := map (\<lambda>k. (asset0 [k])\<lparr>a_owner := Some [65], a_specification_asset_class := Some SAC_Nft\<rparr>) [2, 3, 1],
     asset_data_t := map (\<lambda>k. asset_data0 [k]) [1, 2, 3]\<rparr>"

lemma of_char_byte: "of_char (char_of (unat b)) = (b :: u8)"
proof -
  have "of_char (char_of (unat b)) = (of_nat (unat b mod 256) :: u8)"
    using of_nat_of_char [of "char_of (unat b)", where ?'a = u8] by (simp only: of_char_of)
  also have "unat b mod 256 = unat b" using unsigned_less [of b, where ?'a = nat] by simp
  finally show ?thesis by simp
qed

lemma bs58_ext0: "bs58_decode ext0 (bs58_encode ext0 b) = Some b"
  by (induction b) (simp_all add: ext0_def str_bytes_def of_char_byte)

text \<open>Six assets of one owner, the data of four of them missing.\<close>

definition sparse_db0 :: db where
  "sparse_db0 = empty_db\<lparr>
     asset_t := map (\<lambda>k. (asset0 [k])\<lparr>a_owner := Some [65], a_specification_asset_class := Some SAC_Nft\<rparr>) [2, 3, 1, 6, 5, 4],
     asset_data_t := map (\<lambda>k. asset_data0 [k]) [1, 6]\<rparr>"

theorem owner_cursor_result_witness:
  "(\<exists>items. follow_owner 4 api_env0 das_api0 owned_db0 owner_request0 = Inr items \<and>
      map rpc_id items = [[char_of (3::nat)], [char_of (2::nat)], [char_of (1::nat)]]) \<and>
   (\<exists>items. follow_owner 7 api_env0 das_api0 sparse_db0 owner_request0 = Inr items \<and>
      map rpc_id items = [[char_of (6::nat)]]) \<and>
   map a_id (filter (asset_shown sparse_db0) (owned sparse_db0 [65] Desc)) = [[6], [1]]"
proof (intro conjI)
  have common: "ax_from_str api_env0 (go_owner_address owner_request0) = Some [65]" "pages_by_cursor owner_request0"
    "pr_cursor owner_request0 = None" "fst (create_sorting (owner_sorting owner_request0)) = Desc"
    "unat (page_limit owner_request0) = 2"
    by code_simp+
  have base58: "bs58_decode (ax_ext api_env0) (bs58_encode (ax_ext api_env0) b) = Some b" for b
    by (simp add: api_env0_def bs58_ext0)
  have encode: "map (\<lambda>a. bs58_encode (ax_ext api_env0) (a_id a)) as = map (bs58_encode ext0) (map a_id as)" for as
    by (simp add: api_env0_def)
  note result = owner_cursor_result [OF _ _ common(1-4) base58, where api = das_api0, unfolded common(5) encode]
  have "\<exists>items. follow_owner 4 api_env0 das_api0 owned_db0 owner_request0 = Inr items \<and> map rpc_id items =
      map (bs58_encode ext0) (map a_id (filter (asset_shown owned_db0) (before_blank 2 (has_data_row owned_db0) (owned owned_db0 [65] Desc))))"
  proof -
    have "table_ok a_id (asset_t owned_db0)" "\<forall>a\<in>set (asset_t owned_db0). own_data_row a"
      "length (owned owned_db0 [65] Desc) < 4" by code_simp+
    from result [OF this] show ?thesis by blast
  qed
  moreover have "map a_id (filter (asset_shown owned_db0) (before_blank 2 (has_data_row owned_db0) (owned owned_db0 [65] Desc))) =
      [[3], [2], [1]]"
    by code_simp
  ultimately show "\<exists>items. follow_owner 4 api_env0 das_api0 owned_db0 owner_request0 = Inr items \<and>
      map rpc_id items = [[char_of (3::nat)], [char_of (2::nat)], [char_of (1::nat)]]"
    by (simp add: ext0_def)
  have "\<exists>items. follow_owner 7 api_env0 das_api0 sparse_db0 owner_request0 = Inr items \<and> map rpc_id items =
      map (bs58_encode ext0) (map a_id (filter (asset_shown sparse_db0) (before_blank 2 (has_data_row sparse_db0) (owned sparse_db0 [65] Desc))))"
  proof -
    have "table_ok a_id (asset_t sparse_db0)" "\<forall>a\<in>set (asset_t sparse_db0). own_data_row a"
      "length (owned sparse_db0 [65] Desc) < 7" by code_simp+
    from result [OF this] show ?thesis by blast
  qed
  moreover have "map a_id (filter (asset_shown sparse_db0) (before_blank 2 (has_data_row sparse_db0) (owned sparse_db0 [65] Desc))) = [[6]]"
    by code_simp
  ultimately show "\<exists>items. follow_owner 7 api_env0 das_api0 sparse_db0 owner_request0 = Inr items \<and>
      map rpc_id items = [[char_of (6::nat)]]"
    by (simp add: ext0_def)
  show "map a_id (filter (asset_shown sparse_db0) (owned sparse_db0 [65] Desc)) = [[6], [1]]" by code_simp
qed

section \<open>Methods that ignore the cursor\<close>

text \<open>
  \<open>getTokenAccounts\<close> ignores the cursor. Without a sorting \<open>validate_pagination\<close> accepts a cursor and
  drops it, and the page it builds has no cursor to return: whatever cursor a client sends, even
  one that is not base58, it gets the first page, and no answer tells it where to go on.
\<close>

theorem token_accounts_ignore_cursor:
  assumes "pr_page p = None" "pr_before p = None" "pr_after p = None"
  shows "api_get_token_accounts A d (p\<lparr>pr_cursor := c\<rparr>) = api_get_token_accounts A d (p\<lparr>pr_cursor := None\<rparr>) \<and>
    (\<forall>l. api_get_token_accounts A d p = Inr l \<longrightarrow> tl_cursor l = None)"
proof -
  have page: "create_pagination po = Inr (Keyset None None)"
    if "validate_pagination A limit None None None c None = Inr po" for limit c po
    using validate_pagination_Ok(1) [OF that] by (simp add: built_page_def)
  have same: "validate_pagination A limit None None None c None = validate_pagination A limit None None None None None"
    for limit c
    by (simp add: validate_pagination_def check_page_def check_bound_def)
  have "tl_cursor l = None" if "api_get_token_accounts A d p = Inr l" for l
    using that assms
    by (auto dest!: page simp: api_get_token_accounts_def and_then_def db_result_def dapi_token_accounts_def Let_def
        build_token_list_response_def next_cursor_def page_before_after_def
        split: sum.splits prod.splits)
  moreover have "api_get_token_accounts A d (p\<lparr>pr_cursor := c\<rparr>) = api_get_token_accounts A d (p\<lparr>pr_cursor := None\<rparr>)"
    using assms same [of "pr_limit p" c] by (simp add: api_get_token_accounts_def)
  ultimately show ?thesis by blast
qed

definition token_request0 :: get_token_accounts_request where
  "token_request0 = \<lparr>pr_limit = Some 1, pr_page = None, pr_before = None, pr_after = None, pr_cursor = None,
     gk_owner_address = Some ''A'', gk_mint_address = None, gk_options = None\<rparr>"

definition token_db0 :: db where
  "token_db0 = empty_db\<lparr>token_accounts_t := map (\<lambda>k. \<lparr>ta_pubkey = [k], ta_mint = [1], ta_amount = 1, ta_owner = [65],
     ta_frozen = False, ta_close_authority = None, ta_delegate = None, ta_delegated_amount = 0, ta_slot_updated = 1,
     ta_token_program = [], ta_extensions = None\<rparr>) [5, 6]\<rparr>"

theorem token_accounts_ignore_cursor_witness:
  "map_sum id (\<lambda>l. map rt_address (tl_token_accounts l))
     (api_get_token_accounts api_env0 token_db0 (token_request0\<lparr>pr_cursor := Some [char_of (5::nat)]\<rparr>)) =
   Inr [[char_of (5::nat)]]"
proof -
  have "map_sum id (\<lambda>l. map rt_address (tl_token_accounts l))
      (api_get_token_accounts api_env0 token_db0 (token_request0\<lparr>pr_cursor := None\<rparr>)) = Inr [[char_of (5::nat)]]"
    by code_simp
  moreover have "api_get_token_accounts api_env0 token_db0 (token_request0\<lparr>pr_cursor := Some [char_of (5::nat)]\<rparr>) =
      api_get_token_accounts api_env0 token_db0 (token_request0\<lparr>pr_cursor := None\<rparr>)"
    using token_accounts_ignore_cursor [of token_request0 api_env0 token_db0] by (simp add: token_request0_def)
  ultimately show ?thesis by simp
qed

section \<open>Search\<close>

lemma foldr_or_holds: "c \<in> set cs \<Longrightarrow> holds (c r) \<Longrightarrow> holds (foldr (\<lambda>c. sql_or (c r)) cs z)"
  by (induction cs) auto

lemma hd_join_if: "hd (join_if b k rows key) \<in> set (join_if b k rows key)"
  by (rule hd_in_set) (simp add: join_if_def Let_def)

lemma in_concat_map: "x \<in> set xs \<Longrightarrow> y \<in> set (f x) \<Longrightarrow> y \<in> set (concat (map f xs))"
  by auto

lemma search_rows_assets:
  assumes "a \<in> set (asset_t d)"
  shows "\<exists>r\<in>set (search_rows d q). sr_asset r = a"
proof -
  have "\<exists>t c au g ad. \<lparr>sr_asset = a, sr_token = t, sr_creator = c, sr_authority = au, sr_grouping = g, sr_data = ad\<rparr>
      \<in> set (search_rows d q)"
    unfolding search_rows_def
    by (intro exI, rule in_concat_map [OF assms], (rule in_concat_map [OF hd_join_if])+, unfold set_map, rule imageI,
        rule hd_join_if)
  then show ?thesis by force
qed

text \<open>
  A search for any of several conditions returns everything. The conditions that a search adds by
  itself (a supply, the owner type) stand beside the ones asked for, so with \<open>conditionType: any\<close> each of
  them is enough: every asset with a supply matches, whatever was searched for.
\<close>

theorem any_search_matches_all:
  assumes "search_conditions X sql_text q = Inr condition"
    and "sq_condition_type q = Some CT_Any" "sq_negate q \<noteq> Some True" "sq_supply q = None"
    and "a \<in> set (asset_t d)" "a_supply a \<noteq> 0"
  shows "a \<in> set (map sr_asset (filter (\<lambda>r. holds (condition r)) (search_rows d q)))"
proof -
  obtain r where r: "r \<in> set (search_rows d q)" "sr_asset r = a" using search_rows_assets [OF assms(5)] by blast
  have default: "holds (supply_cond q r)"
    using assms(4,6) r(2) by (simp add: supply_cond_def)
  obtain cs where "condition = combine (Some CT_Any) cs" "supply_cond q \<in> set cs"
    using assms(1-3) by (auto simp: search_conditions_def Let_def split: sum.splits option.splits)
  then have "holds (condition r)" using default by (simp add: combine_def foldr_or_holds)
  with r show ?thesis by auto
qed

section \<open>Answers from upstream\<close>

text \<open>
  C37: A kept answer is served again. When upstream answered a request that the cache could not, the
  same request is answered from the cache until the time to live has passed, whatever
  upstream says by then.
\<close>

theorem upstream_answer_kept:
  assumes "cached A fb from_value now cache method key = None"
    and "fallback_get A fb from_value now cache method key params = (Some x, cache')"
    and "ax_cache_writable A" "ax_cache_readable A'" "now' < now + as_i64 (fb_ttl fb)"
  shows "fallback_get A' fb from_value now' cache' method key params' = (Some x, cache')"
proof -
  obtain result where result: "from_value result = Some x" "cache' = store A now method key result cache"
    using assms(1,2) by (auto simp: fallback_get_def split: option.splits)
  obtain row where "lookup fc_key (method, key) cache' = Some row" "fc_response row = result" "fc_fetched_at row = now"
  proof (cases "lookup fc_key (method, key) cache")
    case None
    then show thesis using that assms(3) by (simp add: result(2) store_def lookup_upsert fc_key_def)
  next
    case (Some row)
    then show thesis using that assms(3) by (simp add: result(2) store_def lookup_upsert fc_key_def)
  qed
  then show ?thesis using assms(4,5) result(1) by (simp add: fallback_get_def cached_def)
qed

text \<open>
  An indexed asset can be answered from upstream. A burnt asset of supply zero that is in the
  tables is an error of the local query, and so the kept answer of upstream is returned for it, one
  that knows nothing of the burn included.
\<close>

theorem burnt_asset_from_upstream:
  assumes "ax_from_str A (ga_id p) = Some k" "asset_row k d = Some a" "a_supply a = 0"
    and "da_fallback api = Some fb" "ax_cache_readable A"
    and "lookup fc_key (''getAsset'', ga_id p) cache = Some row" "fc_fetched_at row > db_now d - as_i64 (fb_ttl fb)"
    and "ax_asset_from_value A (fc_response row) = Some x"
  shows "api_get_asset A api d cache p = (Inr x, cache)"
proof -
  let ?opts = "case ga_options p of Some o' \<Rightarrow> o' | None \<Rightarrow> options_default"
  obtain e where "get_asset (ax_ext A) (ax_rpc A) (ax_reader A) d k ?opts = Inl e"
    using assms(2,3) by (cases "Option.bind (a_asset_data a) (\<lambda>i. asset_data_row i d)")
      (auto simp: get_asset_def get_by_id_def Let_def)
  moreover have "from_upstream A api (ax_asset_from_value A) (db_now d) cache ''getAsset'' (ga_id p) params = (Some x, cache)"
    for params
    using assms(4-8) by (simp add: from_upstream_def fallback_get_def cached_def)
  ultimately show ?thesis using assms(1) by (simp add: api_get_asset_def validate_pubkey_def)
qed


definition query0 :: search_assets_query where
  "query0 = \<lparr>sq_negate = None, sq_condition_type = Some CT_Any, sq_interface = None, sq_specification_version = None,
     sq_specification_asset_class = None, sq_owner_address = None, sq_owner_type = None, sq_creator_address = None,
     sq_creator_verified = None, sq_authority_address = None, sq_grouping = None, sq_delegate = None,
     sq_frozen = Some True, sq_supply = None, sq_supply_mint = None, sq_compressed = None, sq_compressible = None,
     sq_royalty_target_type = None, sq_royalty_target = None, sq_royalty_amount = None, sq_burnt = None,
     sq_json_uri = None, sq_name = None, sq_token_type = None, sq_is_agent = None, sq_agent_token = None,
     sq_asset_signer = None\<rparr>"

theorem any_search_matches_all_witness:
  "\<exists>condition. search_conditions rpc_env0 (\<lambda>_ _. None) query0 = Inr condition \<and> \<not> a_frozen (asset0 [1]) \<and>
    asset0 [1] \<in> set (map sr_asset (filter (\<lambda>r. holds (condition r)) (search_rows read_db0 query0)))"
proof -
  obtain condition where c: "search_conditions rpc_env0 (\<lambda>_ _. None) query0 = Inr condition"
    by (simp add: search_conditions_def search_validate_def query0_def)
  have "asset0 [1] \<in> set (map sr_asset (filter (\<lambda>r. holds (condition r)) (search_rows read_db0 query0)))"
    by (rule any_search_matches_all [OF c]) (simp_all add: query0_def read_db0_def asset0_def)
  moreover have "\<not> a_frozen (asset0 [1])" by (simp add: asset0_def asset_default_def)
  ultimately show ?thesis using c by blast
qed

definition fallback0 :: fallback where
  "fallback0 = \<lparr>fb_url = ''u'', fb_ttl = 60\<rparr>"

definition answer0 :: json where
  "answer0 = JObj [(''result'', JStr ''x'')]"

theorem upstream_answer_kept_witness:
  "fallback_get (api_env0\<lparr>ax_upstream := (\<lambda>_ _ _. Http_Body (Some answer0))\<rparr>) fallback0 as_str 0 [] ''getAsset'' ''k'' JNull =
     (Some ''x'', [\<lparr>fc_method = ''getAsset'', fc_cache_key = ''k'', fc_response = JStr ''x'', fc_fetched_at = 0\<rparr>]) \<and>
   fst (fallback_get api_env0 fallback0 as_str 59
     [\<lparr>fc_method = ''getAsset'', fc_cache_key = ''k'', fc_response = JStr ''x'', fc_fetched_at = 0\<rparr>] ''getAsset'' ''k'' JNull) =
     Some ''x''"
proof -
  let ?A = "api_env0\<lparr>ax_upstream := (\<lambda>_ _ _. Http_Body (Some answer0))\<rparr>"
  let ?c = "[\<lparr>fc_method = ''getAsset'', fc_cache_key = ''k'', fc_response = JStr ''x'', fc_fetched_at = 0\<rparr>]"
  have got: "fallback_get ?A fallback0 as_str 0 [] ''getAsset'' ''k'' JNull = (Some ''x'', ?c)" by code_simp
  have "fallback_get api_env0 fallback0 as_str 59 ?c ''getAsset'' ''k'' JNull = (Some ''x'', ?c)"
    by (rule upstream_answer_kept [OF _ got]) code_simp+
  with got show ?thesis by simp
qed

definition burnt_db0 :: db where
  "burnt_db0 = empty_db\<lparr>asset_t := [(asset0 [65])\<lparr>a_supply := 0, a_burnt := True\<rparr>], asset_data_t := [asset_data0 [65]]\<rparr>"

definition rpc_asset0 :: rpc_asset where
  "rpc_asset0 = \<lparr>rpc_interface = IF_V1NFT, rpc_id = ''A'', rpc_content = None, rpc_authorities = None, rpc_compression = None,
     rpc_grouping = None, rpc_royalty = None, rpc_creators = None, rpc_ownership = None, rpc_uses = None, rpc_supply = None,
     rpc_mutable = True, rpc_burnt = False, rpc_mint_extensions = None, rpc_inscription = None, rpc_token_info = None,
     rpc_plugins = None, rpc_unknown_plugins = None, rpc_mpl_core_info = None, rpc_external_plugins = None,
     rpc_unknown_external_plugins = None, rpc_is_agent = None, rpc_agent_token = None, rpc_asset_signer = None\<rparr>"

theorem burnt_asset_from_upstream_witness:
  "\<exists>A api cache p x. asset_row [65] burnt_db0 = Some ((asset0 [65])\<lparr>a_supply := 0, a_burnt := True\<rparr>) \<and>
    api_get_asset A api burnt_db0 cache p = (Inr x, cache) \<and> ga_id p = ''A'' \<and> \<not> rpc_burnt x"
proof -
  let ?A = "api_env0\<lparr>ax_asset_from_value := (\<lambda>_. Some rpc_asset0)\<rparr>"
  let ?c = "[\<lparr>fc_method = ''getAsset'', fc_cache_key = ''A'', fc_response = JNull, fc_fetched_at = 0\<rparr>]"
  let ?p = "\<lparr>ga_id = ''A'', ga_options = None\<rparr>"
  have row: "asset_row [65] burnt_db0 = Some ((asset0 [65])\<lparr>a_supply := 0, a_burnt := True\<rparr>)"
    by (simp add: burnt_db0_def lookup_def asset0_def asset_default_def)
  have "api_get_asset ?A \<lparr>da_fallback = Some fallback0, da_rpc_url = []\<rparr> burnt_db0 ?c ?p = (Inr rpc_asset0, ?c)"
  proof (rule burnt_asset_from_upstream [where fb = fallback0 and k = "[65]" and row = "hd ?c"])
    show "ax_from_str ?A (ga_id ?p) = Some [65]" by code_simp
    show "asset_row [65] burnt_db0 = Some ((asset0 [65])\<lparr>a_supply := 0, a_burnt := True\<rparr>)" by (rule row)
  qed (simp_all add: api_env0_def fallback0_def lookup_def fc_key_def burnt_db0_def empty_db_def as_i64_def)
  moreover have "\<not> rpc_burnt rpc_asset0" by (simp add: rpc_asset0_def)
  ultimately show ?thesis using row by fastforce
qed

end
