(* ===== verification/Grpc_Stream.thy ===== *)
theory Grpc_Stream
  imports Program_Transformer Ingester_Tasks "HOL-Library.AList" "HOL-Library.Sublist"
begin

text \<open>
  The gRPC ingester, \<open>grpc_ingester/src\<close>: conversion of the stream's updates (\<open>convert.rs\<close>), retries
  (\<open>retry.rs\<close>), the cursor (\<open>cursor.rs\<close>) and the subscription loop with its writers
  (\<open>stream.rs\<close>). Statistics and logging are left out.
\<close>

section \<open>Retries\<close>

definition to_ascii_lowercase :: "string \<Rightarrow> string" where
  "to_ascii_lowercase s =
     map (\<lambda>c. let n = of_char c :: nat in if 65 \<le> n \<and> n \<le> 90 then char_of (n + 32) else c) s"

definition contains_str :: "string \<Rightarrow> string \<Rightarrow> bool" where
  "contains_str needle s = list_ex (prefix needle) (suffixes s)"

definition is_retryable :: "string \<Rightarrow> bool" where
  "is_retryable error =
    (let markers = [''40001'', ''restart transaction'', ''transactionretry'', ''pool timed out'',
       ''error communicating with database'', ''connection refused'', ''connection reset'', ''broken pipe'']
     in list_ex (\<lambda>m. contains_str m (to_ascii_lowercase error)) markers)"

text \<open>Milliseconds; \<open>nanos\<close> is the sub-second part of the clock.\<close>

definition backoff :: "nat \<Rightarrow> nat \<Rightarrow> nat" where
  "backoff attempt nanos =
    (let base_ms = min (10 * 2 ^ min attempt 7) 1000; jitter_ms = nanos mod max base_ms 1
     in base_ms div 2 + jitter_ms div 2)"

section \<open>Conversion\<close>

record grpc_account =
  pa_pubkey :: bytes
  pa_owner :: bytes
  pa_data :: bytes

record grpc_account_update =
  pau_slot :: u64
  pau_account :: "grpc_account option"

record grpc_instruction =
  pi_program_id_index :: u32
  pi_accounts :: bytes
  pi_data :: bytes

record grpc_inner_instructions =
  pn_inner_index :: u32
  pn_inner :: "grpc_instruction list"

record grpc_message =
  pm_account_keys :: "bytes list"
  pm_instructions :: "grpc_instruction list"

record grpc_meta =
  pe_loaded_writable_addresses :: "bytes list"
  pe_loaded_readonly_addresses :: "bytes list"
  pe_inner_instructions :: "grpc_inner_instructions list"
  pe_inner_instructions_none :: bool

record grpc_transaction_info =
  px_signature :: bytes
  px_transaction :: "grpc_message option option"
  px_meta :: "grpc_meta option"

record grpc_transaction_update =
  pt_slot :: u64
  pt_transaction :: "grpc_transaction_info option"

text \<open>The results carry the message of the error.\<close>

type_synonym 'a anyhow = "string + 'a"

definition to_pubkey :: "bytes \<Rightarrow> pubkey anyhow" where
  "to_pubkey b = (if length b = 32 then Inr b else Inl (''pubkey has '' @ show_nat (length b) @ '' bytes''))"

definition to_index :: "u32 \<Rightarrow> u8 anyhow" where
  "to_index v = (if v < 256 then Inr (ucast v) else Inl (''instruction index '' @ show_nat (unat v) @ '' does not fit in u8''))"

definition context_of :: "string \<Rightarrow> 'a option \<Rightarrow> 'a anyhow" where
  "context_of e x = (case x of Some v \<Rightarrow> Inr v | None \<Rightarrow> Inl e)"

definition and_also :: "'a anyhow \<Rightarrow> ('a \<Rightarrow> 'b anyhow) \<Rightarrow> 'b anyhow" where
  "and_also r f = (case r of Inl e \<Rightarrow> Inl e | Inr x \<Rightarrow> f x)"

fun collect_all :: "('a \<Rightarrow> 'b anyhow) \<Rightarrow> 'a list \<Rightarrow> 'b list anyhow" where
  "collect_all f [] = Inr []"
| "collect_all f (x # xs) = and_also (f x) (\<lambda>y. and_also (collect_all f xs) (\<lambda>ys. Inr (y # ys)))"

definition convert_account :: "grpc_account_update \<Rightarrow> account_info anyhow" where
  "convert_account u =
     and_also (context_of ''account update carries no account'' (pau_account u)) (\<lambda>a.
     and_also (to_pubkey (pa_pubkey a)) (\<lambda>k.
     and_also (to_pubkey (pa_owner a)) (\<lambda>ow.
       Inr \<lparr>ac_slot = pau_slot u, ac_pubkey = k, ac_owner = ow, ac_data = pa_data a\<rparr>)))"

definition convert_instruction :: "grpc_instruction \<Rightarrow> compiled_instruction anyhow" where
  "convert_instruction ix =
     and_also (to_index (pi_program_id_index ix)) (\<lambda>i.
       Inr \<lparr>ci_program_id_index = i, ci_accounts = pi_accounts ix, ci_data = pi_data ix\<rparr>)"

definition convert_inner :: "grpc_inner_instructions \<Rightarrow> inner_instructions anyhow" where
  "convert_inner inner =
     and_also (to_index (pn_inner_index inner)) (\<lambda>i.
     and_also (collect_all convert_instruction (pn_inner inner)) (\<lambda>ixs.
       Inr \<lparr>ii_index = i, ii_instructions = ixs\<rparr>))"

definition convert_transaction :: "grpc_transaction_update \<Rightarrow> transaction_info anyhow" where
  "convert_transaction u =
     and_also (context_of ''transaction update carries no transaction'' (pt_transaction u)) (\<lambda>info.
     and_also (context_of ''transaction carries no message'' (Option.bind (px_transaction info) (\<lambda>m. m))) (\<lambda>message.
     and_also (context_of ''transaction carries no status meta'' (px_meta info)) (\<lambda>meta.
     and_also (collect_all to_pubkey
        (pm_account_keys message @ pe_loaded_writable_addresses meta @ pe_loaded_readonly_addresses meta)) (\<lambda>account_keys.
     and_also (collect_all convert_instruction (pm_instructions message)) (\<lambda>message_instructions.
     and_also (if pe_inner_instructions_none meta then Inr []
        else collect_all convert_inner (pe_inner_instructions meta)) (\<lambda>meta_inner_instructions.
     if length (px_signature info) = 64
     then Inr \<lparr>ti_slot = pt_slot u, ti_signature = px_signature info, ti_account_keys = account_keys,
            ti_message_instructions = message_instructions, ti_meta_inner_instructions = meta_inner_instructions\<rparr>
     else Inl (''signature has '' @ show_nat (length (px_signature info)) @ '' bytes'')))))))"

section \<open>The cursor\<close>

text \<open>
  \<open>Inner\<close>: the writes in flight per slot, an ordered map as an association list with one entry per
  slot. The counters are bounded by the number of writers.
\<close>

record cursor_inner =
  ci_pending :: "(u64 \<times> nat) list"
  ci_highest_finalized :: "u64 option"
  ci_watermark :: "u64 option"

definition sat_pred :: "u64 \<Rightarrow> u64" where
  "sat_pred w = (if w = 0 then 0 else w - 1)"

definition first_key :: "(u64 \<times> nat) list \<Rightarrow> u64 option" where
  "first_key m = (case m of [] \<Rightarrow> None | _ \<Rightarrow> Some (Min (set (map fst m))))"

definition raise_watermark :: "u64 \<Rightarrow> cursor_inner \<Rightarrow> cursor_inner" where
  "raise_watermark candidate c =
    (if (case ci_watermark c of None \<Rightarrow> True | Some w \<Rightarrow> candidate > w)
     then c\<lparr>ci_watermark := Some candidate\<rparr> else c)"

definition cursor_advance :: "cursor_inner \<Rightarrow> cursor_inner" where
  "cursor_advance c =
    (case ci_highest_finalized c of
       None \<Rightarrow> c
     | Some finalized \<Rightarrow>
        (let candidate = sat_pred finalized;
             candidate = (case first_key (ci_pending c) of
                Some lowest_pending \<Rightarrow> min candidate (sat_pred lowest_pending) | None \<Rightarrow> candidate)
         in raise_watermark candidate c))"

definition cursor_load :: "u64 option \<Rightarrow> u64 option \<Rightarrow> cursor_inner" where
  "cursor_load start_slot saved =
     \<lparr>ci_pending = [], ci_highest_finalized = None,
      ci_watermark = (case (start_slot, saved) of
         (Some slot, _) \<Rightarrow> Some (sat_pred slot) | (None, Some slot) \<Rightarrow> Some slot | (None, None) \<Rightarrow> None)\<rparr>"

definition resume_slot :: "cursor_inner \<Rightarrow> u64 option" where
  "resume_slot c = map_option (\<lambda>w. w + 1) (ci_watermark c)"

definition pending_at :: "cursor_inner \<Rightarrow> u64 \<Rightarrow> nat" where
  "pending_at c slot = (case map_of (ci_pending c) slot of Some n \<Rightarrow> n | None \<Rightarrow> 0)"

definition cursor_begin :: "u64 \<Rightarrow> cursor_inner \<Rightarrow> cursor_inner" where
  "cursor_begin slot c = c\<lparr>ci_pending := AList.update slot (pending_at c slot + 1) (ci_pending c)\<rparr>"

definition cursor_end :: "u64 \<Rightarrow> cursor_inner \<Rightarrow> cursor_inner" where
  "cursor_end slot c =
     cursor_advance
      (case map_of (ci_pending c) slot of
         Some count \<Rightarrow>
           if count - 1 = 0 then c\<lparr>ci_pending := AList.delete slot (ci_pending c)\<rparr>
           else c\<lparr>ci_pending := AList.update slot (count - 1) (ci_pending c)\<rparr>
       | None \<Rightarrow> c)"

definition cursor_finalized :: "u64 \<Rightarrow> cursor_inner \<Rightarrow> cursor_inner" where
  "cursor_finalized slot c =
     cursor_advance (c\<lparr>ci_highest_finalized :=
       Some (case ci_highest_finalized c of None \<Rightarrow> slot | Some h \<Rightarrow> max h slot)\<rparr>)"

text \<open>The gap log is a file of half-open ranges.\<close>

definition record_gap :: "u64 \<Rightarrow> u64 \<Rightarrow> (u64 \<times> u64) list \<times> cursor_inner \<Rightarrow> (u64 \<times> u64) list \<times> cursor_inner" where
  "record_gap from to_exclusive st =
     (fst st @ [(from, to_exclusive)], raise_watermark (sat_pred to_exclusive) (snd st))"

definition cursor_save :: "cursor_inner \<Rightarrow> u64 option \<Rightarrow> u64 option" where
  "cursor_save c saved = (case ci_watermark c of None \<Rightarrow> saved | Some w \<Rightarrow> Some w)"

section \<open>Writing one update\<close>

datatype update = U_Account account_info | U_Transaction transaction_info

fun pt_message :: "program_transformer_error \<Rightarrow> string" where
  "pt_message ChangeLogEventMalformed = ''ChangeLog Event Malformed''"
| "pt_message (StorageWriteError e) = ''Storage Write Error: '' @ e"
| "pt_message NotImplemented = ''NotImplemented''"
| "pt_message (DeserializationError e) = ''Deserialization Error: '' @ e"
| "pt_message (SerializatonError e) = ''Data serializaton error: '' @ e"
| "pt_message (ParsingError e) = ''Blockbuster Parsing error: '' @ e"
| "pt_message (DatabaseError e) = ''Database Error: '' @ e"
| "pt_message (AssetIndexError e) = ''AssetIndex Error '' @ e"
| "pt_message (DownloadMetadataNotify e) = ''Failed to notify about download metadata: '' @ e"

datatype write_outcome = WO_Ok | WO_Skipped | WO_Rejected program_transformer_error

text \<open>One attempt; \<open>None\<close> is a panic of the task.\<close>

definition attempt_write :: "env \<Rightarrow> update \<Rightarrow> unit handler option" where
  "attempt_write V u = (case u of U_Account info \<Rightarrow> handle_account_update V info | U_Transaction info \<Rightarrow> handle_transaction V info)"

text \<open>The loop that retries while the database asks for it: no result if it never ends or panics.\<close>

partial_function (option) write_update :: "env \<Rightarrow> update \<Rightarrow> world \<Rightarrow> (write_outcome \<times> world) option" where
  [code]: "write_update V u w =
    (case attempt_write V u of
       None \<Rightarrow> None
     | Some h \<Rightarrow>
        (case h w of
           (Inr _, w') \<Rightarrow> Some (WO_Ok, w')
         | (Inl e, w') \<Rightarrow>
             if e = NotImplemented then Some (WO_Skipped, w')
             else if is_retryable (pt_message e) then write_update V u w'
             else Some (WO_Rejected e, w')))"

text \<open>FNV-1a over the key, modulo the number of locks.\<close>

definition fnv_step :: "u8 \<Rightarrow> u64 \<Rightarrow> u64" where
  "fnv_step b h = (xor h (ucast b)) * 0x100000001b3"

definition partition_of :: "bytes \<Rightarrow> nat \<Rightarrow> nat" where
  "partition_of key workers = unat (fold fnv_step key 0xcbf29ce484222325) mod workers"

definition LOCK_STRIPES :: nat where
  "LOCK_STRIPES = 4096"

definition partition_key :: "account_info \<Rightarrow> bytes" where
  "partition_key info = ac_pubkey info"

section \<open>The subscription loop\<close>

fun rsplit_once :: "string \<Rightarrow> string \<Rightarrow> (string \<times> string) option" where
  "rsplit_once pat [] = (if pat = [] then Some ([], []) else None)"
| "rsplit_once pat (c # s) =
    (case rsplit_once pat s of
       Some (a, b) \<Rightarrow> Some (c # a, b)
     | None \<Rightarrow> if prefix pat (c # s) then Some ([], drop (length pat) (c # s)) else None)"

definition is_digit :: "char \<Rightarrow> bool" where
  "is_digit c = (48 \<le> (of_char c :: nat) \<and> (of_char c :: nat) \<le> 57)"

definition digits_value :: "string \<Rightarrow> nat" where
  "digits_value s = fold (\<lambda>c n. 10 * n + ((of_char c :: nat) - 48)) s 0"

text \<open>\<open>str::parse::<u64>\<close>: an optional plus sign, then digits that fit.\<close>

definition parse_u64 :: "string \<Rightarrow> u64 option" where
  "parse_u64 s =
    (let ds = (case s of CHR ''+'' # t \<Rightarrow> t | _ \<Rightarrow> s) in
     if ds \<noteq> [] \<and> list_all is_digit ds \<and> digits_value ds < 2 ^ 64 then Some (of_nat (digits_value ds)) else None)"

definition parse_last_available :: "string \<Rightarrow> u64 anyhow" where
  "parse_last_available message =
    (case Option.bind (rsplit_once ''last available:'' message) (\<lambda>(_, slot). parse_u64 (str_trim slot)) of
       Some n \<Rightarrow> Inr n
     | None \<Rightarrow> Inl (''unexpected OUT_OF_RANGE message: '' @ message))"

datatype ended =
    OutOfRange u64 u64
  | StreamError bool

text \<open>The seconds to wait before the next subscription, and the delay after that.\<close>

definition next_backoff :: "ended \<Rightarrow> nat \<Rightarrow> nat option \<times> nat" where
  "next_backoff e d =
    (case e of
       OutOfRange _ _ \<Rightarrow> (None, 1)
     | StreamError received_data \<Rightarrow> (let d' = (if received_data then 1 else d) in (Some d', min (d' * 2) 30)))"

end
