(* ===== verification/Grpc_Properties.thy ===== *)
theory Grpc_Properties
  imports Grpc_Stream
begin

text \<open>
  What the gRPC ingester guarantees: the cursor never passes an update that was not written, across
  reconnections, gaps and restarts; the retry loop returns exactly when an attempt is not asked to
  be retried; delays are bounded.
\<close>

section \<open>The ingester as a step relation\<close>

text \<open>
  An update is a slot and a number in it; \<open>chain\<close> is the set of all that the chain holds and that
  convert. The state has the cursor, its two files, the subscription (the slot it started from, and
  whether that slot was asked for), the writes in flight, those that ended, and what the
  subscription delivered. \<open>ig_start\<close> is the slot from which this index claims to be complete: the
  slot given to it, or the tip of the chain at the first subscription; \<open>ig_saved_start\<close> is the same for
  the saved cursor.
\<close>

datatype upd = Upd (upd_slot: u64) nat

record ingest_state =
  ig_cursor :: cursor_inner
  ig_gaps :: "(u64 \<times> u64) list"
  ig_saved :: "u64 option"
  ig_sub :: "u64 option"
  ig_asked :: bool
  ig_flight :: "upd list"
  ig_done :: "upd set"
  ig_seen :: "upd set"
  ig_start :: u64
  ig_saved_start :: u64

text \<open>
  The steps: one iteration of \<open>Ingest::run\<close> is a subscription, the messages of \<open>Ingest::subscribe\<close> in the
  order of the stream, and its end. Writes end in any order, also when the subscription is gone; a
  write that panics never ends. What the stream promises is the guard of \<open>finalize\<close>: when a slot is
  announced as finalized, the updates of all earlier slots since the start of the subscription have
  been delivered. A server refuses a slot only if one was asked for.
\<close>

inductive ingest_step :: "upd set \<Rightarrow> ingest_state \<Rightarrow> ingest_state \<Rightarrow> bool" for chain where
  subscribe: "ig_sub s = None \<Longrightarrow> resume_slot (ig_cursor s) = Some r \<Longrightarrow>
    ingest_step chain s (s\<lparr>ig_sub := Some r, ig_asked := True, ig_seen := {}\<rparr>)"
| subscribe_tip: "ig_sub s = None \<Longrightarrow> resume_slot (ig_cursor s) = None \<Longrightarrow> 0 < t \<Longrightarrow>
    ingest_step chain s (s\<lparr>ig_sub := Some t, ig_asked := False, ig_seen := {}, ig_start := t\<rparr>)"
| receive: "ig_sub s = Some r \<Longrightarrow> u \<in> chain \<Longrightarrow> r \<le> upd_slot u \<Longrightarrow>
    ingest_step chain s (s\<lparr>ig_cursor := cursor_begin (upd_slot u) (ig_cursor s), ig_flight := u # ig_flight s,
      ig_seen := insert u (ig_seen s)\<rparr>)"
| finish: "u \<in> set (ig_flight s) \<Longrightarrow>
    ingest_step chain s (s\<lparr>ig_cursor := cursor_end (upd_slot u) (ig_cursor s), ig_flight := remove1 u (ig_flight s),
      ig_done := insert u (ig_done s)\<rparr>)"
| finalize: "ig_sub s = Some r \<Longrightarrow> \<forall>u\<in>chain. r \<le> upd_slot u \<and> upd_slot u < slot \<longrightarrow> u \<in> ig_seen s \<Longrightarrow>
    ingest_step chain s (s\<lparr>ig_cursor := cursor_finalized slot (ig_cursor s)\<rparr>)"
| out_of_range: "ig_sub s = Some r \<Longrightarrow> ig_asked s \<Longrightarrow>
    record_gap r available (ig_gaps s, ig_cursor s) = (gaps, c) \<Longrightarrow>
    ingest_step chain s (s\<lparr>ig_gaps := gaps, ig_cursor := c, ig_sub := None\<rparr>)"
| disconnect: "ingest_step chain s (s\<lparr>ig_sub := None\<rparr>)"
| save: "ingest_step chain s (s\<lparr>ig_saved := cursor_save (ig_cursor s) (ig_saved s),
    ig_saved_start := (if ci_watermark (ig_cursor s) = None then ig_saved_start s else ig_start s)\<rparr>)"
| restart: "start_slot \<noteq> Some 0 \<Longrightarrow>
    ingest_step chain s (s\<lparr>ig_cursor := cursor_load start_slot (ig_saved s), ig_sub := None, ig_flight := [],
      ig_seen := {}, ig_start := (case start_slot of Some q \<Rightarrow> q | None \<Rightarrow> ig_saved_start s)\<rparr>)"

definition ingest_init :: "u64 option \<Rightarrow> ingest_state" where
  "ingest_init start_slot =
     \<lparr>ig_cursor = cursor_load start_slot None, ig_gaps = [], ig_saved = None, ig_sub = None, ig_asked = False,
      ig_flight = [], ig_done = {}, ig_seen = {}, ig_start = (case start_slot of Some q \<Rightarrow> q | None \<Rightarrow> 1), ig_saved_start = 1\<rparr>"

inductive ingest_reach :: "upd set \<Rightarrow> ingest_state \<Rightarrow> bool" for chain where
  init: "start_slot \<noteq> Some 0 \<Longrightarrow> ingest_reach chain (ingest_init start_slot)"
| step: "ingest_reach chain s \<Longrightarrow> ingest_step chain s t \<Longrightarrow> ingest_reach chain t"

section \<open>The cursor's operations\<close>

lemma le_sat_pred: "0 < x \<Longrightarrow> x \<le> sat_pred y \<longleftrightarrow> x < y"
proof (cases "y = 0")
  case True
  assume "0 < x"
  then show ?thesis using True by (auto simp: sat_pred_def)
next
  case False
  then have "unat (y - 1) = unat y - 1" "unat y \<noteq> 0" by (simp_all add: unat_minus_one unat_eq_0)
  then show ?thesis using False by (auto simp: sat_pred_def word_le_nat_alt word_less_nat_alt)
qed

lemma first_key_least: "k \<in> fst ` set m \<Longrightarrow> \<exists>p. first_key m = Some p \<and> p \<le> k"
  by (cases m) (auto simp: first_key_def)

lemma raise_watermark_simps [simp]:
  "ci_pending (raise_watermark q c) = ci_pending c"
  "ci_highest_finalized (raise_watermark q c) = ci_highest_finalized c"
  by (simp_all add: raise_watermark_def)

lemma raise_watermark_cases:
  "ci_watermark (raise_watermark q c) = Some w \<Longrightarrow> ci_watermark c = Some w \<or> w = q"
  by (auto simp: raise_watermark_def split: if_splits)

lemma cursor_advance_simps [simp]:
  "ci_pending (cursor_advance c) = ci_pending c"
  "ci_highest_finalized (cursor_advance c) = ci_highest_finalized c"
  by (simp_all add: cursor_advance_def Let_def split: option.splits)

lemma cursor_advance_cases:
  assumes "ci_watermark (cursor_advance c) = Some w"
  shows "ci_watermark c = Some w \<or>
    (\<exists>h. ci_highest_finalized c = Some h \<and> w \<le> sat_pred h \<and> (\<forall>k\<in>fst ` set (ci_pending c). \<forall>x>0. x \<le> w \<longrightarrow> x < k))"
proof (cases "ci_highest_finalized c")
  case (Some h)
  show ?thesis
  proof (cases "first_key (ci_pending c)")
    case None
    then have "fst ` set (ci_pending c) = {}" by (auto simp: first_key_def split: list.splits)
    with Some None assms show ?thesis
      by (auto simp: cursor_advance_def Let_def dest!: raise_watermark_cases)
  next
    case p: (Some p)
    have "x < k" if "(k, n) \<in> set (ci_pending c)" "0 < x" "x \<le> sat_pred p" for k n x
    proof -
      have "k \<in> fst ` set (ci_pending c)" using that(1) by force
      then show ?thesis using first_key_least [of k "ci_pending c"] p le_sat_pred [OF that(2)] that(3) by auto
    qed
    with Some p assms show ?thesis
      by (auto simp: cursor_advance_def Let_def dest!: raise_watermark_cases)
  qed
qed (use assms in \<open>simp add: cursor_advance_def\<close>)

text \<open>The pending counters count the writes in flight.\<close>

definition in_flight :: "upd list \<Rightarrow> u64 \<Rightarrow> nat" where
  "in_flight fl s = length (filter (\<lambda>u. upd_slot u = s) fl)"

definition pending_ok :: "cursor_inner \<Rightarrow> upd list \<Rightarrow> bool" where
  "pending_ok c fl = (\<forall>s. map_of (ci_pending c) s = (if in_flight fl s = 0 then None else Some (in_flight fl s)))"

lemma in_flight_pos: "u \<in> set fl \<Longrightarrow> 0 < in_flight fl (upd_slot u)"
  by (auto simp: in_flight_def filter_empty_conv)

lemma pending_keys: "pending_ok c fl \<Longrightarrow> u \<in> set fl \<Longrightarrow> upd_slot u \<in> fst ` set (ci_pending c)"
  using in_flight_pos [of u fl] by (auto simp: pending_ok_def dom_map_of_conv_image_fst [symmetric])

lemma pending_begin: "pending_ok c fl \<Longrightarrow> pending_ok (cursor_begin (upd_slot u) c) (u # fl)"
  by (auto simp: pending_ok_def cursor_begin_def pending_at_def in_flight_def update_conv')

lemma in_flight_remove1:
  "u \<in> set fl \<Longrightarrow> in_flight (remove1 u fl) s = (if s = upd_slot u then in_flight fl s - 1 else in_flight fl s)"
  by (auto simp: in_flight_def filter_remove1 length_remove1 remove1_idem)

lemma cursor_end_pending:
  assumes "pending_ok c fl" "u \<in> set fl"
  shows "pending_ok (cursor_end (upd_slot u) c) (remove1 u fl)"
  using assms in_flight_pos [OF assms(2)]
  by (auto simp: pending_ok_def cursor_end_def in_flight_remove1 update_conv' delete_conv' split: option.splits)

section \<open>Nothing is lost without a record\<close>

definition in_gap_log :: "ingest_state \<Rightarrow> u64 \<Rightarrow> bool" where
  "in_gap_log s q = (\<exists>(a, b)\<in>set (ig_gaps s). a \<le> q \<and> q < b)"

definition upd_settled :: "ingest_state \<Rightarrow> upd \<Rightarrow> bool" where
  "upd_settled s u = (u \<in> ig_done s \<or> in_gap_log s (upd_slot u))"

definition ingest_inv :: "upd set \<Rightarrow> ingest_state \<Rightarrow> bool" where
  "ingest_inv chain s =
    (0 < ig_start s \<and> 0 < ig_saved_start s \<and> pending_ok (ig_cursor s) (ig_flight s) \<and>
     (ci_watermark (ig_cursor s) = None \<longrightarrow> ci_highest_finalized (ig_cursor s) = None) \<and>
     ig_seen s \<subseteq> ig_done s \<union> set (ig_flight s) \<and>
     (\<forall>w u. ci_watermark (ig_cursor s) = Some w \<longrightarrow> u \<in> chain \<longrightarrow> ig_start s \<le> upd_slot u \<longrightarrow> upd_slot u \<le> w \<longrightarrow> upd_settled s u) \<and>
     (\<forall>w u. ig_saved s = Some w \<longrightarrow> u \<in> chain \<longrightarrow> ig_saved_start s \<le> upd_slot u \<longrightarrow> upd_slot u \<le> w \<longrightarrow> upd_settled s u) \<and>
     (\<forall>h u. ci_highest_finalized (ig_cursor s) = Some h \<longrightarrow> u \<in> chain \<longrightarrow> ig_start s \<le> upd_slot u \<longrightarrow> upd_slot u < h \<longrightarrow>
        upd_settled s u \<or> u \<in> set (ig_flight s)) \<and>
     (\<forall>r u. ig_sub s = Some r \<longrightarrow> u \<in> chain \<longrightarrow> ig_start s \<le> upd_slot u \<longrightarrow> upd_slot u < r \<longrightarrow> upd_settled s u))"

lemma ingest_invI:
  assumes "0 < ig_start s" "0 < ig_saved_start s" "pending_ok (ig_cursor s) (ig_flight s)"
    "ci_watermark (ig_cursor s) = None \<Longrightarrow> ci_highest_finalized (ig_cursor s) = None"
    "ig_seen s \<subseteq> ig_done s \<union> set (ig_flight s)"
    "\<And>w u. ci_watermark (ig_cursor s) = Some w \<Longrightarrow> u \<in> chain \<Longrightarrow> ig_start s \<le> upd_slot u \<Longrightarrow> upd_slot u \<le> w \<Longrightarrow> upd_settled s u"
    "\<And>w u. ig_saved s = Some w \<Longrightarrow> u \<in> chain \<Longrightarrow> ig_saved_start s \<le> upd_slot u \<Longrightarrow> upd_slot u \<le> w \<Longrightarrow> upd_settled s u"
    "\<And>h u. ci_highest_finalized (ig_cursor s) = Some h \<Longrightarrow> u \<in> chain \<Longrightarrow> ig_start s \<le> upd_slot u \<Longrightarrow> upd_slot u < h \<Longrightarrow>
      upd_settled s u \<or> u \<in> set (ig_flight s)"
    "\<And>r u. ig_sub s = Some r \<Longrightarrow> u \<in> chain \<Longrightarrow> ig_start s \<le> upd_slot u \<Longrightarrow> upd_slot u < r \<Longrightarrow> upd_settled s u"
  shows "ingest_inv chain s"
  using assms unfolding ingest_inv_def by blast

lemma ingest_invD:
  assumes "ingest_inv chain s"
  shows "0 < ig_start s" "0 < ig_saved_start s" "pending_ok (ig_cursor s) (ig_flight s)"
    "ci_watermark (ig_cursor s) = None \<Longrightarrow> ci_highest_finalized (ig_cursor s) = None"
    "ig_seen s \<subseteq> ig_done s \<union> set (ig_flight s)"
    "ci_watermark (ig_cursor s) = Some w \<Longrightarrow> u \<in> chain \<Longrightarrow> ig_start s \<le> upd_slot u \<Longrightarrow> upd_slot u \<le> w \<Longrightarrow> upd_settled s u"
    "ig_saved s = Some w \<Longrightarrow> u \<in> chain \<Longrightarrow> ig_saved_start s \<le> upd_slot u \<Longrightarrow> upd_slot u \<le> w \<Longrightarrow> upd_settled s u"
    "ci_highest_finalized (ig_cursor s) = Some h \<Longrightarrow> u \<in> chain \<Longrightarrow> ig_start s \<le> upd_slot u \<Longrightarrow> upd_slot u < h \<Longrightarrow>
      upd_settled s u \<or> u \<in> set (ig_flight s)"
    "ig_sub s = Some r \<Longrightarrow> u \<in> chain \<Longrightarrow> ig_start s \<le> upd_slot u \<Longrightarrow> upd_slot u < r \<Longrightarrow> upd_settled s u"
  using assms unfolding ingest_inv_def by blast+

text \<open>
  Where the watermark may go: a cursor whose finalized slots are received and whose pending slots are
  those in flight advances over upd_settled slots only.
\<close>

lemma advance_settled:
  assumes "pending_ok c fl" "0 < start"
    and "\<And>w u. ci_watermark c = Some w \<Longrightarrow> u \<in> chain \<Longrightarrow> start \<le> upd_slot u \<Longrightarrow> upd_slot u \<le> w \<Longrightarrow> upd_settled s u"
    and "\<And>h u. ci_highest_finalized c = Some h \<Longrightarrow> u \<in> chain \<Longrightarrow> start \<le> upd_slot u \<Longrightarrow> upd_slot u < h \<Longrightarrow> upd_settled s u \<or> u \<in> set fl"
    and "ci_watermark (cursor_advance c) = Some w" "u \<in> chain" "start \<le> upd_slot u" "upd_slot u \<le> w"
  shows "upd_settled s u"
  using cursor_advance_cases [OF assms(5)]
proof
  assume "\<exists>h. ci_highest_finalized c = Some h \<and> w \<le> sat_pred h \<and>
      (\<forall>k\<in>fst ` set (ci_pending c). \<forall>x>0. x \<le> w \<longrightarrow> x < k)"
  then obtain h where h: "ci_highest_finalized c = Some h" "w \<le> sat_pred h"
    "\<And>k x. k \<in> fst ` set (ci_pending c) \<Longrightarrow> 0 < x \<Longrightarrow> x \<le> w \<Longrightarrow> x < k"
    by blast
  have pos: "0 < upd_slot u" using assms(2,7) by (rule less_le_trans)
  have "upd_slot u < h" using le_sat_pred [OF pos] assms(8) h(2) by (meson order_trans)
  moreover have "u \<notin> set fl" using pending_keys [OF assms(1), of u] h(3) [of "upd_slot u" "upd_slot u"] pos assms(8) by blast
  ultimately show ?thesis using assms(4) [OF h(1) assms(6,7)] by blast
qed (use assms in blast)

lemma watermark_advanced: "ci_watermark (cursor_advance c) = None \<Longrightarrow> ci_highest_finalized c = None"
  by (auto simp: cursor_advance_def raise_watermark_def Let_def split: option.splits if_splits)

text \<open>\<open>cursor_end\<close> without the final \<open>advance\<close>.\<close>

definition cursor_drop :: "u64 \<Rightarrow> cursor_inner \<Rightarrow> cursor_inner" where
  "cursor_drop slot c =
    (case map_of (ci_pending c) slot of
       Some count \<Rightarrow>
         if count - 1 = 0 then c\<lparr>ci_pending := AList.delete slot (ci_pending c)\<rparr>
         else c\<lparr>ci_pending := AList.update slot (count - 1) (ci_pending c)\<rparr>
     | None \<Rightarrow> c)"

lemma cursor_end_drop: "cursor_end slot c = cursor_advance (cursor_drop slot c)"
  by (simp add: cursor_end_def cursor_drop_def)

lemma cursor_drop_simps [simp]:
  "ci_watermark (cursor_drop slot c) = ci_watermark c"
  "ci_highest_finalized (cursor_drop slot c) = ci_highest_finalized c"
  by (simp_all add: cursor_drop_def split: option.splits)

lemma cursor_begin_simps [simp]:
  "ci_watermark (cursor_begin slot c) = ci_watermark c"
  "ci_highest_finalized (cursor_begin slot c) = ci_highest_finalized c"
  by (simp_all add: cursor_begin_def)

lemma settled_mono:
  "upd_settled s u \<Longrightarrow> ig_done s \<subseteq> ig_done t \<Longrightarrow> set (ig_gaps s) \<subseteq> set (ig_gaps t) \<Longrightarrow> upd_settled t u"
  by (auto simp: upd_settled_def in_gap_log_def)

lemma inv_finish:
  assumes "ingest_inv chain s" "u \<in> set (ig_flight s)"
  shows "ingest_inv chain (s\<lparr>ig_cursor := cursor_end (upd_slot u) (ig_cursor s), ig_flight := remove1 u (ig_flight s),
      ig_done := insert u (ig_done s)\<rparr>)" (is "ingest_inv chain ?t")
proof -
  note D = ingest_invD [OF assms(1)]
  let ?c = "cursor_drop (upd_slot u) (ig_cursor s)"
  have ok: "pending_ok (cursor_advance ?c) (remove1 u (ig_flight s))"
    using cursor_end_pending [OF D(3) assms(2)] by (simp add: cursor_end_drop)
  then have ok': "pending_ok ?c (remove1 u (ig_flight s))" by (simp add: pending_ok_def)
  have mono: "upd_settled s v \<Longrightarrow> upd_settled ?t v" for v by (rule settled_mono) auto
  have flight: "upd_settled ?t v \<or> v \<in> set (remove1 u (ig_flight s))" if "upd_settled s v \<or> v \<in> set (ig_flight s)" for v
    using that mono [of v] by (cases "v = u") (auto simp: upd_settled_def)
  show ?thesis
  proof (rule ingest_invI)
    show "ci_highest_finalized (ig_cursor ?t) = None" if "ci_watermark (ig_cursor ?t) = None"
      using watermark_advanced [of ?c] that by (simp add: cursor_end_drop)
    show "upd_settled ?t v" if "ci_watermark (ig_cursor ?t) = Some w" "v \<in> chain" "ig_start ?t \<le> upd_slot v" "upd_slot v \<le> w" for w v
      by (rule advance_settled [OF ok', of "ig_start s" chain ?t w v])
        (use D(1) D(6) D(8) mono flight that in \<open>auto simp: cursor_end_drop\<close>)
    show "upd_settled ?t v \<or> v \<in> set (ig_flight ?t)"
      if "ci_highest_finalized (ig_cursor ?t) = Some h" "v \<in> chain" "ig_start ?t \<le> upd_slot v" "upd_slot v < h" for h v
      using flight D(8) that by (simp add: cursor_end_drop)
    show "upd_settled ?t v" if "ig_sub ?t = Some r" "v \<in> chain" "ig_start ?t \<le> upd_slot v" "upd_slot v < r" for r v
      using mono D(9) that by simp
    show "upd_settled ?t v" if "ig_saved ?t = Some w" "v \<in> chain" "ig_saved_start ?t \<le> upd_slot v" "upd_slot v \<le> w" for w v
      using mono D(7) that by simp
    show "ig_seen ?t \<subseteq> ig_done ?t \<union> set (ig_flight ?t)"
      using D(5) by (auto simp: in_set_remove1)
  qed (use D(1,2) ok in \<open>simp_all add: cursor_end_drop\<close>)
qed

lemma inv_finalize:
  assumes "ingest_inv chain s" "ig_sub s = Some r" "\<forall>u\<in>chain. r \<le> upd_slot u \<and> upd_slot u < slot \<longrightarrow> u \<in> ig_seen s"
  shows "ingest_inv chain (s\<lparr>ig_cursor := cursor_finalized slot (ig_cursor s)\<rparr>)" (is "ingest_inv chain ?t")
proof -
  note D = ingest_invD [OF assms(1)]
  let ?h = "case ci_highest_finalized (ig_cursor s) of None \<Rightarrow> slot | Some h \<Rightarrow> max h slot"
  let ?c = "(ig_cursor s)\<lparr>ci_highest_finalized := Some ?h\<rparr>"
  have t: "ig_cursor ?t = cursor_advance ?c" by (simp add: cursor_finalized_def)
  have ok: "pending_ok ?c (ig_flight s)" using D(3) by (simp add: pending_ok_def)
  have same: "upd_settled ?t v = upd_settled s v" for v by (simp add: upd_settled_def in_gap_log_def)
  have received: "upd_settled s v \<or> v \<in> set (ig_flight s)" if "v \<in> chain" "ig_start s \<le> upd_slot v" "upd_slot v < ?h" for v
  proof (cases "upd_slot v < slot")
    case True
    then have "upd_slot v < r \<or> v \<in> ig_seen s" using assms(3) that(1) not_le_imp_less by blast
    then show ?thesis using D(9) [OF assms(2) that(1,2)] D(5) by (auto simp: upd_settled_def)
  next
    case False
    then show ?thesis using that(3) D(8) [OF _ that(1,2)] by (auto split: option.splits simp: less_max_iff_disj)
  qed
  show ?thesis
  proof (rule ingest_invI)
    show "ci_highest_finalized (ig_cursor ?t) = None" if "ci_watermark (ig_cursor ?t) = None"
      using watermark_advanced [of ?c] that unfolding t by simp
    show "upd_settled ?t v" if "ci_watermark (ig_cursor ?t) = Some w" "v \<in> chain" "ig_start ?t \<le> upd_slot v" "upd_slot v \<le> w" for w v
      unfolding same
      by (rule advance_settled [OF ok, of "ig_start s" chain s w v])
        (use D(1) D(6) received that t in auto)
    show "upd_settled ?t v \<or> v \<in> set (ig_flight ?t)"
      if "ci_highest_finalized (ig_cursor ?t) = Some h" "v \<in> chain" "ig_start ?t \<le> upd_slot v" "upd_slot v < h" for h v
      using received [of v] that unfolding t same by simp
    show "upd_settled ?t v" if "ig_sub ?t = Some q" "v \<in> chain" "ig_start ?t \<le> upd_slot v" "upd_slot v < q" for q v
      using D(9) that unfolding same by simp
    show "upd_settled ?t v" if "ig_saved ?t = Some w" "v \<in> chain" "ig_saved_start ?t \<le> upd_slot v" "upd_slot v \<le> w" for w v
      using D(7) that unfolding same by simp
    show "ig_seen ?t \<subseteq> ig_done ?t \<union> set (ig_flight ?t)" using D(5) by simp
    show "pending_ok (ig_cursor ?t) (ig_flight ?t)" unfolding t using ok by (simp add: pending_ok_def)
  qed (use D(1,2) in simp_all)
qed

lemma inv_receive:
  assumes "ingest_inv chain s"
  shows "ingest_inv chain (s\<lparr>ig_cursor := cursor_begin (upd_slot u) (ig_cursor s), ig_flight := u # ig_flight s,
      ig_seen := insert u (ig_seen s)\<rparr>)" (is "ingest_inv chain ?t")
proof -
  note D = ingest_invD [OF assms]
  have same: "upd_settled ?t v = upd_settled s v" for v by (simp add: upd_settled_def in_gap_log_def)
  show ?thesis
  proof (rule ingest_invI)
    show "upd_settled ?t v \<or> v \<in> set (ig_flight ?t)"
      if "ci_highest_finalized (ig_cursor ?t) = Some h" "v \<in> chain" "ig_start ?t \<le> upd_slot v" "upd_slot v < h" for h v
      using D(8) [of h v] that unfolding same by auto
    show "upd_settled ?t v" if "ci_watermark (ig_cursor ?t) = Some w" "v \<in> chain" "ig_start ?t \<le> upd_slot v" "upd_slot v \<le> w" for w v
      using D(6) [of w v] that unfolding same by auto
    show "upd_settled ?t v" if "ig_saved ?t = Some w" "v \<in> chain" "ig_saved_start ?t \<le> upd_slot v" "upd_slot v \<le> w" for w v
      using D(7) [of w v] that unfolding same by auto
    show "upd_settled ?t v" if "ig_sub ?t = Some q" "v \<in> chain" "ig_start ?t \<le> upd_slot v" "upd_slot v < q" for q v
      using D(9) [of q v] that unfolding same by auto
  qed (use D(1-5) pending_begin [OF D(3), of u] in auto)
qed

lemma inv_subscribe:
  assumes "ingest_inv chain s" "resume_slot (ig_cursor s) = Some r"
  shows "ingest_inv chain (s\<lparr>ig_sub := Some r, ig_asked := True, ig_seen := {}\<rparr>)"
proof -
  obtain w where w: "ci_watermark (ig_cursor s) = Some w" "r = w + 1" using assms(2) by (auto simp: resume_slot_def)
  have "x \<le> w" if "x < w + 1" for x
    using that word_less_1 [of x] by (cases "w + 1 = 0") (simp_all add: word_le_nat_alt word_less_nat_alt unat_word_ariths)
  then show ?thesis
    using ingest_invD [OF assms(1)] w
    by (intro ingest_invI) (auto simp: upd_settled_def in_gap_log_def)
qed

lemma inv_subscribe_tip:
  assumes "ingest_inv chain s" "resume_slot (ig_cursor s) = None" "0 < t"
  shows "ingest_inv chain (s\<lparr>ig_sub := Some t, ig_asked := False, ig_seen := {}, ig_start := t\<rparr>)"
  using ingest_invD [OF assms(1)] assms(2,3)
  by (intro ingest_invI) (auto simp: resume_slot_def upd_settled_def in_gap_log_def)

lemma inv_out_of_range:
  assumes "ingest_inv chain s" "ig_sub s = Some r" "record_gap r available (ig_gaps s, ig_cursor s) = (gaps, c)"
  shows "ingest_inv chain (s\<lparr>ig_gaps := gaps, ig_cursor := c, ig_sub := None\<rparr>)" (is "ingest_inv chain ?t")
proof -
  note D = ingest_invD [OF assms(1)]
  have c: "gaps = ig_gaps s @ [(r, available)]" "c = raise_watermark (sat_pred available) (ig_cursor s)"
    using assms(3) by (auto simp: record_gap_def)
  have mono: "upd_settled s v \<Longrightarrow> upd_settled ?t v" for v by (rule settled_mono) (auto simp: c)
  show ?thesis
  proof (rule ingest_invI)
    show "upd_settled ?t v" if "ci_watermark (ig_cursor ?t) = Some w" "v \<in> chain" "ig_start ?t \<le> upd_slot v" "upd_slot v \<le> w" for w v
    proof -
      have pos: "0 < upd_slot v" using D(1) that(3) by (simp add: less_le_trans)
      from that(1) consider "ci_watermark (ig_cursor s) = Some w" | "w = sat_pred available"
        unfolding c by (auto dest: raise_watermark_cases)
      then show ?thesis
      proof cases
        case 1
        then show ?thesis using mono D(6) that by simp
      next
        case 2
        then have "upd_slot v < available" using le_sat_pred [OF pos] that(4) by simp
        then show ?thesis
          using mono D(9) [OF assms(2) that(2)] that(3) by (cases "upd_slot v < r") (auto simp: upd_settled_def in_gap_log_def c)
      qed
    qed
    show "upd_settled ?t v \<or> v \<in> set (ig_flight ?t)"
      if "ci_highest_finalized (ig_cursor ?t) = Some h" "v \<in> chain" "ig_start ?t \<le> upd_slot v" "upd_slot v < h" for h v
      using D(8) mono that by (auto simp: c)
    show "upd_settled ?t v" if "ig_saved ?t = Some w" "v \<in> chain" "ig_saved_start ?t \<le> upd_slot v" "upd_slot v \<le> w" for w v
      using D(7) mono that by simp
    show "ci_highest_finalized (ig_cursor ?t) = None" if "ci_watermark (ig_cursor ?t) = None"
      using that D(4) by (auto simp: c raise_watermark_def split: if_splits option.splits)
  qed (use D in \<open>simp_all add: c pending_ok_def\<close>)
qed

lemma inv_save:
  assumes "ingest_inv chain s"
  shows "ingest_inv chain (s\<lparr>ig_saved := cursor_save (ig_cursor s) (ig_saved s),
    ig_saved_start := (if ci_watermark (ig_cursor s) = None then ig_saved_start s else ig_start s)\<rparr>)"
  using ingest_invD [OF assms]
  by (intro ingest_invI) (auto simp: cursor_save_def upd_settled_def in_gap_log_def split: option.splits)

lemma inv_restart:
  assumes "ingest_inv chain s" "start_slot \<noteq> Some 0"
  shows "ingest_inv chain (s\<lparr>ig_cursor := cursor_load start_slot (ig_saved s), ig_sub := None, ig_flight := [],
      ig_seen := {}, ig_start := (case start_slot of Some q \<Rightarrow> q | None \<Rightarrow> ig_saved_start s)\<rparr>)" (is "ingest_inv chain ?t")
proof -
  note D = ingest_invD [OF assms(1)]
  have same: "upd_settled ?t v = upd_settled s v" for v by (simp add: upd_settled_def in_gap_log_def)
  show ?thesis
  proof (rule ingest_invI)
    show start: "0 < ig_start ?t" using assms(2) D(2) by (auto split: option.splits simp: word_gt_0)
    show "upd_settled ?t v" if "ci_watermark (ig_cursor ?t) = Some w" "v \<in> chain" "ig_start ?t \<le> upd_slot v" "upd_slot v \<le> w" for w v
    proof (cases start_slot)
      case None
      then show ?thesis using D(7) that unfolding same by (auto simp: cursor_load_def split: option.splits)
    next
      case (Some q)
      have "0 < upd_slot v" using start that(3) by (rule less_le_trans)
      then have "upd_slot v < q" using Some that(1,4) le_sat_pred [of "upd_slot v" q] by (simp add: cursor_load_def)
      then show ?thesis using Some that(3) by simp
    qed
    show "upd_settled ?t v" if "ig_saved ?t = Some w" "v \<in> chain" "ig_saved_start ?t \<le> upd_slot v" "upd_slot v \<le> w" for w v
      using D(7) that unfolding same by simp
  qed (use D(2) in \<open>simp_all add: cursor_load_def pending_ok_def in_flight_def\<close>)
qed

lemma inv_disconnect: "ingest_inv chain s \<Longrightarrow> ingest_inv chain (s\<lparr>ig_sub := None\<rparr>)"
  using ingest_invD by (intro ingest_invI) (auto simp: upd_settled_def in_gap_log_def)

lemma ingest_inv_reach: "ingest_reach chain s \<Longrightarrow> ingest_inv chain s"
proof (induction rule: ingest_reach.induct)
  case (init start_slot)
  have "ingest_inv chain ((ingest_init start_slot)\<lparr>ig_cursor := cursor_load None None, ig_start := 1\<rparr>)"
    by (intro ingest_invI) (simp_all add: ingest_init_def cursor_load_def pending_ok_def in_flight_def)
  from inv_restart [OF this init] show ?case by (cases start_slot) (simp_all add: ingest_init_def)
next
  case (step s t)
  from step(2,3) show ?case
    by cases (blast intro: inv_subscribe inv_subscribe_tip inv_receive inv_finish inv_finalize inv_out_of_range
        inv_disconnect inv_save inv_restart)+
qed

text \<open>
  C5: The cursor never passes an unwritten update. Whatever the order in which writes end, and through
  any disconnections, refused slots, saves, crashes and restarts: every update of the chain at or
  below the cursor, from the slot where the index starts, has been written (or rejected on its
  content), or its slot lies in a range of the gap log.
\<close>

theorem nothing_lost_silently:
  assumes "ingest_reach chain s" "ci_watermark (ig_cursor s) = Some w"
    and "u \<in> chain" "ig_start s \<le> upd_slot u" "upd_slot u \<le> w"
  shows "u \<in> ig_done s \<or> (\<exists>(a, b)\<in>set (ig_gaps s). a \<le> upd_slot u \<and> upd_slot u < b)"
  using ingest_invD(6) [OF ingest_inv_reach [OF assms(1)] assms(2-5)] by (simp add: upd_settled_def in_gap_log_def)

text \<open>A run: two updates received, the second written first, the slot after them finalized.\<close>

definition chain0 :: "upd set" where
  "chain0 = {Upd 5 0, Upd 6 0}"

definition ingest0 :: ingest_state where
  "ingest0 = \<lparr>ig_cursor = \<lparr>ci_pending = [], ci_highest_finalized = Some 7, ci_watermark = Some 6\<rparr>, ig_gaps = [],
     ig_saved = None, ig_sub = Some 5, ig_asked = True, ig_flight = [], ig_done = {Upd 5 0, Upd 6 0},
     ig_seen = {Upd 6 0, Upd 5 0}, ig_start = 5, ig_saved_start = 1\<rparr>"

lemma ingest0_reach: "ingest_reach chain0 ingest0"
proof -
  note steps = ingest_reach.step ingest_step.intros
  define s0 where "s0 = ingest_init (Some 5)"
  define s1 where "s1 = s0\<lparr>ig_sub := Some 5, ig_asked := True, ig_seen := {}\<rparr>"
  define s2 where "s2 = s1\<lparr>ig_cursor := cursor_begin 5 (ig_cursor s1), ig_flight := [Upd 5 0], ig_seen := {Upd 5 0}\<rparr>"
  define s3 where "s3 = s2\<lparr>ig_cursor := cursor_begin 6 (ig_cursor s2), ig_flight := [Upd 6 0, Upd 5 0],
    ig_seen := {Upd 6 0, Upd 5 0}\<rparr>"
  define s4 where "s4 = s3\<lparr>ig_cursor := cursor_end 6 (ig_cursor s3), ig_flight := [Upd 5 0], ig_done := {Upd 6 0}\<rparr>"
  define s5 where "s5 = s4\<lparr>ig_cursor := cursor_finalized 7 (ig_cursor s4)\<rparr>"
  define s6 where "s6 = s5\<lparr>ig_cursor := cursor_end 5 (ig_cursor s5), ig_flight := [], ig_done := {Upd 5 0, Upd 6 0}\<rparr>"
  note defs = s0_def s1_def s2_def s3_def s4_def s5_def s6_def ingest_init_def cursor_load_def
  have r0: "ingest_reach chain0 s0" unfolding s0_def by (rule ingest_reach.init) simp
  have "ingest_step chain0 s0 s1" unfolding s1_def
    by (rule ingest_step.subscribe) (simp_all add: defs resume_slot_def sat_pred_def)
  from ingest_reach.step [OF r0 this] have r1: "ingest_reach chain0 s1" .
  have "ingest_step chain0 s1 s2"
    using ingest_step.receive [of s1 5 "Upd 5 0" chain0] by (simp add: defs chain0_def)
  from ingest_reach.step [OF r1 this] have r2: "ingest_reach chain0 s2" .
  have "ingest_step chain0 s2 s3"
    using ingest_step.receive [of s2 5 "Upd 6 0" chain0] by (simp add: defs chain0_def)
  from ingest_reach.step [OF r2 this] have r3: "ingest_reach chain0 s3" .
  have "ingest_step chain0 s3 s4"
    using ingest_step.finish [of "Upd 6 0" s3 chain0] by (simp add: defs)
  from ingest_reach.step [OF r3 this] have r4: "ingest_reach chain0 s4" .
  have "ingest_step chain0 s4 s5" unfolding s5_def
    by (rule ingest_step.finalize [where r = 5]) (simp_all add: defs chain0_def)
  from ingest_reach.step [OF r4 this] have r5: "ingest_reach chain0 s5" .
  have "ingest_step chain0 s5 s6"
    using ingest_step.finish [of "Upd 5 0" s5 chain0] by (simp add: defs)
  from ingest_reach.step [OF r5 this] have "ingest_reach chain0 s6" .
  moreover have "s6 = ingest0"
    by (simp add: defs ingest0_def cursor_begin_def cursor_end_def cursor_finalized_def cursor_advance_def
        raise_watermark_def first_key_def pending_at_def sat_pred_def)
  ultimately show ?thesis by simp
qed

theorem nothing_lost_silently_witness:
  "ingest_reach chain0 ingest0 \<and> ci_watermark (ig_cursor ingest0) = Some 6 \<and>
    (Upd 5 0 \<in> ig_done ingest0 \<or> (\<exists>(a, b)\<in>set (ig_gaps ingest0). a \<le> 5 \<and> 5 < b))"
  using nothing_lost_silently [OF ingest0_reach, of 6 "Upd 5 0"] ingest0_reach
  by (simp add: ingest0_def chain0_def)

section \<open>Writes and retries\<close>

text \<open>An attempt that fails in a way the database asks to retry, and the world it leaves.\<close>

inductive retried :: "env \<Rightarrow> update \<Rightarrow> world \<Rightarrow> world \<Rightarrow> bool" for V u where
  now: "retried V u w w"
| again: "attempt_write V u = Some h \<Longrightarrow> h w = (Inl e, w') \<Longrightarrow> e \<noteq> NotImplemented \<Longrightarrow> is_retryable (pt_message e) \<Longrightarrow>
    retried V u w' w'' \<Longrightarrow> retried V u w w''"

text \<open>What a write ends with when an attempt is not retried.\<close>

definition decided :: "env \<Rightarrow> update \<Rightarrow> world \<Rightarrow> write_outcome \<times> world \<Rightarrow> bool" where
  "decided V u w r =
    (\<exists>h. attempt_write V u = Some h \<and>
      (case h w of
         (Inr _, w') \<Rightarrow> r = (WO_Ok, w')
       | (Inl e, w') \<Rightarrow>
           e = NotImplemented \<and> r = (WO_Skipped, w') \<or>
           e \<noteq> NotImplemented \<and> \<not> is_retryable (pt_message e) \<and> r = (WO_Rejected e, w')))"

lemma write_settles:
  assumes "write_update V u w = Some r"
  shows "\<exists>w'. retried V u w w' \<and> decided V u w' r"
proof (rule write_update.raw_induct [OF _ assms, of "\<lambda>V u w r. \<exists>w'. retried V u w w' \<and> decided V u w' r"])
  fix f V u w r
  assume IH: "\<And>V u w r. f V u w = Some r \<Longrightarrow> \<exists>w'. retried V u w w' \<and> decided V u w' r"
    and eq: "(case attempt_write V u of None \<Rightarrow> None
      | Some h \<Rightarrow> (case h w of (Inl e, w') \<Rightarrow>
           if e = NotImplemented then Some (WO_Skipped, w')
           else if is_retryable (pt_message e) then f V u w' else Some (WO_Rejected e, w')
         | (Inr _, w') \<Rightarrow> Some (WO_Ok, w'))) = Some r"
  then obtain h where h: "attempt_write V u = Some h" by (auto split: option.splits)
  obtain o' w1 where run: "h w = (o', w1)" by fastforce
  show "\<exists>w'. retried V u w w' \<and> decided V u w' r"
  proof (cases "\<exists>e. o' = Inl e \<and> e \<noteq> NotImplemented \<and> is_retryable (pt_message e)")
    case True
    then obtain e where e: "o' = Inl e" "e \<noteq> NotImplemented" "is_retryable (pt_message e)" by blast
    with eq h run have "f V u w1 = Some r" by simp
    from IH [OF this] obtain w' where "retried V u w1 w'" "decided V u w' r" by blast
    with h run e show ?thesis by (blast intro: retried.again)
  next
    case False
    with eq h run have "decided V u w r"
      by (auto simp: decided_def split: sum.splits if_splits)
    then show ?thesis by (blast intro: retried.now)
  qed
qed

lemma decided_write:
  assumes "retried V u w w'" "decided V u w' r"
  shows "write_update V u w = Some r"
  using assms
proof (induction rule: retried.induct)
  case (now w)
  then show ?case
    by (subst write_update.simps) (auto simp: decided_def split: sum.splits prod.splits)
next
  case (again h w e w' w'')
  then show ?case by (subst write_update.simps) simp
qed

text \<open>The write loop returns exactly when, after some retried attempts, one is decisive.\<close>

lemma write_update_iff: "write_update V u w = Some r \<longleftrightarrow> (\<exists>w'. retried V u w w' \<and> decided V u w' r)"
  using write_settles decided_write by blast

lemma backoff_bounds: "5 \<le> backoff attempt nanos \<and> backoff attempt nanos < 1000"
proof -
  define b :: nat where "b = min (10 * 2 ^ min attempt 7) 1000"
  have "10 * 1 \<le> 10 * (2::nat) ^ min attempt 7" by (rule mult_le_mono2) simp
  then have b: "10 \<le> b" "b \<le> 1000" by (simp_all add: b_def)
  moreover have "nanos mod max b 1 < max b 1" using b by simp
  ultimately have "nanos mod max b 1 < b" by simp
  then show ?thesis using b unfolding backoff_def Let_def b_def [symmetric] by linarith
qed

lemma next_backoff_bounds: "1 \<le> d \<Longrightarrow> d \<le> 30 \<Longrightarrow> next_backoff e d = (w, d') \<Longrightarrow>
    1 \<le> d' \<and> d' \<le> 30 \<and> (\<forall>q. w = Some q \<longrightarrow> 1 \<le> q \<and> q \<le> 30)"
  by (auto simp: next_backoff_def Let_def split: ended.splits if_splits)

lemma partition_lt: "0 < n \<Longrightarrow> partition_of k n < n"
  by (simp add: partition_of_def)

section \<open>Conversion\<close>

lemma and_also_Inr: "and_also r f = Inr y \<longleftrightarrow> (\<exists>x. r = Inr x \<and> f x = Inr y)"
  by (auto simp: and_also_def split: sum.splits)

lemma collect_all_Inr: "collect_all f xs = Inr ys \<longleftrightarrow> list_all2 (\<lambda>x y. f x = Inr y) xs ys"
  by (induction xs arbitrary: ys) (auto simp: and_also_Inr list_all2_Cons1)

lemma list_all2_to_pubkey: "list_all2 (\<lambda>x y. to_pubkey x = Inr y) xs ys \<longleftrightarrow> ys = xs \<and> (\<forall>x\<in>set xs. length x = 32)"
  by (induction xs arbitrary: ys) (auto simp: list_all2_Cons1 to_pubkey_def split: if_splits)

text \<open>The keys of a converted transaction are the static ones, then the loaded ones, writable before readonly.\<close>

lemma convert_transaction_keys:
  assumes "convert_transaction u = Inr t"
  shows "\<exists>info message meta. pt_transaction u = Some info \<and> px_transaction info = Some (Some message) \<and> px_meta info = Some meta \<and>
    ti_account_keys t = pm_account_keys message @ pe_loaded_writable_addresses meta @ pe_loaded_readonly_addresses meta \<and>
    (\<forall>k\<in>set (ti_account_keys t). length k = 32) \<and> ti_slot t = pt_slot u"
  using assms
  by (auto simp: convert_transaction_def and_also_Inr context_of_def collect_all_Inr list_all2_to_pubkey bind_eq_Some_conv
      split: option.splits if_splits)

lemma to_index_exact: "to_index v = Inr i \<Longrightarrow> unat i = unat v"
proof -
  assume "to_index v = Inr i"
  then have "v < 256" "i = ucast v" by (auto simp: to_index_def split: if_splits)
  then show ?thesis by (simp add: unsigned_ucast_eq word_less_nat_alt take_bit_nat_eq_self)
qed

text \<open>A slot printed in the server's message is read back.\<close>

lemma is_digit_char: "(m :: nat) < 10 \<Longrightarrow> is_digit (char_of (48 + m))"
  by (simp add: is_digit_def)

lemma digits_show_nat: "list_all is_digit (show_nat n) \<and> show_nat n \<noteq> [] \<and> digits_value (show_nat n) = n"
proof (induction n rule: show_nat.induct)
  case (1 n)
  show ?case
  proof (cases "n < 10")
    case True
    then show ?thesis by (subst (1 2 3) show_nat.simps) (simp add: is_digit_char digits_value_def)
  next
    case False
    with 1 show ?thesis
      by (subst (1 2 3) show_nat.simps) (simp add: is_digit_char digits_value_def)
  qed
qed

lemma parse_show_u64: "parse_u64 (show_nat (unat w)) = Some w"
proof -
  note D = digits_show_nat [of "unat w"]
  have "show_nat (unat w) \<noteq> CHR ''+'' # t" for t using D by (auto simp: is_digit_def)
  then have "(case show_nat (unat w) of CHR ''+'' # t \<Rightarrow> t | _ \<Rightarrow> show_nat (unat w)) = show_nat (unat w)"
    by (simp split: list.splits char.splits bool.splits)
  moreover have "unat w < 2 ^ 64" using unsigned_less [of w, where ?'a = nat] by simp
  ultimately show ?thesis using D by (simp add: parse_u64_def Let_def)
qed

end
