(* ===== verification/Task_Manager.thy ===== *)
theory Task_Manager
  imports Ingester_Tasks "HOL-Library.Signed_Division" "HOL-Library.Product_Lexorder"
begin

text \<open>
  The background tasks of \<open>nft_ingester\<close> (\<open>tasks/mod.rs\<close>, \<open>tasks/common/mod.rs\<close>): the table of tasks,
  the listener that queues them, the runner that locks, executes and saves them, the purge, and
  the one registered task, which downloads the off-chain metadata of an asset. Times are in
  microseconds. Metrics and logging are left out.
\<close>

section \<open>Rows and partial updates\<close>

datatype task_status = TS_Failed | TS_Pending | TS_Running | TS_Success

type_synonym i16 = int
type_synonym i32 = int

definition wrap_i16 :: "int \<Rightarrow> i16" where
  "wrap_i16 n = signed_take_bit 15 n"

definition wrap_i32 :: "int \<Rightarrow> i32" where
  "wrap_i32 n = signed_take_bit 31 n"

record task_row =
  tr_id :: string
  tr_task_type :: string
  tr_data :: json
  tr_status :: task_status
  tr_created_at :: int
  tr_locked_until :: "int option"
  tr_locked_by :: "string option"
  tr_max_attempts :: i16
  tr_attempts :: i16
  tr_duration :: "i32 option"
  tr_errors :: "string option"

text \<open>SeaORM's active models: an update sends the columns that are \<open>Set\<close>.\<close>

datatype 'a active_value = AV_Set 'a | AV_Unchanged 'a | AV_NotSet

record task_active =
  tm_id :: "string active_value"
  tm_task_type :: "string active_value"
  tm_data :: "json active_value"
  tm_status :: "task_status active_value"
  tm_created_at :: "int active_value"
  tm_locked_until :: "int option active_value"
  tm_locked_by :: "string option active_value"
  tm_max_attempts :: "i16 active_value"
  tm_attempts :: "i16 active_value"
  tm_duration :: "i32 option active_value"
  tm_errors :: "string option active_value"

fun into_value :: "'a active_value \<Rightarrow> 'a option" where
  "into_value (AV_Set v) = Some v"
| "into_value (AV_Unchanged v) = Some v"
| "into_value AV_NotSet = None"

fun set_or :: "'a active_value \<Rightarrow> 'a \<Rightarrow> 'a" where
  "set_or (AV_Set v) _ = v"
| "set_or _ v = v"

definition active_of :: "task_row \<Rightarrow> task_active" where
  "active_of r =
     \<lparr>tm_id = AV_Unchanged (tr_id r), tm_task_type = AV_Unchanged (tr_task_type r), tm_data = AV_Unchanged (tr_data r),
      tm_status = AV_Unchanged (tr_status r), tm_created_at = AV_Unchanged (tr_created_at r),
      tm_locked_until = AV_Unchanged (tr_locked_until r), tm_locked_by = AV_Unchanged (tr_locked_by r),
      tm_max_attempts = AV_Unchanged (tr_max_attempts r), tm_attempts = AV_Unchanged (tr_attempts r),
      tm_duration = AV_Unchanged (tr_duration r), tm_errors = AV_Unchanged (tr_errors r)\<rparr>"

definition apply_active :: "task_active \<Rightarrow> task_row \<Rightarrow> task_row" where
  "apply_active m r =
     \<lparr>tr_id = tr_id r, tr_task_type = set_or (tm_task_type m) (tr_task_type r), tr_data = set_or (tm_data m) (tr_data r),
      tr_status = set_or (tm_status m) (tr_status r), tr_created_at = set_or (tm_created_at m) (tr_created_at r),
      tr_locked_until = set_or (tm_locked_until m) (tr_locked_until r), tr_locked_by = set_or (tm_locked_by m) (tr_locked_by r),
      tr_max_attempts = set_or (tm_max_attempts m) (tr_max_attempts r), tr_attempts = set_or (tm_attempts m) (tr_attempts r),
      tr_duration = set_or (tm_duration m) (tr_duration r), tr_errors = set_or (tm_errors m) (tr_errors r)\<rparr>"

text \<open>
  \<open>save\<close> of a model whose key is known: \<open>UPDATE ... RETURNING\<close>, the row as it is in the table
  afterwards; an error (\<open>None\<close>) if there is no such row.
\<close>

definition save_task :: "task_active \<Rightarrow> task_row list \<Rightarrow> (task_active \<times> task_row list) option" where
  "save_task m rows =
    (case Option.bind (into_value (tm_id m)) (\<lambda>i. lookup tr_id i rows) of
       None \<Rightarrow> None
     | Some r \<Rightarrow> Some (active_of (apply_active m r),
         map (\<lambda>q. if tr_id q = tr_id r then apply_active m q else q) rows))"

definition insert_task :: "task_row \<Rightarrow> task_row list \<Rightarrow> task_row list option" where
  "insert_task r rows = (if tr_id r \<in> tr_id ` set rows then None else Some (rows @ [r]))"

section \<open>The task manager\<close>

record task_data =
  td_name :: string
  td_data :: json

text \<open>The definition of a kind of task; running one changes the tables of the index.\<close>

record bg_task =
  bt_name :: string
  bt_lock_duration :: int
  bt_max_attempts :: i16
  bt_task :: "json \<Rightarrow> db \<Rightarrow> (ingester_error + unit) \<times> db"

type_synonym registry = "string \<rightharpoonup> bg_task"

definition registered_task_types :: "bg_task list \<Rightarrow> registry" where
  "registered_task_types defs = fold (\<lambda>t m. m(bt_name t \<mapsto> t)) defs Map.empty"

fun ie_message :: "ingester_error \<Rightarrow> string" where
  "ie_message IE_ChangeLogEventMalformed = ''ChangeLog Event Malformed''"
| "ie_message IE_CompressedAssetEventMalformed = ''Compressed Asset Event Malformed''"
| "ie_message (IE_BatchInitNetworkingError e) = ''Network Error: '' @ e"
| "ie_message IE_BatchInitIOError = ''Error writing batch files''"
| "ie_message (IE_StorageListenerError e) = ''Storage listener error: ('' @ e @ '')''"
| "ie_message (IE_StorageWriteError e) = ''Storage Write Error: '' @ e"
| "ie_message IE_NotImplemented = ''NotImplemented''"
| "ie_message (IE_DeserializationError e) = ''Deserialization Error: '' @ e"
| "ie_message (IE_TaskManagerError e) = ''Task Manager Error: '' @ e"
| "ie_message (IE_ConfigurationError e) = ''Missing or invalid configuration: ('' @ e @ '')''"
| "ie_message (IE_RpcGetDataError e) = ''Error getting RPC data: '' @ e"
| "ie_message (IE_RpcDataUnsupportedFormat e) = ''RPC returned data in unsupported format: '' @ e"
| "ie_message (IE_SerializatonError e) = ''Data serializaton error: '' @ e"
| "ie_message (IE_MessengerError e) = ''Messenger error; '' @ e"
| "ie_message (IE_ParsingError e) = ''Blockbuster Parsing error: '' @ e"
| "ie_message (IE_DatabaseError e) = ''Database Error: '' @ e"
| "ie_message (IE_UnknownTaskType e) = ''Unknown Task Type: '' @ e"
| "ie_message IE_TaskManagerNotStarted = ''BG Task Manager Not Started''"
| "ie_message (IE_UnrecoverableTaskError e) = ''Unrecoverable task error: '' @ e"
| "ie_message (IE_CacheStorageWriteError e) = ''Cache Storage Write Error: '' @ e"
| "ie_message (IE_HttpError e) = ''HttpError '' @ e"
| "ie_message (IE_AssetIndexError e) = ''AssetIndex Error '' @ e"

definition lock_task :: "int \<Rightarrow> int \<Rightarrow> string \<Rightarrow> task_active \<Rightarrow> task_active" where
  "lock_task now duration instance_name m =
     m\<lparr>tm_status := AV_Set TS_Running, tm_locked_until := AV_Set (Some (now + duration)),
       tm_locked_by := AV_Set (Some instance_name)\<rparr>"

definition seconds :: "int \<Rightarrow> int" where
  "seconds n = n * 1000000"

definition next_attempt :: "i16 active_value \<Rightarrow> i16" where
  "next_attempt a = (case into_value a of Some n \<Rightarrow> wrap_i16 (n + 1) | None \<Rightarrow> 1)"

text \<open>What a finished run writes into the model.\<close>

definition task_result :: "bg_task \<Rightarrow> ingester_error + unit \<Rightarrow> task_active \<Rightarrow> task_active" where
  "task_result td res m =
    (case res of
       Inr _ \<Rightarrow> m\<lparr>tm_status := AV_Set TS_Success, tm_errors := AV_Set None, tm_locked_until := AV_Set None,
                  tm_locked_by := AV_Set None\<rparr>
     | Inl e \<Rightarrow>
        (let m' = (case e of
              IE_UnrecoverableTaskError _ \<Rightarrow>
                m\<lparr>tm_attempts := AV_Set (wrap_i16 (bt_max_attempts td + 1)), tm_locked_by := AV_Set (Some ''permanent failure'')\<rparr>
            | _ \<Rightarrow> m\<lparr>tm_locked_by := AV_Set None\<rparr>)
         in m'\<lparr>tm_status := AV_Set TS_Failed, tm_errors := AV_Set (Some (ie_message e)), tm_locked_until := AV_Set None\<rparr>))"

definition timestamp_millis :: "int \<Rightarrow> int" where
  "timestamp_millis t = t div 1000"

definition execute_task ::
  "bg_task \<Rightarrow> int \<Rightarrow> int \<Rightarrow> task_active \<Rightarrow> db \<Rightarrow> (ingester_error + task_active) \<times> db" where
  "execute_task td start end' m d =
    (case into_value (tm_data m) of
       None \<Rightarrow> (Inl (IE_TaskManagerError (bt_name td @ '' task data is not valid'')), d)
     | Some j \<Rightarrow>
        (case bt_task td j d of
           (res, d') \<Rightarrow>
             (Inr (task_result td res
                (m\<lparr>tm_attempts := AV_Set (next_attempt (tm_attempts m)),
                   tm_duration := AV_Set (Some (wrap_i32 ((timestamp_millis end' - timestamp_millis start) sdiv 1000)))\<rparr>)), d')))"

definition is_pending :: "int \<Rightarrow> task_row \<Rightarrow> bool" where
  "is_pending now r =
     holds (sql_and (Some (tr_status r \<noteq> TS_Success))
       (sql_and (sql_or (sql_cmp (\<le>) (tr_locked_until r) (Some now)) (is_null (tr_locked_until r)))
          (Some (tr_attempts r \<le> tr_max_attempts r))))"

definition get_pending_tasks :: "int \<Rightarrow> nat \<Rightarrow> task_row list \<Rightarrow> task_row list" where
  "get_pending_tasks now batch_size rows =
     take batch_size (sort_key (\<lambda>r. (tr_attempts r, - tr_created_at r)) (filter (is_pending now) rows))"

text \<open>The row that a received task becomes; \<open>None\<close> is an error that the spawned task drops.\<close>

definition new_task_row :: "registry \<Rightarrow> (task_data \<Rightarrow> string option) \<Rightarrow> int \<Rightarrow> task_data \<Rightarrow> task_row option" where
  "new_task_row reg hash now t =
    (case reg (td_name t) of
       None \<Rightarrow> None
     | Some td \<Rightarrow>
        map_option (\<lambda>h. \<lparr>tr_id = h, tr_task_type = td_name t, tr_data = td_data t, tr_status = TS_Pending,
           tr_created_at = now, tr_locked_until = None, tr_locked_by = None, tr_max_attempts = bt_max_attempts td,
           tr_attempts = 0, tr_duration = None, tr_errors = None\<rparr>) (hash t))"

definition new_task_handler ::
  "registry \<Rightarrow> (task_data \<Rightarrow> string option) \<Rightarrow> int \<Rightarrow> string \<Rightarrow> bool \<Rightarrow> task_data \<Rightarrow> task_row option" where
  "new_task_handler reg hash now instance_name process_now t =
    (case (reg (td_name t), new_task_row reg hash now t) of
       (Some td, Some r) \<Rightarrow>
         Some (if process_now
               then apply_active (lock_task now (seconds (bt_lock_duration td)) instance_name (active_of r)) r else r)
     | _ \<Rightarrow> None)"

text \<open>The listener passes a task on unless the query finds its row with another status than pending.\<close>

definition already_known :: "task_row list \<Rightarrow> string \<Rightarrow> bool" where
  "already_known rows h = (case lookup tr_id h rows of Some r \<Rightarrow> tr_status r \<noteq> TS_Pending | None \<Rightarrow> False)"

definition purge_old_tasks :: "int \<Rightarrow> int \<Rightarrow> task_row list \<Rightarrow> task_row list" where
  "purge_old_tasks now task_max_age rows = filter (\<lambda>r. \<not> (now - tr_created_at r > seconds task_max_age)) rows"

text \<open>What the runner spawns for one pending task: lock and save, execute, save.\<close>

definition begin_task :: "registry \<Rightarrow> int \<Rightarrow> string \<Rightarrow> task_row \<Rightarrow> task_row list \<Rightarrow> (bg_task \<times> task_active \<times> task_row list) option" where
  "begin_task reg now instance_name r rows =
    (case reg (tr_task_type r) of
       None \<Rightarrow> None
     | Some td \<Rightarrow>
        map_option (Pair td)
          (save_task (lock_task now (seconds (bt_lock_duration td)) instance_name (active_of r)) rows))"

definition run_task ::
  "registry \<Rightarrow> int \<Rightarrow> int \<Rightarrow> string \<Rightarrow> task_row \<Rightarrow> db \<times> task_row list \<Rightarrow> db \<times> task_row list" where
  "run_task reg now end' instance_name r st =
    (case begin_task reg now instance_name r (snd st) of
       None \<Rightarrow> st
     | Some (td, m, rows) \<Rightarrow>
        (case execute_task td now end' m (fst st) of
           (Inl e, d) \<Rightarrow> (d, rows)
         | (Inr m', d) \<Rightarrow> (d, (case save_task m' rows of None \<Rightarrow> rows | Some (_, rows') \<Rightarrow> rows'))))"

text \<open>A round of a runner that is alone and takes its tasks one after the other.\<close>

definition runner_round :: "registry \<Rightarrow> nat \<Rightarrow> string \<Rightarrow> int \<Rightarrow> db \<times> task_row list \<Rightarrow> db \<times> task_row list" where
  "runner_round reg batch_size instance_name now st =
     fold (run_task reg now now instance_name) (get_pending_tasks now batch_size (snd st)) st"

text \<open>The configuration, each value with its default.\<close>

record background_task_runner_config =
  rc_delete_interval :: "u64 option"
  rc_retry_interval :: "u64 option"
  rc_purge_time :: "u64 option"
  rc_batch_size :: "u64 option"
  rc_lock_duration :: "int option"
  rc_max_attempts :: "i16 option"
  rc_timeout :: "u64 option"

definition RETRY_INTERVAL :: u64 where "RETRY_INTERVAL = 1000"
definition DELETE_INTERVAL :: u64 where "DELETE_INTERVAL = 30000"
definition MAX_TASK_BATCH_SIZE :: u64 where "MAX_TASK_BATCH_SIZE = 100"
definition PURGE_TIME :: u64 where "PURGE_TIME = 3600"

definition runner_config_default :: background_task_runner_config where
  "runner_config_default =
     \<lparr>rc_delete_interval = Some DELETE_INTERVAL, rc_retry_interval = Some RETRY_INTERVAL, rc_purge_time = Some PURGE_TIME,
      rc_batch_size = Some MAX_TASK_BATCH_SIZE, rc_lock_duration = Some 5, rc_max_attempts = Some 3, rc_timeout = Some 3\<rparr>"

section \<open>Downloading metadata\<close>

record download_metadata =
  dl_asset_data_id :: bytes
  dl_uri :: string
  dl_created_at :: "int option"

definition TASK_NAME :: string where
  "TASK_NAME = ''DownloadMetadata''"

definition sanitize_uri :: "download_metadata \<Rightarrow> download_metadata" where
  "sanitize_uri m = m\<lparr>dl_uri := remove_nul (str_trim (dl_uri m))\<rparr>"

definition into_task_data :: "download_metadata \<Rightarrow> task_data" where
  "into_task_data m =
     \<lparr>td_name = TASK_NAME,
      td_data = JObj [(''asset_data_id'', JArr (map (\<lambda>b. JNum (uint b)) (dl_asset_data_id m))), (''uri'', JStr (dl_uri m))]\<rparr>"

fun json_byte :: "json \<Rightarrow> u8 option" where
  "json_byte (JNum n) = (if 0 \<le> n \<and> n < 256 then Some (word_of_int n) else None)"
| "json_byte _ = None"

fun json_bytes :: "json \<Rightarrow> bytes option" where
  "json_bytes (JArr js) = those (map json_byte js)"
| "json_bytes _ = None"

fun json_string :: "json \<Rightarrow> string option" where
  "json_string (JStr s) = Some s"
| "json_string _ = None"

text \<open>\<open>parse_time\<close> reads a \<open>NaiveDateTime\<close> (the crate \<open>chrono\<close>).\<close>

fun json_time :: "(string \<Rightarrow> int option) \<Rightarrow> json \<Rightarrow> int option option" where
  "json_time parse_time JNull = Some None"
| "json_time parse_time (JStr s) = map_option Some (parse_time s)"
| "json_time parse_time _ = None"

text \<open>The derived \<open>Deserialize\<close>: an object (a missing option is none, other fields are ignored), or a sequence of the fields.\<close>

fun download_of_json :: "(string \<Rightarrow> int option) \<Rightarrow> json \<Rightarrow> download_metadata option" where
  "download_of_json pt (JObj fs) =
     Option.bind (Option.bind (map_of fs ''asset_data_id'') json_bytes) (\<lambda>i.
     Option.bind (Option.bind (map_of fs ''uri'') json_string) (\<lambda>u.
     Option.bind (case map_of fs ''created_at'' of None \<Rightarrow> Some None | Some j \<Rightarrow> json_time pt j) (\<lambda>c.
       Some \<lparr>dl_asset_data_id = i, dl_uri = u, dl_created_at = c\<rparr>)))"
| "download_of_json pt (JArr [a, b, c]) =
     Option.bind (json_bytes a) (\<lambda>i. Option.bind (json_string b) (\<lambda>u. Option.bind (json_time pt c) (\<lambda>t.
       Some \<lparr>dl_asset_data_id = i, dl_uri = u, dl_created_at = t\<rparr>)))"
| "download_of_json pt _ = None"

text \<open>
  What a download meets: the answer to the request (an error of the client, or a status and a
  body that may not be JSON), what other writers do before its statements, which of them the
  database refuses, the error of an update that changes no row, and third-party functions.
\<close>

record download_env =
  de_request :: "string \<Rightarrow> string + (nat \<times> (string + json))"
  de_url_parse :: "string \<Rightarrow> bool"
  de_writes :: "nat \<Rightarrow> db \<Rightarrow> db"
  de_fault :: "nat \<Rightarrow> string option"
  de_no_row :: string
  de_bs58 :: "bytes \<Rightarrow> string"
  de_debug :: "string \<Rightarrow> string"
  de_parse_time :: "string \<Rightarrow> int option"

definition request_metadata :: "download_env \<Rightarrow> string \<Rightarrow> ingester_error + json" where
  "request_metadata E uri =
    (case de_request E uri of
       Inl e \<Rightarrow> Inl (IE_BatchInitNetworkingError e)
     | Inr (status, body) \<Rightarrow>
         if status \<noteq> 200 then Inl (IE_HttpError (show_nat status))
         else (case body of Inl e \<Rightarrow> Inl (IE_BatchInitNetworkingError e) | Inr j \<Rightarrow> Inr j))"

definition store_metadata :: "bytes \<Rightarrow> string \<Rightarrow> json \<Rightarrow> db \<Rightarrow> db" where
  "store_metadata i uri body d =
     d\<lparr>asset_data_t := map (\<lambda>r. if ad_id r = i \<and> ad_metadata_url r = uri
        then r\<lparr>ad_metadata := body, ad_reindex := Some False\<rparr> else r) (asset_data_t d)\<rparr>"

definition update_metadata_row :: "download_env \<Rightarrow> download_metadata \<Rightarrow> json \<Rightarrow> db \<Rightarrow> (ingester_error + unit) \<times> db" where
  "update_metadata_row E m body d =
    (let d1 = de_writes E 1 d;
         hit = list_ex (\<lambda>r. ad_id r = dl_asset_data_id m \<and> ad_metadata_url r = dl_uri m) (asset_data_t d1)
     in case (case de_fault E 1 of Some e \<Rightarrow> Some e | None \<Rightarrow> if hit then None else Some (de_no_row E)) of
       Some e \<Rightarrow> (Inl (IE_TaskManagerError (''Database error with '' @ TASK_NAME @ '', error: '' @ e)), d1)
     | None \<Rightarrow>
         (if de_url_parse E (dl_uri m) then Inr ()
          else Inl (IE_UnrecoverableTaskError (''Failed to parse URI: '' @ dl_uri m)),
          store_metadata (dl_asset_data_id m) (dl_uri m) body d1))"

definition store_if_current :: "download_env \<Rightarrow> download_metadata \<Rightarrow> json \<Rightarrow> db \<Rightarrow> (ingester_error + unit) \<times> db" where
  "store_if_current E m body d =
    (let d0 = de_writes E 0 d in
     case de_fault E 0 of
       Some e \<Rightarrow> (Inl (IE_StorageWriteError e), d0)
     | None \<Rightarrow>
        (case asset_data_row (dl_asset_data_id m) d0 of
           None \<Rightarrow> (Inl (IE_UnrecoverableTaskError
             (''failed to find URI in database for '' @ de_debug E (de_bs58 E (dl_asset_data_id m)))), d0)
         | Some a \<Rightarrow> if ad_metadata_url a \<noteq> dl_uri m then (Inr (), d0) else update_metadata_row E m body d0))"

definition download_task :: "download_env \<Rightarrow> json \<Rightarrow> db \<Rightarrow> (ingester_error + unit) \<times> db" where
  "download_task E data d =
    (case download_of_json (de_parse_time E) data of
       None \<Rightarrow> (Inl (IE_SerializatonError ''JSON ERROR''), d)
     | Some m \<Rightarrow>
        (case (if de_url_parse E (dl_uri m) then request_metadata E (dl_uri m) else Inr (JStr ''Invalid Uri'')) of
           Inl e \<Rightarrow> (Inl e, d)
         | Inr body \<Rightarrow> store_if_current E m body d))"

definition download_bg_task :: "download_env \<Rightarrow> int option \<Rightarrow> i16 option \<Rightarrow> bg_task" where
  "download_bg_task E lock_duration max_attempts =
     \<lparr>bt_name = TASK_NAME, bt_lock_duration = (case lock_duration of None \<Rightarrow> 5 | Some n \<Rightarrow> n),
      bt_max_attempts = (case max_attempts of None \<Rightarrow> 3 | Some n \<Rightarrow> n), bt_task = download_task E\<rparr>"

text \<open>The notifier the program transformer calls: the task goes to the channel of the listener.\<close>

definition create_download_metadata_notifier :: "int \<Rightarrow> download_metadata_info \<Rightarrow> task_data" where
  "create_download_metadata_notifier now info =
     into_task_data \<lparr>dl_asset_data_id = dm_asset_data_id info, dl_uri = dm_uri info, dl_created_at = Some now\<rparr>"

end
