(* ===== verification/Task_Properties.thy ===== *)
theory Task_Properties
  imports Task_Manager
begin

text \<open>
  What the table of background tasks guarantees under any interleaving of listeners, runners,
  purges and crashes; how often a failing task is executed; and what a download may store.
\<close>

section \<open>Listeners and runners as a step relation\<close>

text \<open>
  Any number of instances share the table. Between the poll of a runner and the save of the lock,
  and between that and the save of the result, anything else may happen; so may it between the
  check of the listener and the insert. \<open>others\<close> are the writers of the index.
\<close>

record tasks_state =
  ts_db :: db
  ts_rows :: "task_row list"
  ts_now :: int
  ts_spawned :: "task_data list"
  ts_fetched :: "task_row list"
  ts_running :: "(bg_task \<times> task_active \<times> int) list"

definition tasks_init :: "db \<Rightarrow> int \<Rightarrow> tasks_state" where
  "tasks_init d now = \<lparr>ts_db = d, ts_rows = [], ts_now = now, ts_spawned = [], ts_fetched = [], ts_running = []\<rparr>"

inductive task_step :: "registry \<Rightarrow> (task_data \<Rightarrow> string option) \<Rightarrow> tasks_state \<Rightarrow> tasks_state \<Rightarrow> bool"
  for reg hash where
  tick: "ts_now s \<le> t \<Longrightarrow> task_step reg hash s (s\<lparr>ts_now := t\<rparr>)"
| others: "task_step reg hash s (s\<lparr>ts_db := d\<rparr>)"
| receive: "hash t = Some h \<Longrightarrow> \<not> already_known (ts_rows s) h \<Longrightarrow>
    task_step reg hash s (s\<lparr>ts_spawned := t # ts_spawned s\<rparr>)"
| receive_unchecked: "hash t = Some h \<Longrightarrow> task_step reg hash s (s\<lparr>ts_spawned := t # ts_spawned s\<rparr>)"
| insert_row: "t \<in> set (ts_spawned s) \<Longrightarrow> new_task_handler reg hash (ts_now s) instance_name process_now t = Some r \<Longrightarrow>
    insert_task r (ts_rows s) = Some rows \<Longrightarrow>
    task_step reg hash s (s\<lparr>ts_rows := rows, ts_spawned := remove1 t (ts_spawned s)\<rparr>)"
| insert_fails: "t \<in> set (ts_spawned s) \<Longrightarrow> task_step reg hash s (s\<lparr>ts_spawned := remove1 t (ts_spawned s)\<rparr>)"
| poll: "task_step reg hash s (s\<lparr>ts_fetched := get_pending_tasks (ts_now s) batch_size (ts_rows s) @ ts_fetched s\<rparr>)"
| begin_run: "r \<in> set (ts_fetched s) \<Longrightarrow> begin_task reg (ts_now s) instance_name r (ts_rows s) = Some (td, m, rows) \<Longrightarrow>
    task_step reg hash s (s\<lparr>ts_rows := rows, ts_fetched := remove1 r (ts_fetched s),
      ts_running := (td, m, ts_now s) # ts_running s\<rparr>)"
| begin_fails: "r \<in> set (ts_fetched s) \<Longrightarrow> task_step reg hash s (s\<lparr>ts_fetched := remove1 r (ts_fetched s)\<rparr>)"
| finish_run: "(td, m, t0) \<in> set (ts_running s) \<Longrightarrow> execute_task td t0 (ts_now s) m (ts_db s) = (Inr m', d) \<Longrightarrow>
    save_task m' (ts_rows s) = Some (m'', rows) \<Longrightarrow>
    task_step reg hash s (s\<lparr>ts_db := d, ts_rows := rows, ts_running := remove1 (td, m, t0) (ts_running s)\<rparr>)"
| finish_unsaved: "(td, m, t0) \<in> set (ts_running s) \<Longrightarrow> execute_task td t0 (ts_now s) m (ts_db s) = (res, d) \<Longrightarrow>
    task_step reg hash s (s\<lparr>ts_db := d, ts_running := remove1 (td, m, t0) (ts_running s)\<rparr>)"
| purge: "task_step reg hash s (s\<lparr>ts_rows := purge_old_tasks (ts_now s) max_age (ts_rows s)\<rparr>)"
| crash: "task_step reg hash s (s\<lparr>ts_spawned := [], ts_fetched := [], ts_running := []\<rparr>)"

inductive tasks_reach :: "registry \<Rightarrow> (task_data \<Rightarrow> string option) \<Rightarrow> tasks_state \<Rightarrow> bool" for reg hash where
  init: "tasks_reach reg hash (tasks_init d now)"
| step: "tasks_reach reg hash s \<Longrightarrow> task_step reg hash s t \<Longrightarrow> tasks_reach reg hash t"

section \<open>The invariant of the rows\<close>

text \<open>The limits are in the range where one more attempt does not overflow, and an identifier determines the kind of task.\<close>

definition limits_ok :: "registry \<Rightarrow> bool" where
  "limits_ok reg \<longleftrightarrow> (\<forall>n td. reg n = Some td \<longrightarrow> 0 \<le> bt_max_attempts td \<and> bt_max_attempts td < 32767)"

definition hash_typed :: "(task_data \<Rightarrow> string option) \<Rightarrow> bool" where
  "hash_typed hash \<longleftrightarrow> (\<forall>t t' h. hash t = Some h \<longrightarrow> hash t' = Some h \<longrightarrow> td_name t = td_name t')"

definition status_ok :: "task_row \<Rightarrow> bool" where
  "status_ok r =
    (case tr_status r of
       TS_Pending \<Rightarrow> tr_attempts r = 0 \<and> tr_locked_until r = None \<and> tr_locked_by r = None \<and> tr_errors r = None
     | TS_Running \<Rightarrow> tr_locked_until r \<noteq> None \<and> tr_locked_by r \<noteq> None
     | TS_Success \<Rightarrow> tr_locked_until r = None \<and> tr_locked_by r = None \<and> tr_errors r = None
     | TS_Failed \<Rightarrow> tr_locked_until r = None \<and> tr_errors r \<noteq> None \<and>
         (tr_locked_by r = None \<or> tr_locked_by r = Some ''permanent failure'' \<and> tr_attempts r = tr_max_attempts r + 1))"

definition row_typed :: "registry \<Rightarrow> (task_data \<Rightarrow> string option) \<Rightarrow> task_row \<Rightarrow> bool" where
  "row_typed reg hash r \<longleftrightarrow>
    (\<exists>t td. hash t = Some (tr_id r) \<and> td_name t = tr_task_type r \<and> reg (tr_task_type r) = Some td \<and>
      tr_max_attempts r = bt_max_attempts td)"

definition tasks_inv :: "registry \<Rightarrow> (task_data \<Rightarrow> string option) \<Rightarrow> tasks_state \<Rightarrow> bool" where
  "tasks_inv reg hash s \<longleftrightarrow>
    table_ok tr_id (ts_rows s) \<and> (\<forall>r\<in>set (ts_rows s). status_ok r \<and> row_typed reg hash r) \<and>
    (\<forall>r\<in>set (ts_fetched s). row_typed reg hash r) \<and>
    (\<forall>(td, m, t0)\<in>set (ts_running s). \<exists>r. m = active_of r \<and> row_typed reg hash r \<and> reg (tr_task_type r) = Some td)"

lemma tasks_invI:
  assumes "table_ok tr_id (ts_rows s)" "\<And>r. r \<in> set (ts_rows s) \<Longrightarrow> status_ok r"
    "\<And>r. r \<in> set (ts_rows s) \<Longrightarrow> row_typed reg hash r" "\<And>r. r \<in> set (ts_fetched s) \<Longrightarrow> row_typed reg hash r"
    "\<And>td m t0. (td, m, t0) \<in> set (ts_running s) \<Longrightarrow> \<exists>r. m = active_of r \<and> row_typed reg hash r \<and> reg (tr_task_type r) = Some td"
  shows "tasks_inv reg hash s"
  using assms by (auto simp: tasks_inv_def)

lemma tasks_invD:
  assumes "tasks_inv reg hash s"
  shows "table_ok tr_id (ts_rows s)" "r \<in> set (ts_rows s) \<Longrightarrow> status_ok r"
    "r \<in> set (ts_rows s) \<Longrightarrow> row_typed reg hash r" "r \<in> set (ts_fetched s) \<Longrightarrow> row_typed reg hash r"
    "(td, m, t0) \<in> set (ts_running s) \<Longrightarrow> \<exists>r. m = active_of r \<and> row_typed reg hash r \<and> reg (tr_task_type r) = Some td"
  using assms by (auto simp: tasks_inv_def)

text \<open>Rows of one identifier have one type, hence one definition and one limit.\<close>

lemma row_typed_same:
  assumes "hash_typed hash" "row_typed reg hash r" "row_typed reg hash q" "tr_id r = tr_id q"
  shows "tr_task_type r = tr_task_type q"
  using assms unfolding row_typed_def hash_typed_def by metis

lemma wrap_i16_id: "- 32768 \<le> n \<Longrightarrow> n < 32768 \<Longrightarrow> wrap_i16 n = n"
  by (simp add: wrap_i16_def signed_take_bit_int_eq_self)

subsection \<open>What the operations do to a row\<close>

lemma apply_active_keeps [simp]:
  "tr_id (apply_active m r) = tr_id r"
  by (simp add: apply_active_def)

lemma save_task_Some:
  assumes "save_task m rows = Some (m', rows')" "into_value (tm_id m) = Some i"
  shows "\<exists>r\<in>set rows. tr_id r = i \<and> m' = active_of (apply_active m r) \<and>
    rows' = map (\<lambda>q. if tr_id q = i then apply_active m q else q) rows"
  using assms by (auto simp: save_task_def split: option.splits dest: lookup_mem lookup_key)

lemma save_task_rows:
  assumes "save_task m rows = Some (m', rows')" "into_value (tm_id m) = Some i" "table_ok tr_id rows"
  shows "table_ok tr_id rows'" "r' \<in> set rows' \<Longrightarrow> r' \<in> set rows \<or> (\<exists>q\<in>set rows. tr_id q = i \<and> r' = apply_active m q)"
proof -
  have rows': "rows' = map (\<lambda>q. if tr_id q = i then apply_active m q else q) rows"
    using save_task_Some [OF assms(1,2)] by blast
  then have "map tr_id rows' = map tr_id rows" by simp
  then show "table_ok tr_id rows'" using assms(3) by (simp add: table_ok_def)
  show "r' \<in> set rows' \<Longrightarrow> r' \<in> set rows \<or> (\<exists>q\<in>set rows. tr_id q = i \<and> r' = apply_active m q)"
    by (auto simp: rows' split: if_splits)
qed

lemma active_of_id [simp]: "into_value (tm_id (active_of r)) = Some (tr_id r)"
  by (simp add: active_of_def)

lemma lock_task_id [simp]: "tm_id (lock_task now dur inst m) = tm_id m"
  by (simp add: lock_task_def)

text \<open>A lock keeps the identity of the row and makes it a running one.\<close>

lemma apply_lock:
  "apply_active (lock_task now dur inst (active_of r)) q =
     q\<lparr>tr_status := TS_Running, tr_locked_until := Some (now + dur), tr_locked_by := Some inst\<rparr>"
  by (simp add: apply_active_def lock_task_def active_of_def)

text \<open>A finished run writes the columns of the result, from a count one higher than the count it read.\<close>

definition result_row :: "bg_task \<Rightarrow> ingester_error + unit \<Rightarrow> i16 \<Rightarrow> i32 option \<Rightarrow> task_row \<Rightarrow> task_row" where
  "result_row td res n dur q =
    (case res of
       Inr _ \<Rightarrow> q\<lparr>tr_status := TS_Success, tr_attempts := n, tr_duration := dur, tr_errors := None,
                 tr_locked_until := None, tr_locked_by := None\<rparr>
     | Inl e \<Rightarrow> q\<lparr>tr_status := TS_Failed, tr_duration := dur, tr_errors := Some (ie_message e), tr_locked_until := None,
         tr_attempts := (case e of IE_UnrecoverableTaskError _ \<Rightarrow> wrap_i16 (bt_max_attempts td + 1) | _ \<Rightarrow> n),
         tr_locked_by := (case e of IE_UnrecoverableTaskError _ \<Rightarrow> Some ''permanent failure'' | _ \<Rightarrow> None)\<rparr>)"

lemma execute_task_active_of:
  assumes "execute_task td t0 t1 (active_of r) d = (Inr m', d')"
  shows "\<exists>res dur. bt_task td (tr_data r) d = (res, d') \<and> into_value (tm_id m') = Some (tr_id r) \<and>
    (\<forall>q. apply_active m' q = result_row td res (wrap_i16 (tr_attempts r + 1)) dur q)"
proof -
  obtain res d1 where run: "bt_task td (tr_data r) d = (res, d1)" by fastforce
  define dur where "dur = Some (wrap_i32 ((timestamp_millis t1 - timestamp_millis t0) sdiv 1000))"
  have m': "m' = task_result td res ((active_of r)\<lparr>tm_attempts := AV_Set (wrap_i16 (tr_attempts r + 1)), tm_duration := AV_Set dur\<rparr>)"
    and "d1 = d'"
    using assms by (simp_all add: execute_task_def run active_of_def next_attempt_def dur_def)
  have "apply_active m' q = result_row td res (wrap_i16 (tr_attempts r + 1)) dur q" for q
    by (cases res) (auto simp: m' task_result_def result_row_def apply_active_def active_of_def Let_def split: ingester_error.split)
  moreover have "into_value (tm_id m') = Some (tr_id r)"
    by (cases res) (auto simp: m' task_result_def active_of_def Let_def split: ingester_error.split)
  ultimately show ?thesis using run \<open>d1 = d'\<close> by blast
qed

lemma result_row_same:
  "tr_id (result_row td res n dur q) = tr_id q" "tr_task_type (result_row td res n dur q) = tr_task_type q"
  "tr_max_attempts (result_row td res n dur q) = tr_max_attempts q" "tr_created_at (result_row td res n dur q) = tr_created_at q"
  "tr_data (result_row td res n dur q) = tr_data q"
  by (simp_all add: result_row_def split: sum.split)

lemma result_row_status:
  assumes "tr_max_attempts q = bt_max_attempts td" "0 \<le> bt_max_attempts td" "bt_max_attempts td < 32767"
  shows "status_ok (result_row td res n dur q)"
  using assms by (auto simp: status_ok_def result_row_def wrap_i16_id split: sum.split ingester_error.split)

lemma row_typed_cong:
  "tr_id q = tr_id r \<Longrightarrow> tr_task_type q = tr_task_type r \<Longrightarrow> tr_max_attempts q = tr_max_attempts r \<Longrightarrow>
    row_typed reg hash q = row_typed reg hash r"
  by (simp add: row_typed_def)

subsection \<open>Preservation\<close>

lemma tasks_inv_insert:
  assumes inv: "tasks_inv reg hash s" and r: "new_task_handler reg hash now inst pn t = Some r" "insert_task r (ts_rows s) = Some rows"
  shows "tasks_inv reg hash (s\<lparr>ts_rows := rows, ts_spawned := sp\<rparr>)"
proof -
  note D = tasks_invD [OF inv]
  have "status_ok r" "row_typed reg hash r"
    using r(1) by (auto simp: new_task_handler_def new_task_row_def apply_lock status_ok_def row_typed_def split: option.splits if_splits)
  moreover have "rows = ts_rows s @ [r]" "tr_id r \<notin> tr_id ` set (ts_rows s)"
    using r(2) by (simp_all add: insert_task_def split: if_splits)
  ultimately show ?thesis
    using D by (intro tasks_invI) (auto simp: table_ok_def)
qed

lemma saved_rows:
  assumes "save_task m rows = Some (m', rows')" "into_value (tm_id m) = Some i" "table_ok tr_id rows"
    and "\<And>q. q \<in> set rows \<Longrightarrow> P q" "\<And>q. q \<in> set rows \<Longrightarrow> tr_id q = i \<Longrightarrow> P (apply_active m q)" "r' \<in> set rows'"
  shows "P r'"
  using save_task_rows(2) [OF assms(1-3,6)] assms(4,5) by blast

lemma tasks_inv_begin:
  assumes inv: "tasks_inv reg hash s" and h: "hash_typed hash"
    and r: "r \<in> set (ts_fetched s)" "begin_task reg now inst r (ts_rows s) = Some (td, m, rows)"
  shows "tasks_inv reg hash (s\<lparr>ts_rows := rows, ts_fetched := remove1 r (ts_fetched s), ts_running := (td, m, now) # ts_running s\<rparr>)"
    (is "tasks_inv reg hash ?t")
proof -
  note D = tasks_invD [OF inv]
  let ?lock = "lock_task now (seconds (bt_lock_duration td)) inst (active_of r)"
  have td: "reg (tr_task_type r) = Some td" and save: "save_task ?lock (ts_rows s) = Some (m, rows)"
    using r(2) by (auto simp: begin_task_def split: option.splits)
  have i: "into_value (tm_id ?lock) = Some (tr_id r)" by simp
  have new: "status_ok (apply_active ?lock q')" "row_typed reg hash (apply_active ?lock q')" if "q' \<in> set (ts_rows s)" for q'
    using D(3) [OF that] by (simp_all add: apply_lock status_ok_def row_typed_def)
  obtain q where q: "q \<in> set (ts_rows s)" "tr_id q = tr_id r" "m = active_of (apply_active ?lock q)"
    using save_task_Some [OF save i] by blast
  have "tr_task_type q = tr_task_type r"
    using row_typed_same [OF h D(3) [OF q(1)] D(4) [OF r(1)] q(2)] .
  then have run: "\<exists>r'. m = active_of r' \<and> row_typed reg hash r' \<and> reg (tr_task_type r') = Some td"
    using q(3) new(2) [OF q(1)] td by (intro exI [of _ "apply_active ?lock q"]) (simp add: apply_lock)
  show ?thesis
  proof (rule tasks_invI)
    show "table_ok tr_id (ts_rows ?t)" using save_task_rows(1) [OF save i D(1)] by simp
    show "status_ok r'" if "r' \<in> set (ts_rows ?t)" for r'
      by (rule saved_rows [where P = status_ok, OF save i D(1,2) new(1)]) (use that in simp_all)
    show "row_typed reg hash r'" if "r' \<in> set (ts_rows ?t)" for r'
      by (rule saved_rows [where P = "row_typed reg hash", OF save i D(1,3) new(2)]) (use that in simp_all)
    show "row_typed reg hash r'" if "r' \<in> set (ts_fetched ?t)" for r'
      using that D(4) by (auto dest: notin_set_remove1)
    show "\<exists>r'. m' = active_of r' \<and> row_typed reg hash r' \<and> reg (tr_task_type r') = Some td'"
      if "(td', m', t0) \<in> set (ts_running ?t)" for td' m' t0
      using that run D(5) by auto
  qed
qed

lemma tasks_inv_finish:
  assumes inv: "tasks_inv reg hash s" and h: "hash_typed hash" "limits_ok reg"
    and run: "(td, m, t0) \<in> set (ts_running s)" "execute_task td t0 t1 m (ts_db s) = (Inr m', d)"
      "save_task m' (ts_rows s) = Some (m'', rows)"
  shows "tasks_inv reg hash (s\<lparr>ts_db := d, ts_rows := rows, ts_running := remove1 (td, m, t0) (ts_running s)\<rparr>)"
    (is "tasks_inv reg hash ?t")
proof -
  note D = tasks_invD [OF inv]
  obtain r where r: "m = active_of r" "row_typed reg hash r" "reg (tr_task_type r) = Some td"
    using D(5) [OF run(1)] by blast
  then obtain res dur where i: "into_value (tm_id m') = Some (tr_id r)"
    and ap: "\<And>q. apply_active m' q = result_row td res (wrap_i16 (tr_attempts r + 1)) dur q"
    using execute_task_active_of [of td t0 t1 r "ts_db s" m' d] run(2) by auto
  have typed: "row_typed reg hash (apply_active m' q)" if "q \<in> set (ts_rows s)" for q
    using D(3) [OF that] by (simp add: ap row_typed_def result_row_same)
  have status: "status_ok (apply_active m' q)" if "q \<in> set (ts_rows s)" "tr_id q = tr_id r" for q
  proof -
    have "tr_task_type q = tr_task_type r" using row_typed_same [OF h(1) D(3) [OF that(1)] r(2) that(2)] .
    then have "tr_max_attempts q = bt_max_attempts td" using D(3) [OF that(1)] r(3) by (auto simp: row_typed_def)
    then show ?thesis unfolding ap using h(2) r(3) by (intro result_row_status) (auto simp: limits_ok_def)
  qed
  show ?thesis
  proof (rule tasks_invI)
    show "table_ok tr_id (ts_rows ?t)" using save_task_rows(1) [OF run(3) i D(1)] by simp
    show "status_ok r'" if "r' \<in> set (ts_rows ?t)" for r'
      by (rule saved_rows [where P = status_ok, OF run(3) i D(1,2) status]) (use that in simp_all)
    show "row_typed reg hash r'" if "r' \<in> set (ts_rows ?t)" for r'
      by (rule saved_rows [where P = "row_typed reg hash", OF run(3) i D(1,3) typed]) (use that in simp_all)
    show "\<exists>r'. q = active_of r' \<and> row_typed reg hash r' \<and> reg (tr_task_type r') = Some td'"
      if "(td', q, t0') \<in> set (ts_running ?t)" for td' q t0'
      using that D(5) [of td' q t0'] by (auto dest: notin_set_remove1)
  qed (use D(4) in simp)
qed

lemma pending_subset: "set (get_pending_tasks now n rows) \<subseteq> set rows"
  by (auto simp: get_pending_tasks_def dest: in_set_takeD)

lemma tasks_inv_step:
  assumes "task_step reg hash s t" "tasks_inv reg hash s" "hash_typed hash" "limits_ok reg"
  shows "tasks_inv reg hash t"
  using assms(1)
proof cases
  case (insert_row t' inst pn r rows)
  then show ?thesis using tasks_inv_insert [OF assms(2)] by simp
next
  case (begin_run r inst td m rows)
  then show ?thesis using tasks_inv_begin [OF assms(2,3)] by simp
next
  case (finish_run td m t0 m' d m'' rows)
  then show ?thesis using tasks_inv_finish [OF assms(2-4)] by simp
next
  case (poll n)
  then show ?thesis using assms(2) pending_subset [of "ts_now s" n "ts_rows s"] by (auto simp: tasks_inv_def)
next
  case (purge age)
  then show ?thesis using assms(2) by (auto simp: tasks_inv_def purge_old_tasks_def table_ok_def distinct_map_filter)
next
  case (finish_unsaved td m t0 res d)
  then show ?thesis using assms(2) set_remove1_subset [of "(td, m, t0)" "ts_running s"] by (auto simp: tasks_inv_def)
qed (use assms(2) in \<open>auto simp: tasks_inv_def dest: notin_set_remove1\<close>)

lemma tasks_inv_reach:
  assumes "tasks_reach reg hash s" "hash_typed hash" "limits_ok reg"
  shows "tasks_inv reg hash s"
  using assms(1)
proof (induction rule: tasks_reach.induct)
  case (init d now)
  show ?case by (simp add: tasks_inv_def tasks_init_def table_ok_def)
qed (use assms(2,3) tasks_inv_step in blast)

text \<open>
  C8: The table of tasks stays well-formed. Whatever the interleaving of listeners, runners, purges
  and crashes of any number of instances: identifiers are unique; a pending task has no attempts, lock
  or error; a running one is locked; a successful one has no lock and no error; a failed one has an
  error and no lock, and if it failed permanently no runner will fetch it again.
\<close>

theorem task_rows_ok:
  assumes "tasks_reach reg hash s" "hash_typed hash" "limits_ok reg" "r \<in> set (ts_rows s)"
  shows "table_ok tr_id (ts_rows s) \<and> status_ok r \<and>
    (tr_status r = TS_Failed \<and> tr_locked_by r \<noteq> None \<longrightarrow> r \<notin> set (get_pending_tasks now n (ts_rows s)))"
proof -
  note D = tasks_invD [OF tasks_inv_reach [OF assms(1-3)]]
  have "r \<notin> set (get_pending_tasks now n (ts_rows s))" if "tr_status r = TS_Failed" "tr_locked_by r \<noteq> None"
    using D(2) [OF assms(4)] that
    by (auto simp: status_ok_def is_pending_def get_pending_tasks_def dest: in_set_takeD)
  then show ?thesis using D(1,2) assms(4) by blast
qed

text \<open>A run: a task is received and inserted.\<close>

definition download_env0 :: download_env where
  "download_env0 = \<lparr>de_request = (\<lambda>_. Inl ''refused''), de_url_parse = (\<lambda>u. u \<noteq> []), de_writes = (\<lambda>_ d. d), de_fault = (\<lambda>_. None),
     de_no_row = ''no row'', de_bs58 = (\<lambda>_. ''asset''), de_debug = (\<lambda>x. x), de_parse_time = (\<lambda>_. None)\<rparr>"

definition registry0 :: registry where
  "registry0 = registered_task_types [download_bg_task download_env0 None None]"

definition hash0 :: "task_data \<Rightarrow> string option" where
  "hash0 t = Some (td_name t)"

definition task0 :: task_data where
  "task0 = into_task_data \<lparr>dl_asset_data_id = [7], dl_uri = ''u'', dl_created_at = None\<rparr>"

definition row0 :: task_row where
  "row0 = \<lparr>tr_id = TASK_NAME, tr_task_type = TASK_NAME, tr_data = td_data task0, tr_status = TS_Pending, tr_created_at = 0,
     tr_locked_until = None, tr_locked_by = None, tr_max_attempts = 3, tr_attempts = 0, tr_duration = None, tr_errors = None\<rparr>"

definition tasks0 :: tasks_state where
  "tasks0 = (tasks_init empty_db 0)\<lparr>ts_rows := [row0]\<rparr>"

lemma registry0_simps [simp]:
  "registry0 TASK_NAME = Some (download_bg_task download_env0 None None)" "limits_ok registry0" "hash_typed hash0"
  by (auto simp: registry0_def registered_task_types_def download_bg_task_def limits_ok_def hash_typed_def hash0_def split: if_splits)

lemma new_row0: "new_task_handler registry0 hash0 0 inst False task0 = Some row0"
proof -
  have "td_name task0 = TASK_NAME" by (simp add: task0_def into_task_data_def)
  then show ?thesis
    by (simp add: new_task_handler_def new_task_row_def hash0_def row0_def) (simp add: download_bg_task_def)
qed

lemma tasks0_reach: "tasks_reach registry0 hash0 tasks0"
proof -
  define s0 where "s0 = tasks_init empty_db 0"
  define s1 where "s1 = s0\<lparr>ts_spawned := [task0]\<rparr>"
  have r0: "tasks_reach registry0 hash0 s0" unfolding s0_def by (rule tasks_reach.init)
  have "task_step registry0 hash0 s0 s1"
    using task_step.receive [of hash0 task0 "td_name task0" s0 registry0]
    by (simp add: s1_def s0_def tasks_init_def hash0_def already_known_def)
  from tasks_reach.step [OF r0 this] have r1: "tasks_reach registry0 hash0 s1" .
  have "task_step registry0 hash0 s1 tasks0"
    using task_step.insert_row [of task0 s1 registry0 hash0 "''a''" False row0 "[row0]"] new_row0
    by (simp add: s1_def s0_def tasks0_def tasks_init_def insert_task_def)
  from tasks_reach.step [OF r1 this] show ?thesis .
qed

theorem task_rows_ok_witness:
  "tasks_reach registry0 hash0 tasks0 \<and> hash_typed hash0 \<and> limits_ok registry0 \<and> row0 \<in> set (ts_rows tasks0) \<and> status_ok row0"
  using task_rows_ok [OF tasks0_reach, of row0] tasks0_reach by (simp add: tasks0_def)

section \<open>How often a failing task is executed\<close>

definition fails :: "bg_task \<Rightarrow> bool" where
  "fails td \<longleftrightarrow> (\<forall>j d. \<exists>e d'. bt_task td j d = (Inl e, d') \<and> (\<forall>x. e \<noteq> IE_UnrecoverableTaskError x))"

definition failing_row :: "registry \<Rightarrow> task_row \<Rightarrow> bool" where
  "failing_row reg r \<longleftrightarrow>
    (\<exists>td. reg (tr_task_type r) = Some td \<and> fails td \<and> tr_max_attempts r = bt_max_attempts td) \<and>
    tr_status r \<noteq> TS_Success \<and> tr_locked_until r = None \<and> 0 \<le> tr_attempts r \<and> tr_attempts r \<le> tr_max_attempts r + 1"

definition bumped :: "task_row \<Rightarrow> task_row \<Rightarrow> bool" where
  "bumped p q \<longleftrightarrow> tr_id q = tr_id p \<and> tr_task_type q = tr_task_type p \<and> tr_max_attempts q = tr_max_attempts p \<and>
    tr_attempts q = tr_attempts p + 1 \<and> tr_locked_until q = None \<and> tr_status q = TS_Failed"

lemma failing_row_pending: "failing_row reg r \<Longrightarrow> is_pending now r \<longleftrightarrow> tr_attempts r \<le> tr_max_attempts r"
  by (auto simp: failing_row_def is_pending_def is_null_def)

lemma row_unique: "table_ok tr_id rows \<Longrightarrow> q \<in> set rows \<Longrightarrow> r \<in> set rows \<Longrightarrow> tr_id q = tr_id r \<Longrightarrow> q = r"
  by (auto simp: table_ok_def distinct_map dest: inj_onD)

lemma lookup_self: "table_ok tr_id rows \<Longrightarrow> p \<in> set rows \<Longrightarrow> lookup tr_id (tr_id p) rows = Some p"
  by (simp add: lookup_iff_mem)

lemma lookup_map_at:
  "p \<in> set rows \<Longrightarrow> tr_id l = tr_id p \<Longrightarrow> lookup tr_id (tr_id p) (map (\<lambda>q. if tr_id q = tr_id p then l else q) rows) = Some l"
  by (induction rows) auto

lemma run_task_fail:
  assumes "limits_ok reg" "table_ok tr_id rows" "p \<in> set rows" "failing_row reg p" "tr_attempts p \<le> tr_max_attempts p"
  shows "\<exists>d' p'. run_task reg now t1 inst p (d, rows) = (d', map (\<lambda>q. if tr_id q = tr_id p then p' else q) rows) \<and> bumped p p'"
proof -
  obtain td where td: "reg (tr_task_type p) = Some td" "fails td" "tr_max_attempts p = bt_max_attempts td"
    using assms(4) by (auto simp: failing_row_def)
  let ?lock = "lock_task now (seconds (bt_lock_duration td)) inst (active_of p)"
  define l where "l = apply_active ?lock p"
  have only: "q = p" if "q \<in> set rows" "tr_id q = tr_id p" for q
    using row_unique [OF assms(2) that(1) assms(3) that(2)] .
  define rows1 where "rows1 = map (\<lambda>q. if tr_id q = tr_id p then l else q) rows"
  have same: "map (\<lambda>q. if tr_id q = tr_id p then apply_active ?lock q else q) rows = rows1"
    unfolding rows1_def l_def by (rule map_cong) (auto dest: only)
  have "begin_task reg now inst p rows = Some (td, active_of l, rows1)"
    by (simp add: begin_task_def td(1) save_task_def lookup_self [OF assms(2,3)] same flip: l_def)
  moreover obtain e d' where run: "bt_task td (tr_data l) d = (Inl e, d')" and e: "\<And>x. e \<noteq> IE_UnrecoverableTaskError x"
    using td(2) unfolding fails_def by blast
  moreover obtain m' where exec: "execute_task td now t1 (active_of l) d = (Inr m', d')"
    by (simp add: execute_task_def active_of_def run)
  moreover have l: "tr_id l = tr_id p" "tr_attempts l = tr_attempts p" "tr_task_type l = tr_task_type p" "tr_max_attempts l = tr_max_attempts p"
    by (simp_all add: l_def apply_lock)
  moreover obtain dur where m': "into_value (tm_id m') = Some (tr_id p)"
    "\<And>q. apply_active m' q = result_row td (Inl e) (wrap_i16 (tr_attempts p + 1)) dur q"
    using execute_task_active_of [OF exec] run l by auto
  define p' where "p' = apply_active m' l"
  have "lookup tr_id (tr_id p) rows1 = Some l"
    unfolding rows1_def using assms(3) l(1) by (rule lookup_map_at)
  then have "save_task m' rows1 = Some (active_of p', map (\<lambda>q. if tr_id q = tr_id p then p' else q) rows)"
    using l(1) by (simp add: save_task_def m'(1) p'_def rows1_def)
  moreover have "wrap_i16 (tr_attempts p + 1) = tr_attempts p + 1"
    using assms(1,4,5) td by (intro wrap_i16_id) (fastforce simp: limits_ok_def failing_row_def)+
  then have "bumped p p'"
    using e l by (auto simp: bumped_def p'_def m'(2) result_row_def split: ingester_error.split)
  ultimately show ?thesis by (auto simp: run_task_def)
qed

lemma bumped_failing: "bumped p q \<Longrightarrow> failing_row reg p \<Longrightarrow> tr_attempts p \<le> tr_max_attempts p \<Longrightarrow> failing_row reg q"
  by (auto simp: bumped_def failing_row_def)

text \<open>The tasks of a batch are bumped one after the other, the other rows stay.\<close>

lemma run_tasks_fail:
  assumes "limits_ok reg" "table_ok tr_id rows" "distinct (map tr_id ps)" "set ps \<subseteq> set rows"
    and "\<forall>r\<in>set ps. failing_row reg r \<and> tr_attempts r \<le> tr_max_attempts r"
  shows "list_all2 (\<lambda>p q. if p \<in> set ps then bumped p q else q = p) rows (snd (fold (run_task reg now t1 inst) ps (d, rows)))"
  using assms(2-5)
proof (induction ps arbitrary: d rows)
  case Nil
  then show ?case by (simp add: list_all2_same)
next
  case (Cons p ps)
  have p: "p \<in> set rows" "failing_row reg p" "tr_attempts p \<le> tr_max_attempts p" using Cons.prems(3,4) by auto
  obtain d' p' where run: "run_task reg now t1 inst p (d, rows) = (d', map (\<lambda>q. if tr_id q = tr_id p then p' else q) rows)" "bumped p p'"
    using run_task_fail [OF assms(1) Cons.prems(1) p, of now t1 inst d] by blast
  define rows1 where "rows1 = map (\<lambda>q. if tr_id q = tr_id p then p' else q) rows"
  have id: "tr_id p' = tr_id p" using run(2) by (simp add: bumped_def)
  have only: "q = p" if "q \<in> set rows" "tr_id q = tr_id p" for q
    using row_unique [OF Cons.prems(1) that(1) p(1) that(2)] .
  have ids: "map tr_id rows1 = map tr_id rows" by (simp add: rows1_def id)
  have notin: "tr_id p \<notin> tr_id ` set ps" using Cons.prems(2) by simp
  have sub: "set ps \<subseteq> set rows1"
  proof
    fix q assume q: "q \<in> set ps"
    have "tr_id q \<in> tr_id ` set ps" using q by (rule imageI)
    then have "tr_id q \<noteq> tr_id p" using notin by metis
    moreover have "q \<in> set rows" using q Cons.prems(3) by auto
    ultimately show "q \<in> set rows1" by (force simp: rows1_def)
  qed
  have IH: "list_all2 (\<lambda>p q. if p \<in> set ps then bumped p q else q = p) rows1 (snd (fold (run_task reg now t1 inst) ps (d', rows1)))"
    using Cons.IH [of rows1 d'] Cons.prems sub ids by (simp add: table_ok_def)
  have one: "list_all2 (\<lambda>q r. r = (if tr_id q = tr_id p then p' else q) \<and> q \<in> set rows) rows rows1"
    by (simp add: rows1_def list_all2_map2 list_all2_same)
  have "list_all2 (\<lambda>q r. if q \<in> set (p # ps) then bumped q r else r = q) rows (snd (fold (run_task reg now t1 inst) ps (d', rows1)))"
  proof (rule list_all2_trans [OF _ one IH])
    fix q r s
    assume a: "r = (if tr_id q = tr_id p then p' else q) \<and> q \<in> set rows" and b: "if r \<in> set ps then bumped r s else s = r"
    have "p' \<notin> set ps" using notin id by (metis imageI)
    then show "if q \<in> set (p # ps) then bumped q s else s = q"
      using a b only run(2) notin by (cases "tr_id q = tr_id p") (auto split: if_splits)
  qed
  then show ?case by (simp add: run(1) rows1_def)
qed

lemma get_pending_all:
  assumes "length rows \<le> n"
  shows "set (get_pending_tasks now n rows) = {r \<in> set rows. is_pending now r}"
    and "table_ok tr_id rows \<Longrightarrow> distinct (map tr_id (get_pending_tasks now n rows))"
proof -
  have "length (filter (is_pending now) rows) \<le> n" using assms length_filter_le [of "is_pending now" rows] by linarith
  then have *: "get_pending_tasks now n rows = sort_key (\<lambda>r. (tr_attempts r, - tr_created_at r)) (filter (is_pending now) rows)"
    by (simp add: get_pending_tasks_def)
  show "set (get_pending_tasks now n rows) = {r \<in> set rows. is_pending now r}" by (auto simp: *)
  show "distinct (map tr_id (get_pending_tasks now n rows))" if "table_ok tr_id rows"
    using that by (simp add: * table_ok_def distinct_map)  (auto intro: inj_on_subset)
qed

lemma round_fails:
  assumes "limits_ok reg" "table_ok tr_id rows" "length rows \<le> n" "\<forall>r\<in>set rows. failing_row reg r"
  shows "list_all2 (\<lambda>p q. if tr_attempts p \<le> tr_max_attempts p then bumped p q else q = p) rows
    (snd (runner_round reg n inst now (d, rows)))"
proof -
  let ?ps = "get_pending_tasks now n rows"
  have ps: "set ?ps = {r \<in> set rows. tr_attempts r \<le> tr_max_attempts r}"
    using get_pending_all(1) [OF assms(3)] assms(4) failing_row_pending by blast
  have "list_all2 (\<lambda>p q. if p \<in> set ?ps then bumped p q else q = p) rows (snd (fold (run_task reg now now inst) ?ps (d, rows)))"
    using assms(4) ps by (intro run_tasks_fail assms(1,2) get_pending_all(2) [OF assms(3)]) auto
  then show ?thesis
    unfolding runner_round_def snd_conv by (rule list.rel_mono_strong) (simp add: ps)
qed

lemma rounds_fail:
  assumes "limits_ok reg" "table_ok tr_id rows" "length rows \<le> n" "\<forall>r\<in>set rows. failing_row reg r"
  shows "list_all2 (\<lambda>p q. tr_id q = tr_id p \<and> failing_row reg q \<and> tr_max_attempts q = tr_max_attempts p \<and>
      tr_attempts q = min (tr_attempts p + int (length nows)) (tr_max_attempts p + 1))
    rows (snd (fold (runner_round reg n inst) nows (d, rows)))"
  using assms(2-4)
proof (induction nows arbitrary: d rows)
  case Nil
  then show ?case by (auto simp: list_all2_same failing_row_def)
next
  case (Cons now nows)
  obtain d1 rows1 where run: "runner_round reg n inst now (d, rows) = (d1, rows1)" by fastforce
  have one: "list_all2 (\<lambda>p q. if tr_attempts p \<le> tr_max_attempts p then bumped p q else q = p) rows rows1"
    using round_fails [OF assms(1) Cons.prems, of inst now d] run by simp
  have "list_all2 (\<lambda>p q. tr_id q = tr_id p) rows rows1"
    by (rule list.rel_mono_strong [OF one]) (auto simp: bumped_def split: if_splits)
  then have ids: "map tr_id rows1 = map tr_id rows" "length rows1 = length rows"
    by (auto simp: list_all2_conv_all_nth intro: nth_equalityI)
  have ok: "\<forall>r\<in>set rows1. failing_row reg r"
  proof
    fix q assume "q \<in> set rows1"
    then obtain i where i: "i < length rows1" "q = rows1 ! i" by (auto simp: in_set_conv_nth)
    then show "failing_row reg q"
      using list_all2_nthD2 [OF one i(1)] Cons.prems(3) bumped_failing ids(2)
      by (metis nth_mem)
  qed
  have "list_all2 (\<lambda>p q. tr_id q = tr_id p \<and> failing_row reg q \<and> tr_max_attempts q = tr_max_attempts p \<and>
      tr_attempts q = min (tr_attempts p + int (length nows)) (tr_max_attempts p + 1))
    rows1 (snd (fold (runner_round reg n inst) nows (d1, rows1)))"
    using Cons.IH [of rows1 d1] Cons.prems ids ok by (simp add: table_ok_def)
  then have "list_all2 (\<lambda>p q. tr_id q = tr_id p \<and> failing_row reg q \<and> tr_max_attempts q = tr_max_attempts p \<and>
      tr_attempts q = min (tr_attempts p + int (length (now # nows))) (tr_max_attempts p + 1))
    rows (snd (fold (runner_round reg n inst) nows (d1, rows1)))"
  proof (rule list_all2_trans [rotated, OF one])
    fix p q r
    assume "if tr_attempts p \<le> tr_max_attempts p then bumped p q else q = p"
      "tr_id r = tr_id q \<and> failing_row reg r \<and> tr_max_attempts r = tr_max_attempts q \<and>
        tr_attempts r = min (tr_attempts q + int (length nows)) (tr_max_attempts q + 1)"
    then show "tr_id r = tr_id p \<and> failing_row reg r \<and> tr_max_attempts r = tr_max_attempts p \<and>
        tr_attempts r = min (tr_attempts p + int (length (now # nows))) (tr_max_attempts p + 1)"
      by (auto simp: bumped_def split: if_splits)
  qed
  then show ?case by (simp add: run)
qed

text \<open>
  C14: A task that keeps failing is executed once more than \<open>max_attempts\<close>. With a runner that is alone
  and takes whole batches, a new task that fails every time, though not permanently, has after n
  rounds been executed n times, up to \<open>max_attempts + 1\<close>; it is fetched again exactly as long as n is
  at most \<open>max_attempts\<close>.
\<close>

theorem failing_task_attempts:
  assumes "limits_ok reg" "table_ok tr_id rows" "length rows \<le> n"
    and "\<forall>r\<in>set rows. failing_row reg r \<and> tr_status r = TS_Pending \<and> tr_attempts r = 0"
    and "snd (fold (runner_round reg n inst) nows (d, rows)) = rows'" "i < length rows"
  shows "tr_id (rows' ! i) = tr_id (rows ! i) \<and>
    tr_attempts (rows' ! i) = min (int (length nows)) (tr_max_attempts (rows ! i) + 1) \<and>
    (rows' ! i \<in> set (get_pending_tasks now n rows') \<longleftrightarrow> int (length nows) \<le> tr_max_attempts (rows ! i))"
proof -
  have all: "list_all2 (\<lambda>p q. tr_id q = tr_id p \<and> failing_row reg q \<and> tr_max_attempts q = tr_max_attempts p \<and>
      tr_attempts q = min (tr_attempts p + int (length nows)) (tr_max_attempts p + 1)) rows rows'"
    using rounds_fail [OF assms(1-3), of nows inst d] assms(4,5) by simp
  have len: "length rows' = length rows" using all by (simp add: list_all2_lengthD)
  have q: "tr_id (rows' ! i) = tr_id (rows ! i)" "failing_row reg (rows' ! i)" "tr_max_attempts (rows' ! i) = tr_max_attempts (rows ! i)"
      "tr_attempts (rows' ! i) = min (int (length nows)) (tr_max_attempts (rows ! i) + 1)"
    using list_all2_nthD [OF all assms(6)] assms(4,6) by simp_all
  have "rows' ! i \<in> set (get_pending_tasks now n rows') \<longleftrightarrow> is_pending now (rows' ! i)"
    using get_pending_all(1) [of rows' n now] assms(3,6) len by simp
  then show ?thesis using q failing_row_pending [OF q(2), of now] by auto
qed

lemma download0_fails: "fails (download_bg_task download_env0 None None\<lparr>bt_task := \<lambda>_ d. (Inl (IE_HttpError ''503''), d)\<rparr>)"
  by (simp add: fails_def)

theorem failing_task_attempts_witness:
  "\<exists>reg rows'. tr_attempts (rows' ! 0) = 4 \<and> rows' ! 0 \<notin> set (get_pending_tasks 9 1 rows') \<and>
     snd (fold (runner_round reg 1 ''a'') [1, 2, 3, 4, 5, 6] (empty_db, [row0])) = rows'"
proof -
  let ?td = "download_bg_task download_env0 None None\<lparr>bt_task := \<lambda>_ d. (Inl (IE_HttpError ''503''), d)\<rparr>"
  let ?reg = "registered_task_types [?td]"
  have reg: "?reg TASK_NAME = Some ?td" by (simp add: registered_task_types_def download_bg_task_def)
  have lim: "limits_ok ?reg" by (simp add: limits_ok_def registered_task_types_def download_bg_task_def)
  have "failing_row ?reg row0"
    using reg download0_fails by (simp add: failing_row_def row0_def) (simp add: download_bg_task_def)
  then have "\<forall>r\<in>set [row0]. failing_row ?reg r \<and> tr_status r = TS_Pending \<and> tr_attempts r = 0" by (simp add: row0_def)
  from failing_task_attempts [OF lim _ _ this refl, of 1 0 "''a''" "[1, 2, 3, 4, 5, 6]" empty_db 9]
  show ?thesis by (intro exI [of _ ?reg] exI [of _ "snd (fold (runner_round ?reg 1 ''a'') [1, 2, 3, 4, 5, 6] (empty_db, [row0]))"])
     (simp add: table_ok_def row0_def)
qed

section \<open>Rows nobody fetches\<close>

text \<open>Runs along which a row is in the table.\<close>

inductive kept :: "registry \<Rightarrow> (task_data \<Rightarrow> string option) \<Rightarrow> string \<Rightarrow> tasks_state \<Rightarrow> tasks_state \<Rightarrow> bool"
  for reg hash h s where
  here: "kept reg hash h s s"
| next_step: "kept reg hash h s t \<Longrightarrow> task_step reg hash t u \<Longrightarrow> h \<in> tr_id ` set (ts_rows u) \<Longrightarrow> kept reg hash h s u"

text \<open>The row, alone under its identifier and in the hands of no worker.\<close>

definition parked :: "string \<Rightarrow> task_row \<Rightarrow> tasks_state \<Rightarrow> bool" where
  "parked h r s \<longleftrightarrow>
    table_ok tr_id (ts_rows s) \<and> lookup tr_id h (ts_rows s) = Some r \<and> (\<forall>q\<in>set (ts_fetched s). tr_id q \<noteq> h) \<and>
    (\<forall>(td, m, t0)\<in>set (ts_running s). into_value (tm_id m) \<noteq> Some h)"

lemma lookup_map_other:
  "i \<noteq> h \<Longrightarrow> (\<And>q. tr_id (f q) = tr_id q) \<Longrightarrow> lookup tr_id h (map (\<lambda>q. if tr_id q = i then f q else q) rows) = lookup tr_id h rows"
  by (induction rows) auto

lemma save_other:
  assumes "save_task m rows = Some (m', rows')" "into_value (tm_id m) \<noteq> Some h"
  shows "lookup tr_id h rows' = lookup tr_id h rows" "table_ok tr_id rows \<Longrightarrow> table_ok tr_id rows'"
    "into_value (tm_id m') = into_value (tm_id m)"
proof -
  obtain i where i: "into_value (tm_id m) = Some i" using assms(1) by (cases "into_value (tm_id m)") (auto simp: save_task_def)
  then obtain q where q: "tr_id q = i" "m' = active_of (apply_active m q)"
    "rows' = map (\<lambda>q. if tr_id q = i then apply_active m q else q) rows"
    using save_task_Some [OF assms(1)] by blast
  then show "lookup tr_id h rows' = lookup tr_id h rows" using assms(2) i by (simp add: lookup_map_other)
  show "into_value (tm_id m') = into_value (tm_id m)" using q i by simp
  show "table_ok tr_id rows'" if "table_ok tr_id rows" using save_task_rows(1) [OF assms(1) i that] .
qed

lemma execute_task_id: "execute_task td t0 t1 m d = (Inr m', d') \<Longrightarrow> tm_id m' = tm_id m"
  by (auto simp: execute_task_def task_result_def Let_def split: option.splits prod.splits sum.splits ingester_error.splits)

lemma lookup_append_other: "lookup tr_id h rows = Some r \<Longrightarrow> lookup tr_id h (rows @ [q]) = Some r"
  by (induction rows) (auto split: if_splits)

lemma lookup_filter:
  assumes "lookup tr_id h rows = Some r" "h \<in> tr_id ` set (filter P rows)" "table_ok tr_id rows"
  shows "lookup tr_id h (filter P rows) = Some r"
proof -
  obtain x where x: "x \<in> set rows" "P x" "tr_id x = h" using assms(2) by auto
  moreover have r: "r \<in> set rows" "tr_id r = h" using assms(1) by (auto dest: lookup_mem lookup_key)
  ultimately have "x = r" using row_unique [OF assms(3)] by metis
  then have "r \<in> set (filter P rows)" using x by simp
  moreover have "table_ok tr_id (filter P rows)" using assms(3) by (simp add: table_ok_def distinct_map_filter)
  ultimately show ?thesis using r(2) by (simp add: lookup_iff_mem)
qed

lemma parked_step:
  assumes "task_step reg hash s t" "parked h r s" "\<not> is_pending (ts_now s) r" "h \<in> tr_id ` set (ts_rows t)"
  shows "parked h r t"
  using assms(1)
proof cases
  case (insert_row t' inst pn q rows)
  then show ?thesis using assms(2) lookup_append_other
    by (auto simp: parked_def insert_task_def table_ok_def split: if_splits)
next
  case (poll n)
  have "tr_id q \<noteq> h" if "q \<in> set (get_pending_tasks (ts_now s) n (ts_rows s))" for q
  proof
    assume "tr_id q = h"
    moreover have "q \<in> set (ts_rows s)" "is_pending (ts_now s) q" using that by (auto simp: get_pending_tasks_def dest: in_set_takeD)
    moreover have "table_ok tr_id (ts_rows s)" "r \<in> set (ts_rows s)" "tr_id r = h"
      using assms(2) by (auto simp: parked_def dest: lookup_mem lookup_key)
    ultimately have "q = r" using row_unique by metis
    then show False using \<open>is_pending (ts_now s) q\<close> assms(3) by simp
  qed
  then show ?thesis using poll assms(2) by (auto simp: parked_def)
next
  case (begin_run q inst td m rows)
  then have "tr_id q \<noteq> h" using assms(2) by (auto simp: parked_def)
  moreover have "save_task (lock_task (ts_now s) (seconds (bt_lock_duration td)) inst (active_of q)) (ts_rows s) = Some (m, rows)"
    using begin_run by (auto simp: begin_task_def split: option.splits)
  ultimately have "lookup tr_id h rows = lookup tr_id h (ts_rows s)" "table_ok tr_id (ts_rows s) \<Longrightarrow> table_ok tr_id rows"
    "into_value (tm_id m) = Some (tr_id q)"
    using save_other [of _ "ts_rows s" m rows h] by auto
  then show ?thesis using begin_run assms(2) \<open>tr_id q \<noteq> h\<close> by (auto simp: parked_def dest: notin_set_remove1)
next
  case (finish_run td m t0 m' d m'' rows)
  then have "into_value (tm_id m') \<noteq> Some h" using assms(2) execute_task_id by (force simp: parked_def)
  from save_other [OF finish_run(4) this] show ?thesis
    using finish_run(1) assms(2) set_remove1_subset [of "(td, m, t0)" "ts_running s"] by (auto simp: parked_def)
next
  case (finish_unsaved td m t0 res d)
  then show ?thesis using assms(2) set_remove1_subset [of "(td, m, t0)" "ts_running s"] by (auto simp: parked_def)
next
  case (purge age)
  then show ?thesis using assms(2,4) lookup_filter [of h "ts_rows s" r]
    by (auto simp: parked_def purge_old_tasks_def table_ok_def distinct_map_filter)
qed (use assms(2) in \<open>auto simp: parked_def dest: notin_set_remove1\<close>)

lemma step_time: "task_step reg hash s t \<Longrightarrow> ts_now s \<le> ts_now t"
  by (cases rule: task_step.cases) auto

lemma kept_parked:
  assumes "kept reg hash h s t" "parked h r s" "\<And>now. now \<le> ts_now t \<Longrightarrow> \<not> is_pending now r"
  shows "parked h r t"
  using assms(1,3)
proof (induction rule: kept.induct)
  case (next_step t u)
  then have "ts_now t \<le> ts_now u" using step_time by blast
  with next_step have "parked h r t" by fastforce
  with next_step \<open>ts_now t \<le> ts_now u\<close> show ?case by (blast intro: parked_step)
qed (use assms(2) in simp)

text \<open>
  C13: A settled task is not repeated while its row is in the table. Once the row is successful, or out
  of attempts, and no worker holds it, every step of listeners, runners and other instances leaves it
  as it is, also when the same task is received again: the same address of an asset is not downloaded
  anew until the purge, even if another address was stored in between.
\<close>

theorem finished_task_not_repeated:
  assumes "kept reg hash h s t" "parked h r s" "tr_status r = TS_Success \<or> tr_max_attempts r < tr_attempts r"
  shows "lookup tr_id h (ts_rows t) = Some r \<and> (\<forall>q\<in>set (ts_fetched t). tr_id q \<noteq> h) \<and>
    (\<forall>(td, m, t0)\<in>set (ts_running t). into_value (tm_id m) \<noteq> Some h)"
proof -
  have "\<not> is_pending now r" for now using assms(3) by (auto simp: is_pending_def)
  then have "parked h r t" using kept_parked [OF assms(1,2)] by blast
  then show ?thesis by (simp add: parked_def)
qed

definition done0 :: task_row where
  "done0 = row0\<lparr>tr_status := TS_Success, tr_attempts := 1\<rparr>"

theorem finished_task_not_repeated_witness:
  "kept registry0 hash0 TASK_NAME (tasks0\<lparr>ts_rows := [done0]\<rparr>) (tasks0\<lparr>ts_rows := [done0], ts_spawned := [task0]\<rparr>) \<and>
   parked TASK_NAME done0 (tasks0\<lparr>ts_rows := [done0]\<rparr>) \<and>
   lookup tr_id TASK_NAME (ts_rows (tasks0\<lparr>ts_rows := [done0], ts_spawned := [task0]\<rparr>)) = Some done0"
proof -
  let ?s = "tasks0\<lparr>ts_rows := [done0]\<rparr>" and ?t = "tasks0\<lparr>ts_rows := [done0], ts_spawned := [task0]\<rparr>"
  have "task_step registry0 hash0 ?s (?s\<lparr>ts_spawned := task0 # ts_spawned ?s\<rparr>)"
    by (rule task_step.receive_unchecked) (simp add: hash0_def)
  moreover have "?s\<lparr>ts_spawned := task0 # ts_spawned ?s\<rparr> = ?t" by (simp add: tasks0_def tasks_init_def)
  moreover have "TASK_NAME \<in> tr_id ` set (ts_rows ?t)" by (simp add: done0_def row0_def)
  ultimately have k: "kept registry0 hash0 TASK_NAME ?s ?t" by (metis kept.here kept.next_step)
  have p: "parked TASK_NAME done0 ?s"
    by (simp add: parked_def table_ok_def tasks0_def tasks_init_def done0_def row0_def)
  have "tr_status done0 = TS_Success \<or> tr_max_attempts done0 < tr_attempts done0" by (simp add: done0_def)
  from finished_task_not_repeated [OF k p this] k p show ?thesis by blast
qed

text \<open>
  A task that is to be processed on receipt waits for its own lock. The listener inserts it as
  running, locked by the instance, and starts nothing: until the lock expires no step of any instance
  executes it or changes its row.
\<close>

theorem received_task_waits:
  assumes "new_task_handler reg hash (ts_now s) inst True t = Some r" "reg (td_name t) = Some td"
    and "insert_task r (ts_rows s) = Some rows" "table_ok tr_id (ts_rows s)"
    and "\<forall>q\<in>set (ts_fetched s). tr_id q \<noteq> tr_id r" "\<forall>(td', m, t0)\<in>set (ts_running s). into_value (tm_id m) \<noteq> Some (tr_id r)"
    and "kept reg hash (tr_id r) (s\<lparr>ts_rows := rows\<rparr>) u" "ts_now u < ts_now s + seconds (bt_lock_duration td)"
  shows "lookup tr_id (tr_id r) (ts_rows u) = Some r \<and> tr_status r = TS_Running \<and> tr_attempts r = 0 \<and>
    (\<forall>(td', m, t0)\<in>set (ts_running u). into_value (tm_id m) \<noteq> Some (tr_id r))"
proof -
  have r: "tr_status r = TS_Running" "tr_attempts r = 0" "tr_locked_until r = Some (ts_now s + seconds (bt_lock_duration td))"
    using assms(1,2) by (auto simp: new_task_handler_def new_task_row_def apply_lock split: option.splits)
  have rows: "rows = ts_rows s @ [r]" "tr_id r \<notin> tr_id ` set (ts_rows s)"
    using assms(3) by (simp_all add: insert_task_def split: if_splits)
  then have ok: "table_ok tr_id rows" using assms(4) by (simp add: table_ok_def)
  then have "lookup tr_id (tr_id r) rows = Some r" using rows(1) by (simp add: lookup_iff_mem)
  then have "parked (tr_id r) r (s\<lparr>ts_rows := rows\<rparr>)" using ok assms(5,6) by (simp add: parked_def)
  moreover have "\<not> is_pending now r" if "now \<le> ts_now u" for now
    using that r(3) assms(8) by (auto simp: is_pending_def sql_cmp_def is_null_def)
  ultimately have "parked (tr_id r) r u" using kept_parked [OF assms(7)] by blast
  then show ?thesis using r by (simp add: parked_def)
qed

definition locked0 :: task_row where
  "locked0 = row0\<lparr>tr_status := TS_Running, tr_locked_until := Some 5000000, tr_locked_by := Some ''a''\<rparr>"

lemma new_locked0: "new_task_handler registry0 hash0 0 ''a'' True task0 = Some locked0"
proof -
  have "td_name task0 = TASK_NAME" by (simp add: task0_def into_task_data_def)
  then show ?thesis
    by (simp add: new_task_handler_def new_task_row_def hash0_def apply_lock locked0_def row0_def)
      (simp add: download_bg_task_def seconds_def)
qed

theorem received_task_waits_witness:
  "lookup tr_id TASK_NAME (ts_rows (tasks0\<lparr>ts_rows := [locked0], ts_now := 4999999\<rparr>)) = Some locked0 \<and> tr_attempts locked0 = 0"
proof -
  let ?s = "tasks0\<lparr>ts_rows := []\<rparr>" and ?t = "tasks0\<lparr>ts_rows := [locked0]\<rparr>"
  have "task_step registry0 hash0 ?t (?t\<lparr>ts_now := 4999999\<rparr>)" by (rule task_step.tick) (simp add: tasks0_def tasks_init_def)
  then have k: "kept registry0 hash0 (tr_id locked0) (?s\<lparr>ts_rows := [locked0]\<rparr>) (tasks0\<lparr>ts_rows := [locked0], ts_now := 4999999\<rparr>)"
    by (intro kept.next_step [OF kept.here]) (simp_all add: locked0_def row0_def)
  have "tr_id locked0 = TASK_NAME" "td_name task0 = TASK_NAME" by (simp_all add: locked0_def row0_def task0_def into_task_data_def)
  with received_task_waits [of registry0 hash0 ?s "''a''" task0 locked0 "download_bg_task download_env0 None None" "[locked0]",
      OF _ _ _ _ _ _ k] new_locked0
  show ?thesis by (simp add: tasks0_def tasks_init_def insert_task_def table_ok_def download_bg_task_def seconds_def)
qed

section \<open>Downloads\<close>

text \<open>What a download of \<open>m\<close> may do to a row of \<open>asset_data\<close>.\<close>

definition stored_by :: "download_env \<Rightarrow> download_metadata \<Rightarrow> asset_data \<Rightarrow> asset_data \<Rightarrow> bool" where
  "stored_by E m a b \<longleftrightarrow>
    ad_id a = dl_asset_data_id m \<and> ad_metadata_url a = dl_uri m \<and>
    b = a\<lparr>ad_metadata := ad_metadata b, ad_reindex := Some False\<rparr> \<and>
    (if de_url_parse E (dl_uri m) then request_metadata E (dl_uri m) = Inr (ad_metadata b) else ad_metadata b = JStr ''Invalid Uri'')"

text \<open>
  C9: A download never overwrites the metadata of another address. Whatever other writers do between
  the statements of a download: the tables it leaves are those the others left, up to rows of the
  asset whose address is, at the moment of the update, the downloaded one; and these hold what the
  server answered, or a remark if the address is no URL.
\<close>

theorem stale_download_not_stored:
  assumes "download_of_json (de_parse_time E) data = Some m" "download_task E data d = (res, d')"
  shows "\<exists>d1\<in>{d, de_writes E 0 d, de_writes E 1 (de_writes E 0 d)}.
    d' = d1\<lparr>asset_data_t := asset_data_t d'\<rparr> \<and> list_all2 (\<lambda>a b. b = a \<or> stored_by E m a b) (asset_data_t d1) (asset_data_t d')"
proof -
  have same: "?thesis" if "d' \<in> {d, de_writes E 0 d, de_writes E 1 (de_writes E 0 d)}"
    using that by (intro bexI [of _ d']) (simp_all add: list_all2_same)
  show ?thesis
  proof (cases "d' \<in> {d, de_writes E 0 d, de_writes E 1 (de_writes E 0 d)}")
    case False
    then obtain body where body: "(if de_url_parse E (dl_uri m) then request_metadata E (dl_uri m) else Inr (JStr ''Invalid Uri'')) = Inr body"
      and d': "d' = store_metadata (dl_asset_data_id m) (dl_uri m) body (de_writes E 1 (de_writes E 0 d))"
      using assms
      by (auto simp: download_task_def store_if_current_def update_metadata_row_def Let_def split: sum.splits option.splits if_splits)
    have "list_all2 (\<lambda>a b. b = a \<or> stored_by E m a b) (asset_data_t (de_writes E 1 (de_writes E 0 d))) (asset_data_t d')"
      using body by (auto simp: d' store_metadata_def list_all2_map2 list_all2_same stored_by_def split: if_splits)
    then show ?thesis by (intro bexI [of _ "de_writes E 1 (de_writes E 0 d)"]) (simp_all add: d' store_metadata_def)
  qed (rule same)
qed

lemma json_byte_uint: "json_byte (JNum (uint b)) = Some b"
  using uint_lt2p [of b] by simp

lemma json_bytes_back: "json_bytes (JArr (map (\<lambda>b. JNum (uint b)) bs)) = Some bs"
  by (induction bs) (simp_all add: json_byte_uint del: json_byte.simps)

text \<open>The data of a queued download is read back, its creation time apart.\<close>

lemma download_roundtrip: "download_of_json pt (td_data (into_task_data m)) = Some (m\<lparr>dl_created_at := None\<rparr>)"
  by (simp add: into_task_data_def json_bytes_back del: json_bytes.simps)

definition download_row0 :: asset_data where
  "download_row0 = \<lparr>ad_id = [7], ad_chain_data_mutability = CM_Mutable, ad_chain_data = JNull, ad_metadata_url = ''v'',
     ad_metadata_mutability = M_Mutable, ad_metadata = JNull, ad_slot_updated = 1, ad_reindex = Some True, ad_raw_name = None,
     ad_raw_symbol = None, ad_base_info_seq = None\<rparr>"

definition download_env1 :: download_env where
  "download_env1 = download_env0\<lparr>de_request := \<lambda>_. Inr (200, Inr (JBool True)),
     de_writes := \<lambda>n d. if n = 0 then d else d\<lparr>asset_data_t := [download_row0]\<rparr>\<rparr>"

theorem stale_download_not_stored_witness:
  "\<exists>m res d'. download_of_json (de_parse_time download_env1) (td_data task0) = Some m \<and>
     download_task download_env1 (td_data task0) (empty_db\<lparr>asset_data_t := [download_row0\<lparr>ad_metadata_url := ''u''\<rparr>]\<rparr>) = (res, d') \<and>
     asset_data_t d' = [download_row0]"
proof -
  let ?d = "empty_db\<lparr>asset_data_t := [download_row0\<lparr>ad_metadata_url := ''u''\<rparr>]\<rparr>"
  let ?m = "\<lparr>dl_asset_data_id = [7], dl_uri = ''u'', dl_created_at = None\<rparr>"
  have m: "download_of_json (de_parse_time download_env1) (td_data task0) = Some ?m"
    by (simp add: task0_def download_roundtrip)
  obtain res d' where run: "download_task download_env1 (td_data task0) ?d = (res, d')" by fastforce
  have d': "d' = empty_db\<lparr>asset_data_t := [download_row0]\<rparr>"
    using run unfolding download_task_def m
    by (simp add: download_env1_def download_env0_def request_metadata_def store_if_current_def update_metadata_row_def Let_def)
      (simp add: download_row0_def update_metadata_row_def split: if_splits)
  from stale_download_not_stored [OF m run] m run d' show ?thesis by simp
qed

end
