(* ===== verification/Download_Paths.thy ===== *)
theory Download_Paths
  imports Bubblegum_Views Task_Properties
begin

text \<open>
  From a Bubblegum mint, through the notifier and the listener's channel, to the download task of
  \<open>nft_ingester\<close>: what becomes of an address that is not trimmed.
\<close>



lemma remove_nul_id: "nul \<notin> set s \<Longrightarrow> remove_nul s = s"
  by (auto simp: remove_nul_def filter_id_conv)

lemma str_trim_subset: "set (str_trim s) \<subseteq> set s"
  by (auto simp: str_trim_def dest!: set_dropWhileD)

lemma trimmed_no_nul: "remove_nul (str_trim (remove_nul s)) = str_trim (remove_nul s)"
  using str_trim_subset [of "remove_nul s"] by (intro remove_nul_id) (auto simp: remove_nul_def)

text \<open>What a mint asks to download: the trimmed address, while the row it writes has the address untrimmed.\<close>

lemma mint_info:
  assumes "mint E pr bundle ix w = (Inr (Some info), w')" "bi_payload pr = Some (P_Mint metadata authority tree_id)"
  shows "dm_uri info = str_trim (remove_nul (ma_uri metadata))"
proof -
  obtain le cl where p: "bi_leaf_update pr = Some le" "bi_tree_update pr = Some cl"
    using assms by (auto simp: mint_def raise_m_def split: option.splits)
  show ?thesis
    using assms
    by (auto simp: mint_def p bind_m_def return_m_def raise_m_def Let_def download_info_def download_metadata_info_new_def trimmed_no_nul
        split: prod.splits sum.splits if_splits)
qed

text \<open>
  The metadata of an address with surrounding white space is never stored. A Bubblegum mint stores
  the address as it is but asks for the trimmed one; the download task compares the two, takes the
  asset to have moved on, and reports success without a write, although the server answered.
\<close>

theorem padded_uri_never_stored:
  assumes "mint E pr bundle ix w = (Inr (Some info), w')" "bi_payload pr = Some (P_Mint metadata authority tree_id)"
    and "str_trim (remove_nul (ma_uri metadata)) \<noteq> remove_nul (ma_uri metadata)"
    and "asset_data_row (dm_asset_data_id info) (de_writes F 0 d) = Some a" "ad_metadata_url a = remove_nul (ma_uri metadata)"
    and "de_fault F 0 = None" "request_metadata F (dm_uri info) = Inr body"
  shows "download_task F (td_data (create_download_metadata_notifier now info)) d = (Inr (), de_writes F 0 d)"
proof -
  have "download_of_json (de_parse_time F) (td_data (create_download_metadata_notifier now info)) =
      Some \<lparr>dl_asset_data_id = dm_asset_data_id info, dl_uri = dm_uri info, dl_created_at = None\<rparr>"
    by (simp add: create_download_metadata_notifier_def download_roundtrip)
  then show ?thesis
    using assms(3-7) mint_info [OF assms(1,2)] by (simp add: download_task_def store_if_current_def)
qed

definition answering_env0 :: download_env where
  "answering_env0 = download_env0\<lparr>de_request := \<lambda>_. Inr (200, Inr (JBool True))\<rparr>"

theorem padded_uri_never_stored_witness:
  "\<exists>info w'. mint ext0 (fst padded_mint0) (snd padded_mint0) ''MintV1'' world0 = (Inr (Some info), w') \<and>
     request_metadata answering_env0 (dm_uri info) = Inr (JBool True) \<and>
     download_task answering_env0 (td_data (create_download_metadata_notifier 0 info)) (w_db w') = (Inr (), w_db w')"
proof -
  let ?info = "\<lparr>dm_asset_data_id = [3], dm_uri = ''u''\<rparr>"
  let ?r = "mint ext0 (fst padded_mint0) (snd padded_mint0) ''MintV1'' world0"
  have r: "fst ?r = Inr (Some ?info)" by code_simp
  have row: "map_option ad_metadata_url (asset_data_row [3] (w_db (snd ?r))) = Some ''u ''" by code_simp
  then obtain a where a: "asset_data_row [3] (w_db (snd ?r)) = Some a" "ad_metadata_url a = ''u ''" by auto
  obtain metadata authority tree_id where p: "bi_payload (fst padded_mint0) = Some (P_Mint metadata authority tree_id)"
      "ma_uri metadata = ''u ''"
    by (simp add: padded_mint0_def)
  have m: "?r = (Inr (Some ?info), snd ?r)" using r by (metis prod.collapse)
  have F: "de_writes answering_env0 0 d = d" "de_fault answering_env0 0 = None" "request_metadata answering_env0 u = Inr (JBool True)" for d u
    by (simp_all add: answering_env0_def download_env0_def request_metadata_def)
  have u: "str_trim (remove_nul ''u '') \<noteq> remove_nul ''u ''" "remove_nul ''u '' = ''u ''" by code_simp+
  have "download_task answering_env0 (td_data (create_download_metadata_notifier 0 ?info)) (w_db (snd ?r)) =
      (Inr (), de_writes answering_env0 0 (w_db (snd ?r)))"
    by (rule padded_uri_never_stored [OF m p(1), where a = a and body = "JBool True"]) (use a p(2) u F in simp_all)
  then show ?thesis using m F by metis
qed

end
