(* ===== verification/Consumers.thy ===== *)
theory Consumers
  imports Program_Transformer Task_Manager
begin

text \<open>
  The consumers of \<open>nft_ingester\<close>: the conversion of Plerkle messages (\<open>plerkle.rs\<close>), the decision to
  acknowledge (\<open>metrics.rs\<close>), the account and transaction workers (\<open>account_updates.rs\<close>,
  \<open>transaction_notifications.rs\<close>), the acknowledgements (\<open>ack.rs\<close>), and what \<open>main.rs\<close> starts for a
  role of \<open>config.rs\<close>. A panic of a spawned task is \<open>None\<close>. Metrics and logging are left out.
\<close>

section \<open>Plerkle messages\<close>

text \<open>A message as the flatbuffers accessors give it; a field may be missing.\<close>

record plerkle_account =
  pk_slot :: u64
  pk_pubkey :: "bytes option"
  pk_owner :: "bytes option"
  pk_data :: "bytes option"

record plerkle_transaction =
  pl_slot :: u64
  pl_signature :: "string option"
  pl_account_keys :: "bytes list option"
  pl_outer_instructions :: "bytes option"
  pl_compiled_inner_instructions :: "bytes option"
  pl_inner_instructions :: "bytes option"

datatype plerkle_deserializer_error = PD_NotFound | PD_Solana string

fun plerkle_message :: "plerkle_deserializer_error \<Rightarrow> string" where
  "plerkle_message PD_NotFound = ''Not found''"
| "plerkle_message (PD_Solana e) = ''Solana error: '' @ e"

definition into_program_transformer_err :: "plerkle_deserializer_error \<Rightarrow> program_transformer_error" where
  "into_program_transformer_err e = DeserializationError (plerkle_message e)"

text \<open>The crate \<open>plerkle_serialization\<close>: the roots of messages and the conversions of their fields.\<close>

record plerkle =
  ps_root_account :: "bytes \<Rightarrow> plerkle_account option"
  ps_root_transaction :: "bytes \<Rightarrow> plerkle_transaction option"
  ps_pubkey :: "bytes \<Rightarrow> string + pubkey"
  ps_data :: "bytes option \<Rightarrow> string + bytes"
  ps_signature :: "string option \<Rightarrow> string + bytes"
  ps_keys :: "bytes list option \<Rightarrow> string + pubkey list"
  ps_outer :: "bytes \<Rightarrow> string + compiled_instruction list"
  ps_compiled_inner :: "bytes \<Rightarrow> string + inner_instructions list"
  ps_inner :: "bytes \<Rightarrow> string + inner_instructions list"

definition solana :: "string + 'a \<Rightarrow> plerkle_deserializer_error + 'a" where
  "solana r = map_sum PD_Solana id r"

definition or_not_found :: "'a option \<Rightarrow> plerkle_deserializer_error + 'a" where
  "or_not_found x = (case x of None \<Rightarrow> Inl PD_NotFound | Some v \<Rightarrow> Inr v)"

definition then_plerkle :: "'e + 'a \<Rightarrow> ('a \<Rightarrow> 'e + 'b) \<Rightarrow> 'e + 'b" where
  "then_plerkle r f = (case r of Inl e \<Rightarrow> Inl e | Inr x \<Rightarrow> f x)"

definition account_of_plerkle :: "plerkle \<Rightarrow> plerkle_account \<Rightarrow> plerkle_deserializer_error + account_info" where
  "account_of_plerkle K a =
     then_plerkle (then_plerkle (or_not_found (pk_pubkey a)) (\<lambda>k. solana (ps_pubkey K k))) (\<lambda>k.
     then_plerkle (then_plerkle (or_not_found (pk_owner a)) (\<lambda>o'. solana (ps_pubkey K o'))) (\<lambda>ow.
     then_plerkle (solana (ps_data K (pk_data a))) (\<lambda>dat.
       Inr \<lparr>ac_slot = pk_slot a, ac_pubkey = k, ac_owner = ow, ac_data = dat\<rparr>)))"

definition transaction_of_plerkle :: "plerkle \<Rightarrow> plerkle_transaction \<Rightarrow> plerkle_deserializer_error + transaction_info" where
  "transaction_of_plerkle K t =
     then_plerkle (solana (ps_signature K (pl_signature t))) (\<lambda>sig.
     then_plerkle (solana (ps_keys K (pl_account_keys t))) (\<lambda>keys.
     then_plerkle (then_plerkle (or_not_found (pl_outer_instructions t)) (\<lambda>b. solana (ps_outer K b))) (\<lambda>outer.
     then_plerkle (case pl_compiled_inner_instructions t of
         Some c \<Rightarrow> solana (ps_compiled_inner K c)
       | None \<Rightarrow> then_plerkle (or_not_found (pl_inner_instructions t)) (\<lambda>b. solana (ps_inner K b))) (\<lambda>inner.
       Inr \<lparr>ti_slot = pl_slot t, ti_signature = sig, ti_account_keys = keys, ti_message_instructions = outer,
            ti_meta_inner_instructions = inner\<rparr>))))"

section \<open>Handling one message\<close>

record recv_data =
  rd_id :: string
  rd_tries :: nat
  rd_data :: bytes

text \<open>Whether the message is to be acknowledged.\<close>

fun capture_result :: "unit pt_result \<Rightarrow> bool" where
  "capture_result (Inr _) = True"
| "capture_result (Inl NotImplemented) = True"
| "capture_result (Inl (DeserializationError _)) = True"
| "capture_result (Inl (ParsingError _)) = True"
| "capture_result (Inl (DatabaseError _)) = False"
| "capture_result (Inl (AssetIndexError _)) = False"
| "capture_result (Inl _) = False"

definition acknowledge :: "string \<Rightarrow> unit handler option \<Rightarrow> world \<Rightarrow> (string option \<times> world) option" where
  "acknowledge i h w =
     map_option (\<lambda>m. case m w of (res, w') \<Rightarrow> (if capture_result res then Some i else None, w')) h"

text \<open>The identifier of a message that is done; the owner is unwrapped before the conversion.\<close>

definition consume_account :: "env \<Rightarrow> plerkle \<Rightarrow> recv_data \<Rightarrow> world \<Rightarrow> (string option \<times> world) option" where
  "consume_account V K item w =
    (case ps_root_account K (rd_data item) of
       None \<Rightarrow> Some (None, w)
     | Some a \<Rightarrow>
        if pk_owner a = None then None
        else (case account_of_plerkle K a of
                Inl _ \<Rightarrow> Some (None, w)
              | Inr info \<Rightarrow> acknowledge (rd_id item) (handle_account_update V info) w))"

definition consume_transaction :: "env \<Rightarrow> plerkle \<Rightarrow> recv_data \<Rightarrow> world \<Rightarrow> (string option \<times> world) option" where
  "consume_transaction V K item w =
    (case ps_root_transaction K (rd_data item) of
       None \<Rightarrow> Some (None, w)
     | Some t \<Rightarrow>
        (case map_sum into_program_transformer_err id (transaction_of_plerkle K t) of
           Inl _ \<Rightarrow> Some (None, w)
         | Inr info \<Rightarrow> acknowledge (rd_id item) (handle_transaction V info) w))"

text \<open>
  One round of a worker: the messages received, each in a task of its own, in the order in which the
  tasks complete; a task that panics is skipped. The identifiers go to the acknowledgement task.
\<close>

fun worker_round ::
  "(recv_data \<Rightarrow> world \<Rightarrow> (string option \<times> world) option) \<Rightarrow> recv_data list \<Rightarrow> world \<Rightarrow> string list \<times> world" where
  "worker_round handle [] w = ([], w)"
| "worker_round handle (item # items) w =
    (case handle item w of
       None \<Rightarrow> worker_round handle items w
     | Some (r, w') \<Rightarrow>
        (case worker_round handle items w' of (acks, w'') \<Rightarrow> ((case r of None \<Rightarrow> acks | Some i \<Rightarrow> i # acks), w'')))"

section \<open>Acknowledgements\<close>

text \<open>The queue per stream, and a tick that sends every queue and empties it whether or not the call succeeded.\<close>

definition ack_receive :: "string \<Rightarrow> string \<Rightarrow> (string \<times> string list) list \<Rightarrow> (string \<times> string list) list" where
  "ack_receive stream msg acks =
    (case map_of acks stream of
       None \<Rightarrow> acks @ [(stream, [msg])]
     | Some _ \<Rightarrow> map (\<lambda>(s, ms). if s = stream then (s, ms @ [msg]) else (s, ms)) acks)"

definition ack_tick :: "(string \<times> string list) list \<Rightarrow> (string \<times> string list) list \<times> (string \<times> string list) list" where
  "ack_tick acks = (acks, map (\<lambda>(s, ms). (s, [])) acks)"

section \<open>What is started\<close>

datatype worker_type = W_Account | W_Transaction

record worker_config =
  wc_stream_name :: string
  wc_worker_type :: worker_type
  wc_worker_count :: u32

datatype ingester_role = R_All | R_Backfiller | R_BackgroundTaskRunner | R_Ingester

record ingester_config =
  cf_role :: "ingester_role option"
  cf_worker_config :: "worker_config list option"
  cf_runner :: "background_task_runner_config option"

definition get_worker_config :: "ingester_config \<Rightarrow> worker_config list" where
  "get_worker_config c =
    (case cf_worker_config c of
       Some wc \<Rightarrow> wc
     | None \<Rightarrow> [\<lparr>wc_stream_name = ''ACC'', wc_worker_type = W_Account, wc_worker_count = 2\<rparr>,
               \<lparr>wc_stream_name = ''TXN'', wc_worker_type = W_Transaction, wc_worker_count = 2\<rparr>])"

definition get_worker_count :: "ingester_config \<Rightarrow> u32" where
  "get_worker_count c = fold (\<lambda>w n. n + wc_worker_count w) (get_worker_config c) 0"

datatype consumption_type = CT_New | CT_Redeliver

text \<open>The processes of a role: workers with their stream and what they consume, the listener, the runner, the backfiller.\<close>

datatype started_process =
    P_Listener bool
  | P_Worker worker_type string consumption_type
  | P_Runner
  | P_Backfiller

definition workers_of :: "worker_config \<Rightarrow> started_process list" where
  "workers_of w =
     map (\<lambda>i. P_Worker (wc_worker_type w) (wc_stream_name w) (if i = 0 then CT_Redeliver else CT_New)) [0..<unat (wc_worker_count w)]"

definition processes :: "ingester_config \<Rightarrow> started_process list" where
  "processes c =
    (let role = (case cf_role c of Some r \<Rightarrow> r | None \<Rightarrow> R_All) in
     [P_Listener (role = R_BackgroundTaskRunner \<or> role = R_All)] @
     (if role = R_Ingester \<or> role = R_All then concat (map workers_of (get_worker_config c)) else []) @
     (if role = R_BackgroundTaskRunner \<or> role = R_All then [P_Runner] else []) @
     (if role = R_Backfiller \<or> role = R_All then [P_Backfiller] else []))"

text \<open>The definition of the download task, from the configuration of the runner.\<close>

definition bg_task_definitions :: "download_env \<Rightarrow> ingester_config \<Rightarrow> bg_task list" where
  "bg_task_definitions E c =
    (let rc = (case cf_runner c of Some r \<Rightarrow> r | None \<Rightarrow> runner_config_default)
     in [download_bg_task E (rc_lock_duration rc) (rc_max_attempts rc)])"

section \<open>What an acknowledgement means\<close>

lemma capture_result_iff:
  "capture_result r \<longleftrightarrow> (case r of Inr _ \<Rightarrow> True
     | Inl e \<Rightarrow> e = NotImplemented \<or> (\<exists>x. e = DeserializationError x) \<or> (\<exists>x. e = ParsingError x))"
  by (cases r rule: capture_result.cases) simp_all

lemma acknowledge_Some:
  "acknowledge i h w = Some (Some j, w') \<longleftrightarrow> j = i \<and> (\<exists>m res. h = Some m \<and> m w = (res, w') \<and> capture_result res)"
proof (cases h)
  case (Some m)
  then show ?thesis by (cases "m w") (auto simp: acknowledge_def)
qed (simp add: acknowledge_def)

text \<open>An update the database refused is not acknowledged, so the messenger delivers it again.\<close>

lemma consume_account_acked:
  assumes "consume_account V K item w = Some (Some i, w')"
  shows "i = rd_id item \<and> (\<exists>a info m res. ps_root_account K (rd_data item) = Some a \<and> account_of_plerkle K a = Inr info \<and>
    handle_account_update V info = Some m \<and> m w = (res, w') \<and> capture_result res)"
  using assms by (auto simp: consume_account_def acknowledge_Some split: option.splits sum.splits if_splits)

lemma consume_transaction_acked:
  assumes "consume_transaction V K item w = Some (Some i, w')"
  shows "i = rd_id item \<and> (\<exists>t info m res. ps_root_transaction K (rd_data item) = Some t \<and> transaction_of_plerkle K t = Inr info \<and>
    handle_transaction V info = Some m \<and> m w = (res, w') \<and> capture_result res)"
proof -
  obtain t where t: "ps_root_transaction K (rd_data item) = Some t"
    using assms by (cases "ps_root_transaction K (rd_data item)") (auto simp: consume_transaction_def)
  then show ?thesis
    using assms by (cases "transaction_of_plerkle K t") (auto simp: consume_transaction_def acknowledge_Some)
qed

lemma worker_round_acks: "set (fst (worker_round handle items w)) \<subseteq>
    {i. \<exists>item\<in>set items. \<exists>w1 w2. handle item w1 = Some (Some i, w2)}"
proof (induction items arbitrary: w)
  case (Cons item items)
  show ?case
  proof (cases "handle item w")
    case None
    then show ?thesis using Cons.IH [of w] by auto
  next
    case (Some p)
    then show ?thesis using Cons.IH [of "snd p"] by (cases p) (force split: option.splits prod.splits)
  qed
qed simp

text \<open>A message that cannot be decoded is never acknowledged.\<close>

lemma undecodable_not_acked:
  "ps_root_account K (rd_data item) = None \<Longrightarrow> consume_account V K item w = Some (None, w)"
  "ps_root_transaction K (rd_data item) = None \<Longrightarrow> consume_transaction V K item w = Some (None, w)"
  by (simp_all add: consume_account_def consume_transaction_def)

text \<open>
  The streams of every worker configuration with a worker are read by exactly one worker for
  redelivered messages.
\<close>

lemma one_redeliverer: "0 < wc_worker_count w \<Longrightarrow> length (filter (\<lambda>p. \<exists>ty st. p = P_Worker ty st CT_Redeliver) (workers_of w)) = 1"
proof -
  assume "0 < wc_worker_count w"
  then have "0 < unat (wc_worker_count w)" by (simp add: word_less_nat_alt)
  then obtain n where n: "unat (wc_worker_count w) = Suc n" by (cases "unat (wc_worker_count w)") auto
  have "filter (\<lambda>i. i = 0) [0..<Suc n] = [0]"
    by (induction n) auto
  then show ?thesis by (simp add: workers_of_def n filter_map comp_def del: upt_Suc)
qed

text \<open>Flushing sends each identifier that was received since the last tick once, per stream in order.\<close>

lemma ack_receive_last:
  "map_of (ack_receive s m acks) s = Some ((case map_of acks s of None \<Rightarrow> [] | Some ms \<Rightarrow> ms) @ [m])"
proof (cases "map_of acks s")
  case None
  then show ?thesis by (simp add: ack_receive_def map_add_Some_iff)
next
  case (Some ms)
  then have "map_of (map (\<lambda>(q, xs). if q = s then (q, xs @ [m]) else (q, xs)) acks) s = Some (ms @ [m])"
    by (induction acks) (auto split: if_splits)
  with Some show ?thesis by (simp add: ack_receive_def)
qed

end
