(* ===== verification/Metadata_Guard.thy ===== *)
theory Metadata_Guard
  imports Grpc_Stream
begin

unbundle bit_operations_syntax

text \<open>
  Where the metadata downloads of \<open>grpc_ingester\<close> may connect (\<open>metadata/guard.rs\<close>), how hosts that
  rate-limit are paused (\<open>metadata/hosts.rs\<close>) and how IPFS content is sent to one gateway
  (\<open>metadata/ipfs.rs\<close>). URLs are what the crate \<open>url\<close> parsed: a record of its accessors.
\<close>

section \<open>Addresses\<close>

datatype ipv4 = V4 u8 u8 u8 u8

datatype ipv6 = V6 u16 u16 u16 u16 u16 u16 u16 u16

datatype ip_addr = IP4 ipv4 | IP6 ipv6

text \<open>The predicates of \<open>std::net\<close>.\<close>

fun v4_unspecified :: "ipv4 \<Rightarrow> bool" where
  "v4_unspecified (V4 a b c d) = (a = 0 \<and> b = 0 \<and> c = 0 \<and> d = 0)"

fun v4_loopback :: "ipv4 \<Rightarrow> bool" where
  "v4_loopback (V4 a b c d) = (a = 127)"

fun v4_private :: "ipv4 \<Rightarrow> bool" where
  "v4_private (V4 a b c d) = (a = 10 \<or> (a = 172 \<and> 16 \<le> b \<and> b \<le> 31) \<or> (a = 192 \<and> b = 168))"

fun v4_link_local :: "ipv4 \<Rightarrow> bool" where
  "v4_link_local (V4 a b c d) = (a = 169 \<and> b = 254)"

fun v4_broadcast :: "ipv4 \<Rightarrow> bool" where
  "v4_broadcast (V4 a b c d) = (a = 255 \<and> b = 255 \<and> c = 255 \<and> d = 255)"

fun v4_documentation :: "ipv4 \<Rightarrow> bool" where
  "v4_documentation (V4 a b c d) =
     ((a = 192 \<and> b = 0 \<and> c = 2) \<or> (a = 198 \<and> b = 51 \<and> c = 100) \<or> (a = 203 \<and> b = 0 \<and> c = 113))"

fun v4_multicast :: "ipv4 \<Rightarrow> bool" where
  "v4_multicast (V4 a b c d) = (224 \<le> a \<and> a \<le> 239)"

fun is_global_v4 :: "ipv4 \<Rightarrow> bool" where
  "is_global_v4 (V4 a b c d) =
    (\<not> (v4_unspecified (V4 a b c d) \<or> v4_loopback (V4 a b c d) \<or> v4_private (V4 a b c d) \<or> v4_link_local (V4 a b c d) \<or>
        v4_broadcast (V4 a b c d) \<or> v4_documentation (V4 a b c d) \<or> v4_multicast (V4 a b c d) \<or>
        a = 0 \<or> (a = 100 \<and> b AND 0xc0 = 64) \<or> (a = 192 \<and> b = 0 \<and> c = 0) \<or> (a = 198 \<and> b AND 0xfe = 18) \<or> a \<ge> 240))"

fun v6_to_ipv4 :: "ipv6 \<Rightarrow> ipv4 option" where
  "v6_to_ipv4 (V6 s0 s1 s2 s3 s4 s5 s6 s7) =
    (if s0 = 0 \<and> s1 = 0 \<and> s2 = 0 \<and> s3 = 0 \<and> s4 = 0 \<and> (s5 = 0 \<or> s5 = 0xffff)
     then Some (V4 (ucast (drop_bit 8 s6)) (ucast s6) (ucast (drop_bit 8 s7)) (ucast s7)) else None)"

fun is_global_v6 :: "ipv6 \<Rightarrow> bool" where
  "is_global_v6 (V6 s0 s1 s2 s3 s4 s5 s6 s7) =
    (let zero6 = (s0 = 0 \<and> s1 = 0 \<and> s2 = 0 \<and> s3 = 0 \<and> s4 = 0 \<and> s5 = 0 \<and> s6 = 0) in
     \<not> ((zero6 \<and> s7 = 0) \<or> (zero6 \<and> s7 = 1) \<or> s0 AND 0xff00 = 0xff00 \<or> s0 AND 0xfe00 = 0xfc00 \<or> s0 AND 0xffc0 = 0xfe80 \<or>
        (s0 = 0x2001 \<and> s1 = 0x0db8) \<or> (s0 = 0x0064 \<and> s1 = 0xff9b)))"

fun is_global :: "ip_addr \<Rightarrow> bool" where
  "is_global (IP4 v4) = is_global_v4 v4"
| "is_global (IP6 v6) = (case v6_to_ipv4 v6 of Some v4 \<Rightarrow> is_global_v4 v4 | None \<Rightarrow> is_global_v6 v6)"

section \<open>URLs and redirects\<close>

datatype url_host = H_Domain string | H_Ipv4 ipv4 | H_Ipv6 ipv6

record url =
  u_scheme :: string
  u_host :: "url_host option"
  u_host_str :: "string option"
  u_port_or_known_default :: "u16 option"
  u_path :: string
  u_query :: "string option"

definition BLOCKED :: string where
  "BLOCKED = ''resolves only to non-global addresses''"

definition TOO_MANY_REDIRECTS :: string where
  "TOO_MANY_REDIRECTS = ''too many redirects''"

definition host_allowed :: "url \<Rightarrow> bool" where
  "host_allowed u =
    (case u_host u of
       Some (H_Ipv4 ip) \<Rightarrow> is_global (IP4 ip)
     | Some (H_Ipv6 ip) \<Rightarrow> is_global (IP6 ip)
     | Some (H_Domain _) \<Rightarrow> True
     | None \<Rightarrow> False)"

text \<open>The resolver of the public client: the addresses a name has, or an error.\<close>

definition resolve_global :: "string \<Rightarrow> string + ip_addr list \<Rightarrow> string + ip_addr list" where
  "resolve_global host looked_up =
    (case looked_up of
       Inl e \<Rightarrow> Inl e
     | Inr addrs \<Rightarrow>
        (let allowed = filter is_global addrs in if allowed = [] then Inl (host @ '' '' @ BLOCKED) else Inr allowed))"

datatype redirect = R_Follow | R_Stop | R_Error string

definition is_http :: "url \<Rightarrow> bool" where
  "is_http u = (u_scheme u = ''http'' \<or> u_scheme u = ''https'')"

definition public_redirect :: "url list \<Rightarrow> url \<Rightarrow> redirect" where
  "public_redirect previous u =
    (if length previous \<ge> 5 then R_Error TOO_MANY_REDIRECTS
     else if \<not> is_http u \<or> \<not> host_allowed u then R_Error BLOCKED else R_Follow)"

definition same_origin :: "url \<Rightarrow> url \<Rightarrow> bool" where
  "same_origin u base =
    (u_scheme u = u_scheme base \<and> u_host_str u = u_host_str base \<and> u_port_or_known_default u = u_port_or_known_default base)"

definition trusted_redirect :: "url \<Rightarrow> url list \<Rightarrow> url \<Rightarrow> redirect" where
  "trusted_redirect base previous u =
    (if length previous \<ge> 5 then R_Error TOO_MANY_REDIRECTS else if same_origin u base then R_Follow else R_Stop)"

section \<open>Hosts\<close>

text \<open>Durations and instants in milliseconds. The semaphore of a host only delays its callers.\<close>

definition MIN_PAUSE :: nat where "MIN_PAUSE = 5000"
definition MAX_PAUSE :: nat where "MAX_PAUSE = 600000"

record host =
  h_paused_until :: "nat option"
  h_last_pause :: nat

type_synonym hosts = "string \<rightharpoonup> host"

datatype host_slot = Go | Wait nat

definition acquire :: "nat \<Rightarrow> string \<Rightarrow> hosts \<Rightarrow> host_slot \<times> hosts" where
  "acquire now name hs =
    (let entry = (case hs name of Some e \<Rightarrow> e | None \<Rightarrow> \<lparr>h_paused_until = None, h_last_pause = 0\<rparr>) in
     case h_paused_until entry of
       Some until \<Rightarrow> if until > now then (Wait (until - now), hs(name \<mapsto> entry))
                     else (Go, hs(name \<mapsto> entry\<lparr>h_paused_until := None\<rparr>))
     | None \<Rightarrow> (Go, hs(name \<mapsto> entry)))"

definition clamp :: "nat \<Rightarrow> nat \<Rightarrow> nat \<Rightarrow> nat" where
  "clamp lo hi x = max lo (min hi x)"

definition next_pause :: "host \<Rightarrow> nat option \<Rightarrow> nat" where
  "next_pause entry retry_after =
     clamp MIN_PAUSE MAX_PAUSE (case retry_after of Some p \<Rightarrow> p | None \<Rightarrow> max (h_last_pause entry * 2) MIN_PAUSE)"

definition back_off :: "nat \<Rightarrow> string \<Rightarrow> nat option \<Rightarrow> hosts \<Rightarrow> nat \<times> hosts" where
  "back_off now name retry_after hs =
    (case hs name of
       None \<Rightarrow> (MIN_PAUSE, hs)
     | Some entry \<Rightarrow>
        (let pause = next_pause entry retry_after;
             paused = (pause, hs(name \<mapsto> \<lparr>h_paused_until = Some (now + pause), h_last_pause = pause\<rparr>))
         in case h_paused_until entry of
              Some until \<Rightarrow> if until > now then (until - now, hs) else paused
            | None \<Rightarrow> paused))"

definition succeeded :: "string \<Rightarrow> hosts \<Rightarrow> hosts" where
  "succeeded name hs = (case hs name of None \<Rightarrow> hs | Some e \<Rightarrow> hs(name \<mapsto> e\<lparr>h_last_pause := 0\<rparr>))"

section \<open>The IPFS gateway\<close>

definition PUBLIC_GATEWAYS :: "string list" where
  "PUBLIC_GATEWAYS =
    [''ipfs.io'', ''dweb.link'', ''cloudflare-ipfs.com'', ''cf-ipfs.com'', ''gateway.pinata.cloud'', ''nftstorage.link'',
     ''w3s.link'', ''4everland.io'', ''ipfs.infura.io'', ''infura-ipfs.io'', ''ipfs.filebase.io'', ''gateway.lighthouse.storage'']"

record gateway =
  gw_base :: url
  gw_rewrite_public :: bool

definition is_gateway :: "gateway \<Rightarrow> url \<Rightarrow> bool" where
  "is_gateway g u = same_origin u (gw_base g)"

fun split_once :: "string \<Rightarrow> string \<Rightarrow> (string \<times> string) option" where
  "split_once pat [] = (if pat = [] then Some ([], []) else None)"
| "split_once pat (c # s) =
    (if prefix pat (c # s) then Some ([], drop (length pat) (c # s))
     else map_option (\<lambda>(a, b). (c # a, b)) (split_once pat s))"

definition strip_prefix :: "string \<Rightarrow> string \<Rightarrow> string option" where
  "strip_prefix p s = (if prefix p s then Some (drop (length p) s) else None)"

definition trim_start_slashes :: "string \<Rightarrow> string" where
  "trim_start_slashes s = dropWhile (\<lambda>c. c = CHR ''/'') s"

definition trim_end_slashes :: "string \<Rightarrow> string" where
  "trim_end_slashes s = rev (dropWhile (\<lambda>c. c = CHR ''/'') (rev s))"

definition gateway_new :: "(string \<Rightarrow> string + url) \<Rightarrow> (url \<Rightarrow> string) \<Rightarrow> string \<Rightarrow> bool \<Rightarrow> gateway anyhow" where
  "gateway_new parse show_url base rewrite_public =
    (case parse (trim_end_slashes base) of
       Inl e \<Rightarrow> Inl e
     | Inr u \<Rightarrow> if is_http u \<and> u_host_str u \<noteq> None then Inr \<lparr>gw_base = u, gw_rewrite_public = rewrite_public\<rparr>
               else Inl (''IPFS gateway must be an http(s) URL, got '' @ show_url u))"

definition is_alphanumeric :: "char \<Rightarrow> bool" where
  "is_alphanumeric c =
    (let n = of_char c :: nat in (48 \<le> n \<and> n \<le> 57) \<or> (65 \<le> n \<and> n \<le> 90) \<or> (97 \<le> n \<and> n \<le> 122))"

definition looks_like_cid :: "string \<Rightarrow> bool" where
  "looks_like_cid s =
    (length s = 46 \<and> prefix ''Qm'' s \<and> list_all (\<lambda>c. is_alphanumeric c \<and> c \<notin> set ''0OIl'') s \<or>
     length s \<ge> 50 \<and> prefix ''b'' s \<and>
       list_all (\<lambda>c. let n = of_char c :: nat in (97 \<le> n \<and> n \<le> 122) \<or> (50 \<le> n \<and> n \<le> 55)) s)"

text \<open>The content a URL names: a CID and a path.\<close>

definition ipfs_content :: "gateway \<Rightarrow> url \<Rightarrow> string option" where
  "ipfs_content g u =
    (if u_scheme u = ''ipfs'' then
       map_option (\<lambda>h. let joined = h @ u_path u in case strip_prefix ''ipfs/'' joined of Some s \<Rightarrow> s | None \<Rightarrow> joined) (u_host_str u)
     else if is_http u \<and> gw_rewrite_public g \<and> \<not> is_gateway g u then
       Option.bind (u_host_str u) (\<lambda>hs.
         let h = to_ascii_lowercase hs in
         case split_once ''.ipfs.'' h of
           Some (cid, gate) \<Rightarrow> if gate \<in> set PUBLIC_GATEWAYS then Some (cid @ u_path u) else None
         | None \<Rightarrow> if h \<in> set PUBLIC_GATEWAYS then strip_prefix ''/ipfs/'' (u_path u) else None)
     else None)"

text \<open>\<open>set_path\<close> is the crate's, which escapes and normalises.\<close>

definition rewrite :: "(string \<Rightarrow> url \<Rightarrow> url) \<Rightarrow> gateway \<Rightarrow> url \<Rightarrow> url option" where
  "rewrite set_path g u =
    Option.bind (ipfs_content g u) (\<lambda>content0.
      let content = trim_start_slashes content0; cid = takeWhile (\<lambda>c. c \<noteq> CHR ''/'') content in
      if looks_like_cid cid
      then Some ((set_path (trim_end_slashes (u_path (gw_base g)) @ ''/ipfs/'' @ content) (gw_base g))\<lparr>u_query := u_query u\<rparr>)
      else None)"

text \<open>Rate limits count per gateway, not per CID.\<close>

definition host_key :: "url \<Rightarrow> string" where
  "host_key u =
    (let h = (case u_host_str u of Some s \<Rightarrow> s | None \<Rightarrow> []);
         h' = (case split_once ''.ipfs.'' h of Some (_, gate) \<Rightarrow> gate
               | None \<Rightarrow> (case split_once ''.ipns.'' h of Some (_, gate) \<Rightarrow> gate | None \<Rightarrow> h))
     in h' @ '':'' @ show_nat (case u_port_or_known_default u of Some p \<Rightarrow> unat p | None \<Rightarrow> 0))"

end
