(* ===== verification/Metadata_Downloads.thy ===== *)
theory Metadata_Downloads
  imports Metadata_Guard "HOL-Library.List_Lexorder"
begin

text \<open>
  The metadata downloader of \<open>grpc_ingester\<close> (\<open>metadata/mod.rs\<close>): the queue with its set of pending
  assets, one download with its failures and retries, the write-back, and the loop that queues
  again what is still owed. The HTTP client, the URL parser, the JSON parser and the database are
  arguments. Statistics and logging are left out; times are in milliseconds.
\<close>

section \<open>Jobs and the queue\<close>

record downloader_args =
  ma_queue :: nat
  ma_max_bytes :: nat
  ma_max_attempts :: u32
  ma_redrive_batch :: u64

record job =
  j_asset_data_id :: bytes
  j_uri :: string
  j_attempt :: u32

text \<open>
  \<open>Shared\<close>: the pending identifiers, the bounded channel, the hosts; and the jobs that the spawned
  tasks hold: those in a worker, and those that sleep before they go back to the channel.
\<close>

record shared =
  sh_pending :: "bytes set"
  sh_queue :: "job list"
  sh_working :: "job list"
  sh_sleeping :: "job list"
  sh_hosts :: hosts

definition channel_size :: "downloader_args \<Rightarrow> nat" where
  "channel_size A = max (ma_queue A) 1"

definition enqueue :: "downloader_args \<Rightarrow> bytes \<Rightarrow> string \<Rightarrow> shared \<Rightarrow> bool \<times> shared" where
  "enqueue A i uri s =
    (if i \<in> sh_pending s then (False, s)
     else if length (sh_queue s) < channel_size A
     then (True, s\<lparr>sh_pending := insert i (sh_pending s),
             sh_queue := sh_queue s @ [\<lparr>j_asset_data_id = i, j_uri = uri, j_attempt = 0\<rparr>]\<rparr>)
     else (False, s\<lparr>sh_pending := insert i (sh_pending s) - {i}\<rparr>))"

definition finish :: "bytes \<Rightarrow> shared \<Rightarrow> shared" where
  "finish i s = s\<lparr>sh_pending := sh_pending s - {i}\<rparr>"

section \<open>Fetching\<close>

datatype failure = F_RateLimited "nat option" | F_Transient string | F_Permanent string

text \<open>An error of the client is the chain of its messages.\<close>

fun error_chain :: "string list \<Rightarrow> string" where
  "error_chain [] = []"
| "error_chain [e] = e"
| "error_chain (e # es) = e @ '': '' @ error_chain es"

record fetch_response =
  re_status :: u16
  re_retry_after :: "string option"
  re_content_length :: "u64 option"
  re_chunks :: "(string list + bytes) list"

definition retry_after_of :: "fetch_response \<Rightarrow> nat option" where
  "retry_after_of r =
     map_option (\<lambda>n. unat n * 1000) (Option.bind (re_retry_after r) (\<lambda>v. parse_u64 (str_trim v)))"

definition classify_status :: "u16 \<Rightarrow> nat option \<Rightarrow> bool \<Rightarrow> failure option" where
  "classify_status status retry_after via_gateway =
    (let text = ''HTTP '' @ show_nat (unat status) in
     if status = 200 then None
     else if status = 429 then Some (F_RateLimited retry_after)
     else if status = 503 \<and> retry_after \<noteq> None then Some (F_RateLimited retry_after)
     else if (status = 404 \<or> status = 410) \<and> via_gateway then Some (F_Transient (text @ '' from gateway''))
     else if 300 \<le> status \<and> status \<le> 399 \<and> via_gateway then Some (F_Transient (text @ '' redirect from gateway''))
     else if status = 408 \<or> status = 425 \<or> (500 \<le> status \<and> status \<le> 599) then Some (F_Transient text)
     else Some (F_Permanent text))"

fun read_body :: "nat \<Rightarrow> (string list + bytes) list \<Rightarrow> bytes \<Rightarrow> failure + bytes" where
  "read_body max_bytes [] body = Inr body"
| "read_body max_bytes (Inl e # cs) body = Inl (F_Transient (error_chain e))"
| "read_body max_bytes (Inr c # cs) body =
    (if length body + length c > max_bytes then Inl (F_Permanent ''body exceeds size limit'')
     else read_body max_bytes cs (body @ c))"

definition fetch :: "(bytes \<Rightarrow> string + json) \<Rightarrow> string list + fetch_response \<Rightarrow> nat \<Rightarrow> bool \<Rightarrow> failure + json" where
  "fetch from_slice answer max_bytes via_gateway =
    (case answer of
       Inl e \<Rightarrow>
        (let chain = error_chain e in
         Inl (if contains_str BLOCKED chain \<or> contains_str TOO_MANY_REDIRECTS chain then F_Permanent chain else F_Transient chain))
     | Inr r \<Rightarrow>
        (case classify_status (re_status r) (retry_after_of r) via_gateway of
           Some f \<Rightarrow> Inl f
         | None \<Rightarrow>
            if (case re_content_length r of Some len \<Rightarrow> unat len > max_bytes | None \<Rightarrow> False)
            then Inl (F_Permanent ''body exceeds size limit'')
            else (case read_body max_bytes (re_chunks r) [] of
                    Inl f \<Rightarrow> Inl f
                  | Inr body \<Rightarrow> (case from_slice body of Inl e \<Rightarrow> Inl (F_Permanent (''not JSON: '' @ e)) | Inr j \<Rightarrow> Inr j))))"

section \<open>One download\<close>

text \<open>The write-back, and whether a row was still there.\<close>

definition store_result :: "job \<Rightarrow> json option \<Rightarrow> db \<Rightarrow> db" where
  "store_result job body d =
     d\<lparr>asset_data_t := map (\<lambda>r. if ad_id r = j_asset_data_id job \<and> ad_metadata_url r = j_uri job
        then (case body of None \<Rightarrow> r\<lparr>ad_reindex := Some False\<rparr> | Some b \<Rightarrow> r\<lparr>ad_reindex := Some False, ad_metadata := b\<rparr>)
        else r) (asset_data_t d)\<rparr>"

text \<open>
  A statement tried again while the database asks for it, at most \<open>max_write_attempts\<close> times;
  \<open>op n\<close> is the answer to the n-th try.
\<close>

function with_db_retry :: "u32 \<Rightarrow> (nat \<Rightarrow> string + 'a) \<Rightarrow> nat \<Rightarrow> string + 'a" where
  "with_db_retry max_write_attempts op attempt =
    (case op attempt of
       Inl e \<Rightarrow> if is_retryable e \<and> attempt + 1 < unat max_write_attempts
                then with_db_retry max_write_attempts op (attempt + 1) else Inl e
     | Inr x \<Rightarrow> Inr x)"
  by pat_completeness auto
termination
  by (relation "measure (\<lambda>(m, op, a). unat m - a)") auto

declare with_db_retry.simps [simp del]

text \<open>What becomes of a job: it is over, perhaps with a write-back, or it sleeps and returns.\<close>

datatype job_end =
    Over "json option option"
  | Sleep job nat

record downloader =
  dw_parse :: "string \<Rightarrow> url option"
  dw_set_path :: "string \<Rightarrow> url \<Rightarrow> url"
  dw_gateway :: gateway
  dw_get :: "url \<Rightarrow> bool \<Rightarrow> string list + fetch_response"
  dw_from_slice :: "bytes \<Rightarrow> string + json"

definition transient_delay :: "u32 \<Rightarrow> nat" where
  "transient_delay attempt = 15 * 2 ^ (min (unat attempt) 6) * 1000"

definition retry_or_give_up :: "downloader_args \<Rightarrow> job \<Rightarrow> nat \<Rightarrow> job_end" where
  "retry_or_give_up A job delay =
    (let job' = job\<lparr>j_attempt := j_attempt job + 1\<rparr> in
     if j_attempt job' \<ge> ma_max_attempts A then Over None else Sleep job' delay)"

definition process_fetched :: "downloader_args \<Rightarrow> nat \<Rightarrow> string \<Rightarrow> job \<Rightarrow> failure + json \<Rightarrow> hosts \<Rightarrow> job_end \<times> hosts" where
  "process_fetched A now name job result hs =
    (case result of
       Inr body \<Rightarrow> (Over (Some (Some body)), succeeded name hs)
     | Inl (F_Permanent _) \<Rightarrow> (Over (Some None), hs)
     | Inl (F_RateLimited retry_after) \<Rightarrow>
         (case back_off now name retry_after hs of (delay, hs') \<Rightarrow> (retry_or_give_up A job delay, hs'))
     | Inl (F_Transient _) \<Rightarrow> (retry_or_give_up A job (transient_delay (j_attempt job)), hs))"

definition process :: "downloader_args \<Rightarrow> downloader \<Rightarrow> nat \<Rightarrow> nat \<Rightarrow> job \<Rightarrow> hosts \<Rightarrow> job_end \<times> hosts" where
  "process A D now later job hs =
    (case dw_parse D (remove_nul (str_trim (j_uri job))) of
       None \<Rightarrow> (Over (Some (Some (JStr ''Invalid Uri''))), hs)
     | Some u \<Rightarrow>
        (let u' = (case rewrite (dw_set_path D) (dw_gateway D) u of Some g \<Rightarrow> g | None \<Rightarrow> u);
             via_gateway = is_gateway (dw_gateway D) u'
         in if \<not> is_http u' then (Over (Some None), hs)
            else if \<not> via_gateway \<and> \<not> host_allowed u' then (Over (Some None), hs)
            else (case acquire now (host_key u') hs of
                    (Wait delay, hs') \<Rightarrow> (Sleep job delay, hs')
                  | (Go, hs') \<Rightarrow>
                      process_fetched A later (host_key u') job
                        (fetch (dw_from_slice D) (dw_get D u' via_gateway) (ma_max_bytes A) via_gateway) hs')))"

section \<open>What is still owed\<close>

definition owed :: "asset_data \<Rightarrow> bool" where
  "owed r = (ad_reindex r = Some True \<and> ad_metadata_url r \<noteq> [])"

definition redrive_limit :: "downloader_args \<Rightarrow> u64" where
  "redrive_limit A = max (ma_redrive_batch A) 1"

definition redrive_rows :: "downloader_args \<Rightarrow> bytes \<Rightarrow> asset_data list \<Rightarrow> asset_data list" where
  "redrive_rows A after t =
     take (unat (redrive_limit A)) (sort_key ad_id (filter (\<lambda>r. owed r \<and> after < ad_id r) t))"

fun offer_all :: "downloader_args \<Rightarrow> asset_data list \<Rightarrow> shared \<Rightarrow> (bytes \<times> bool) list \<times> shared" where
  "offer_all A [] s = ([], s)"
| "offer_all A (r # rs) s =
    (case enqueue A (ad_id r) (ad_metadata_url r) s of
       (queued, s') \<Rightarrow> (case offer_all A rs s' of (os, s'') \<Rightarrow> ((ad_id r, queued) # os, s'')))"

text \<open>
  One wake-up of the re-drive loop, from the n-th query on: where it stops, and which assets it
  offered to the queue, with success or not. Before each query the workers and the stream have
  changed the queue (\<open>others\<close>); the answer of the database is a table or a failure, and a limit past
  the signed range is refused.
\<close>

partial_function (option) redrive_pass ::
  "downloader_args \<Rightarrow> (nat \<Rightarrow> string + asset_data list) \<Rightarrow> (nat \<Rightarrow> shared \<Rightarrow> shared) \<Rightarrow> nat \<Rightarrow> bytes \<Rightarrow> shared \<Rightarrow>
    (bytes \<times> (bytes \<times> bool) list \<times> shared) option" where
  [code]: "redrive_pass A tables others n after s0 =
    (let s = others n s0 in
     if channel_size A - length (sh_queue s) < ma_queue A div 2 then Some (after, [], s)
     else case tables n of
       Inl _ \<Rightarrow> Some (after, [], s)
     | Inr t \<Rightarrow>
        if as_i64 (redrive_limit A) < 0 then Some (after, [], s)
        else
         (let rows = redrive_rows A after t; offered = offer_all A rows s in
          if length rows = unat (redrive_limit A)
          then Option.bind (redrive_pass A tables others (Suc n) (ad_id (last rows)) (snd offered))
                 (\<lambda>(a, os, s'). Some (a, fst offered @ os, s'))
          else Some ([], fst offered, snd offered)))"

end
