(* ===== verification/Metadata_Properties.thy ===== *)
theory Metadata_Properties
  imports Metadata_Downloads "HOL-Library.Multiset"
begin

unbundle bit_operations_syntax

text \<open>
  What the metadata downloader guarantees: at most one download per asset, every owed row offered
  by a complete re-drive, no request of the public client to a special-purpose address, bounded
  pauses and retries.
\<close>

section \<open>Addresses the public client refuses\<close>

text \<open>An address as a number, and the reserved blocks as prefixes: base, number of significant bits.\<close>

fun v4_number :: "ipv4 \<Rightarrow> nat" where
  "v4_number (V4 a b c d) = unat a * 2 ^ 24 + unat b * 2 ^ 16 + unat c * 2 ^ 8 + unat d"

definition in_block :: "nat \<Rightarrow> ipv4 \<times> nat \<Rightarrow> bool" where
  "in_block n p = (n div 2 ^ (32 - snd p) = v4_number (fst p) div 2 ^ (32 - snd p))"

definition reserved_blocks :: "(ipv4 \<times> nat) list" where
  "reserved_blocks =
    [(V4 0 0 0 0, 8), (V4 10 0 0 0, 8), (V4 100 64 0 0, 10), (V4 127 0 0 0, 8), (V4 169 254 0 0, 16), (V4 172 16 0 0, 12),
     (V4 192 0 0 0, 24), (V4 192 0 2 0, 24), (V4 192 168 0 0, 16), (V4 198 18 0 0, 15), (V4 198 51 100 0, 24),
     (V4 203 0 113 0, 24), (V4 224 0 0 0, 4), (V4 240 0 0 0, 4)]"

lemma u8_lt: "unat (b :: u8) < 256"
  using unsigned_less [of b, where ?'a = nat] by simp

lemma u8_all: "list_all (\<lambda>n. P (word_of_nat n)) [0..<256] \<Longrightarrow> P (b :: u8)"
proof -
  assume "list_all (\<lambda>n. P (word_of_nat n)) [0..<256]"
  then have "\<forall>n<256. P (word_of_nat n)" by (simp add: list_all_iff)
  then have "P (word_of_nat (unat b))" using u8_lt [of b] by blast
  then show "P b" by simp
qed

lemma mask_c0: "(b :: u8) AND 0xc0 = 64 \<longleftrightarrow> unat b div 64 = 1"
  by (rule u8_all [where P = "\<lambda>b. b AND 0xc0 = 64 \<longleftrightarrow> unat b div 64 = 1"]) code_simp

lemma mask_fe: "(b :: u8) AND 0xfe = 18 \<longleftrightarrow> unat b div 2 = 9"
  by (rule u8_all [where P = "\<lambda>b. b AND 0xfe = 18 \<longleftrightarrow> unat b div 2 = 9"]) code_simp

lemma v4_number_div:
  assumes "b < 256" "c < 256" "d < (256 :: nat)"
  shows "(a * 2 ^ 24 + b * 2 ^ 16 + c * 2 ^ 8 + d) div 2 ^ 24 = a"
    and "(a * 2 ^ 24 + b * 2 ^ 16 + c * 2 ^ 8 + d) div 2 ^ 16 = a * 256 + b"
    and "(a * 2 ^ 24 + b * 2 ^ 16 + c * 2 ^ 8 + d) div 2 ^ 8 = a * 65536 + b * 256 + c"
proof -
  have "a * 2 ^ 24 + b * 2 ^ 16 + c * 2 ^ 8 + d = a * 2 ^ 24 + (b * 65536 + c * 256 + d)" by simp
  moreover have "b * 65536 + c * 256 + d < 2 ^ 24" using assms by simp
  ultimately show "(a * 2 ^ 24 + b * 2 ^ 16 + c * 2 ^ 8 + d) div 2 ^ 24 = a" by (simp add: div_mult_self3)
  have "a * 2 ^ 24 + b * 2 ^ 16 + c * 2 ^ 8 + d = (a * 256 + b) * 2 ^ 16 + (c * 256 + d)" by simp
  moreover have "c * 256 + d < 2 ^ 16" using assms by simp
  ultimately show "(a * 2 ^ 24 + b * 2 ^ 16 + c * 2 ^ 8 + d) div 2 ^ 16 = a * 256 + b" by (simp add: div_mult_self3)
  have "a * 2 ^ 24 + b * 2 ^ 16 + c * 2 ^ 8 + d = (a * 65536 + b * 256 + c) * 2 ^ 8 + d" by simp
  then show "(a * 2 ^ 24 + b * 2 ^ 16 + c * 2 ^ 8 + d) div 2 ^ 8 = a * 65536 + b * 256 + c"
    using assms(3) by (simp add: div_mult_self3)
qed

text \<open>The blocks between the byte boundaries, from the two before.\<close>

lemma v4_number_div_odd:
  assumes "b < 256" "c < 256" "d < (256 :: nat)"
  shows "(a * 2 ^ 24 + b * 2 ^ 16 + c * 2 ^ 8 + d) div 2 ^ 28 = a div 16"
    and "(a * 2 ^ 24 + b * 2 ^ 16 + c * 2 ^ 8 + d) div 2 ^ 22 = a * 4 + b div 64"
    and "(a * 2 ^ 24 + b * 2 ^ 16 + c * 2 ^ 8 + d) div 2 ^ 20 = a * 16 + b div 16"
    and "(a * 2 ^ 24 + b * 2 ^ 16 + c * 2 ^ 8 + d) div 2 ^ 17 = a * 128 + b div 2"
proof -
  let ?n = "a * 2 ^ 24 + b * 2 ^ 16 + c * 2 ^ 8 + d"
  have "?n div 2 ^ 28 = ?n div 2 ^ 24 div 16" by (simp add: div_mult2_eq [symmetric])
  then show "?n div 2 ^ 28 = a div 16" using v4_number_div(1) [OF assms] by simp
  have *: "?n div 2 ^ (16 + k) = (a * 256 + b) div 2 ^ k" for k
    using v4_number_div(2) [OF assms] by (simp add: power_add div_mult2_eq)
  show "?n div 2 ^ 22 = a * 4 + b div 64" using * [of 6] by (simp add: div_mult_self3)
  show "?n div 2 ^ 20 = a * 16 + b div 16" using * [of 4] by (simp add: div_mult_self3)
  show "?n div 2 ^ 17 = a * 128 + b div 2" using * [of 1] by (simp add: div_mult_self3)
qed

lemma digits_eq: "q < k \<Longrightarrow> q' < k \<Longrightarrow> p * k + q = p' * k + q' \<longleftrightarrow> p = p' \<and> q = (q' :: nat)"
proof
  assume lt: "q < k" "q' < k" and eq: "p * k + q = p' * k + q'"
  have "(p * k + q) div k = p" "(p' * k + q') div k = p'" using lt by (simp_all add: div_mult_self3)
  then show "p = p' \<and> q = q'" using eq by simp
qed simp

text \<open>Two addresses share a prefix if their bytes do, the last one in its leading bits.\<close>

lemma in_block_V4:
  "in_block (v4_number (V4 a b c d)) (V4 x y z w, 4) \<longleftrightarrow> unat a div 16 = unat x div 16"
  "in_block (v4_number (V4 a b c d)) (V4 x y z w, 8) \<longleftrightarrow> a = x"
  "in_block (v4_number (V4 a b c d)) (V4 x y z w, 10) \<longleftrightarrow> a = x \<and> unat b div 64 = unat y div 64"
  "in_block (v4_number (V4 a b c d)) (V4 x y z w, 12) \<longleftrightarrow> a = x \<and> unat b div 16 = unat y div 16"
  "in_block (v4_number (V4 a b c d)) (V4 x y z w, 15) \<longleftrightarrow> a = x \<and> unat b div 2 = unat y div 2"
  "in_block (v4_number (V4 a b c d)) (V4 x y z w, 16) \<longleftrightarrow> a = x \<and> b = y"
  "in_block (v4_number (V4 a b c d)) (V4 x y z w, 24) \<longleftrightarrow> a = x \<and> b = y \<and> c = z"
proof -
  note D = v4_number_div [OF u8_lt u8_lt u8_lt] and E = v4_number_div_odd [OF u8_lt u8_lt u8_lt]
  note W = in_block_def v4_number.simps fst_conv snd_conv word_unat_eq_iff [where 'a = 8]
  have lt: "unat u div 64 < 4" "unat u div 16 < 16" "unat u div 2 < 128" for u :: u8 using u8_lt [of u] by linarith+
  have sub: "32 - 4 = (28::nat)" "32 - 8 = (24::nat)" "32 - 10 = (22::nat)" "32 - 12 = (20::nat)" "32 - 15 = (17::nat)"
    "32 - 16 = (16::nat)" "32 - 24 = (8::nat)" by simp_all
  show "in_block (v4_number (V4 a b c d)) (V4 x y z w, 4) \<longleftrightarrow> unat a div 16 = unat x div 16"
    unfolding W sub E(1) ..
  show "in_block (v4_number (V4 a b c d)) (V4 x y z w, 8) \<longleftrightarrow> a = x"
    unfolding W sub D(1) ..
  show "in_block (v4_number (V4 a b c d)) (V4 x y z w, 10) \<longleftrightarrow> a = x \<and> unat b div 64 = unat y div 64"
    unfolding W sub E(2) by (rule digits_eq [OF lt(1) lt(1)])
  show "in_block (v4_number (V4 a b c d)) (V4 x y z w, 12) \<longleftrightarrow> a = x \<and> unat b div 16 = unat y div 16"
    unfolding W sub E(3) by (rule digits_eq [OF lt(2) lt(2)])
  show "in_block (v4_number (V4 a b c d)) (V4 x y z w, 15) \<longleftrightarrow> a = x \<and> unat b div 2 = unat y div 2"
    unfolding W sub E(4) by (rule digits_eq [OF lt(3) lt(3)])
  show 16: "in_block (v4_number (V4 a b c d)) (V4 x y z w, 16) \<longleftrightarrow> a = x \<and> b = y"
    unfolding W sub D(2) by (rule digits_eq [OF u8_lt u8_lt])
  have "(unat a * 65536 + unat b * 256 + unat c = unat x * 65536 + unat y * 256 + unat z) \<longleftrightarrow>
      (unat a * 256 + unat b) * 256 + unat c = (unat x * 256 + unat y) * 256 + unat z" by (simp add: algebra_simps)
  also have "\<dots> \<longleftrightarrow> (unat a = unat x \<and> unat b = unat y) \<and> unat c = unat z"
    unfolding digits_eq [OF u8_lt [of c] u8_lt [of z]] digits_eq [OF u8_lt [of b] u8_lt [of y]] ..
  finally show "in_block (v4_number (V4 a b c d)) (V4 x y z w, 24) \<longleftrightarrow> a = x \<and> b = y \<and> c = z"
    unfolding W sub D(3) by blast
qed

lemma same_tests:
  "(U \<Longrightarrow> Z) \<Longrightarrow> (B \<Longrightarrow> H) \<Longrightarrow>
    (\<not> (U \<or> L \<or> (P1 \<or> P2 \<or> P3) \<or> K \<or> B \<or> (D1 \<or> D2 \<or> D3) \<or> M \<or> Z \<or> C \<or> N \<or> T \<or> H)) =
    (\<not> (Z \<or> P1 \<or> C \<or> L \<or> K \<or> P2 \<or> N \<or> D1 \<or> P3 \<or> T \<or> D2 \<or> D3 \<or> M \<or> H))"
  by blast

text \<open>
  C12: The guard is the table of reserved blocks. The tests on the bytes of an IPv4 address, with
  their masks and comparisons, accept exactly the addresses outside the fourteen special-purpose
  blocks, read as prefixes of the 32-bit number.
\<close>

theorem guard_is_block_table:
  "is_global (IP4 ip) \<longleftrightarrow> \<not> list_ex (in_block (v4_number ip)) reserved_blocks"
proof (cases ip)
  case (V4 a b c d)
  have b12: "unat b div 16 = Suc 0 \<longleftrightarrow> 16 \<le> b \<and> b \<le> 31"
    using u8_lt [of b] by (auto simp: word_le_nat_alt)
  have a4: "unat a div 16 = 14 \<longleftrightarrow> 224 \<le> a \<and> a \<le> 239" "unat a div 16 = 15 \<longleftrightarrow> 240 \<le> a"
    using u8_lt [of a] by (auto simp: word_le_nat_alt)
  have "list_ex (in_block (v4_number (V4 a b c d))) reserved_blocks \<longleftrightarrow>
    a = 0 \<or> a = 10 \<or> (a = 100 \<and> b AND 0xc0 = 64) \<or> a = 127 \<or> (a = 169 \<and> b = 254) \<or> (a = 172 \<and> 16 \<le> b \<and> b \<le> 31) \<or>
    (a = 192 \<and> b = 0 \<and> c = 0) \<or> (a = 192 \<and> b = 0 \<and> c = 2) \<or> (a = 192 \<and> b = 168) \<or> (a = 198 \<and> b AND 0xfe = 18) \<or>
    (a = 198 \<and> b = 51 \<and> c = 100) \<or> (a = 203 \<and> b = 0 \<and> c = 113) \<or> (224 \<le> a \<and> a \<le> 239) \<or> 240 \<le> a"
    by (simp add: reserved_blocks_def in_block_V4 mask_c0 mask_fe b12 a4 del: v4_number.simps)
  then show ?thesis
    unfolding V4 is_global.simps is_global_v4.simps v4_unspecified.simps v4_loopback.simps v4_private.simps v4_link_local.simps
      v4_broadcast.simps v4_documentation.simps v4_multicast.simps
    by (rule ssubst) (rule same_tests, simp_all)
qed

text \<open>
  The addresses a request through the public client may connect to: of a literal host its own, of a
  name what the resolver lets through.
\<close>

definition connects_to :: "(string \<Rightarrow> string + ip_addr list) \<Rightarrow> url \<Rightarrow> ip_addr set" where
  "connects_to lookup_host u =
    (case u_host u of
       Some (H_Ipv4 ip) \<Rightarrow> {IP4 ip}
     | Some (H_Ipv6 ip) \<Rightarrow> {IP6 ip}
     | Some (H_Domain n) \<Rightarrow> (case resolve_global n (lookup_host n) of Inl _ \<Rightarrow> {} | Inr as \<Rightarrow> set as)
     | None \<Rightarrow> {})"

lemma public_request_global:
  "host_allowed u \<Longrightarrow> ip \<in> connects_to lookup_host u \<Longrightarrow> is_global ip"
  by (auto simp: host_allowed_def connects_to_def resolve_global_def Let_def split: option.splits url_host.splits sum.splits if_splits)

lemma public_redirect_global:
  "public_redirect previous u = R_Follow \<Longrightarrow> length previous < 5 \<and> is_http u \<and> host_allowed u"
  by (auto simp: public_redirect_def split: if_splits)

section \<open>Pauses of a host\<close>

definition hosts_ok :: "hosts \<Rightarrow> bool" where
  "hosts_ok hs \<longleftrightarrow> (\<forall>n e. hs n = Some e \<longrightarrow> h_last_pause e \<le> MAX_PAUSE)"

lemma next_pause_bounds: "MIN_PAUSE \<le> next_pause e r \<and> next_pause e r \<le> MAX_PAUSE"
  by (simp add: next_pause_def clamp_def MIN_PAUSE_def MAX_PAUSE_def)

lemma hosts_ok_steps:
  "hosts_ok hs \<Longrightarrow> hosts_ok (snd (acquire now n hs))"
  "hosts_ok hs \<Longrightarrow> hosts_ok (snd (back_off now n r hs))"
  "hosts_ok hs \<Longrightarrow> hosts_ok (succeeded n hs)"
  using next_pause_bounds
  by (auto simp: hosts_ok_def acquire_def back_off_def succeeded_def Let_def split: option.splits if_splits)

text \<open>After a host was paused it is not asked before the pause is over.\<close>

lemma paused_host_waits:
  assumes "hs n = Some e" "h_paused_until e = None" "back_off now n r hs = (p, hs')" "t < now + p"
  shows "fst (acquire t n hs') = Wait (now + p - t)"
  using assms by (auto simp: back_off_def acquire_def Let_def)

lemma pause_doubles:
  assumes "hs n = Some e" "h_paused_until e = None"
  shows "fst (back_off now n None hs) = min MAX_PAUSE (max (2 * h_last_pause e) MIN_PAUSE)"
  using assms by (simp add: back_off_def next_pause_def clamp_def Let_def MIN_PAUSE_def MAX_PAUSE_def)

section \<open>One download per asset\<close>

text \<open>
  The stream and the re-drive offer downloads; workers take jobs from the channel and finish them or
  put them to sleep; a sleeping job goes back when there is room. The write-back may fail.
\<close>

definition all_jobs :: "shared \<Rightarrow> job list" where
  "all_jobs s = sh_queue s @ sh_working s @ sh_sleeping s"

inductive download_step :: "downloader_args \<Rightarrow> downloader \<Rightarrow> shared \<times> db \<Rightarrow> shared \<times> db \<Rightarrow> bool" for A D where
  request: "download_step A D (s, d) (snd (enqueue A i uri s), d)"
| take_job: "sh_queue s = j # q \<Longrightarrow> download_step A D (s, d) (s\<lparr>sh_queue := q, sh_working := j # sh_working s\<rparr>, d)"
| over: "j \<in> set (sh_working s) \<Longrightarrow> process A D now t1 j (sh_hosts s) = (Over res, hs) \<Longrightarrow>
    d' = d \<or> (\<exists>body. res = Some body \<and> d' = store_result j body d) \<Longrightarrow>
    download_step A D (s, d) (finish (j_asset_data_id j) (s\<lparr>sh_working := remove1 j (sh_working s), sh_hosts := hs\<rparr>), d')"
| sleep: "j \<in> set (sh_working s) \<Longrightarrow> process A D now t1 j (sh_hosts s) = (Sleep j' delay, hs) \<Longrightarrow>
    download_step A D (s, d) (s\<lparr>sh_working := remove1 j (sh_working s), sh_sleeping := j' # sh_sleeping s, sh_hosts := hs\<rparr>, d)"
| wake: "j \<in> set (sh_sleeping s) \<Longrightarrow> length (sh_queue s) < channel_size A \<Longrightarrow>
    download_step A D (s, d) (s\<lparr>sh_queue := sh_queue s @ [j], sh_sleeping := remove1 j (sh_sleeping s)\<rparr>, d)"
| others: "download_step A D (s, d) (s, d')"

inductive download_reach :: "downloader_args \<Rightarrow> downloader \<Rightarrow> shared \<times> db \<Rightarrow> bool" for A D where
  init: "download_reach A D (\<lparr>sh_pending = {}, sh_queue = [], sh_working = [], sh_sleeping = [], sh_hosts = Map.empty\<rparr>, d)"
| step: "download_reach A D x \<Longrightarrow> download_step A D x y \<Longrightarrow> download_reach A D y"

definition ids :: "job list \<Rightarrow> bytes multiset" where
  "ids js = mset (map j_asset_data_id js)"

definition jobs_ok :: "downloader_args \<Rightarrow> shared \<Rightarrow> bool" where
  "jobs_ok A s \<longleftrightarrow> distinct (map j_asset_data_id (all_jobs s)) \<and> sh_pending s = set (map j_asset_data_id (all_jobs s)) \<and>
    length (sh_queue s) \<le> channel_size A \<and> hosts_ok (sh_hosts s)"

lemma ids_all_jobs: "ids (all_jobs s) = ids (sh_queue s) + ids (sh_working s) + ids (sh_sleeping s)"
  by (simp add: ids_def all_jobs_def)

lemma ids_remove1: "j \<in> set xs \<Longrightarrow> ids xs = add_mset (j_asset_data_id j) (ids (remove1 j xs))"
  by (induction xs) (auto simp: ids_def)

lemma ids_simps [simp]:
  "ids [] = {#}" "ids (j # js) = add_mset (j_asset_data_id j) (ids js)" "ids (xs @ ys) = ids xs + ids ys"
  by (simp_all add: ids_def)

lemma distinct_count: "distinct xs \<longleftrightarrow> (\<forall>x. count (mset xs) x \<le> 1)"
proof
  assume "distinct xs"
  then show "\<forall>x. count (mset xs) x \<le> 1" by (simp add: distinct_count_atmost_1)
next
  assume le: "\<forall>x. count (mset xs) x \<le> 1"
  have "count (mset xs) a = (if a \<in> set xs then 1 else 0)" for a
  proof (cases "a \<in> set xs")
    case True
    then have "0 < count (mset xs) a" by simp
    with le [rule_format, of a] have "count (mset xs) a = 1" by linarith
    with True show ?thesis by simp
  qed (simp add: count_eq_zero_iff)
  then show "distinct xs" by (simp add: distinct_count_atmost_1)
qed

lemma jobs_ok_iff:
  "jobs_ok A s \<longleftrightarrow> (\<forall>x. count (ids (all_jobs s)) x \<le> 1) \<and> sh_pending s = set_mset (ids (all_jobs s)) \<and>
    length (sh_queue s) \<le> channel_size A \<and> hosts_ok (sh_hosts s)"
proof -
  have "distinct (map j_asset_data_id (all_jobs s)) \<longleftrightarrow> (\<forall>x. count (ids (all_jobs s)) x \<le> 1)"
    unfolding ids_def by (rule distinct_count)
  then show ?thesis by (simp add: jobs_ok_def ids_def)
qed

lemma retry_or_give_up_same: "retry_or_give_up A job delay = Sleep j d \<Longrightarrow> j_asset_data_id j = j_asset_data_id job \<and> j_uri j = j_uri job"
  by (auto simp: retry_or_give_up_def Let_def split: if_splits)

lemma process_result:
  assumes "process A D now t1 job hs = (r, hs')" "hosts_ok hs"
  shows "hosts_ok hs'" "r = Sleep j d \<Longrightarrow> j_asset_data_id j = j_asset_data_id job \<and> j_uri j = j_uri job"
proof -
  have ok: "hosts_ok (snd (acquire now n hs))" for n using hosts_ok_steps(1) [OF assms(2)] .
  show "hosts_ok hs'"
    using assms ok hosts_ok_steps(2,3)
    by (auto simp: process_def process_fetched_def Let_def split: option.splits prod.splits host_slot.splits sum.splits failure.splits if_splits)
      (metis snd_conv)+
  show "j_asset_data_id j = j_asset_data_id job \<and> j_uri j = j_uri job" if "r = Sleep j d"
    using assms that retry_or_give_up_same
    by (auto simp: process_def process_fetched_def Let_def split: option.splits prod.splits host_slot.splits sum.splits failure.splits if_splits)
qed

lemma jobs_ok_step:
  assumes "download_step A D (s, d) (t, d')" "jobs_ok A s"
  shows "jobs_ok A t"
  using assms(1)
proof cases
  case (request i uri)
  show ?thesis
  proof (cases "i \<in> sh_pending s")
    case False
    then have "count (ids (all_jobs s)) i = 0" using assms(2) by (simp add: jobs_ok_iff count_eq_zero_iff)
    with request assms(2) False show ?thesis
      by (auto simp: jobs_ok_iff enqueue_def ids_all_jobs)
  qed (use request assms(2) in \<open>simp add: enqueue_def\<close>)
next
  case (take_job j q)
  then have "ids (all_jobs t) = ids (all_jobs s)" by (simp add: ids_all_jobs)
  with take_job assms(2) show ?thesis by (simp add: jobs_ok_iff)
next
  case (over j now t1 res hs)
  let ?u = "s\<lparr>sh_working := remove1 j (sh_working s), sh_hosts := hs\<rparr>"
  have all: "ids (all_jobs s) = add_mset (j_asset_data_id j) (ids (all_jobs ?u))"
    using ids_remove1 [OF over(2)] by (simp add: ids_all_jobs)
  have le: "\<forall>x. count (ids (all_jobs s)) x \<le> 1" using assms(2) by (simp add: jobs_ok_iff)
  from le [rule_format, of "j_asset_data_id j"] have "count (ids (all_jobs ?u)) (j_asset_data_id j) = 0" unfolding all by simp
  moreover have "count (ids (all_jobs ?u)) x \<le> 1" for x using le [rule_format, of x] unfolding all by (auto split: if_splits)
  moreover have "ids (all_jobs t) = ids (all_jobs ?u)" using over(1) by (simp add: finish_def all_jobs_def)
  ultimately show ?thesis
    using over(1) assms(2) all process_result(1) [OF over(3)] by (auto simp: jobs_ok_iff finish_def count_eq_zero_iff)
next
  case (sleep j now t1 j' delay hs)
  have "j_asset_data_id j' = j_asset_data_id j" using process_result(2) [OF sleep(4)] assms(2) by (simp add: jobs_ok_iff)
  then have "ids (all_jobs t) = ids (all_jobs s)" using sleep(1) ids_remove1 [OF sleep(3)] by (simp add: ids_all_jobs)
  with sleep(1) assms(2) process_result(1) [OF sleep(4)] show ?thesis by (simp add: jobs_ok_iff)
next
  case (wake j)
  then have "ids (all_jobs t) = ids (all_jobs s)" using ids_remove1 [OF wake(3)] by (simp add: ids_all_jobs)
  with wake assms(2) show ?thesis by (simp add: jobs_ok_iff)
next
  case others
  then show ?thesis using assms(2) by simp
qed

lemma jobs_ok_reach: "download_reach A D x \<Longrightarrow> jobs_ok A (fst x)"
proof (induction rule: download_reach.induct)
  case (init d)
  show ?case by (simp add: jobs_ok_def all_jobs_def hosts_ok_def)
next
  case (step x y)
  then show ?case using jobs_ok_step [of A D "fst x" "snd x" "fst y" "snd y"] by simp
qed

text \<open>
  C10: At most one download per asset. In every state of the stream's requests, the workers, the
  retries and the re-drive, the set of pending assets is exactly the set of assets with a job in the
  channel, in a worker or asleep, and no asset has two; the channel keeps its bound.
\<close>

theorem one_download_per_asset:
  assumes "download_reach A D (s, d)"
  shows "distinct (map j_asset_data_id (sh_queue s @ sh_working s @ sh_sleeping s)) \<and>
    sh_pending s = j_asset_data_id ` set (sh_queue s @ sh_working s @ sh_sleeping s) \<and> length (sh_queue s) \<le> max (ma_queue A) 1"
  using jobs_ok_reach [OF assms] by (simp add: jobs_ok_def all_jobs_def channel_size_def image_Un)

definition downloader_args0 :: downloader_args where
  "downloader_args0 = \<lparr>ma_queue = 4, ma_max_bytes = 100, ma_max_attempts = 5, ma_redrive_batch = 2\<rparr>"

definition shared0 :: shared where
  "shared0 = \<lparr>sh_pending = {[7]}, sh_queue = [\<lparr>j_asset_data_id = [7], j_uri = ''u'', j_attempt = 0\<rparr>], sh_working = [], sh_sleeping = [],
     sh_hosts = Map.empty\<rparr>"

theorem one_download_per_asset_witness:
  "\<exists>D. download_reach downloader_args0 D (shared0, empty_db) \<and> sh_pending shared0 = j_asset_data_id ` set (sh_queue shared0)"
proof -
  let ?D = "\<lparr>dw_parse = \<lambda>_. None, dw_set_path = \<lambda>_ u. u,
    dw_gateway = \<lparr>gw_base = \<lparr>u_scheme = ''http'', u_host = None, u_host_str = None, u_port_or_known_default = None, u_path = [], u_query = None\<rparr>,
      gw_rewrite_public = False\<rparr>, dw_get = \<lambda>_ _. Inl [], dw_from_slice = \<lambda>_. Inr JNull\<rparr>"
  let ?s = "\<lparr>sh_pending = {}, sh_queue = [], sh_working = [], sh_sleeping = [], sh_hosts = Map.empty\<rparr>"
  have "download_step downloader_args0 ?D (?s, empty_db) (snd (enqueue downloader_args0 [7] ''u'' ?s), empty_db)" by (rule download_step.request)
  moreover have "snd (enqueue downloader_args0 [7] ''u'' ?s) = shared0"
    by (simp add: enqueue_def channel_size_def downloader_args0_def shared0_def)
  ultimately have r: "download_reach downloader_args0 ?D (shared0, empty_db)" using download_reach.step [OF download_reach.init] by metis
  from one_download_per_asset [OF r] r show ?thesis by (intro exI [of _ ?D]) (simp add: shared0_def)
qed

section \<open>The re-drive\<close>

lemma offer_all_ids: "map fst (fst (offer_all A rs s)) = map ad_id rs"
  by (induction rs arbitrary: s) (simp_all split: prod.splits, metis fst_conv)

text \<open>Sorted rows with different keys, cut after a key.\<close>

lemma sorted_after_last:
  assumes "sorted_wrt (\<lambda>r q. ad_id r < ad_id q) L" "0 < n" "n \<le> length L"
  shows "filter (\<lambda>r. ad_id (last (take n L)) < ad_id r) L = drop n L"
proof -
  have "take n L \<noteq> []" using assms(2,3) by auto
  then obtain a where a: "take n L = butlast (take n L) @ [a]" "a = last (take n L)" by (metis append_butlast_last_id)
  have L: "L = butlast (take n L) @ [a] @ drop n L" using a(1) by (metis append.assoc append_take_drop_id)
  have s: "sorted_wrt (\<lambda>r q. ad_id r < ad_id q) (butlast (take n L) @ [a] @ drop n L)" using assms(1) L by simp
  have "\<forall>r\<in>set (butlast (take n L)). ad_id r < ad_id a" "\<forall>r\<in>set (drop n L). ad_id a < ad_id r"
    using s by (auto simp: sorted_wrt_append)
  then have "filter (\<lambda>r. ad_id a < ad_id r) (butlast (take n L) @ [a] @ drop n L) = drop n L"
    by (auto simp: filter_empty_conv dest: order.asym)
  then show ?thesis using L a(2) by metis
qed

lemma owed_sorted:
  assumes "table_ok ad_id t"
  shows "sorted_wrt (\<lambda>r q. ad_id r < ad_id q) (sort_key ad_id (filter owed t))" (is "sorted_wrt _ ?L")
proof -
  have "sorted (map ad_id ?L)" by simp
  moreover have "inj_on ad_id (set t)" "distinct t" using assms by (simp_all add: table_ok_def distinct_map)
  then have "distinct (map ad_id ?L)" by (auto simp: distinct_map intro: inj_on_subset)
  ultimately have "sorted_wrt (<) (map ad_id ?L)" by (simp add: strict_sorted_iff)
  then show ?thesis by (simp add: sorted_wrt_map)
qed

lemma redrive_rows_eq: "redrive_rows A after t = take (unat (redrive_limit A)) (filter (\<lambda>r. after < ad_id r) (sort_key ad_id (filter owed t)))"
  by (simp add: redrive_rows_def filter_sort conj_commute)

lemma redrive_limit_pos: "0 < unat (redrive_limit A)"
proof -
  have "1 \<le> redrive_limit A" by (simp add: redrive_limit_def)
  then have "1 \<le> unat (redrive_limit A)" by (simp add: word_le_nat_alt)
  then show ?thesis by simp
qed

text \<open>What \<open>others\<close> and the database must allow: room in the channel, and one table for the whole pass.\<close>

definition undisturbed :: "downloader_args \<Rightarrow> (nat \<Rightarrow> string + asset_data list) \<Rightarrow> (nat \<Rightarrow> shared \<Rightarrow> shared) \<Rightarrow> asset_data list \<Rightarrow> bool" where
  "undisturbed A tables others t \<longleftrightarrow>
    (\<forall>n. tables n = Inr t) \<and> (\<forall>n s. ma_queue A div 2 \<le> channel_size A - length (sh_queue (others n s))) \<and> 0 \<le> as_i64 (redrive_limit A)"

lemma redrive_pass_undisturbed:
  assumes "undisturbed A tables others t"
  shows "redrive_pass A tables others n after s =
    (let rows = redrive_rows A after t; offered = offer_all A rows (others n s) in
     if length rows = unat (redrive_limit A)
     then Option.bind (redrive_pass A tables others (Suc n) (ad_id (last rows)) (snd offered)) (\<lambda>(a, os, s'). Some (a, fst offered @ os, s'))
     else Some ([], fst offered, snd offered))"
proof -
  have "\<not> channel_size A - length (sh_queue (others n s)) < ma_queue A div 2" "tables n = Inr t" "\<not> as_i64 (redrive_limit A) < 0"
    using assms by (simp_all add: undisturbed_def not_less)
  then show ?thesis by (subst redrive_pass.simps) (simp add: Let_def)
qed

lemma redrive_from:
  assumes "undisturbed A tables others t" "table_ok ad_id t" "filter (\<lambda>r. after < ad_id r) (sort_key ad_id (filter owed t)) = R"
  shows "\<exists>os s'. redrive_pass A tables others n after s = Some ([], os, s') \<and> map fst os = map ad_id R"
  using assms(3)
proof (induction "length R" arbitrary: R after n s rule: less_induct)
  case less
  let ?k = "unat (redrive_limit A)" and ?L = "sort_key ad_id (filter owed t)"
  have rows: "redrive_rows A after t = take ?k R" using less.prems by (simp add: redrive_rows_eq)
  note eq = redrive_pass_undisturbed [OF assms(1), of n after s, unfolded rows Let_def]
  show ?case
  proof (cases "?k \<le> length R")
    case False
    then show ?thesis unfolding eq
      by (intro exI [of _ "fst (offer_all A R (others n s))"] exI [of _ "snd (offer_all A R (others n s))"]) (simp add: offer_all_ids)
  next
    case True
    have sR: "sorted_wrt (\<lambda>r q. ad_id r < ad_id q) R" using owed_sorted [OF assms(2)] less.prems sorted_wrt_filter by blast
    let ?a = "ad_id (last (take ?k R))"
    have "last (take ?k R) \<in> set R" using True redrive_limit_pos [of A] by (metis last_in_set take_eq_Nil in_set_takeD less_nat_zero_code linorder_not_le list.size(3))
    then have "after < ?a" using less.prems by auto
    then have "filter (\<lambda>r. ?a < ad_id r) ?L = filter (\<lambda>r. ?a < ad_id r) R"
      unfolding less.prems [symmetric] filter_filter by (intro filter_cong) auto
    also have "\<dots> = drop ?k R" by (rule sorted_after_last [OF sR redrive_limit_pos True])
    finally have rest: "filter (\<lambda>r. ?a < ad_id r) ?L = drop ?k R" .
    have "length (drop ?k R) < length R" using True redrive_limit_pos [of A] by simp
    from less.hyps [OF this rest, of "Suc n" "snd (offer_all A (take ?k R) (others n s))"]
    obtain os s' where "redrive_pass A tables others (Suc n) ?a (snd (offer_all A (take ?k R) (others n s))) = Some ([], os, s')"
      "map fst os = map ad_id (drop ?k R)" by blast
    moreover have "map ad_id (take ?k R) @ map ad_id (drop ?k R) = map ad_id R" by (simp flip: map_append)
    ultimately show ?thesis using True unfolding eq by (simp add: offer_all_ids)
  qed
qed

text \<open>
  C11: A wake-up of the re-drive ends and offers every owed download. While the channel has room and
  the table stands still, the loop over batches terminates, starts over at the beginning, and has
  offered to the queue exactly the rows with \<open>reindex\<close> set and an address, each once, in the order
  of their identifiers.
\<close>

theorem redrive_offers_owed:
  assumes "undisturbed A tables others t" "table_ok ad_id t" "\<forall>r\<in>set t. ad_id r \<noteq> []"
  shows "\<exists>os s'. redrive_pass A tables others n [] s = Some ([], os, s') \<and> map fst os = map ad_id (sort_key ad_id (filter owed t))"
proof -
  have "filter (\<lambda>r. [] < ad_id r) (sort_key ad_id (filter owed t)) = sort_key ad_id (filter owed t)"
    using assms(3) by (auto intro!: filter_True) (metis Nil_less_Cons neq_Nil_conv)
  from redrive_from [OF assms(1,2) this] show ?thesis .
qed

definition owed0 :: "u8 \<Rightarrow> asset_data" where
  "owed0 n = \<lparr>ad_id = [n], ad_chain_data_mutability = CM_Mutable, ad_chain_data = JNull, ad_metadata_url = ''u'',
     ad_metadata_mutability = M_Mutable, ad_metadata = JNull, ad_slot_updated = 1, ad_reindex = Some True, ad_raw_name = None,
     ad_raw_symbol = None, ad_base_info_seq = None\<rparr>"

theorem redrive_offers_owed_witness:
  "\<exists>os s'. redrive_pass downloader_args0 (\<lambda>_. Inr [owed0 3, owed0 1, owed0 2]) (\<lambda>_ s. s\<lparr>sh_queue := []\<rparr>) 0 [] shared0 = Some ([], os, s') \<and>
     map fst os = [[1], [2], [3]]"
proof -
  have u: "undisturbed downloader_args0 (\<lambda>_. Inr [owed0 3, owed0 1, owed0 2]) (\<lambda>_ s. s\<lparr>sh_queue := []\<rparr>) [owed0 3, owed0 1, owed0 2]"
    by (simp add: undisturbed_def downloader_args0_def channel_size_def redrive_limit_def as_i64_def)
  have t: "table_ok ad_id [owed0 3, owed0 1, owed0 2]" "\<forall>r\<in>set [owed0 3, owed0 1, owed0 2]. ad_id r \<noteq> []"
    by (simp_all add: table_ok_def owed0_def)
  have "map ad_id (sort_key ad_id (filter owed [owed0 3, owed0 1, owed0 2])) = [[1], [2], [3]]"
    by (simp add: owed_def owed0_def)
  with redrive_offers_owed [OF u t, of 0 shared0] show ?thesis by simp
qed

section \<open>Downloads and write-backs\<close>

lemma read_body_bound: "read_body m cs b = Inr body \<Longrightarrow> length b \<le> m \<Longrightarrow> length body \<le> m"
  by (induction m cs b rule: read_body.induct) (auto split: if_splits)

text \<open>The answer of the last try, which is one of the first \<open>max_write_attempts\<close>.\<close>

lemma with_db_retry_tries:
  "\<exists>k\<ge>a. with_db_retry m op a = op k \<and> (k = a \<or> k < unat m) \<and> (\<forall>i. a \<le> i \<and> i < k \<longrightarrow> (\<exists>e. op i = Inl e \<and> is_retryable e))"
proof (induction m op a rule: with_db_retry.induct)
  case (1 m op a)
  show ?case
  proof (cases "\<exists>e. op a = Inl e \<and> is_retryable e \<and> a + 1 < unat m")
    case True
    then obtain e where e: "op a = Inl e" "is_retryable e" "a + 1 < unat m" by blast
    with 1 obtain k where k: "k \<ge> a + 1" "with_db_retry m op (a + 1) = op k" "k = a + 1 \<or> k < unat m"
      "\<forall>i. a + 1 \<le> i \<and> i < k \<longrightarrow> (\<exists>e. op i = Inl e \<and> is_retryable e)" by blast
    have "\<forall>i. a \<le> i \<and> i < k \<longrightarrow> (\<exists>e. op i = Inl e \<and> is_retryable e)"
      using k(4) e by (metis Suc_eq_plus1 le_neq_implies_less not_less_eq_eq linorder_not_less)
    moreover have "with_db_retry m op a = op k" using e k(2) by (subst with_db_retry.simps) simp
    moreover have "k < unat m" using k(3) e(3) by auto
    ultimately show ?thesis using k(1) by (intro exI [of _ k]) simp
  next
    case False
    then have "with_db_retry m op a = op a" by (subst with_db_retry.simps) (auto split: sum.splits)
    then show ?thesis by (intro exI [of _ a]) auto
  qed
qed

text \<open>A job ends without a write-back only when its attempts are used up; its row is then still owed.\<close>

lemma process_gives_up:
  assumes "process A D now t1 job hs = (Over None, hs')"
  shows "ma_max_attempts A \<le> j_attempt job + 1"
  using assms
  by (auto simp: process_def process_fetched_def retry_or_give_up_def Let_def
      split: option.splits prod.splits host_slot.splits sum.splits failure.splits if_splits)

lemma store_result_other:
  "r \<in> set (asset_data_t d) \<Longrightarrow> ad_id r \<noteq> j_asset_data_id job \<or> ad_metadata_url r \<noteq> j_uri job \<Longrightarrow> r \<in> set (asset_data_t (store_result job body d))"
  by (force simp: store_result_def)

end
