(* ===== verification/Labelled_Runs.thy ===== *)
theory Labelled_Runs
  imports Main
begin

text \<open>
  Runs of a system whose steps are named: the processes of the purge (\<open>ops\<close>) are modelled by a partial
  function from an action and a state to the next state, where \<open>None\<close> says that the action is not possible.
  An interleaving of the processes is a list of actions. The locale \<open>run_invariant\<close> carries a property of the
  states along a run.
\<close>

primrec lrun :: "('l \<Rightarrow> 's \<Rightarrow> 's option) \<Rightarrow> 'l list \<Rightarrow> 's \<Rightarrow> 's option" where
  "lrun step [] s = Some s"
| "lrun step (l # ls) s = Option.bind (step l s) (lrun step ls)"

lemma lrun_append: "lrun step (ls @ ms) s = Option.bind (lrun step ls s) (lrun step ms)"
  by (induction ls arbitrary: s) (auto simp: Option.bind_eq_Some_conv split: Option.bind_splits)

lemma lrun_Cons_Some: "step l s = Some s' \<Longrightarrow> lrun step (l # ls) s = lrun step ls s'"
  by simp

locale run_invariant =
  fixes step :: "'l \<Rightarrow> 's \<Rightarrow> 's option"
    and allowed :: "'l \<Rightarrow> bool"
    and inv :: "'s \<Rightarrow> bool"
  assumes keep: "inv s \<Longrightarrow> allowed l \<Longrightarrow> step l s = Some t \<Longrightarrow> inv t"
begin

lemma run_keeps: "inv s \<Longrightarrow> \<forall>l\<in>set ls. allowed l \<Longrightarrow> lrun step ls s = Some t \<Longrightarrow> inv t"
  by (induction ls arbitrary: s) (auto simp: Option.bind_eq_Some_conv dest: keep)

end

text \<open>A step that leaves a quantity of the state unchanged leaves it unchanged over a run.\<close>

locale run_constant =
  fixes step :: "'l \<Rightarrow> 's \<Rightarrow> 's option"
    and allowed :: "'l \<Rightarrow> bool"
    and inv :: "'s \<Rightarrow> bool"
    and view :: "'s \<Rightarrow> 'v"
  assumes inv_keep: "inv s \<Longrightarrow> allowed l \<Longrightarrow> step l s = Some t \<Longrightarrow> inv t"
    and view_keep: "inv s \<Longrightarrow> allowed l \<Longrightarrow> step l s = Some t \<Longrightarrow> view t = view s"

sublocale run_constant \<subseteq> at_value: run_invariant step allowed "\<lambda>s. inv s \<and> view s = v"
  by unfold_locales (auto intro: inv_keep simp: view_keep)

context run_constant
begin

lemma run_view: "inv s \<Longrightarrow> \<forall>l\<in>set ls. allowed l \<Longrightarrow> lrun step ls s = Some t \<Longrightarrow> view t = view s"
  using at_value.run_keeps [of s "view s" ls t] by simp

end

end
