(* ===== verification/Purger.thy ===== *)
theory Purger
  imports Program_Transformer Labelled_Runs
begin

text \<open>
  The purge of closed accounts (\<open>ops/src/purge/purger.rs\<close>). Three processes are connected by two unbounded
  channels: \<open>Paginate\<close> reads the keys of a table page by page, \<open>MarkDeletion\<close> asks the RPC node for the accounts
  and sends on the keys whose account is gone or belongs to another program, and the purge workers delete
  the rows. \<open>purge_step\<close> is one action of one of the processes; a list of actions is an interleaving.

  The RPC node is the parameter \<open>rpc\<close>: what \<open>get_multiple_accounts\<close> returns at the moment \<open>t\<close> for a list of keys,
  the owners of the accounts, \<open>None\<close> for an error after the retries. The order in which the database returns
  the rows of a query without \<open>ORDER BY\<close> is the order of the table's list.
\<close>

section \<open>The two commands and their tables\<close>

datatype purge_kind = TokenAccountPurge | MintPurge

definition column_keys :: "purge_kind \<Rightarrow> db \<Rightarrow> bytes list" where
  "column_keys k d =
    (case k of TokenAccountPurge \<Rightarrow> map ta_pubkey (token_accounts_t d) | MintPurge \<Rightarrow> map tk_mint (tokens_t d))"

record purge_args =
  purge_worker_count :: u64
  mark_deletion_worker_count :: u64
  batch_size :: u64

text \<open>The defaults of the command line.\<close>

definition default_purge_args :: purge_args where
  "default_purge_args = \<lparr>purge_worker_count = 25, mark_deletion_worker_count = 100, batch_size = 100\<rparr>"

section \<open>Paginate\<close>

text \<open>\<open>Pubkey::try_from_slice\<close> takes exactly 32 bytes.\<close>

definition pubkey_try_from_slice :: "bytes \<Rightarrow> pubkey option" where
  "pubkey_try_from_slice b = (if length b = 32 then Some b else None)"

text \<open>The rows of a page of the paginator: \<open>LIMIT batch_size OFFSET page * batch_size\<close>.\<close>

definition fetch_page :: "nat \<Rightarrow> nat \<Rightarrow> bytes list \<Rightarrow> bytes list" where
  "fetch_page n p rows = take n (drop (p * n) rows)"

definition page_keys :: "bytes list \<Rightarrow> pubkey list" where
  "page_keys rows = List.map_filter pubkey_try_from_slice rows"

section \<open>MarkDeletion\<close>

definition MAX_GET_MULTIPLE_ACCOUNTS :: nat where
  "MAX_GET_MULTIPLE_ACCOUNTS = 100"

text \<open>The owner of an account is a token program.\<close>

definition owned_by_token_program :: "program_ids \<Rightarrow> pubkey \<Rightarrow> bool" where
  "owned_by_token_program P own = (own = id_token P \<or> own = id_token_2022 P)"

fun to_remove :: "program_ids \<Rightarrow> (pubkey \<times> pubkey option) list \<Rightarrow> pubkey list" where
  "to_remove P [] = []"
| "to_remove P ((key, acc) # rest) =
    (case acc of
       Some own \<Rightarrow> if own \<noteq> id_token P \<and> own \<noteq> id_token_2022 P then key # to_remove P rest else to_remove P rest
     | None \<Rightarrow> key # to_remove P rest)"

text \<open>One iteration of the loop over the chunks: what is sent to the purge workers, if anything.\<close>

definition mark_chunk :: "program_ids \<Rightarrow> (pubkey list \<Rightarrow> pubkey option list option) \<Rightarrow> pubkey list \<Rightarrow> pubkey list list" where
  "mark_chunk P get_multiple_accounts chunk =
    (case get_multiple_accounts chunk of
       None \<Rightarrow> []
     | Some accounts \<Rightarrow>
         (let remove = to_remove P (zip chunk accounts) in if remove = [] then [] else [remove]))"

section \<open>The deletions\<close>

definition delete_token_accounts :: "bytes list \<Rightarrow> db \<Rightarrow> db" where
  "delete_token_accounts keys d =
    d\<lparr>token_accounts_t := filter (\<lambda>r. ta_pubkey r \<notin> set keys) (token_accounts_t d)\<rparr>"

definition delete_tokens :: "bytes list \<Rightarrow> db \<Rightarrow> db" where
  "delete_tokens keys d = d\<lparr>tokens_t := filter (\<lambda>r. tk_mint r \<notin> set keys) (tokens_t d)\<rparr>"

definition set_burnt :: "bytes list \<Rightarrow> db \<Rightarrow> db" where
  "set_burnt keys d =
    d\<lparr>asset_t := map (\<lambda>a. if \<not> a_burnt a \<and> a_id a \<in> set keys then a\<lparr>a_burnt := True\<rparr> else a) (asset_t d)\<rparr>"

text \<open>
  \<open>TokenAccountPurge::purge\<close> and \<open>MintPurge::purge\<close>: the flags tell whether the statements succeed; a failure is
  only logged. The two statements of \<open>MintPurge\<close> are independent and touch different tables.
\<close>

definition purge :: "purge_kind \<Rightarrow> bytes list \<Rightarrow> bool \<Rightarrow> bool \<Rightarrow> db \<Rightarrow> db" where
  "purge k keys delete_ok update_ok d =
    (case k of
       TokenAccountPurge \<Rightarrow> if delete_ok then delete_token_accounts keys d else d
     | MintPurge \<Rightarrow>
         (let d' = (if delete_ok then delete_tokens keys d else d) in
          if update_ok then set_burnt keys d' else d'))"

section \<open>The pipeline\<close>

record purge_run =
  pr_db :: db
  pr_page :: nat
  pr_paging :: bool
  pr_found :: "pubkey list list"
  pr_mark_tasks :: "pubkey list list"
  pr_marked :: "pubkey list list"
  pr_purge_tasks :: "pubkey list list"

text \<open>
  The actions: the paginator fetches its next page (or the query fails), a key list is taken from the first
  channel by a new task, a task asks for its next chunk at the moment \<open>t\<close>, a list of marked keys is taken by a
  purge worker, and a purge worker runs.
\<close>

datatype purge_action =
    Fetch bool
  | StartMark
  | Mark nat nat
  | StartPurge
  | Purge_Keys nat bool bool

definition remove_nth :: "nat \<Rightarrow> 'a list \<Rightarrow> 'a list" where
  "remove_nth i xs = take i xs @ drop (Suc i) xs"

text \<open>
  \<open>Paginate::start\<close>. A page without rows or a failed query ends the loop; a page size of zero is refused by the
  paginator with a panic, which ends the task as well.
\<close>

definition paginate_step :: "purge_args \<Rightarrow> purge_kind \<Rightarrow> bool \<Rightarrow> purge_run \<Rightarrow> purge_run" where
  "paginate_step A k query_ok s =
    (let records = fetch_page (unat (batch_size A)) (pr_page s) (column_keys k (pr_db s)) in
     if \<not> query_ok \<or> batch_size A = 0 \<or> records = [] then s\<lparr>pr_paging := False\<rparr>
     else s\<lparr>pr_found := pr_found s @ [page_keys records], pr_page := pr_page s + 1\<rparr>)"

text \<open>
  A manager that holds as many tasks as its worker count waits for one of them before it starts another; with
  a count of zero there is nothing to wait for and it runs one task at a time.
\<close>

definition has_room :: "u64 \<Rightarrow> 'a list \<Rightarrow> bool" where
  "has_room n tasks = (length tasks < max 1 (unat n))"

text \<open>\<open>MarkDeletion::start\<close>: the task \<open>i\<close> handles the first chunk of the keys it has left.\<close>

definition mark_step :: "program_ids \<Rightarrow> (nat \<Rightarrow> pubkey list \<Rightarrow> pubkey option list option) \<Rightarrow> nat \<Rightarrow> nat \<Rightarrow>
    purge_run \<Rightarrow> purge_run" where
  "mark_step P rpc i t s =
    (let keys = pr_mark_tasks s ! i;
         rest = drop MAX_GET_MULTIPLE_ACCOUNTS keys in
     s\<lparr>pr_marked := pr_marked s @ mark_chunk P (rpc t) (take MAX_GET_MULTIPLE_ACCOUNTS keys),
       pr_mark_tasks := (if rest = [] then remove_nth i (pr_mark_tasks s) else (pr_mark_tasks s)[i := rest])\<rparr>)"

fun purge_step :: "program_ids \<Rightarrow> (nat \<Rightarrow> pubkey list \<Rightarrow> pubkey option list option) \<Rightarrow> purge_args \<Rightarrow> purge_kind \<Rightarrow>
    purge_action \<Rightarrow> purge_run \<Rightarrow> purge_run option" where
  "purge_step P rpc A k (Fetch query_ok) s = (if pr_paging s then Some (paginate_step A k query_ok s) else None)"
| "purge_step P rpc A k StartMark s =
    (case pr_found s of
       [] \<Rightarrow> None
     | keys # queued \<Rightarrow>
         if has_room (mark_deletion_worker_count A) (pr_mark_tasks s)
         then Some (s\<lparr>pr_found := queued, pr_mark_tasks := pr_mark_tasks s @ [keys]\<rparr>) else None)"
| "purge_step P rpc A k (Mark i t) s = (if i < length (pr_mark_tasks s) then Some (mark_step P rpc i t s) else None)"
| "purge_step P rpc A k StartPurge s =
    (case pr_marked s of
       [] \<Rightarrow> None
     | keys # queued \<Rightarrow>
         if has_room (purge_worker_count A) (pr_purge_tasks s)
         then Some (s\<lparr>pr_marked := queued, pr_purge_tasks := pr_purge_tasks s @ [keys]\<rparr>) else None)"
| "purge_step P rpc A k (Purge_Keys i delete_ok update_ok) s =
    (if i < length (pr_purge_tasks s)
     then Some (s\<lparr>pr_db := purge k (pr_purge_tasks s ! i) delete_ok update_ok (pr_db s),
                  pr_purge_tasks := remove_nth i (pr_purge_tasks s)\<rparr>) else None)"

text \<open>\<open>start_ta_purge\<close> and \<open>start_mint_purge\<close>: the state they start in, and when their three handles have joined.\<close>

definition start_purge :: "db \<Rightarrow> purge_run" where
  "start_purge d = \<lparr>pr_db = d, pr_page = 0, pr_paging = True, pr_found = [], pr_mark_tasks = [], pr_marked = [],
     pr_purge_tasks = []\<rparr>"

definition purge_finished :: "purge_run \<Rightarrow> bool" where
  "purge_finished s \<longleftrightarrow> \<not> pr_paging s \<and> pr_found s = [] \<and> pr_mark_tasks s = [] \<and> pr_marked s = [] \<and> pr_purge_tasks s = []"

section \<open>What is in transit\<close>

text \<open>The keys that a process still holds, and those that already passed the check.\<close>

definition to_check :: "purge_run \<Rightarrow> pubkey set" where
  "to_check s = \<Union> (set ` set (pr_found s)) \<union> \<Union> (set ` set (pr_mark_tasks s))"

definition to_purge :: "purge_run \<Rightarrow> pubkey set" where
  "to_purge s = \<Union> (set ` set (pr_marked s)) \<union> \<Union> (set ` set (pr_purge_tasks s))"

lemma remove_nth_union:
  assumes "i < length xs"
  shows "\<Union> (set ` set xs) = set (xs ! i) \<union> \<Union> (set ` set (remove_nth i xs))"
  using arg_cong [OF id_take_nth_drop [OF assms], of "\<lambda>ys. \<Union> (set ` set ys)"]
  by (auto simp: remove_nth_def)

lemma update_union:
  assumes "i < length xs"
  shows "\<Union> (set ` set (xs[i := y])) = set y \<union> \<Union> (set ` set (remove_nth i xs))"
  by (auto simp: upd_conv_take_nth_drop [OF assms] remove_nth_def)

lemma page_keys_set: "set (page_keys rows) = {k \<in> set rows. length k = 32}"
  by (auto simp: page_keys_def List.map_filter_def pubkey_try_from_slice_def image_iff)

lemma to_remove_map:
  "to_remove P (zip ks (map c ks)) =
    filter (\<lambda>k. \<not> (case c k of Some own \<Rightarrow> owned_by_token_program P own | None \<Rightarrow> False)) ks"
  by (induction ks) (auto simp: owned_by_token_program_def split: option.split)

end
