(* ===== verification/Purge_Properties.thy ===== *)
theory Purge_Properties
  imports Purger
begin

text \<open>
  What the purge of closed accounts keeps and removes: a live account loses nothing in any interleaving of the
  processes, a run that reads the whole table before it deletes removes exactly the dead rows, and a run that
  deletes while it pages may finish with dead rows left.
\<close>

section \<open>The chain, and its answers\<close>

text \<open>The accounts at the moment \<open>t\<close>: the owner of each, if the account exists.\<close>

type_synonym chain = "nat \<Rightarrow> pubkey \<Rightarrow> pubkey option"

definition account_live :: "program_ids \<Rightarrow> chain \<Rightarrow> nat \<Rightarrow> pubkey \<Rightarrow> bool" where
  "account_live P c t k = (case c t k of Some own \<Rightarrow> owned_by_token_program P own | None \<Rightarrow> False)"

text \<open>\<open>get_multiple_accounts\<close> answers in the order of the keys, or fails.\<close>

definition honest_rpc :: "chain \<Rightarrow> (nat \<Rightarrow> pubkey list \<Rightarrow> pubkey option list option) \<Rightarrow> bool" where
  "honest_rpc c rpc \<longleftrightarrow> (\<forall>t ks accounts. rpc t ks = Some accounts \<longrightarrow> accounts = map (c t) ks)"

lemma mark_chunk_honest:
  assumes "honest_rpc c rpc"
  shows "mark_chunk P (rpc t) ks =
    (if rpc t ks = None \<or> filter (\<lambda>k. \<not> account_live P c t k) ks = [] then []
     else [filter (\<lambda>k. \<not> account_live P c t k) ks])"
proof (cases "rpc t ks")
  case (Some accounts)
  with assms have "accounts = map (c t) ks" by (simp add: honest_rpc_def)
  with Some show ?thesis by (simp add: mark_chunk_def to_remove_map account_live_def Let_def)
qed (simp add: mark_chunk_def)

section \<open>The effect of a purge\<close>

text \<open>The specification: the rows of the keys \<open>K\<close> go, and with \<open>MintPurge\<close> their assets are burnt.\<close>

definition purge_effect :: "purge_kind \<Rightarrow> pubkey set \<Rightarrow> db \<Rightarrow> db" where
  "purge_effect k K d =
    (case k of
       TokenAccountPurge \<Rightarrow> d\<lparr>token_accounts_t := filter (\<lambda>r. ta_pubkey r \<notin> K) (token_accounts_t d)\<rparr>
     | MintPurge \<Rightarrow> d\<lparr>tokens_t := filter (\<lambda>r. tk_mint r \<notin> K) (tokens_t d),
         asset_t := map (\<lambda>a. if a_id a \<in> K then a\<lparr>a_burnt := True\<rparr> else a) (asset_t d)\<rparr>)"

lemma burnt_same: "a_burnt a \<Longrightarrow> a\<lparr>a_burnt := True\<rparr> = a"
  by (cases a) simp

lemma purge_all_ok: "purge k ks True True d = purge_effect k (set ks) d"
  by (cases k) (auto simp: purge_def purge_effect_def delete_token_accounts_def delete_tokens_def set_burnt_def
      burnt_same intro!: map_cong)

lemma purge_effect_union: "purge_effect k K2 (purge_effect k K1 d) = purge_effect k (K1 \<union> K2) d"
  by (cases k) (auto simp: purge_effect_def intro!: filter_cong map_cong)

lemma purge_effect_empty: "purge_effect k {} d = d"
  by (cases k) (simp_all add: purge_effect_def)

lemma column_keys_effect: "column_keys k (purge_effect k K d) = filter (\<lambda>x. x \<notin> K) (column_keys k d)"
  by (cases k) (simp_all add: column_keys_def purge_effect_def filter_map o_def)

text \<open>What the database says about one key.\<close>

definition rows_about :: "pubkey \<Rightarrow> db \<Rightarrow> token_accounts list \<times> tokens list \<times> asset list" where
  "rows_about x d =
    (filter (\<lambda>r. ta_pubkey r = x) (token_accounts_t d), filter (\<lambda>r. tk_mint r = x) (tokens_t d),
     filter (\<lambda>a. a_id a = x) (asset_t d))"

lemma filter_map_keep:
  assumes "\<And>a. f a = a \<or> \<not> Q a \<and> \<not> Q (f a)"
  shows "filter Q (map f xs) = filter Q xs"
proof (induction xs)
  case (Cons a xs)
  from assms [of a] Cons show ?case by (cases "f a = a") auto
qed simp

lemma filter_key: "x \<notin> K \<Longrightarrow> filter (\<lambda>r. f r \<notin> K \<and> f r = x) rs = filter (\<lambda>r. f r = x) rs"
  by (rule filter_cong) auto

lemma filter_burnt:
  "x \<notin> K \<Longrightarrow> filter (\<lambda>a. a_id a = x) (map (\<lambda>a. if \<not> a_burnt a \<and> a_id a \<in> K then a\<lparr>a_burnt := True\<rparr> else a) rs) =
    filter (\<lambda>a. a_id a = x) rs"
  by (rule filter_map_keep) auto

lemma rows_about_purge: "x \<notin> set ks \<Longrightarrow> rows_about x (purge k ks b1 b2 d) = rows_about x d"
  by (cases k) (simp_all add: rows_about_def purge_def delete_token_accounts_def delete_tokens_def set_burnt_def
      Let_def filter_key filter_burnt)

section \<open>How the actions move the keys\<close>

lemma step_moves:
  assumes "purge_step P rpc A k l s = Some s'" "honest_rpc c rpc"
  shows "to_purge s' \<subseteq> to_purge s \<union> {x \<in> to_check s. \<exists>t. \<not> account_live P c t x}"
    and "to_check s' \<subseteq> to_check s \<union> {x \<in> set (column_keys k (pr_db s)). length x = 32}"
proof -
  have "to_purge s' \<subseteq> to_purge s \<union> {x \<in> to_check s. \<exists>t. \<not> account_live P c t x} \<and>
    to_check s' \<subseteq> to_check s \<union> {x \<in> set (column_keys k (pr_db s)). length x = 32}"
  proof (cases l)
    case (Fetch ok)
    with assms have "s' = paginate_step A k ok s" by (auto split: if_splits)
    then show ?thesis
      by (auto simp: paginate_step_def Let_def to_purge_def to_check_def page_keys_set fetch_page_def
          dest: in_set_takeD in_set_dropD split: if_splits)
  next
    case (Mark i t)
    with assms(1) have i: "i < length (pr_mark_tasks s)" and s': "s' = mark_step P rpc i t s"
      by (auto split: if_splits)
    note u = remove_nth_union [OF i] update_union [OF i]
    have "set (pr_mark_tasks s ! i) \<subseteq> to_check s" using i by (auto simp: to_check_def)
    then show ?thesis unfolding s' mark_step_def Let_def mark_chunk_honest [OF assms(2)]
      by (auto simp: to_purge_def to_check_def u dest!: in_set_takeD in_set_dropD split: if_splits)
  next
    case (Purge_Keys i b1 b2)
    with assms(1) have i: "i < length (pr_purge_tasks s)"
      and s': "s' = s\<lparr>pr_db := purge k (pr_purge_tasks s ! i) b1 b2 (pr_db s),
        pr_purge_tasks := remove_nth i (pr_purge_tasks s)\<rparr>" by (auto split: if_splits)
    show ?thesis unfolding s' using remove_nth_union [OF i] by (auto simp: to_purge_def to_check_def)
  qed (use assms(1) in \<open>auto simp: to_purge_def to_check_def split: list.splits if_splits\<close>)
  then show "to_purge s' \<subseteq> to_purge s \<union> {x \<in> to_check s. \<exists>t. \<not> account_live P c t x}"
    and "to_check s' \<subseteq> to_check s \<union> {x \<in> set (column_keys k (pr_db s)). length x = 32}" by blast+
qed

lemma step_db:
  assumes "purge_step P rpc A k l s = Some s'"
  obtains (same) "pr_db s' = pr_db s"
  | (purged) i b1 b2 where "l = Purge_Keys i b1 b2" "i < length (pr_purge_tasks s)"
      "s' = s\<lparr>pr_db := purge k (pr_purge_tasks s ! i) b1 b2 (pr_db s), pr_purge_tasks := remove_nth i (pr_purge_tasks s)\<rparr>"
  using assms
  by (cases l) (auto simp: paginate_step_def mark_step_def Let_def split: if_splits list.splits)

section \<open>A live account loses nothing\<close>

definition spared :: "program_ids \<Rightarrow> chain \<Rightarrow> (nat \<Rightarrow> pubkey list \<Rightarrow> pubkey option list option) \<Rightarrow> pubkey \<Rightarrow>
    purge_run \<Rightarrow> bool" where
  "spared P c rpc x s \<longleftrightarrow> honest_rpc c rpc \<and> (\<forall>t. account_live P c t x) \<and> x \<notin> to_purge s"

interpretation live_rows: run_constant "purge_step P rpc A k" "\<lambda>_. True" "spared P c rpc x" "\<lambda>s. rows_about x (pr_db s)"
proof
  fix s l t
  assume s: "spared P c rpc x s" and step: "purge_step P rpc A k l s = Some t"
  show "spared P c rpc x t" using s step_moves(1) [OF step] by (auto simp: spared_def)
  show "rows_about x (pr_db t) = rows_about x (pr_db s)"
  proof (cases rule: step_db [OF step])
    case (2 i b1 b2)
    then have "x \<notin> set (pr_purge_tasks s ! i)" using s by (auto simp: spared_def to_purge_def)
    with 2 show ?thesis by (simp add: rows_about_purge)
  qed simp
qed

text \<open>
  C15: The purge spares live accounts. Whatever the interleaving of the three processes, whichever queries,
  statements and RPC calls fail, and wherever the run is stopped: if the account of a key is owned by a token
  program at every moment the node is asked, then the rows of \<open>token_accounts\<close>, \<open>tokens\<close> and \<open>asset\<close> with that key
  are those the run started with; in particular a live mint's asset is never marked as burnt.
\<close>

theorem purge_spares_live_accounts:
  assumes "honest_rpc c rpc" and "\<forall>t. account_live P c t x"
    and "lrun (purge_step P rpc A k) actions (start_purge d) = Some s"
  shows "rows_about x (pr_db s) = rows_about x d"
  using live_rows.run_view [of P c rpc x "start_purge d" actions A k s] assms
  by (simp add: spared_def to_purge_def start_purge_def)

section \<open>Reading first, deleting afterwards\<close>

definition dead_keys :: "program_ids \<Rightarrow> chain \<Rightarrow> purge_kind \<Rightarrow> db \<Rightarrow> pubkey set" where
  "dead_keys P c k d = {x \<in> set (column_keys k d). length x = 32 \<and> \<not> account_live P c 0 x}"

text \<open>No call fails, and the chain stays as it is.\<close>

definition calm :: "chain \<Rightarrow> (nat \<Rightarrow> pubkey list \<Rightarrow> pubkey option list option) \<Rightarrow> bool" where
  "calm c rpc \<longleftrightarrow> honest_rpc c rpc \<and> (\<forall>t ks. rpc t ks \<noteq> None) \<and> (\<forall>t. c t = c 0)"

fun succeeds :: "purge_action \<Rightarrow> bool" where
  "succeeds (Fetch ok) = ok"
| "succeeds (Purge_Keys i delete_ok update_ok) = (delete_ok \<and> update_ok)"
| "succeeds _ = True"

fun deletes :: "purge_action \<Rightarrow> bool" where
  "deletes (Purge_Keys i delete_ok update_ok) = True"
| "deletes _ = False"

definition scanned :: "purge_args \<Rightarrow> purge_kind \<Rightarrow> db \<Rightarrow> purge_run \<Rightarrow> bytes set" where
  "scanned A k d s = set (if pr_paging s then take (pr_page s * unat (batch_size A)) (column_keys k d) else column_keys k d)"

definition swept :: "program_ids \<Rightarrow> chain \<Rightarrow> purge_args \<Rightarrow> purge_kind \<Rightarrow> db \<Rightarrow> pubkey set \<Rightarrow> purge_run \<Rightarrow> bool" where
  "swept P c A k d K s \<longleftrightarrow>
     K \<subseteq> dead_keys P c k d \<and> pr_db s = purge_effect k K d \<and> (pr_paging s \<longrightarrow> K = {}) \<and>
     dead_keys P c k d \<inter> scanned A k d s \<subseteq> K \<union> to_purge s \<union> to_check s \<and>
     to_purge s \<subseteq> dead_keys P c k d \<and> to_check s \<subseteq> {x \<in> set (column_keys k d). length x = 32}"

lemma calm_live: "calm c rpc \<Longrightarrow> account_live P c t x = account_live P c 0 x"
  by (metis account_live_def calm_def)

lemma swept_fetch:
  assumes "swept P c A k d K s" "pr_paging s" "batch_size A \<noteq> 0"
  shows "swept P c A k d K (paginate_step A k True s)"
proof -
  let ?n = "unat (batch_size A)"
  have db: "pr_db s = d" using assms(1,2) by (auto simp: swept_def purge_effect_empty)
  let ?page = "fetch_page ?n (pr_page s) (column_keys k d)"
  have page: "take (Suc (pr_page s) * ?n) (column_keys k d) = take (pr_page s * ?n) (column_keys k d) @ ?page"
    by (simp add: fetch_page_def take_add [symmetric] add.commute)
  show ?thesis
  proof (cases "?page = []")
    case True
    with assms(3) have "column_keys k d = take (pr_page s * ?n) (column_keys k d)"
      by (simp add: fetch_page_def unat_eq_zero)
    then have "set (column_keys k d) = set (take (pr_page s * ?n) (column_keys k d))" by simp
    with True assms(1,2) db show ?thesis
      by (auto simp: swept_def paginate_step_def scanned_def to_check_def to_purge_def purge_effect_empty)
  next
    case False
    have "set ?page \<subseteq> set (column_keys k d)"
      by (auto simp: fetch_page_def dest: in_set_takeD in_set_dropD)
    with False assms db page show ?thesis
      by (auto simp: swept_def paginate_step_def scanned_def to_check_def to_purge_def page_keys_set dead_keys_def)
  qed
qed

lemma mark_moves:
  assumes "calm c rpc" "i < length (pr_mark_tasks s)"
  shows "to_purge (mark_step P rpc i t s) =
      to_purge s \<union> {x \<in> set (take MAX_GET_MULTIPLE_ACCOUNTS (pr_mark_tasks s ! i)). \<not> account_live P c 0 x}"
    and "to_check s = to_check (mark_step P rpc i t s) \<union> set (take MAX_GET_MULTIPLE_ACCOUNTS (pr_mark_tasks s ! i))"
proof -
  let ?keys = "pr_mark_tasks s ! i"
  have h: "honest_rpc c rpc" "rpc t ks \<noteq> None" for ks using assms(1) by (auto simp: calm_def)
  show "to_purge (mark_step P rpc i t s) =
      to_purge s \<union> {x \<in> set (take MAX_GET_MULTIPLE_ACCOUNTS ?keys). \<not> account_live P c 0 x}"
    unfolding mark_step_def Let_def mark_chunk_honest [OF h(1)] calm_live [OF assms(1), of P t]
    using h(2) [of "take MAX_GET_MULTIPLE_ACCOUNTS ?keys"] by (auto simp: to_purge_def filter_empty_conv)
  have "set ?keys = set (take MAX_GET_MULTIPLE_ACCOUNTS ?keys) \<union> set (drop MAX_GET_MULTIPLE_ACCOUNTS ?keys)"
    by (metis append_take_drop_id set_append)
  moreover have "to_check (mark_step P rpc i t s) = \<Union> (set ` set (pr_found s)) \<union>
      (set (drop MAX_GET_MULTIPLE_ACCOUNTS ?keys) \<union> \<Union> (set ` set (remove_nth i (pr_mark_tasks s))))"
    by (cases "drop MAX_GET_MULTIPLE_ACCOUNTS ?keys = []")
      (simp_all add: mark_step_def Let_def to_check_def update_union [OF assms(2)])
  ultimately show "to_check s = to_check (mark_step P rpc i t s) \<union> set (take MAX_GET_MULTIPLE_ACCOUNTS ?keys)"
    unfolding to_check_def [of s] remove_nth_union [OF assms(2)] by blast
qed

lemma swept_mark:
  assumes "swept P c A k d K s" "calm c rpc" "i < length (pr_mark_tasks s)"
  shows "swept P c A k d K (mark_step P rpc i t s)"
proof -
  have same: "pr_db (mark_step P rpc i t s) = pr_db s" "pr_paging (mark_step P rpc i t s) = pr_paging s"
      "scanned A k d (mark_step P rpc i t s) = scanned A k d s"
    by (simp_all add: mark_step_def Let_def scanned_def)
  note m = mark_moves [OF assms(2,3), where P = P and t = t]
  have "\<And>x. x \<in> dead_keys P c k d \<Longrightarrow> \<not> account_live P c 0 x"
       "\<And>x. x \<in> set (column_keys k d) \<Longrightarrow> length x = 32 \<Longrightarrow> \<not> account_live P c 0 x \<Longrightarrow> x \<in> dead_keys P c k d"
    by (simp_all add: dead_keys_def)
  then show ?thesis using assms(1) m unfolding swept_def same by blast
qed

lemma swept_purge:
  assumes "swept P c A k d K s" "\<not> pr_paging s" "i < length (pr_purge_tasks s)"
  shows "swept P c A k d (K \<union> set (pr_purge_tasks s ! i))
    (s\<lparr>pr_db := purge k (pr_purge_tasks s ! i) True True (pr_db s), pr_purge_tasks := remove_nth i (pr_purge_tasks s)\<rparr>)"
  using assms remove_nth_union [OF assms(3)]
  by (auto simp: swept_def purge_all_ok purge_effect_union scanned_def to_check_def to_purge_def)

lemma swept_cong:
  assumes "pr_db s' = pr_db s" "pr_paging s' = pr_paging s" "pr_page s' = pr_page s"
    "to_check s' = to_check s" "to_purge s' = to_purge s"
  shows "swept P c A k d K s' = swept P c A k d K s"
  by (simp add: swept_def scanned_def assms)

lemma start_moves:
  assumes "purge_step P rpc A k l s = Some s'" "l = StartMark \<or> l = StartPurge"
  shows "pr_db s' = pr_db s" "pr_paging s' = pr_paging s" "pr_page s' = pr_page s"
    "to_check s' = to_check s" "to_purge s' = to_purge s"
  using assms(2,1)
  by (elim disjE; hypsubst; simp split: list.splits if_splits; clarify; simp add: to_check_def to_purge_def Un_ac)+

lemma swept_step:
  assumes "swept P c A k d K s" "calm c rpc" "batch_size A \<noteq> 0" "purge_step P rpc A k l s = Some s'" "succeeds l"
    and "deletes l \<longrightarrow> \<not> pr_paging s"
  shows "\<exists>K'. swept P c A k d K' s'"
proof (cases l)
  case (Fetch ok)
  with assms show ?thesis by (auto intro: swept_fetch split: if_splits)
next
  case (Mark i t)
  with assms show ?thesis by (auto intro: swept_mark split: if_splits)
next
  case (Purge_Keys i b1 b2)
  with assms swept_purge [of P c A k d K s i] show ?thesis by (auto split: if_splits)
qed (use swept_cong [OF start_moves [OF assms(4)]] assms(1) in blast)+

lemma step_paging: "purge_step P rpc A k l s = Some s' \<Longrightarrow> \<not> pr_paging s \<Longrightarrow> \<not> pr_paging s'"
  by (cases l) (auto simp: mark_step_def Let_def split: if_splits list.splits)

text \<open>The two phases of a run, each with its invariant.\<close>

interpretation scan: run_invariant "purge_step P rpc A k" "\<lambda>l. succeeds l \<and> \<not> deletes l"
    "\<lambda>s. calm c rpc \<and> batch_size A \<noteq> 0 \<and> (\<exists>K. swept P c A k d K s)"
proof
  fix s l t
  assume "calm c rpc \<and> batch_size A \<noteq> 0 \<and> (\<exists>K. swept P c A k d K s)" and l: "succeeds l \<and> \<not> deletes l"
    and step: "purge_step P rpc A k l s = Some t"
  then obtain K where *: "calm c rpc" "batch_size A \<noteq> 0" "swept P c A k d K s" by auto
  from swept_step [OF *(3,1,2) step] l * show "calm c rpc \<and> batch_size A \<noteq> 0 \<and> (\<exists>K. swept P c A k d K t)" by simp
qed

interpretation sweep: run_invariant "purge_step P rpc A k" succeeds
    "\<lambda>s. calm c rpc \<and> batch_size A \<noteq> 0 \<and> (\<exists>K. swept P c A k d K s) \<and> \<not> pr_paging s"
proof
  fix s l t
  assume "calm c rpc \<and> batch_size A \<noteq> 0 \<and> (\<exists>K. swept P c A k d K s) \<and> \<not> pr_paging s" and l: "succeeds l"
    and step: "purge_step P rpc A k l s = Some t"
  then obtain K where *: "calm c rpc" "batch_size A \<noteq> 0" "swept P c A k d K s" "\<not> pr_paging s" by auto
  from swept_step [OF *(3,1,2) step l] step_paging [OF step *(4)] *
  show "calm c rpc \<and> batch_size A \<noteq> 0 \<and> (\<exists>K. swept P c A k d K t) \<and> \<not> pr_paging t" by simp
qed

text \<open>
  C16: A purge that reads first is exact. If the calls succeed, the chain does not change, and no row is deleted
  before the paginator has read the last page, then a run that ends has done what \<open>purge_effect\<close> specifies for
  the keys of the table that are well formed and have no account of a token program: their rows are gone and,
  for mints, their assets are burnt; nothing else has changed. This holds for every interleaving of the tasks.
\<close>

theorem purge_after_scan_exact:
  assumes "calm c rpc" "batch_size A \<noteq> 0"
    and "lrun (purge_step P rpc A k) reading (start_purge d) = Some s1"
    and "\<forall>l\<in>set reading. succeeds l \<and> \<not> deletes l" "\<not> pr_paging s1"
    and "lrun (purge_step P rpc A k) rest s1 = Some s2" "\<forall>l\<in>set rest. succeeds l" "purge_finished s2"
  shows "pr_db s2 = purge_effect k (dead_keys P c k d) d"
proof -
  have "swept P c A k d {} (start_purge d)"
    by (simp add: swept_def start_purge_def scanned_def to_purge_def to_check_def purge_effect_empty)
  with scan.run_keeps [of c rpc A P k d "start_purge d" reading s1] assms
  obtain K1 where "swept P c A k d K1 s1" by auto
  with sweep.run_keeps [of c rpc A P k d s1 rest s2] assms
  obtain K where "swept P c A k d K s2" by auto
  moreover from this have "K = dead_keys P c k d" using assms(8)
    by (auto simp: swept_def purge_finished_def to_purge_def to_check_def scanned_def dead_keys_def)
  ultimately show ?thesis by (simp add: swept_def)
qed

section \<open>Deleting while paging\<close>

lemma page_keys_all: "\<forall>x\<in>set rows. length x = 32 \<Longrightarrow> page_keys rows = rows"
  by (induction rows) (simp_all add: page_keys_def pubkey_try_from_slice_def)

text \<open>One page of dead keys goes through the pipeline before the next page is read.\<close>

definition eager :: "purge_action list" where
  "eager = [Fetch True, StartMark, Mark 0 0, StartPurge, Purge_Keys 0 True True]"

lemma has_room_empty [simp]: "has_room n []"
  by (simp add: has_room_def)

lemma eager_page:
  assumes c: "calm c rpc" and n: "0 < length xs" "length xs = unat (batch_size A)" "length xs \<le> 100"
    and keys: "column_keys k d = xs @ ys" "\<forall>x\<in>set xs. length x = 32 \<and> \<not> account_live P c 0 x"
  shows "lrun (purge_step P rpc A k) eager (start_purge d) = Some ((start_purge (purge_effect k (set xs) d))\<lparr>pr_page := 1\<rparr>)"
proof -
  have b: "batch_size A \<noteq> 0" using n by auto
  have honest: "honest_rpc c rpc" "rpc 0 xs \<noteq> None" using c by (auto simp: calm_def)
  have page: "fetch_page (unat (batch_size A)) 0 (column_keys k d) = xs"
    using keys(1) n(2) by (simp add: fetch_page_def)
  have pk: "page_keys xs = xs" using keys(2) by (simp add: page_keys_all)
  have "filter (\<lambda>x. \<not> account_live P c 0 x) xs = xs" using keys(2) by (simp add: filter_id_conv)
  then have mark: "mark_chunk P (rpc 0) xs = [xs]" using honest n(1) by (auto simp: mark_chunk_honest)
  have fetched: "paginate_step A k True (start_purge d) = (start_purge d)\<lparr>pr_found := [xs], pr_page := 1\<rparr>"
    using n(1) b page pk by (auto simp: paginate_step_def start_purge_def)
  show ?thesis
    using n(3) mark by (simp add: eager_def fetched)
      (simp add: start_purge_def mark_step_def MAX_GET_MULTIPLE_ACCOUNTS_def remove_nth_def purge_all_ok)
qed

text \<open>
  C24: Deleting while paging loses rows. The pages are cut by \<open>OFFSET\<close>, and deleted rows move the later ones
  forward: when the first page holds only dead keys and is purged before the second is read, the rows that
  took its place are never looked at. With a table of dead rows of two pages there is a run without any
  failure that ends with the whole second page still in the table.
\<close>

theorem purge_while_paging_skips_rows:
  assumes "calm c rpc" and "0 < length xs" "length xs = unat (batch_size A)" "length xs \<le> 100" "length ys \<le> length xs"
    and "column_keys k d = xs @ ys" "distinct (xs @ ys)" "\<forall>x\<in>set (xs @ ys). length x = 32 \<and> \<not> account_live P c 0 x"
  shows "\<exists>actions s. (\<forall>l\<in>set actions. succeeds l) \<and> lrun (purge_step P rpc A k) actions (start_purge d) = Some s \<and>
    purge_finished s \<and> column_keys k (pr_db s) = ys"
proof -
  let ?d = "purge_effect k (set xs) d"
  have left: "column_keys k ?d = ys" using assms(6,7) by (auto simp: column_keys_effect filter_id_conv filter_empty_conv)
  have "lrun (purge_step P rpc A k) (eager @ [Fetch True]) (start_purge d) =
      Some ((start_purge ?d)\<lparr>pr_page := 1, pr_paging := False\<rparr>)"
    using eager_page [OF assms(1-4) assms(6), of P] assms(5,3,8) left
    by (simp add: lrun_append paginate_step_def start_purge_def fetch_page_def)
  moreover have "\<forall>l\<in>set (eager @ [Fetch True]). succeeds l" by (simp add: eager_def)
  ultimately show ?thesis using left by (fastforce simp: purge_finished_def start_purge_def)
qed

section \<open>A small index\<close>

text \<open>Three token accounts, of which the node knows only one; a node that never fails.\<close>

definition demo_token_key :: "u8 \<Rightarrow> pubkey" where
  "demo_token_key n = replicate 32 n"

definition demo_token_ids :: program_ids where
  "demo_token_ids = \<lparr>id_bubblegum = [1], id_token_metadata = [2], id_token = [3], id_mpl_core = [4],
     id_token_2022 = [5], id_inscription = [6], id_agent_registry = [7]\<rparr>"

definition demo_chain :: chain where
  "demo_chain t k = (if k = demo_token_key 9 then Some [3] else None)"

definition demo_rpc :: "nat \<Rightarrow> pubkey list \<Rightarrow> pubkey option list option" where
  "demo_rpc t ks = Some (map (demo_chain t) ks)"

definition demo_token_row :: "pubkey \<Rightarrow> token_accounts" where
  "demo_token_row k = \<lparr>ta_pubkey = k, ta_mint = [8], ta_amount = 1, ta_owner = [9], ta_frozen = False,
     ta_close_authority = None, ta_delegate = None, ta_delegated_amount = 0, ta_slot_updated = 5,
     ta_token_program = [3], ta_extensions = None\<rparr>"

definition demo_token_db :: "u8 list \<Rightarrow> db" where
  "demo_token_db ns = empty_db\<lparr>token_accounts_t := map (\<lambda>n. demo_token_row (demo_token_key n)) ns\<rparr>"

definition demo_args :: "u64 \<Rightarrow> purge_args" where
  "demo_args n = default_purge_args\<lparr>batch_size := n\<rparr>"

abbreviation demo_purge :: "u64 \<Rightarrow> purge_action list \<Rightarrow> u8 list \<Rightarrow> purge_run option" where
  "demo_purge n actions ns \<equiv>
    lrun (purge_step demo_token_ids demo_rpc (demo_args n) TokenAccountPurge) actions (start_purge (demo_token_db ns))"

lemma demo_key_eq: "(demo_token_key m = demo_token_key n) = (m = n)"
  by (auto simp: demo_token_key_def dest: arg_cong [where f = hd])

lemma demo_calm: "calm demo_chain demo_rpc"
  by (auto simp: calm_def honest_rpc_def demo_rpc_def demo_chain_def)

lemma demo_live: "account_live demo_token_ids demo_chain t (demo_token_key n) = (n = 9)"
  by (simp add: account_live_def demo_chain_def demo_key_eq demo_token_ids_def owned_by_token_program_def)

lemma demo_columns: "column_keys TokenAccountPurge (demo_token_db ns) = map demo_token_key ns"
  by (simp add: column_keys_def demo_token_db_def demo_token_row_def)

lemma demo_key_length: "length (demo_token_key n) = 32"
  by (simp add: demo_token_key_def)

lemma demo_dead: "dead_keys demo_token_ids demo_chain TokenAccountPurge (demo_token_db ns) = demo_token_key ` (set ns - {9})"
  by (auto simp: dead_keys_def demo_columns demo_key_length demo_live)

lemma demo_rows:
  "token_accounts_t (demo_token_db ns) = map (\<lambda>n. demo_token_row (demo_token_key n)) ns"
  "ta_pubkey (demo_token_row k) = k"
  by (simp_all add: demo_token_db_def demo_token_row_def)

lemmas demo_run_simps = demo_columns demo_key_length demo_key_eq paginate_step_def fetch_page_def page_keys_all
  start_purge_def mark_step_def MAX_GET_MULTIPLE_ACCOUNTS_def remove_nth_def mark_chunk_honest [OF demo_calm [unfolded calm_def, THEN conjunct1]]
  demo_live purge_def delete_token_accounts_def demo_args_def default_purge_args_def

theorem purge_spares_live_accounts_witness:
  "\<exists>s. demo_purge 2 eager [7, 9] = Some s \<and> rows_about (demo_token_key 9) (pr_db s) = ([demo_token_row (demo_token_key 9)], [], []) \<and>
     column_keys TokenAccountPurge (pr_db s) = [demo_token_key 9]"
proof -
  obtain s where s: "demo_purge 2 eager [7, 9] = Some s" and keys: "column_keys TokenAccountPurge (pr_db s) = [demo_token_key 9]"
    by (simp add: eager_def demo_run_simps demo_rpc_def)
      (simp add: demo_run_simps demo_token_db_def demo_token_row_def column_keys_def)
  have "rows_about (demo_token_key 9) (pr_db s) = rows_about (demo_token_key 9) (demo_token_db [7, 9])"
    by (rule purge_spares_live_accounts [where c = demo_chain, OF _ _ s]) (use demo_calm demo_live in \<open>simp_all add: calm_def\<close>)
  with s keys show ?thesis by (simp add: rows_about_def demo_token_db_def demo_token_row_def demo_key_eq empty_db_def)
qed

theorem purge_while_paging_skips_rows_witness:
  "\<exists>actions s. demo_purge 1 actions [7, 8] = Some s \<and> purge_finished s \<and> column_keys TokenAccountPurge (pr_db s) = [demo_token_key 8]"
  using purge_while_paging_skips_rows [of demo_chain demo_rpc "[demo_token_key 7]" "demo_args 1" "[demo_token_key 8]"
      TokenAccountPurge "demo_token_db [7, 8]" demo_token_ids]
  by (auto simp: demo_calm demo_columns demo_key_eq demo_key_length demo_live demo_args_def default_purge_args_def)

text \<open>Two pages are read, then the tasks run; the accounts 7 and 8 are gone.\<close>

theorem purge_after_scan_exact_witness:
  "\<exists>s. demo_purge 2 [Fetch True, Fetch True, Fetch True, StartMark, StartMark, Mark 1 0, Mark 0 0, StartPurge, StartPurge,
       Purge_Keys 1 True True, Purge_Keys 0 True True] [7, 9, 8] = Some s \<and>
     token_accounts_t (pr_db s) = [demo_token_row (demo_token_key 9)]"
proof -
  let ?reading = "[Fetch True, Fetch True, Fetch True]"
  let ?rest = "[StartMark, StartMark, Mark 1 0, Mark 0 0, StartPurge, StartPurge, Purge_Keys 1 True True, Purge_Keys 0 True True]"
  obtain s1 where s1: "demo_purge 2 ?reading [7, 9, 8] = Some s1" "\<not> pr_paging s1"
      "pr_found s1 = [[demo_token_key 7, demo_token_key 9], [demo_token_key 8]]" "pr_mark_tasks s1 = []" "pr_marked s1 = []"
      "pr_purge_tasks s1 = []"
    by (simp add: demo_run_simps demo_rpc_def)
  have "\<exists>s2. lrun (purge_step demo_token_ids demo_rpc (demo_args 2) TokenAccountPurge) ?rest s1 = Some s2 \<and> purge_finished s2"
    using s1 by (simp add: demo_run_simps demo_rpc_def has_room_def purge_finished_def)
  then obtain s2 where s2: "lrun (purge_step demo_token_ids demo_rpc (demo_args 2) TokenAccountPurge) ?rest s1 = Some s2"
      "purge_finished s2" by blast
  have "pr_db s2 = purge_effect TokenAccountPurge (dead_keys demo_token_ids demo_chain TokenAccountPurge (demo_token_db [7, 9, 8])) (demo_token_db [7, 9, 8])"
    by (rule purge_after_scan_exact [OF demo_calm _ s1(1) _ s1(2) s2(1) _ s2(2)]) (simp_all add: demo_args_def)
  then have "token_accounts_t (pr_db s2) = [demo_token_row (demo_token_key 9)]"
    by (simp add: purge_effect_def demo_dead demo_rows demo_key_eq image_iff)
  moreover have "demo_purge 2 (?reading @ ?rest) [7, 9, 8] = Some s2" using s1(1) s2(1) by (simp only: lrun_append Option.bind.simps)
  ultimately show ?thesis by (auto simp only: append.simps)
qed


end
