(* ===== verification/Queue_Pool.thy ===== *)
theory Queue_Pool
  imports Das_Prelude
begin

text \<open>
  The pool of messenger connections of the crate \<open>core\<close> (\<open>core/src/plerkle_messenger_queue.rs\<close>) and the account
  backfill commands of \<open>ops\<close> that push into it (\<open>ops/src/account\<close>). The connections wait in a bounded channel; a
  push takes one out, sends, and puts it back, all under the lock of the receiving end, so pushes happen one
  after the other. Redis is a message list per stream; whether a send reaches it is an argument of the model.
\<close>

section \<open>Configuration\<close>

datatype stream_key =
    ACCOUNT_STREAM | ACCOUNT_BACKFILL_STREAM | SLOT_STREAM | TRANSACTION_STREAM | TRANSACTION_BACKFILL_STREAM | BLOCK_STREAM

record queue_args =
  messenger_redis_url :: string
  messenger_redis_batch_size :: string
  messenger_queue_connections :: u64

datatype messenger_type = Redis

record messenger_config =
  mc_messenger_type :: messenger_type
  mc_connection_config :: "(string \<times> string) list"

definition messenger_config_from :: "queue_args \<Rightarrow> messenger_config" where
  "messenger_config_from args =
    \<lparr>mc_messenger_type = Redis,
     mc_connection_config =
       [(''redis_connection_str'', messenger_redis_url args), (''batch_size'', messenger_redis_batch_size args),
        (''pipeline_size_bytes'', ''1'')]\<rparr>"

datatype queue_pool_error =
    Messenger_Error string
  | TrySendMessengerChannel
  | RecvMessengerConnection
  | TryFromInt
  | SendMessengerChannel

section \<open>The pool\<close>

text \<open>A connection is known by its number; the buffer sizes it has set for its streams go with it.\<close>

record messenger =
  ms_number :: nat
  ms_config :: messenger_config
  ms_streams :: "(stream_key \<times> nat) list"

record queue_pool =
  qp_capacity :: nat
  qp_channel :: "messenger list"
  qp_redis :: "stream_key \<Rightarrow> bytes list"

definition pool_streams :: "(stream_key \<times> nat) list" where
  "pool_streams =
    [(ACCOUNT_STREAM, 100000000), (ACCOUNT_BACKFILL_STREAM, 100000000), (SLOT_STREAM, 100000),
     (TRANSACTION_STREAM, 10000000), (TRANSACTION_BACKFILL_STREAM, 10000000), (BLOCK_STREAM, 100000)]"

definition try_send :: "messenger \<Rightarrow> queue_pool \<Rightarrow> queue_pool_error + queue_pool" where
  "try_send m p =
    (if length (qp_channel p) < qp_capacity p then Inr (p\<lparr>qp_channel := qp_channel p @ [m]\<rparr>)
     else Inl TrySendMessengerChannel)"

text \<open>
  The loop of \<open>try_from_config\<close> over the connections \<open>from\<close>, \<open>from + 1\<close>, ...: \<open>connect i\<close> is the error of
  \<open>select_messenger\<close> or \<open>add_stream\<close> for the connection \<open>i\<close>, if there is one.
\<close>

fun open_connections :: "(nat \<Rightarrow> string option) \<Rightarrow> queue_args \<Rightarrow> nat list \<Rightarrow> queue_pool \<Rightarrow> queue_pool_error + queue_pool" where
  "open_connections connect args [] p = Inr p"
| "open_connections connect args (i # is) p =
    (case connect i of
       Some e \<Rightarrow> Inl (Messenger_Error e)
     | None \<Rightarrow>
         (case try_send \<lparr>ms_number = i, ms_config = messenger_config_from args, ms_streams = pool_streams\<rparr> p of
            Inl e \<Rightarrow> Inl e
          | Inr p' \<Rightarrow> open_connections connect args is p'))"

text \<open>\<open>None\<close> is a panic: a channel needs a capacity of at least one. A \<open>u64\<close> is a \<open>usize\<close> on the 64-bit hosts.\<close>

definition try_from_config :: "(nat \<Rightarrow> string option) \<Rightarrow> (stream_key \<Rightarrow> bytes list) \<Rightarrow> queue_args \<Rightarrow>
    (queue_pool_error + queue_pool) option" where
  "try_from_config connect redis args =
    (let size = unat (messenger_queue_connections args) in
     if size = 0 then None
     else Some (open_connections connect args [0..<size] \<lparr>qp_capacity = size, qp_channel = [], qp_redis = redis\<rparr>))"

text \<open>
  \<open>push\<close>. \<open>None\<close> is a push that never returns: the channel is empty and its sending ends are alive (the pool itself
  holds one), so the receiver waits, and it keeps the lock that every other push needs. \<open>sent\<close> is the error of
  \<open>Messenger::send\<close>, if there is one; the \<open>?\<close> leaves the function with the connection in a local variable.
\<close>

definition push :: "stream_key \<Rightarrow> bytes \<Rightarrow> string option \<Rightarrow> queue_pool \<Rightarrow> (queue_pool \<times> (queue_pool_error + unit)) option" where
  "push stream_key msg sent p =
    (case qp_channel p of
       [] \<Rightarrow> None
     | m # channel \<Rightarrow>
         (let p1 = p\<lparr>qp_channel := channel\<rparr> in
          case sent of
            Some e \<Rightarrow> Some (p1, Inl (Messenger_Error e))
          | None \<Rightarrow>
              (let p2 = p1\<lparr>qp_redis := (qp_redis p)(stream_key := qp_redis p stream_key @ [msg])\<rparr> in
               if length channel < qp_capacity p then Some (p2\<lparr>qp_channel := channel @ [m]\<rparr>, Inr ()) else None)))"

definition push_account_backfill :: "bytes \<Rightarrow> string option \<Rightarrow> queue_pool \<Rightarrow> (queue_pool \<times> (queue_pool_error + unit)) option" where
  "push_account_backfill msg = push ACCOUNT_BACKFILL_STREAM msg"

definition push_transaction_backfill :: "bytes \<Rightarrow> string option \<Rightarrow> queue_pool \<Rightarrow> (queue_pool \<times> (queue_pool_error + unit)) option" where
  "push_transaction_backfill msg = push TRANSACTION_BACKFILL_STREAM msg"

definition push_account :: "bytes \<Rightarrow> string option \<Rightarrow> queue_pool \<Rightarrow> (queue_pool \<times> (queue_pool_error + unit)) option" where
  "push_account msg = push ACCOUNT_STREAM msg"

definition push_transaction :: "bytes \<Rightarrow> string option \<Rightarrow> queue_pool \<Rightarrow> (queue_pool \<times> (queue_pool_error + unit)) option" where
  "push_transaction msg = push TRANSACTION_STREAM msg"

section \<open>The account backfill commands\<close>

record rpc_account =
  ra_lamports :: u64
  ra_owner :: pubkey
  ra_executable :: bool
  ra_rent_epoch :: u64
  ra_data :: bytes

record replica_account_info =
  ri_pubkey :: bytes
  ri_lamports :: u64
  ri_owner :: bytes
  ri_executable :: bool
  ri_rent_epoch :: u64
  ri_data :: bytes
  ri_write_version :: u64
  ri_txn_signature :: "bytes option"

datatype backfill_error = Rpc_Error string | Account_Not_Found pubkey | Queue_Error queue_pool_error

text \<open>\<open>AccountDetails::fetch\<close>; \<open>get_account\<close> answers with the slot of its context and the account, if it exists.\<close>

record account_details =
  ad_account :: rpc_account
  ad_slot :: u64
  ad_pubkey :: pubkey

definition fetch_details :: "(pubkey \<Rightarrow> string + u64 \<times> rpc_account option) \<Rightarrow> pubkey \<Rightarrow> backfill_error + account_details" where
  "fetch_details get_account key =
    (case get_account key of
       Inl e \<Rightarrow> Inl (Rpc_Error e)
     | Inr (slot, None) \<Rightarrow> Inl (Account_Not_Found key)
     | Inr (slot, Some account) \<Rightarrow> Inr \<lparr>ad_account = account, ad_slot = slot, ad_pubkey = key\<rparr>)"

definition replica_info :: "account_details \<Rightarrow> replica_account_info" where
  "replica_info ad =
    \<lparr>ri_pubkey = ad_pubkey ad, ri_lamports = ra_lamports (ad_account ad), ri_owner = ra_owner (ad_account ad),
     ri_executable = ra_executable (ad_account ad), ri_rent_epoch = ra_rent_epoch (ad_account ad),
     ri_data = ra_data (ad_account ad), ri_write_version = 0, ri_txn_signature = None\<rparr>"

text \<open>
  The world of a command: \<open>ser\<close> is \<open>serialize_account\<close> of \<open>plerkle_serialization\<close> (with \<open>is_startup\<close> false), \<open>sends\<close>
  gives the error of each send in turn.
\<close>

record backfill_world =
  bw_get_account :: "pubkey \<Rightarrow> string + u64 \<times> rpc_account option"
  bw_ser :: "replica_account_info \<Rightarrow> u64 \<Rightarrow> bool \<Rightarrow> bytes"
  bw_send :: "bytes \<Rightarrow> string option"

definition account_message :: "backfill_world \<Rightarrow> account_details \<Rightarrow> bytes" where
  "account_message W ad = bw_ser W (replica_info ad) (ad_slot ad) False"

definition push_details :: "backfill_world \<Rightarrow> account_details \<Rightarrow> queue_pool \<Rightarrow> (queue_pool \<times> (backfill_error + unit)) option" where
  "push_details W ad p =
    map_option (\<lambda>(p', r). (p', map_sum Queue_Error id r))
      (push_account_backfill (account_message W ad) (bw_send W (account_message W ad)) p)"

definition single_run :: "backfill_world \<Rightarrow> pubkey \<Rightarrow> queue_pool \<Rightarrow> (queue_pool \<times> (backfill_error + unit)) option" where
  "single_run W key p =
    (case fetch_details (bw_get_account W) key of
       Inl e \<Rightarrow> Some (p, Inl e)
     | Inr ad \<Rightarrow> push_details W ad p)"

text \<open>\<open>futures::future::try_join_all\<close> over the fetches of a batch: all the details, or an error.\<close>

fun try_join_all :: "('e + 'a) list \<Rightarrow> 'e + 'a list" where
  "try_join_all [] = Inr []"
| "try_join_all (x # xs) =
    (case x of Inl e \<Rightarrow> Inl e | Inr a \<Rightarrow> (case try_join_all xs of Inl e \<Rightarrow> Inl e | Inr as \<Rightarrow> Inr (a # as)))"

fun push_batch :: "backfill_world \<Rightarrow> account_details list \<Rightarrow> queue_pool \<Rightarrow> (queue_pool \<times> (backfill_error + unit)) option" where
  "push_batch W [] p = Some (p, Inr ())"
| "push_batch W (ad # ads) p =
    Option.bind (push_details W ad p) (\<lambda>(p', r). case r of Inl e \<Rightarrow> Some (p', Inl e) | Inr _ \<Rightarrow> push_batch W ads p')"

fun run_batches :: "backfill_world \<Rightarrow> pubkey list list \<Rightarrow> queue_pool \<Rightarrow> (queue_pool \<times> (backfill_error + unit)) option" where
  "run_batches W [] p = Some (p, Inr ())"
| "run_batches W (batch # batches) p =
    (case try_join_all (map (fetch_details (bw_get_account W)) batch) of
       Inl e \<Rightarrow> Some (p, Inl e)
     | Inr ads \<Rightarrow>
         Option.bind (push_batch W ads p) (\<lambda>(p', r). case r of Inl e \<Rightarrow> Some (p', Inl e) | Inr _ \<Rightarrow> run_batches W batches p'))"

text \<open>\<open>slice::chunks\<close>; the source calls it with a positive size or panics.\<close>

function chunks :: "nat \<Rightarrow> 'a list \<Rightarrow> 'a list list" where
  "chunks n xs = (if n = 0 \<or> xs = [] then [] else take n xs # chunks n (drop n xs))"
  by pat_completeness auto
termination
  by (relation "measure (\<lambda>(n, xs). length xs)") auto

declare chunks.simps [simp del]

text \<open>
  \<open>program::run\<close>: \<open>accounts\<close> is what \<open>get_program_accounts\<close> returned. \<open>None\<close> is a run that does not return: a push that
  waits for ever, or the panic of a batch size of zero.
\<close>

definition program_run :: "backfill_world \<Rightarrow> nat \<Rightarrow> string + (pubkey \<times> rpc_account) list \<Rightarrow> queue_pool \<Rightarrow>
    (queue_pool \<times> (backfill_error + unit)) option" where
  "program_run W batch_size accounts p =
    (case accounts of
       Inl e \<Rightarrow> Some (p, Inl (Rpc_Error e))
     | Inr as \<Rightarrow> if batch_size = 0 then None else run_batches W (chunks batch_size (map fst as)) p)"

end
