(* ===== verification/Queue_Properties.thy ===== *)
theory Queue_Properties
  imports Queue_Pool
begin

text \<open>
  Properties of the connection pool: every message whose send succeeds is appended to its stream, every failed
  send costs a connection, and after as many failures as connections no push returns. Then what the account
  backfill of a program has pushed when it ends.
\<close>

section \<open>Sequences of pushes\<close>

text \<open>A request: the stream, the message, and the error of the send, if there is one.\<close>

type_synonym push_request = "stream_key \<times> bytes \<times> string option"

fun push_all :: "push_request list \<Rightarrow> queue_pool \<Rightarrow> (queue_pool \<times> (queue_pool_error + unit) list) option" where
  "push_all [] p = Some (p, [])"
| "push_all ((k, msg, sent) # reqs) p =
    Option.bind (push k msg sent p) (\<lambda>(p', r). map_option (map_prod id ((#) r)) (push_all reqs p'))"

definition failed :: "push_request \<Rightarrow> bool" where
  "failed r = (snd (snd r) \<noteq> None)"

abbreviation failures :: "push_request list \<Rightarrow> nat" where
  "failures reqs \<equiv> length (filter failed reqs)"

definition delivered :: "push_request list \<Rightarrow> stream_key \<Rightarrow> bytes list" where
  "delivered reqs k = map (\<lambda>r. fst (snd r)) (filter (\<lambda>r. fst r = k \<and> \<not> failed r) reqs)"

definition answer :: "push_request \<Rightarrow> queue_pool_error + unit" where
  "answer r = (case snd (snd r) of None \<Rightarrow> Inr () | Some e \<Rightarrow> Inl (Messenger_Error e))"

definition pool_ok :: "queue_pool \<Rightarrow> bool" where
  "pool_ok p = (length (qp_channel p) \<le> qp_capacity p)"

lemma push_cases:
  assumes "pool_ok p"
  shows "push k msg sent p =
    (if qp_channel p = [] then None
     else case sent of
       Some e \<Rightarrow> Some (p\<lparr>qp_channel := tl (qp_channel p)\<rparr>, Inl (Messenger_Error e))
     | None \<Rightarrow> Some (p\<lparr>qp_channel := tl (qp_channel p) @ [hd (qp_channel p)],
                      qp_redis := (qp_redis p)(k := qp_redis p k @ [msg])\<rparr>, Inr ()))"
  using assms by (auto simp: push_def pool_ok_def Let_def split: list.split option.split)

lemma request_simps [simp]:
  "failed (k, msg, None) = False" "failed (k, msg, Some e) = True"
  "answer (k, msg, None) = Inr ()" "answer (k, msg, Some e) = Inl (Messenger_Error e)"
  by (simp_all add: failed_def answer_def)

lemma delivered_Cons: "delivered (r # reqs) k = (if fst r = k \<and> \<not> failed r then fst (snd r) # delivered reqs k else delivered reqs k)"
  by (simp add: delivered_def)

text \<open>A sequence of pushes, as a function of the pool and the sends.\<close>

lemma push_all_spec:
  assumes "pool_ok p"
  shows "case push_all reqs p of
      None \<Rightarrow> reqs \<noteq> [] \<and> length (qp_channel p) \<le> failures (butlast reqs)
    | Some (p', rs) \<Rightarrow>
        (reqs = [] \<or> failures (butlast reqs) < length (qp_channel p)) \<and> pool_ok p' \<and> rs = map answer reqs \<and>
        length (qp_channel p') + failures reqs = length (qp_channel p) \<and>
        (\<forall>k. qp_redis p' k = qp_redis p k @ delivered reqs k)"
  using assms
proof (induction reqs arbitrary: p)
  case (Cons r reqs)
  obtain k msg sent where r: "r = (k, msg, sent)" by (cases r) auto
  show ?case
  proof (cases "qp_channel p")
    case Nil
    with Cons.prems r show ?thesis by (simp add: push_cases)
  next
    case (Cons m ms)
    show ?thesis
    proof (cases sent)
      case None
      let ?p = "p\<lparr>qp_channel := ms @ [m], qp_redis := (qp_redis p)(k := qp_redis p k @ [msg])\<rparr>"
      have ok: "pool_ok ?p" using Cons.prems Cons by (simp add: pool_ok_def)
      from Cons.IH [OF this] Cons.prems Cons None r show ?thesis
        by (auto simp: push_cases delivered_Cons split: option.splits)
    next
      case (Some e)
      let ?p = "p\<lparr>qp_channel := ms\<rparr>"
      have ok: "pool_ok ?p" using Cons.prems Cons by (simp add: pool_ok_def)
      from Cons.IH [OF this] Cons.prems Cons Some r show ?thesis
        by (auto simp: push_cases delivered_Cons split: option.splits)
    qed
  qed
qed (simp add: delivered_def)

lemma open_connections_ok:
  assumes "length (qp_channel p) + length is = qp_capacity p"
    and "open_connections connect args is p = Inr p'"
  shows "length (qp_channel p') = qp_capacity p \<and> qp_capacity p' = qp_capacity p \<and> qp_redis p' = qp_redis p"
  using assms
proof (induction "is" arbitrary: p)
  case (Cons i "is")
  from Cons.prems(2) obtain m where "open_connections connect args is (p\<lparr>qp_channel := qp_channel p @ [m]\<rparr>) = Inr p'"
    by (auto simp: try_send_def split: option.splits if_splits)
  from Cons.IH [OF _ this] Cons.prems(1) show ?case by simp
qed simp

lemma try_from_config_ok:
  assumes "try_from_config connect redis args = Some (Inr p)"
  shows "pool_ok p" "length (qp_channel p) = unat (messenger_queue_connections args)" "qp_redis p = redis"
  using assms open_connections_ok
    [of "\<lparr>qp_capacity = unat (messenger_queue_connections args), qp_channel = [], qp_redis = redis\<rparr>"
      "[0..<unat (messenger_queue_connections args)]" connect args p]
  by (auto simp: try_from_config_def Let_def pool_ok_def split: if_splits)

text \<open>
  C19: A pool of \<open>n\<close> connections survives \<open>n - 1\<close> failures. For every sequence of pushes on a fresh pool: it
  returns exactly if fewer than \<open>n\<close> of the sends before the last push failed; then every push answers with the
  outcome of its send, and each stream has received, in order, the messages whose sends succeeded. A failed
  send drops its connection, so after \<open>n\<close> failures every further push waits for ever, with the lock held.
\<close>

theorem queue_pool_runs_dry:
  assumes "try_from_config connect redis args = Some (Inr p)"
  shows "case push_all reqs p of
      None \<Rightarrow> reqs \<noteq> [] \<and> unat (messenger_queue_connections args) \<le> failures (butlast reqs)
    | Some (p', answers) \<Rightarrow>
        (reqs = [] \<or> failures (butlast reqs) < unat (messenger_queue_connections args)) \<and>
        answers = map answer reqs \<and> (\<forall>k. qp_redis p' k = redis k @ delivered reqs k)"
  using push_all_spec [OF try_from_config_ok(1) [OF assms], of reqs] try_from_config_ok(2,3) [OF assms]
  by (auto split: option.splits)

theorem queue_pool_runs_dry_witness:
  "\<exists>p. try_from_config (\<lambda>_. None) (\<lambda>_. []) \<lparr>messenger_redis_url = ''redis'', messenger_redis_batch_size = ''100'',
        messenger_queue_connections = 2\<rparr> = Some (Inr p) \<and>
     push_all [(ACCOUNT_STREAM, [1], Some ''timeout''), (ACCOUNT_STREAM, [2], None), (ACCOUNT_STREAM, [3], Some ''timeout'')] p \<noteq> None \<and>
     push_all [(ACCOUNT_STREAM, [1], Some ''timeout''), (ACCOUNT_STREAM, [3], Some ''timeout''), (ACCOUNT_STREAM, [2], None)] p = None"
proof -
  let ?args = "\<lparr>messenger_redis_url = ''redis'', messenger_redis_batch_size = ''100'', messenger_queue_connections = 2\<rparr>"
  obtain p where p: "try_from_config (\<lambda>_. None) (\<lambda>_. []) ?args = Some (Inr p)"
    by (simp add: try_from_config_def try_send_def upt_rec)
  show ?thesis
    using p queue_pool_runs_dry [OF p, of "[(ACCOUNT_STREAM, [1], Some ''timeout''), (ACCOUNT_STREAM, [2], None), (ACCOUNT_STREAM, [3], Some ''timeout'')]"]
      queue_pool_runs_dry [OF p, of "[(ACCOUNT_STREAM, [1], Some ''timeout''), (ACCOUNT_STREAM, [3], Some ''timeout''), (ACCOUNT_STREAM, [2], None)]"]
    by (auto simp del: push_all.simps split: option.splits)
qed

section \<open>The backfill of a program's accounts\<close>

lemma chunks_simps: "chunks n [] = []" "0 < n \<Longrightarrow> xs \<noteq> [] \<Longrightarrow> chunks n xs = take n xs # chunks n (drop n xs)"
  by (subst chunks.simps; simp)+

lemma try_join_all_Inr: "\<forall>x\<in>set xs. \<exists>a. f x = Inr a \<Longrightarrow> try_join_all (map f xs) = Inr (map (projr \<circ> f) xs)"
  by (induction xs) auto

lemma try_join_all_Inl: "\<not> (\<forall>x\<in>set xs. \<exists>a. f x = Inr a) \<Longrightarrow> \<exists>e. try_join_all (map f xs) = Inl e"
proof (induction xs)
  case (Cons x xs)
  then show ?case by (cases "f x") auto
qed simp

definition fetchable :: "backfill_world \<Rightarrow> pubkey \<Rightarrow> bool" where
  "fetchable W key = (\<exists>ad. fetch_details (bw_get_account W) key = Inr ad)"

definition message_of :: "backfill_world \<Rightarrow> pubkey \<Rightarrow> bytes" where
  "message_of W key = account_message W (projr (fetch_details (bw_get_account W) key))"

text \<open>The keys of the batches before the first one with a key that cannot be fetched.\<close>

definition whole_batches :: "nat \<Rightarrow> ('a \<Rightarrow> bool) \<Rightarrow> 'a list \<Rightarrow> 'a list" where
  "whole_batches n good keys =
    (if \<forall>k\<in>set keys. good k then keys else take (length (takeWhile good keys) div n * n) keys)"

lemma length_takeWhile_bad: "x \<in> set xs \<Longrightarrow> \<not> P x \<Longrightarrow> length (takeWhile P xs) < length xs"
  by (induction xs) auto

lemma whole_batches_first_bad:
  assumes "0 < n" "\<not> (\<forall>k\<in>set (take n keys). good k)"
  shows "whole_batches n good keys = []"
proof -
  from assms(2) obtain x where x: "x \<in> set (take n keys)" "\<not> good x" by blast
  have "takeWhile good keys = takeWhile good (take n keys)"
    using takeWhile_append1 [of x "take n keys" good "drop n keys"] x by simp
  with length_takeWhile_bad [of x "take n keys" good] x have "length (takeWhile good keys) < n" by simp
  with assms(2) show ?thesis by (auto simp: whole_batches_def dest: in_set_takeD)
qed

lemma whole_batches_first_good:
  assumes "0 < n" "\<forall>k\<in>set (take n keys). good k"
  shows "whole_batches n good keys = take n keys @ whole_batches n good (drop n keys)"
proof -
  have all: "(\<forall>k\<in>set keys. good k) = (\<forall>k\<in>set (drop n keys). good k)"
    using assms(2) by (metis Un_iff append_take_drop_id set_append)
  have tw: "takeWhile good keys = take n keys @ takeWhile good (drop n keys)"
    using takeWhile_append2 [of "take n keys" good "drop n keys"] assms(2) by simp
  show ?thesis
  proof (cases "length keys \<le> n")
    case True
    then show ?thesis using assms(2) all by (simp add: whole_batches_def)
  next
    case False
    then have "length (takeWhile good keys) div n * n = n + length (takeWhile good (drop n keys)) div n * n"
      using assms(1) unfolding tw by (simp add: min_def div_add_self1 add_mult_distrib)
    then show ?thesis using all by (auto simp: whole_batches_def take_add)
  qed
qed

lemma push_batch_ok:
  assumes "pool_ok p" "qp_channel p \<noteq> []" "\<forall>m. bw_send W m = None"
  shows "\<exists>p'. push_batch W ads p = Some (p', Inr ()) \<and> pool_ok p' \<and> qp_channel p' \<noteq> [] \<and>
    qp_redis p' = (qp_redis p)(ACCOUNT_BACKFILL_STREAM :=
      qp_redis p ACCOUNT_BACKFILL_STREAM @ map (account_message W) ads)"
  using assms
proof (induction ads arbitrary: p)
  case (Cons ad ads)
  let ?p = "p\<lparr>qp_channel := tl (qp_channel p) @ [hd (qp_channel p)], qp_redis := (qp_redis p)(ACCOUNT_BACKFILL_STREAM :=
      qp_redis p ACCOUNT_BACKFILL_STREAM @ [account_message W ad])\<rparr>"
  have "push_details W ad p = Some (?p, Inr ())"
    using Cons.prems by (simp add: push_details_def push_account_backfill_def push_cases)
  moreover have "pool_ok ?p" "qp_channel ?p \<noteq> []" using Cons.prems by (auto simp: pool_ok_def)
  ultimately show ?case using Cons.IH [of ?p] Cons.prems(3) by (simp add: fun_upd_def cong: if_cong)
qed simp

lemma run_batches_spec:
  assumes "pool_ok p" "qp_channel p \<noteq> []" "\<forall>m. bw_send W m = None" "0 < n"
  shows "\<exists>p' r. run_batches W (chunks n keys) p = Some (p', r) \<and> (r = Inr () \<longleftrightarrow> (\<forall>k\<in>set keys. fetchable W k)) \<and>
    qp_redis p' = (qp_redis p)(ACCOUNT_BACKFILL_STREAM :=
      qp_redis p ACCOUNT_BACKFILL_STREAM @ map (message_of W) (whole_batches n (fetchable W) keys))"
  using assms
proof (induction n keys arbitrary: p rule: chunks.induct)
  case (1 n keys)
  show ?case
  proof (cases "keys = []")
    case True
    then show ?thesis by (simp add: chunks_simps whole_batches_def)
  next
    case False
    with 1 have c: "chunks n keys = take n keys # chunks n (drop n keys)" by (simp add: chunks_simps)
    show ?thesis
    proof (cases "\<forall>k\<in>set (take n keys). fetchable W k")
      case True
      let ?ads = "map (projr \<circ> fetch_details (bw_get_account W)) (take n keys)"
      have j: "try_join_all (map (fetch_details (bw_get_account W)) (take n keys)) = Inr ?ads"
        by (rule try_join_all_Inr) (use True in \<open>simp add: fetchable_def\<close>)
      from push_batch_ok [OF 1(2-4), of ?ads] obtain p1 where p1: "push_batch W ?ads p = Some (p1, Inr ())" "pool_ok p1"
          "qp_channel p1 \<noteq> []" "qp_redis p1 = (qp_redis p)(ACCOUNT_BACKFILL_STREAM :=
            qp_redis p ACCOUNT_BACKFILL_STREAM @ map (message_of W) (take n keys))"
        by (auto simp: message_of_def [abs_def] comp_def)
      have all: "(\<forall>k\<in>set keys. fetchable W k) = (\<forall>k\<in>set (drop n keys). fetchable W k)"
        using True by (metis Un_iff append_take_drop_id set_append)
      from "1.IH" [OF _ p1(2,3) 1(4,5)] 1(5) False p1 j c True all show ?thesis
        by (fastforce simp: whole_batches_first_good)
    next
      case bad: False
      then obtain e where "try_join_all (map (fetch_details (bw_get_account W)) (take n keys)) = Inl e"
        using try_join_all_Inl [of "take n keys" "fetch_details (bw_get_account W)"] unfolding fetchable_def by blast
      with c bad 1(5) show ?thesis by (auto simp: whole_batches_first_bad dest: in_set_takeD)
    qed
  qed
qed

text \<open>
  C20: What a program backfill has pushed. When the sends succeed, the command returns; it reports success exactly
  if every account of the program's list could be fetched again, and then the backfill stream has received
  the message of every account, in order. Otherwise, because one missing account (closed since the listing)
  fails the join of its batch and ends the command, it has received the messages of the batches before the
  first such account and none of the others.
\<close>

theorem program_backfill_pushes:
  assumes "try_from_config connect redis args = Some (Inr p)" and "\<forall>m. bw_send W m = None" and "0 < n"
  shows "\<exists>p' r. program_run W n (Inr accounts) p = Some (p', r) \<and>
    (r = Inr () \<longleftrightarrow> (\<forall>k\<in>set (map fst accounts). fetchable W k)) \<and>
    qp_redis p' ACCOUNT_BACKFILL_STREAM =
      redis ACCOUNT_BACKFILL_STREAM @ map (message_of W) (whole_batches n (fetchable W) (map fst accounts))"
proof -
  note p = try_from_config_ok [OF assms(1)]
  have "qp_channel p \<noteq> []"
    using p(2) assms(1) by (auto simp: try_from_config_def Let_def split: if_splits)
  from run_batches_spec [OF p(1) this assms(2,3), of "map fst accounts"] show ?thesis
    unfolding program_run_def using assms(3) p(3) by (auto simp del: set_map)
qed

definition demo_account :: rpc_account where
  "demo_account = \<lparr>ra_lamports = 1, ra_owner = [9], ra_executable = False, ra_rent_epoch = 0, ra_data = [5]\<rparr>"

text \<open>Three accounts in batches of two; the third one has been closed.\<close>

theorem program_backfill_pushes_witness:
  "\<exists>p p' e. try_from_config (\<lambda>_. None) (\<lambda>_. []) \<lparr>messenger_redis_url = ''redis'', messenger_redis_batch_size = ''100'',
        messenger_queue_connections = 1\<rparr> = Some (Inr p) \<and>
     program_run \<lparr>bw_get_account = (\<lambda>k. Inr (7, if k = [3] then None else Some demo_account)),
        bw_ser = (\<lambda>i s b. ri_pubkey i), bw_send = (\<lambda>_. None)\<rparr> 2
        (Inr [([1], demo_account), ([2], demo_account), ([3], demo_account)]) p = Some (p', Inl e) \<and>
     qp_redis p' ACCOUNT_BACKFILL_STREAM = [[1], [2]]"
proof -
  let ?args = "\<lparr>messenger_redis_url = ''redis'', messenger_redis_batch_size = ''100'', messenger_queue_connections = 1\<rparr>"
  let ?W = "\<lparr>bw_get_account = (\<lambda>k. Inr (7, if k = [3] then None else Some demo_account)),
        bw_ser = (\<lambda>i s b. ri_pubkey i), bw_send = (\<lambda>_. None)\<rparr>"
  let ?as = "[([1], demo_account), ([2], demo_account), ([3], demo_account)] :: (pubkey \<times> rpc_account) list"
  obtain p where p: "try_from_config (\<lambda>_. None) (\<lambda>_. []) ?args = Some (Inr p)"
    by (simp add: try_from_config_def try_send_def upt_rec)
  have f: "fetchable ?W k = (k \<noteq> [3])" for k by (simp add: fetchable_def fetch_details_def)
  have m: "k \<noteq> [3] \<Longrightarrow> message_of ?W k = k" for k
    by (simp add: message_of_def account_message_def fetch_details_def replica_info_def)
  from program_backfill_pushes [OF p, of ?W 2 ?as] obtain p' r where
    run: "program_run ?W 2 (Inr ?as) p = Some (p', r)" "r = Inr () \<longleftrightarrow> (\<forall>k\<in>set (map fst ?as). fetchable ?W k)"
      "qp_redis p' ACCOUNT_BACKFILL_STREAM = map (message_of ?W) (whole_batches 2 (fetchable ?W) (map fst ?as))" by auto
  have "r \<noteq> Inr ()" using run(2) f by simp
  then obtain e where "r = Inl e" by (cases r) auto
  moreover have "qp_redis p' ACCOUNT_BACKFILL_STREAM = [[1], [2]]" using run(3) by (simp add: whole_batches_def f m)
  ultimately show ?thesis using p run(1) by blast
qed

end
