(* ===== verification/Tree_Gaps.thy ===== *)
theory Tree_Gaps
  imports Queue_Pool Das_Schema Account_Parsers
begin

text \<open>
  The Bubblegum commands of \<open>ops\<close>: finding the gaps in the audit rows of a tree and the ranges of transactions
  to fetch for them (\<open>ops/src/bubblegum/tree.rs\<close>, \<open>backfiller.rs\<close>), crawling a range of the tree's signatures, and
  the audit of the indexed transactions (\<open>audit.rs\<close>). The RPC node and the decoding of the tree account are
  parameters.
\<close>

section \<open>Gaps\<close>

datatype tree_error_kind =
    Tree_Rpc string | Tree_Anchor string | Tree_Serialize string | Tree_QueuePool queue_pool_error
  | ParsePubkey | SerializeTreeResponse | Tree_Database | TryFromPubkey | TryFromSignature

record tree_gap_model =
  tg_tree :: bytes
  gap_start_seq :: i64
  gap_end_seq :: i64
  lower_bound_tx :: bytes
  upper_bound_tx :: bytes

text \<open>\<open>sequenced_data\<close> of \<open>TREE_GAP_SQL\<close>: the rows of the tree by sequence number; \<open>LEAD\<close> is the next row.\<close>

definition tree_audits :: "bytes \<Rightarrow> db \<Rightarrow> cl_audits_v2 list" where
  "tree_audits tree d = sort_key ca_seq (filter (\<lambda>r. ca_tree r = tree) (cl_audits_t d))"

fun gap_rows :: "cl_audits_v2 list \<Rightarrow> tree_gap_model list" where
  "gap_rows (r # r' # rs) =
    (if ca_seq r' - ca_seq r > 1
     then \<lparr>tg_tree = ca_tree r, gap_start_seq = ca_seq r, gap_end_seq = ca_seq r', lower_bound_tx = ca_tx r,
           upper_bound_tx = ca_tx r'\<rparr> # gap_rows (r' # rs)
     else gap_rows (r' # rs))"
| "gap_rows _ = []"

definition find_tree_gaps :: "bytes \<Rightarrow> db \<Rightarrow> tree_gap_model list" where
  "find_tree_gaps tree d = gap_rows (tree_audits tree d)"

record tree_gap_fill =
  gf_tree :: pubkey
  gf_before :: "bytes option"
  gf_until :: "bytes option"

text \<open>A \<open>Pubkey\<close> has 32 bytes and a \<open>Signature\<close> 64.\<close>

definition signature_try_from :: "bytes \<Rightarrow> tree_error_kind + bytes" where
  "signature_try_from b = (if length b = 64 then Inr b else Inl TryFromSignature)"

definition gap_fill_try_from :: "tree_gap_model \<Rightarrow> tree_error_kind + tree_gap_fill" where
  "gap_fill_try_from m =
    (if length (tg_tree m) \<noteq> 32 then Inl TryFromPubkey
     else case signature_try_from (upper_bound_tx m) of
       Inl e \<Rightarrow> Inl e
     | Inr upper \<Rightarrow>
         (case signature_try_from (lower_bound_tx m) of
            Inl e \<Rightarrow> Inl e
          | Inr lower \<Rightarrow> Inr \<lparr>gf_tree = tg_tree m, gf_before = Some upper, gf_until = Some lower\<rparr>))"

section \<open>Trees on the chain\<close>

record merkle_tree_header =
  th_max_depth :: u32
  th_max_buffer_size :: u32
  th_creation_slot :: u64

record tree_response =
  tr_pubkey :: pubkey
  tr_header :: merkle_tree_header
  tr_size :: nat
  tr_seq :: u64

text \<open>
  What \<open>mpl_account_compression\<close>, \<open>mpl_bubblegum\<close> and the SDK supply: the size of a header, its decoding, the size of
  the tree behind it, the program address of a tree, and the check of the header's authority.
\<close>

record tree_codec =
  tc_header_size :: nat
  tc_header :: "bytes \<Rightarrow> string + merkle_tree_header"
  tc_tree_size :: "merkle_tree_header \<Rightarrow> string + nat"
  tc_find_program_address :: "pubkey \<Rightarrow> pubkey"
  tc_assert_valid_authority :: "merkle_tree_header \<Rightarrow> pubkey \<Rightarrow> bool"

text \<open>
  \<open>TreeResponse::try_from_rpc\<close>. \<open>None\<close> is a panic: \<open>split_at\<close> beyond the end of the account's data, or a tree of
  fewer than eight bytes.
\<close>

definition try_from_rpc :: "tree_codec \<Rightarrow> pubkey \<Rightarrow> bytes \<Rightarrow> (string + tree_response) option" where
  "try_from_rpc C key data =
    (if length data < tc_header_size C then None
     else case tc_header C (take (tc_header_size C) data) of
       Inl e \<Rightarrow> Some (Inl e)
     | Inr header \<Rightarrow>
         (let rest = drop (tc_header_size C) data in
          case tc_tree_size C header of
            Inl e \<Rightarrow> Some (Inl e)
          | Inr merkle_tree_size \<Rightarrow>
              if length rest < merkle_tree_size \<or> merkle_tree_size < 8 then None
              else if \<not> tc_assert_valid_authority C header (tc_find_program_address C key) then Some (Inl ''authority'')
              else Some (Inr \<lparr>tr_pubkey = key, tr_header = header, tr_size = merkle_tree_size,
                              tr_seq = of_nat (from_le_bytes (take 8 (take merkle_tree_size rest)))\<rparr>)))"

text \<open>\<open>TreeResponse::all\<close>: the accounts that do not decode are left out, a panic is not caught.\<close>

fun all_trees :: "tree_codec \<Rightarrow> (pubkey \<times> bytes) list \<Rightarrow> tree_response list option" where
  "all_trees C [] = Some []"
| "all_trees C ((key, data) # more_accounts) =
    Option.bind (try_from_rpc C key data) (\<lambda>r.
      map_option (\<lambda>ts. case r of Inl e \<Rightarrow> ts | Inr t \<Rightarrow> t # ts) (all_trees C more_accounts))"

text \<open>
  \<open>TreeResponse::find\<close>: the keys are parsed (\<open>None\<close> is a parse error), asked for in batches of 100, and an account
  that does not decode fails the whole call; a missing account is left out.
\<close>

fun decode_found :: "tree_codec \<Rightarrow> (pubkey \<times> bytes option) list \<Rightarrow> (tree_error_kind + tree_response list) option" where
  "decode_found C [] = Some (Inr [])"
| "decode_found C ((key, None) # found) = decode_found C found"
| "decode_found C ((key, Some data) # found) =
    Option.bind (try_from_rpc C key data) (\<lambda>r.
      case r of
        Inl e \<Rightarrow> Some (Inl SerializeTreeResponse)
      | Inr t \<Rightarrow> map_option (map_sum id ((#) t)) (decode_found C found))"

definition find_trees :: "tree_codec \<Rightarrow> (pubkey list \<Rightarrow> string + bytes option list) \<Rightarrow> pubkey option list \<Rightarrow>
    (tree_error_kind + tree_response list) option" where
  "find_trees C get_multiple_accounts pubkeys =
    (if None \<in> set pubkeys then Some (Inl ParsePubkey)
     else case try_join_all (map (\<lambda>batch. map_sum Tree_Rpc (zip batch) (get_multiple_accounts batch)) (chunks 100 (map the pubkeys))) of
       Inl e \<Rightarrow> Some (Inl e)
     | Inr results \<Rightarrow> decode_found C (concat results))"

section \<open>The ranges to fetch\<close>

text \<open>
  \<open>spawn_gap_worker\<close>: the gaps between known sequence numbers, everything after the highest known one (or the
  whole tree, if nothing is known and the tree has changed), and everything before the lowest known one unless
  it is the first. The flags tell which of the three queries succeed.
\<close>

definition gap_worker :: "(nat \<Rightarrow> bool) \<Rightarrow> db \<Rightarrow> tree_response \<Rightarrow> tree_error_kind + tree_gap_fill list" where
  "gap_worker query_ok d tree =
    (if \<not> query_ok 0 then Inl Tree_Database
     else case try_join_all (map gap_fill_try_from (find_tree_gaps (tr_pubkey tree) d)) of
       Inl e \<Rightarrow> Inl e
     | Inr gaps \<Rightarrow>
         if \<not> query_ok 1 \<or> \<not> query_ok 2 then Inl Tree_Database
         else
           (let rows = tree_audits (tr_pubkey tree) d;
                upper_known_seq = (if rows = [] then None else Some (last rows));
                lower_known_seq = (if rows = [] then None else Some (hd rows)) in
            case (case upper_known_seq of
                    Some upper_seq \<Rightarrow>
                      map_sum id (\<lambda>sig. gaps @ [\<lparr>gf_tree = tr_pubkey tree, gf_before = None, gf_until = Some sig\<rparr>])
                        (signature_try_from (ca_tx upper_seq))
                  | None \<Rightarrow>
                      Inr (if tr_seq tree > 0
                           then gaps @ [\<lparr>gf_tree = tr_pubkey tree, gf_before = None, gf_until = None\<rparr>] else gaps)) of
              Inl e \<Rightarrow> Inl e
            | Inr gaps' \<Rightarrow>
                (case lower_known_seq of
                   Some lower_seq \<Rightarrow>
                     if ca_seq lower_seq > 1
                     then map_sum id (\<lambda>sig. gaps' @ [\<lparr>gf_tree = tr_pubkey tree, gf_before = Some sig, gf_until = None\<rparr>])
                            (signature_try_from (ca_tx lower_seq))
                     else Inr gaps'
                 | None \<Rightarrow> Inr gaps')))"

section \<open>Crawling a range\<close>

definition GET_SIGNATURES_FOR_ADDRESS_LIMIT :: nat where
  "GET_SIGNATURES_FOR_ADDRESS_LIMIT = 1000"

text \<open>A status of \<open>get_signatures_for_address\<close>: the signature in base 58 and whether the transaction failed.\<close>

record signature_status =
  ss_signature :: string
  ss_err :: bool

text \<open>The inner loop: every signature is parsed and sent, and becomes the new \<open>before\<close>.\<close>

fun send_signatures :: "(string \<Rightarrow> bytes option) \<Rightarrow> signature_status list \<Rightarrow> bytes option \<Rightarrow> bytes list \<Rightarrow>
    (string + bytes option) \<times> bytes list" where
  "send_signatures from_str [] before sent = (Inr before, sent)"
| "send_signatures from_str (s # ss) before sent =
    (case from_str (ss_signature s) of
       None \<Rightarrow> (Inl ''parse signature'', sent)
     | Some sig \<Rightarrow> send_signatures from_str ss (Some sig) (sent @ [sig]))"

text \<open>\<open>TreeGapFill::crawl\<close>, with the signatures sent so far; \<open>None\<close> is a crawl that never returns.\<close>

partial_function (option) crawl_from :: "(string \<Rightarrow> bytes option) \<Rightarrow>
    (bytes option \<Rightarrow> bytes option \<Rightarrow> string + signature_status list) \<Rightarrow> bytes option \<Rightarrow> bytes option \<Rightarrow> bytes list \<Rightarrow>
    ((string + unit) \<times> bytes list) option" where
  "crawl_from from_str get_signatures til before sent =
    (case get_signatures before til of
       Inl e \<Rightarrow> Some (Inl e, sent)
     | Inr sigs \<Rightarrow>
         (case send_signatures from_str (filter (\<lambda>s. \<not> ss_err s) sigs) before sent of
            (Inl e, sent') \<Rightarrow> Some (Inl e, sent')
          | (Inr before', sent') \<Rightarrow>
              if length sigs < GET_SIGNATURES_FOR_ADDRESS_LIMIT then Some (Inr (), sent')
              else crawl_from from_str get_signatures til before' sent'))"

definition crawl :: "(string \<Rightarrow> bytes option) \<Rightarrow>
    (pubkey \<Rightarrow> bytes option \<Rightarrow> bytes option \<Rightarrow> string + signature_status list) \<Rightarrow> tree_gap_fill \<Rightarrow>
    ((string + unit) \<times> bytes list) option" where
  "crawl from_str get_signatures g = crawl_from from_str (get_signatures (gf_tree g)) (gf_until g) (gf_before g) []"

text \<open>\<open>queue_transaction\<close>: the transaction is fetched, serialized and pushed to the backfill stream.\<close>

definition queue_transaction :: "(bytes \<Rightarrow> string + 't) \<Rightarrow> ('t \<Rightarrow> string + bytes) \<Rightarrow> (bytes \<Rightarrow> string option) \<Rightarrow> bytes \<Rightarrow>
    queue_pool \<Rightarrow> (queue_pool \<times> (tree_error_kind + unit)) option" where
  "queue_transaction get_transaction serialize send sig p =
    (case get_transaction sig of
       Inl e \<Rightarrow> Some (p, Inl (Tree_Rpc e))
     | Inr tx \<Rightarrow>
         (case serialize tx of
            Inl e \<Rightarrow> Some (p, Inl (Tree_Serialize e))
          | Inr msg \<Rightarrow>
              map_option (\<lambda>(p', r). (p', map_sum Tree_QueuePool id r)) (push_transaction_backfill msg (send msg) p)))"

section \<open>The audit\<close>

text \<open>An audit row with its identifier, the cursor of the loop.\<close>

record audit_entry =
  au_id :: i64
  au_tx :: bytes

text \<open>
  The next batch: the first rows by identifier after the cursor. A failing query or output ends the command with
  the error; the loop below is the command while they succeed.
\<close>

definition audit_batch :: "nat \<Rightarrow> i64 option \<Rightarrow> audit_entry list \<Rightarrow> audit_entry list" where
  "audit_batch n after rows =
    take n (filter (\<lambda>r. case after of None \<Rightarrow> True | Some i \<Rightarrow> i < au_id r) (sort_key au_id rows))"

text \<open>
  \<open>fetch_transaction\<close> and the report on it: \<open>get_err\<close> answers with whether the transaction failed; an error and a
  transaction without its \<open>meta\<close> (\<open>None\<close>) are passed over.
\<close>

definition audit_report :: "(bytes \<Rightarrow> string + bool option) \<Rightarrow> audit_entry \<Rightarrow> bytes list" where
  "audit_report get_err r =
    (case signature_try_from (au_tx r) of
       Inl e \<Rightarrow> []
     | Inr sig \<Rightarrow> (case get_err sig of Inr (Some True) \<Rightarrow> [sig] | _ \<Rightarrow> []))"

lemma audit_batch_shrinks:
  assumes "audit_batch n after rows \<noteq> []"
  shows "length (filter (\<lambda>r. au_id (last (audit_batch n after rows)) < au_id r) (sort_key au_id rows)) <
    length (filter (\<lambda>r. case after of None \<Rightarrow> True | Some i \<Rightarrow> i < au_id r) (sort_key au_id rows))"
proof -
  let ?rs = "sort_key au_id rows" and ?P = "\<lambda>r. case after of None \<Rightarrow> True | Some i \<Rightarrow> i < au_id r"
  let ?l = "last (audit_batch n after rows)" let ?Q = "\<lambda>r. au_id ?l < au_id r"
  have l: "?l \<in> set (filter ?P ?rs)"
    using last_in_set [OF assms] unfolding audit_batch_def by (blast dest: in_set_takeD)
  have "filter ?Q ?rs = filter ?Q (filter ?P ?rs)"
    unfolding filter_filter by (rule filter_cong) (use l in \<open>auto split: option.splits\<close>)
  also have "length \<dots> < length (filter ?P ?rs)"
    by (rule length_filter_less [OF l]) simp
  finally show ?thesis .
qed

function audit_loop :: "nat \<Rightarrow> (bytes \<Rightarrow> string + bool option) \<Rightarrow> audit_entry list \<Rightarrow> i64 option \<Rightarrow> bytes list" where
  "audit_loop n get_err rows after =
    (let entries = audit_batch n after rows in
     if entries = [] then []
     else concat (map (audit_report get_err) entries) @ audit_loop n get_err rows (Some (au_id (last entries))))"
  by pat_completeness auto
termination
proof (relation "measure (\<lambda>(n, get_err, rows, after).
    length (filter (\<lambda>r. case after of None \<Rightarrow> True | Some i \<Rightarrow> i < au_id r) (sort_key au_id rows)))", goal_cases)
  case (2 n get_err rows after x)
  then show ?case using audit_batch_shrinks [of n after rows] by simp
qed simp

declare audit_loop.simps [simp del]

end
