(* ===== verification/Gap_Properties.thy ===== *)
theory Gap_Properties
  imports Tree_Gaps
begin

text \<open>
  Properties of the Bubblegum commands of \<open>ops\<close>: the exact result of a crawl (and when it never ends), the
  ranges that a tree's missing sequence numbers fall into, their composition, and the audit's report.
\<close>

section \<open>The history of a tree\<close>

text \<open>A transaction of the history, newest first: its signature, whether it succeeded, the sequence numbers it made.\<close>

record tree_tx =
  hx_sig :: bytes
  hx_ok :: bool
  hx_seqs :: "int list"

definition sigs_after :: "bytes option \<Rightarrow> tree_tx list \<Rightarrow> tree_tx list" where
  "sigs_after before h = (case before of None \<Rightarrow> h | Some s \<Rightarrow> tl (dropWhile (\<lambda>x. hx_sig x \<noteq> s) h))"

text \<open>The documented answer of \<open>getSignaturesForAddress\<close>: what lies strictly between \<open>before\<close> and \<open>until\<close>.\<close>

definition sig_window :: "bytes option \<Rightarrow> bytes option \<Rightarrow> tree_tx list \<Rightarrow> tree_tx list" where
  "sig_window before til h = takeWhile (\<lambda>x. til \<noteq> Some (hx_sig x)) (sigs_after before h)"

definition honest_signatures :: "(string \<Rightarrow> bytes option) \<Rightarrow> tree_tx list \<Rightarrow>
    (bytes option \<Rightarrow> bytes option \<Rightarrow> string + signature_status list) \<Rightarrow> bool" where
  "honest_signatures from_str h get_signatures \<longleftrightarrow>
     distinct (map hx_sig h) \<and>
     (\<forall>before til. (\<forall>s. before = Some s \<longrightarrow> s \<in> hx_sig ` set h) \<longrightarrow>
       (\<exists>sigs. get_signatures before til = Inr sigs \<and>
         map (\<lambda>s. (from_str (ss_signature s), \<not> ss_err s)) sigs =
         map (\<lambda>x. (Some (hx_sig x), hx_ok x)) (take 1000 (sig_window before til h))))"

text \<open>A thousand transactions in a row have failed.\<close>

definition stalls :: "tree_tx list \<Rightarrow> bool" where
  "stalls w = (\<exists>as bs cs. w = as @ bs @ cs \<and> length bs = 1000 \<and> (\<forall>x\<in>set bs. \<not> hx_ok x))"

lemma stalls_short: "length w < 1000 \<Longrightarrow> \<not> stalls w"
  by (auto simp: stalls_def)

lemma stalls_now: "1000 \<le> length w \<Longrightarrow> \<forall>x\<in>set (take 1000 w). \<not> hx_ok x \<Longrightarrow> stalls w"
  unfolding stalls_def by (intro exI [of _ "[]"] exI [of _ "take 1000 w"] exI [of _ "drop 1000 w"]) simp

lemma stalls_skip:
  assumes "hx_ok x" "length as < 1000"
  shows "stalls (as @ x # w) = stalls w"
proof
  assume "stalls w"
  then obtain us bs cs where "w = us @ bs @ cs" "length bs = 1000" "\<forall>x\<in>set bs. \<not> hx_ok x" by (auto simp: stalls_def)
  then show "stalls (as @ x # w)" unfolding stalls_def
    by (intro exI [of _ "as @ x # us"] exI [of _ bs] exI [of _ cs]) auto
next
  assume "stalls (as @ x # w)"
  then obtain us bs cs where e: "as @ x # w = us @ bs @ cs" "length bs = 1000" "\<forall>x\<in>set bs. \<not> hx_ok x"
    by (auto simp: stalls_def)
  have "length as < length us"
  proof (rule ccontr)
    assume "\<not> length as < length us"
    then have "x = bs ! (length as - length us)" "length as - length us < length bs"
      using arg_cong [OF e(1), of "\<lambda>xs. xs ! length as"] e(2) assms(2) by (auto simp: nth_append)
    then show False using e(3) assms(1) nth_mem by metis
  qed
  then have "drop (Suc (length as)) (us @ bs @ cs) = drop (Suc (length as)) us @ bs @ cs" by simp
  then have "w = drop (Suc (length as)) us @ bs @ cs"
    using arg_cong [OF e(1), of "drop (Suc (length as))"] by simp
  then show "stalls w" using e(2,3) unfolding stalls_def by blast
qed

section \<open>One page of the crawl\<close>

lemma send_signatures_spec:
  assumes "map (\<lambda>s. from_str (ss_signature s)) ss = map (Some \<circ> hx_sig) xs"
  shows "send_signatures from_str ss before sent =
    (Inr (if xs = [] then before else Some (hx_sig (last xs))), sent @ map hx_sig xs)"
  using assms
  by (induction ss arbitrary: xs before sent) (auto simp: Cons_eq_map_conv)

lemma filter_pairs:
  "map (\<lambda>s. (f s, P s)) xs = map (\<lambda>x. (g x, Q x)) ys \<Longrightarrow> map f (filter P xs) = map g (filter Q ys)"
  by (induction xs arbitrary: ys) (auto simp: Cons_eq_map_conv)

lemma sigs_after_split:
  assumes "distinct (map hx_sig (as @ x # bs))"
  shows "sigs_after (Some (hx_sig x)) (as @ x # bs) = bs"
proof -
  have "\<forall>y\<in>set as. hx_sig y \<noteq> hx_sig x" using assms by (auto simp: image_iff)
  then show ?thesis by (simp add: sigs_after_def dropWhile_append2)
qed

lemma window_split:
  assumes "distinct (map hx_sig h)" "sig_window before til h = as @ x # bs"
  shows "sig_window (Some (hx_sig x)) til h = bs" "hx_sig x \<in> hx_sig ` set h"
proof -
  let ?P = "\<lambda>x. til \<noteq> Some (hx_sig x)"
  obtain us where h: "h = us @ sigs_after before h"
    unfolding sigs_after_def by (cases before) (simp, metis append_take_drop_id dropWhile_eq_drop drop_Suc tl_drop option.simps(5))
  obtain vs where v: "sigs_after before h = (as @ x # bs) @ vs" and stop: "vs = [] \<or> \<not> ?P (hd vs)"
    using assms(2) takeWhile_dropWhile_id [of ?P "sigs_after before h"] hd_dropWhile [of ?P "sigs_after before h"]
    unfolding sig_window_def by metis
  have split: "h = (us @ as) @ x # (bs @ vs)" using h v by simp
  then show "hx_sig x \<in> hx_sig ` set h" by (metis imageI in_set_conv_decomp)
  have "sigs_after (Some (hx_sig x)) h = bs @ vs"
    using sigs_after_split [of "us @ as" x "bs @ vs"] assms(1) split by simp
  moreover have "\<forall>y\<in>set (as @ x # bs). ?P y" using set_takeWhileD [of _ ?P] assms(2) unfolding sig_window_def by metis
  then have "takeWhile ?P (bs @ vs) = bs" using stop by (cases vs) (auto simp: takeWhile_append2)
  ultimately show "sig_window (Some (hx_sig x)) til h = bs" by (simp add: sig_window_def)
qed

abbreviation known_before :: "tree_tx list \<Rightarrow> bytes option \<Rightarrow> bool" where
  "known_before h before \<equiv> \<forall>s. before = Some s \<longrightarrow> s \<in> hx_sig ` set h"

lemma crawl_page:
  assumes "honest_signatures from_str h get_signatures" "known_before h before"
  shows "(case get_signatures before til of
       Inl e \<Rightarrow> Some (Inl e, sent)
     | Inr sigs \<Rightarrow>
         (case send_signatures from_str (filter (\<lambda>s. \<not> ss_err s) sigs) before sent of
            (Inl e, sent') \<Rightarrow> Some (Inl e, sent')
          | (Inr before', sent') \<Rightarrow>
              if length sigs < GET_SIGNATURES_FOR_ADDRESS_LIMIT then Some (Inr (), sent') else f before' sent')) =
    (let w = sig_window before til h; oks = filter hx_ok (take 1000 w) in
     if length w < 1000 then Some (Inr (), sent @ map hx_sig oks)
     else f (if oks = [] then before else Some (hx_sig (last oks))) (sent @ map hx_sig oks))"
proof -
  let ?w = "sig_window before til h"
  obtain sigs where sigs: "get_signatures before til = Inr sigs"
      "map (\<lambda>s. (from_str (ss_signature s), \<not> ss_err s)) sigs = map (\<lambda>x. (Some (hx_sig x), hx_ok x)) (take 1000 ?w)"
    using assms(1) assms(2) unfolding honest_signatures_def by meson
  have "length sigs = length (take 1000 ?w)" using arg_cong [OF sigs(2), of length] by simp
  then have "length sigs < 1000 \<longleftrightarrow> length ?w < 1000" by auto
  then show ?thesis
    unfolding sigs(1) sum.case filter_pairs [OF sigs(2)]
    using send_signatures_spec [of from_str "filter (\<lambda>s. \<not> ss_err s) sigs" "filter hx_ok (take 1000 ?w)" before sent]
      filter_pairs [OF sigs(2)]
    by (simp add: GET_SIGNATURES_FOR_ADDRESS_LIMIT_def Let_def comp_def)
qed

text \<open>The last successful transaction of a page splits the window.\<close>

lemma page_split:
  assumes "1000 \<le> length w" "filter hx_ok (take 1000 w) \<noteq> []"
  obtains as x bs where "w = as @ x # bs" "hx_ok x" "length as < 1000" "last (filter hx_ok (take 1000 w)) = x"
    "filter hx_ok (take 1000 w) = filter hx_ok (as @ [x])"
proof -
  from assms(2) have "\<exists>x\<in>set (take 1000 w). hx_ok x" by (auto simp: filter_empty_conv)
  from split_list_last_prop [OF this] obtain as x cs where
    page: "take 1000 w = as @ x # cs" "hx_ok x" "\<forall>y\<in>set cs. \<not> hx_ok y" by blast
  have "w = as @ x # cs @ drop 1000 w" using append_take_drop_id [of 1000 w] page(1) by simp
  moreover have "length as < 1000" using arg_cong [OF page(1), of length] assms(1) by simp
  moreover have "filter hx_ok cs = []" using page(3) by (simp add: filter_empty_conv)
  ultimately show ?thesis using page by (intro that [of as x "cs @ drop 1000 w"]) simp_all
qed

lemma crawl_from_stalls:
  assumes "crawl_from from_str get_signatures til before sent = Some y"
  shows "honest_signatures from_str h get_signatures \<Longrightarrow> known_before h before \<Longrightarrow> \<not> stalls (sig_window before til h)"
  using assms
proof (induction rule: crawl_from.raw_induct [rotated, consumes 1])
  case (1 f from_str get_signatures til before sent y)
  let ?w = "sig_window before til h"
  show ?case
  proof (cases "length ?w < 1000")
    case False
    let ?oks = "filter hx_ok (take 1000 ?w)"
    have f: "f from_str get_signatures til (if ?oks = [] then before else Some (hx_sig (last ?oks))) (sent @ map hx_sig ?oks) = Some y"
      using "1.hyps" False unfolding crawl_page [OF "1.prems"] by (simp add: Let_def)
    show ?thesis
    proof (cases "?oks = []")
      case True
      with "1.IH" [OF f] "1.prems" show ?thesis by simp
    next
      case ok: False
      from False have "1000 \<le> length ?w" by simp
      from page_split [OF this ok] obtain as x bs where x: "?w = as @ x # bs" "hx_ok x" "length as < 1000" "last ?oks = x" by blast
      have "distinct (map hx_sig h)" using "1.prems"(1) by (simp add: honest_signatures_def)
      from window_split [OF this x(1)] "1.IH" [OF f] "1.prems" ok x show ?thesis
        by (auto simp: stalls_skip)
    qed
  qed (simp add: stalls_short)
qed

lemma crawl_from_returns:
  assumes "honest_signatures from_str h get_signatures"
  shows "known_before h before \<Longrightarrow> \<not> stalls (sig_window before til h) \<Longrightarrow>
    crawl_from from_str get_signatures til before sent =
      Some (Inr (), sent @ map hx_sig (filter hx_ok (sig_window before til h)))"
proof (induction "length (sig_window before til h)" arbitrary: before sent rule: less_induct)
  case less
  let ?w = "sig_window before til h"
  note page = crawl_page [OF assms less.prems(1), where til = til and sent = sent and
      f = "crawl_from from_str get_signatures til", folded crawl_from.simps [of from_str get_signatures til before sent]]
  show ?case
  proof (cases "length ?w < 1000")
    case True
    then show ?thesis unfolding page by (simp add: Let_def)
  next
    case False
    then have len: "1000 \<le> length ?w" by simp
    let ?oks = "filter hx_ok (take 1000 ?w)"
    have "?oks \<noteq> []" using stalls_now [OF len] less.prems(2) by (auto simp: filter_empty_conv)
    from page_split [OF len this] obtain as x bs where x: "?w = as @ x # bs" "hx_ok x" "length as < 1000"
        "last ?oks = x" "?oks = filter hx_ok (as @ [x])" by blast
    have "distinct (map hx_sig h)" using assms by (simp add: honest_signatures_def)
    note split = window_split [OF this x(1)]
    have "crawl_from from_str get_signatures til (Some (hx_sig x)) (sent @ map hx_sig ?oks) =
        Some (Inr (), (sent @ map hx_sig ?oks) @ map hx_sig (filter hx_ok bs))"
      using less.hyps [of "Some (hx_sig x)" "sent @ map hx_sig ?oks"] split less.prems(2) x(1-3)
      by (simp add: stalls_skip)
    then show ?thesis unfolding page using len x \<open>?oks \<noteq> []\<close> by (simp add: Let_def)
  qed
qed

text \<open>
  C18: The exact result of a crawl. Let the node list the transactions of the tree between the bounds of the
  range. The crawl never returns if a thousand of them in a row have failed: \<open>before\<close> only advances on a
  successful transaction, so the page is asked for again and again. Otherwise it returns without an error and
  has sent the successful transactions of the range, each once, newest first.
\<close>

theorem crawl_result:
  assumes "honest_signatures from_str h (get_signatures (gf_tree g))" and "known_before h (gf_before g)"
  shows "crawl from_str get_signatures g =
    (let w = sig_window (gf_before g) (gf_until g) h in
     if stalls w then None else Some (Inr (), map hx_sig (filter hx_ok w)))"
proof (cases "stalls (sig_window (gf_before g) (gf_until g) h)")
  case True
  with crawl_from_stalls [OF _ assms] have "\<And>y. crawl from_str get_signatures g \<noteq> Some y"
    unfolding crawl_def by blast
  with True show ?thesis by (simp add: Let_def) (metis not_None_eq)
next
  case False
  with crawl_from_returns [OF assms] show ?thesis by (simp add: crawl_def Let_def)
qed

section \<open>The ranges of a tree\<close>

lemma gap_rows_cover:
  assumes "sorted (map ca_seq rs)" "rs \<noteq> []" "ca_seq (hd rs) < n" "n < ca_seq (last rs)" "n \<notin> ca_seq ` set rs"
  shows "\<exists>m\<in>set (gap_rows rs). \<exists>lo\<in>set rs. \<exists>hi\<in>set rs. ca_seq lo < n \<and> n < ca_seq hi \<and>
    lower_bound_tx m = ca_tx lo \<and> upper_bound_tx m = ca_tx hi"
  using assms
proof (induction rs rule: gap_rows.induct)
  case (1 r r' rs)
  show ?case
  proof (cases "n < ca_seq r'")
    case True
    then have "ca_seq r' - ca_seq r > 1" using "1.prems"(3) by simp
    then show ?thesis using True "1.prems"(3) by auto
  next
    case False
    with "1.prems"(5) have "ca_seq r' < n" by auto
    have tail: "sorted (map ca_seq (r' # rs))" "n < ca_seq (last (r' # rs))" "n \<notin> ca_seq ` set (r' # rs)"
      using "1.prems" by simp_all
    have "\<exists>m\<in>set (gap_rows (r' # rs)). \<exists>lo\<in>set (r' # rs). \<exists>hi\<in>set (r' # rs). ca_seq lo < n \<and> n < ca_seq hi \<and>
        lower_bound_tx m = ca_tx lo \<and> upper_bound_tx m = ca_tx hi"
      by (cases "ca_seq r' - ca_seq r > 1"; rule "1.IH") (use tail \<open>ca_seq r' < n\<close> in simp_all)
    moreover have "set (gap_rows (r' # rs)) \<subseteq> set (gap_rows (r # r' # rs))" by auto
    ultimately show ?thesis by (meson list.set_intros(2) subsetD)
  qed
qed auto

lemma gap_rows_bounds:
  "m \<in> set (gap_rows rs) \<Longrightarrow> tg_tree m \<in> ca_tree ` set rs \<and> lower_bound_tx m \<in> ca_tx ` set rs \<and> upper_bound_tx m \<in> ca_tx ` set rs"
  by (induction rs rule: gap_rows.induct) (auto split: if_splits)

lemma tree_audits_set: "set (tree_audits tree d) = {r \<in> set (cl_audits_t d). ca_tree r = tree}"
  by (auto simp: tree_audits_def)

text \<open>The keys and signatures of the audit rows of a tree are well formed.\<close>

definition well_formed_audits :: "pubkey \<Rightarrow> db \<Rightarrow> bool" where
  "well_formed_audits tree d \<longleftrightarrow> length tree = 32 \<and> (\<forall>r\<in>set (tree_audits tree d). length (ca_tx r) = 64)"

lemma gap_fills_ok:
  assumes "well_formed_audits tree d"
  shows "try_join_all (map gap_fill_try_from (find_tree_gaps tree d)) =
    Inr (map (\<lambda>m. \<lparr>gf_tree = tree, gf_before = Some (upper_bound_tx m), gf_until = Some (lower_bound_tx m)\<rparr>) (find_tree_gaps tree d))"
proof -
  have ok: "gap_fill_try_from m = Inr \<lparr>gf_tree = tree, gf_before = Some (upper_bound_tx m), gf_until = Some (lower_bound_tx m)\<rparr>"
    if "m \<in> set (find_tree_gaps tree d)" for m
    using gap_rows_bounds [OF that [unfolded find_tree_gaps_def]] assms
    by (auto simp: gap_fill_try_from_def signature_try_from_def well_formed_audits_def tree_audits_set)
  have "try_join_all (map gap_fill_try_from ms) = Inr (map f ms)"
    if "\<forall>m\<in>set ms. gap_fill_try_from m = Inr (f m)" for ms and f :: "tree_gap_model \<Rightarrow> tree_gap_fill"
    using that by (induction ms) simp_all
  with ok show ?thesis by simp
qed

text \<open>The fill \<open>g\<close> asks for what lies above the sequence numbers below \<open>n\<close> and below those above \<open>n\<close>.\<close>

definition surrounds :: "cl_audits_v2 set \<Rightarrow> tree_gap_fill \<Rightarrow> int \<Rightarrow> bool" where
  "surrounds R g n \<longleftrightarrow>
    (\<forall>s. gf_before g = Some s \<longrightarrow> (\<exists>r\<in>R. ca_tx r = s \<and> n < ca_seq r)) \<and>
    (\<forall>s. gf_until g = Some s \<longrightarrow> (\<exists>r\<in>R. ca_tx r = s \<and> ca_seq r < n))"

lemma gap_worker_value:
  assumes "\<forall>i. query_ok i" "well_formed_audits (tr_pubkey tree) d"
  shows "gap_worker query_ok d tree = Inr
    (map (\<lambda>m. \<lparr>gf_tree = tr_pubkey tree, gf_before = Some (upper_bound_tx m), gf_until = Some (lower_bound_tx m)\<rparr>)
       (find_tree_gaps (tr_pubkey tree) d) @
     (let rows = tree_audits (tr_pubkey tree) d in
      if rows = [] then (if tr_seq tree > 0 then [\<lparr>gf_tree = tr_pubkey tree, gf_before = None, gf_until = None\<rparr>] else [])
      else \<lparr>gf_tree = tr_pubkey tree, gf_before = None, gf_until = Some (ca_tx (last rows))\<rparr> #
        (if ca_seq (hd rows) > 1 then [\<lparr>gf_tree = tr_pubkey tree, gf_before = Some (ca_tx (hd rows)), gf_until = None\<rparr>] else [])))"
  using assms gap_fills_ok [OF assms(2)] last_in_set [of "tree_audits (tr_pubkey tree) d"] hd_in_set [of "tree_audits (tr_pubkey tree) d"]
  by (auto simp: gap_worker_def Let_def signature_try_from_def well_formed_audits_def)

lemma missing_surrounded:
  assumes "\<forall>i. query_ok i" "well_formed_audits (tr_pubkey tree) d" "gap_worker query_ok d tree = Inr fills"
    and n: "1 \<le> n" "n \<notin> ca_seq ` set (tree_audits (tr_pubkey tree) d)"
    and any: "tree_audits (tr_pubkey tree) d \<noteq> [] \<or> tr_seq tree > 0"
  shows "\<exists>g\<in>set fills. gf_tree g = tr_pubkey tree \<and> surrounds (set (tree_audits (tr_pubkey tree) d)) g n"
proof -
  let ?rows = "tree_audits (tr_pubkey tree) d"
  note fills = assms(3) [unfolded gap_worker_value [OF assms(1,2)]]
  show ?thesis
  proof (cases "?rows = []")
    case True
    with fills any show ?thesis by (auto simp: surrounds_def)
  next
    case False
    have ends: "hd ?rows \<in> set ?rows" "last ?rows \<in> set ?rows" using False by auto
    with n(2) have ne: "ca_seq (hd ?rows) \<noteq> n" "ca_seq (last ?rows) \<noteq> n" by auto
    consider "n < ca_seq (hd ?rows)" | "ca_seq (last ?rows) < n" | "ca_seq (hd ?rows) < n" "n < ca_seq (last ?rows)"
      using ne by linarith
    then show ?thesis
    proof cases
      case 1
      let ?g = "\<lparr>gf_tree = tr_pubkey tree, gf_before = Some (ca_tx (hd ?rows)), gf_until = None\<rparr>"
      have "?g \<in> set fills" using fills False 1 n(1) by (auto simp: Let_def)
      moreover have "surrounds (set ?rows) ?g n" using 1 ends by (auto simp: surrounds_def)
      ultimately show ?thesis by force
    next
      case 2
      let ?g = "\<lparr>gf_tree = tr_pubkey tree, gf_before = None, gf_until = Some (ca_tx (last ?rows))\<rparr>"
      have "?g \<in> set fills" using fills False by (auto simp: Let_def)
      moreover have "surrounds (set ?rows) ?g n" using 2 ends by (auto simp: surrounds_def)
      ultimately show ?thesis by force
    next
      case 3
      have "sorted (map ca_seq ?rows)" by (simp add: tree_audits_def)
      from gap_rows_cover [OF this False 3 n(2)] obtain m lo hi where
        m: "m \<in> set (find_tree_gaps (tr_pubkey tree) d)" "lo \<in> set ?rows" "hi \<in> set ?rows" "ca_seq lo < n" "n < ca_seq hi"
          "lower_bound_tx m = ca_tx lo" "upper_bound_tx m = ca_tx hi" unfolding find_tree_gaps_def by blast
      let ?g = "\<lparr>gf_tree = tr_pubkey tree, gf_before = Some (upper_bound_tx m), gf_until = Some (lower_bound_tx m)\<rparr>"
      have "?g \<in> set fills" using fills m(1) by (auto simp: Let_def)
      moreover have "surrounds (set ?rows) ?g n" using m by (auto simp: surrounds_def)
      ultimately show ?thesis by force
    qed
  qed
qed

section \<open>From the audit rows to the transactions\<close>

text \<open>
  Newer transactions have made the larger sequence numbers, and every audit row names the transaction that made
  its sequence number.
\<close>

definition in_order :: "tree_tx list \<Rightarrow> bool" where
  "in_order h = sorted_wrt (\<lambda>x y. \<forall>m\<in>set (hx_seqs x). \<forall>n\<in>set (hx_seqs y). n < m) h"

definition rows_made_by :: "tree_tx list \<Rightarrow> cl_audits_v2 set \<Rightarrow> bool" where
  "rows_made_by h R = (\<forall>r\<in>R. \<exists>x\<in>set h. hx_sig x = ca_tx r \<and> ca_seq r \<in> set (hx_seqs x))"

lemma window_infix: "\<exists>us vs. h = us @ sig_window before til h @ vs"
proof -
  obtain us where "h = us @ sigs_after before h"
    unfolding sigs_after_def by (cases before) (simp, metis append_take_drop_id dropWhile_eq_drop drop_Suc tl_drop option.simps(5))
  then show ?thesis unfolding sig_window_def by (metis takeWhile_dropWhile_id)
qed

lemma stalls_window: "stalls (sig_window before til h) \<Longrightarrow> stalls h"
proof -
  assume "stalls (sig_window before til h)"
  then obtain as bs cs where w: "sig_window before til h = as @ bs @ cs" "length bs = 1000" "\<forall>x\<in>set bs. \<not> hx_ok x"
    by (auto simp: stalls_def)
  moreover obtain us vs where "h = us @ sig_window before til h @ vs" using window_infix by blast
  ultimately have "h = (us @ as) @ bs @ (cs @ vs)" by simp
  with w(2,3) show "stalls h" unfolding stalls_def by blast
qed

lemma in_order_split:
  assumes "in_order (as @ x # bs)" "y \<in> set (as @ x # bs)" "y \<noteq> x" "n \<in> set (hx_seqs x)" "m \<in> set (hx_seqs y)"
  shows "n < m \<Longrightarrow> y \<in> set as" and "m < n \<Longrightarrow> y \<in> set bs"
  using assms by (fastforce simp: in_order_def sorted_wrt_append)+

lemma reached: "\<forall>y\<in>set (us @ [x]). P y \<Longrightarrow> x \<in> set (takeWhile P (us @ x # bs))"
  by (induction us) auto

lemma in_window:
  assumes h: "distinct (map hx_sig h)" "in_order h" "rows_made_by h R" and x: "x \<in> set h" "n \<in> set (hx_seqs x)"
    and new: "hx_sig x \<notin> ca_tx ` R" and g: "surrounds R g n"
  shows "x \<in> set (sig_window (gf_before g) (gf_until g) h)"
proof -
  obtain as bs where split: "h = as @ x # bs" using x(1) by (meson split_list)
  have row: "\<exists>y\<in>set h. hx_sig y = ca_tx r \<and> ca_seq r \<in> set (hx_seqs y) \<and> y \<noteq> x" if "r \<in> R" for r
    using h(3) new that unfolding rows_made_by_def by (metis imageI)
  have "\<exists>us. sigs_after (gf_before g) h = us @ x # bs"
  proof (cases "gf_before g")
    case (Some s)
    with g obtain r where r: "r \<in> R" "ca_tx r = s" "n < ca_seq r" by (auto simp: surrounds_def)
    from row [OF r(1)] obtain y where y: "y \<in> set h" "hx_sig y = s" "ca_seq r \<in> set (hx_seqs y)" "y \<noteq> x" using r(2) by blast
    have "y \<in> set as" using in_order_split(1) [of as x bs y n "ca_seq r"] h(2) x(2) y r(3) split by simp
    then obtain as1 as2 where "as = as1 @ y # as2" by (meson split_list)
    then have "sigs_after (Some s) h = as2 @ x # bs"
      using sigs_after_split [of as1 y "as2 @ x # bs"] h(1) split y(2) by simp
    with Some show ?thesis by auto
  qed (auto simp: sigs_after_def split)
  then obtain us where us: "sigs_after (gf_before g) h = us @ x # bs" by blast
  obtain ws where ws: "h = ws @ us @ x # bs"
  proof -
    obtain ws where "h = ws @ sigs_after (gf_before g) h"
      unfolding sigs_after_def
      by (cases "gf_before g") (simp, metis append_take_drop_id dropWhile_eq_drop drop_Suc tl_drop option.simps(5))
    then show ?thesis using that us by metis
  qed
  have "\<forall>y\<in>set (us @ [x]). gf_until g \<noteq> Some (hx_sig y)"
  proof (cases "gf_until g")
    case (Some s)
    with g obtain r where r: "r \<in> R" "ca_tx r = s" "ca_seq r < n" by (auto simp: surrounds_def)
    from row [OF r(1)] obtain z where z: "z \<in> set h" "hx_sig z = s" "ca_seq r \<in> set (hx_seqs z)" "z \<noteq> x" using r(2) by blast
    have "z \<in> set bs" using in_order_split(2) [of "ws @ us" x bs z n "ca_seq r"] h(2) x(2) z r(3) ws by simp
    then show ?thesis using h(1) z(2) Some unfolding ws by (auto simp: image_iff)
  qed simp
  then have "x \<in> set (takeWhile (\<lambda>y. gf_until g \<noteq> Some (hx_sig y)) (us @ x # bs))" by (rule reached)
  then show ?thesis by (simp add: sig_window_def us)
qed

text \<open>
  C17: Every gap of a tree is filled. Let the node's history hold the tree's transactions in the order of their
  sequence numbers, and let no thousand of them in a row have failed. For every sequence number up to the
  tree's current one that no audit row has, made by a successful transaction of which nothing is indexed yet:
  one of the ranges that the gap worker sends out is crawled to its end, and the crawl sends that transaction.
\<close>

theorem gap_backfill_finds_missing:
  assumes "\<forall>i. query_ok i" "well_formed_audits (tr_pubkey tree) d" "gap_worker query_ok d tree = Inr fills"
    and "honest_signatures from_str h (get_signatures (tr_pubkey tree))" "in_order h" "\<not> stalls h"
    and "rows_made_by h (set (tree_audits (tr_pubkey tree) d))"
    and "1 \<le> n" "n \<le> uint (tr_seq tree)" "n \<notin> ca_seq ` set (tree_audits (tr_pubkey tree) d)"
    and "x \<in> set h" "n \<in> set (hx_seqs x)" "hx_ok x" "hx_sig x \<notin> ca_tx ` set (tree_audits (tr_pubkey tree) d)"
  shows "\<exists>g\<in>set fills. \<exists>sent. crawl from_str get_signatures g = Some (Inr (), sent) \<and> hx_sig x \<in> set sent"
proof -
  let ?R = "set (tree_audits (tr_pubkey tree) d)"
  have "tr_seq tree > 0" using assms(8,9) by (auto simp: word_less_def)
  with missing_surrounded [OF assms(1-3,8,10)] obtain g where
    g: "g \<in> set fills" "gf_tree g = tr_pubkey tree" "surrounds ?R g n" by blast
  have dist: "distinct (map hx_sig h)" using assms(4) by (simp add: honest_signatures_def)
  have known: "known_before h (gf_before g)" using g(3) assms(7) unfolding surrounds_def rows_made_by_def by (metis imageI)
  have honest: "honest_signatures from_str h (get_signatures (gf_tree g))" using assms(4) g(2) by simp
  have "\<not> stalls (sig_window (gf_before g) (gf_until g) h)" using stalls_window assms(6) by blast
  from crawl_from_returns [OF honest known this, of "[]"]
  have "crawl from_str get_signatures g = Some (Inr (), map hx_sig (filter hx_ok (sig_window (gf_before g) (gf_until g) h)))"
    by (simp add: crawl_def)
  moreover have "x \<in> set (sig_window (gf_before g) (gf_until g) h)"
    by (rule in_window [OF dist assms(5,7,11,12,14) g(3)])
  ultimately show ?thesis using g(1) assms(13) by (intro bexI [OF _ g(1)]) simp
qed

section \<open>The audit\<close>

lemma audit_after_last:
  assumes "sorted (map f xs)" "distinct (map f xs)" "take n xs \<noteq> []"
  shows "filter (\<lambda>x. f (last (take n xs)) < f x) xs = drop n xs"
proof -
  have l: "last (take n xs) \<in> set (take n xs)" using assms(3) by simp
  have s: "sorted_wrt (<) (map f (take n xs) @ map f (drop n xs))"
    using assms(1,2) by (simp add: strict_sorted_iff flip: map_append)
  then have "\<forall>x\<in>set (drop n xs). f (last (take n xs)) < f x" using l by (auto simp: sorted_wrt_append)
  moreover have "\<forall>x\<in>set (take n xs). \<not> f (last (take n xs)) < f x"
  proof -
    obtain ys l where t: "take n xs = ys @ [l]" using assms(3) by (metis rev_exhaust)
    with s have "sorted_wrt (<) (map f ys @ [f l])" by (simp add: sorted_wrt_append)
    then show ?thesis using t by (auto simp: sorted_wrt_append)
  qed
  ultimately have "filter (\<lambda>x. f (last (take n xs)) < f x) (take n xs @ drop n xs) = drop n xs"
    unfolding filter_append by (simp add: filter_id_conv filter_empty_conv)
  then show ?thesis by simp
qed

lemma audit_loop_from:
  assumes "0 < n" "distinct (map au_id rows)"
  shows "audit_loop n get_err rows after = concat (map (audit_report get_err)
    (filter (\<lambda>r. case after of None \<Rightarrow> True | Some i \<Rightarrow> i < au_id r) (sort_key au_id rows)))"
  using assms
proof (induction n get_err rows after rule: audit_loop.induct)
  case (1 n get_err rows after)
  let ?P = "\<lambda>r. case after of None \<Rightarrow> True | Some i \<Rightarrow> i < au_id r"
  let ?F = "filter ?P (sort_key au_id rows)"
  have b: "audit_batch n after rows = take n ?F" by (simp add: audit_batch_def)
  show ?case
  proof (cases "take n ?F = []")
    case True
    then have "?F = []" using "1.prems"(1) by simp
    then show ?thesis by (simp add: audit_loop.simps b)
  next
    case False
    let ?l = "last (take n ?F)"
    have F: "sorted (map au_id ?F)" "distinct (map au_id ?F)"
      by (simp_all add: sorted_filter) (rule distinct_map_filter, use "1.prems"(2) in \<open>simp add: distinct_map\<close>)
    have l: "?P ?l" using last_in_set [OF False] by (auto dest!: in_set_takeD)
    have "filter (\<lambda>r. au_id ?l < au_id r) (sort_key au_id rows) = filter (\<lambda>r. au_id ?l < au_id r) ?F"
      unfolding filter_filter by (rule filter_cong) (use l in \<open>auto split: option.splits\<close>)
    also have "\<dots> = drop n ?F" by (rule audit_after_last [OF F False])
    finally show ?thesis
      using "1.IH" [OF b [symmetric]] False "1.prems"
      by (subst audit_loop.simps) (simp add: b Let_def flip: concat_append map_append)
  qed
qed

text \<open>
  The audit ends and reports every failed transaction. With a positive batch size the loop over the cursor
  returns after finitely many batches, and what it has printed are the reports of all audit rows in the order
  of their identifiers: no row is skipped at the end of a batch and none is reported twice.
\<close>

theorem audit_reports_all:
  assumes "0 < n" and "distinct (map au_id rows)"
  shows "audit_loop n get_err rows None = concat (map (audit_report get_err) (sort_key au_id rows))"
  using audit_loop_from [OF assms, of get_err None] by simp

definition demo_sig :: "u8 \<Rightarrow> bytes" where
  "demo_sig k = replicate 64 k"

theorem audit_reports_all_witness:
  "audit_loop 2 (\<lambda>s. Inr (Some (s \<noteq> demo_sig 2)))
     [\<lparr>au_id = 30, au_tx = demo_sig 3\<rparr>, \<lparr>au_id = 10, au_tx = demo_sig 1\<rparr>, \<lparr>au_id = 20, au_tx = demo_sig 2\<rparr>] None =
   [demo_sig 1, demo_sig 3]"
proof -
  let ?rows = "[\<lparr>au_id = 30, au_tx = demo_sig 3\<rparr>, \<lparr>au_id = 10, au_tx = demo_sig 1\<rparr>, \<lparr>au_id = 20, au_tx = demo_sig 2\<rparr>]"
  have ne: "demo_sig 1 \<noteq> demo_sig 2" "demo_sig 3 \<noteq> demo_sig 2" by (simp_all add: demo_sig_def)
  have len: "length (demo_sig k) = 64" for k by (simp add: demo_sig_def)
  have "audit_loop 2 (\<lambda>s. Inr (Some (s \<noteq> demo_sig 2))) ?rows None =
      concat (map (audit_report (\<lambda>s. Inr (Some (s \<noteq> demo_sig 2)))) (sort_key au_id ?rows))"
    by (rule audit_reports_all) simp_all
  also have "\<dots> = [demo_sig 1, demo_sig 3]"
    by (simp add: audit_report_def signature_try_from_def len ne)
  finally show ?thesis .
qed

section \<open>A small tree\<close>

text \<open>A node that answers as documented, with signatures written byte by byte.\<close>

definition demo_name :: "bytes \<Rightarrow> string" where
  "demo_name s = map (\<lambda>b. char_of (unat b)) s"

definition demo_from_str :: "string \<Rightarrow> bytes option" where
  "demo_from_str n = Some (map (\<lambda>c. of_nat (of_char c)) n)"

definition demo_node :: "tree_tx list \<Rightarrow> pubkey \<Rightarrow> bytes option \<Rightarrow> bytes option \<Rightarrow> string + signature_status list" where
  "demo_node h tree before til =
    Inr (map (\<lambda>x. \<lparr>ss_signature = demo_name (hx_sig x), ss_err = (\<not> hx_ok x)\<rparr>) (take 1000 (sig_window before til h)))"

lemma demo_from_name: "demo_from_str (demo_name s) = Some s"
proof -
  have "of_nat (unat b mod 256) = b" for b :: u8
  proof -
    have "unat b < 256" using unsigned_less [of b, where ?'a = nat] by simp
    then show ?thesis by simp
  qed
  then show ?thesis by (simp add: demo_from_str_def demo_name_def comp_def)
qed

lemma demo_node_honest: "distinct (map hx_sig h) \<Longrightarrow> honest_signatures demo_from_str h (demo_node h tree)"
  by (auto simp: honest_signatures_def demo_node_def demo_from_name comp_def)

text \<open>The sequence numbers 2 and 3 are missing; their transaction is older than a failed one.\<close>

definition demo_history :: "tree_tx list" where
  "demo_history =
    [\<lparr>hx_sig = demo_sig 14, hx_ok = True, hx_seqs = [4]\<rparr>, \<lparr>hx_sig = demo_sig 13, hx_ok = False, hx_seqs = []\<rparr>,
     \<lparr>hx_sig = demo_sig 12, hx_ok = True, hx_seqs = [2, 3]\<rparr>, \<lparr>hx_sig = demo_sig 11, hx_ok = True, hx_seqs = [1]\<rparr>]"

definition demo_tree :: tree_response where
  "demo_tree = \<lparr>tr_pubkey = replicate 32 7, tr_header = \<lparr>th_max_depth = 3, th_max_buffer_size = 8, th_creation_slot = 1\<rparr>,
     tr_size = 100, tr_seq = 4\<rparr>"

definition demo_audit :: "i64 \<Rightarrow> bytes \<Rightarrow> cl_audits_v2" where
  "demo_audit n sig = \<lparr>ca_tree = replicate 32 7, ca_leaf_idx = n, ca_seq = n, ca_created_at = 0, ca_tx = sig, ca_instruction = I_MintV1\<rparr>"

definition demo_tree_db :: db where
  "demo_tree_db = empty_db\<lparr>cl_audits_t := [demo_audit 4 (demo_sig 14), demo_audit 1 (demo_sig 11)]\<rparr>"

lemma demo_sig_eq: "(demo_sig a = demo_sig b) = (a = b)"
  by (simp add: demo_sig_def)

lemma demo_sig_length: "length (demo_sig a) = 64"
  by (simp add: demo_sig_def)

lemma demo_history_facts:
  "distinct (map hx_sig demo_history)" "in_order demo_history" "\<not> stalls demo_history"
  by (simp_all add: demo_history_def demo_sig_eq in_order_def stalls_short)

lemma demo_audits:
  "tree_audits (tr_pubkey demo_tree) demo_tree_db = [demo_audit 1 (demo_sig 11), demo_audit 4 (demo_sig 14)]"
  by (simp add: tree_audits_def demo_tree_db_def demo_tree_def demo_audit_def)

lemmas demo_audit_simps = demo_audit_def demo_sig_eq demo_sig_length

theorem crawl_result_witness:
  "crawl demo_from_str (demo_node demo_history) \<lparr>gf_tree = replicate 32 7, gf_before = Some (demo_sig 14), gf_until = Some (demo_sig 11)\<rparr> =
    Some (Inr (), [demo_sig 12])"
proof -
  let ?g = "\<lparr>gf_tree = replicate 32 7, gf_before = Some (demo_sig 14), gf_until = Some (demo_sig 11)\<rparr>"
  have w: "sig_window (gf_before ?g) (gf_until ?g) demo_history =
      [\<lparr>hx_sig = demo_sig 13, hx_ok = False, hx_seqs = []\<rparr>, \<lparr>hx_sig = demo_sig 12, hx_ok = True, hx_seqs = [2, 3]\<rparr>]"
    by (simp add: demo_history_def sig_window_def sigs_after_def demo_sig_eq)
  have "known_before demo_history (gf_before ?g)" by (simp add: demo_history_def)
  from crawl_result [of _ _ "demo_node demo_history" ?g, OF demo_node_honest [OF demo_history_facts(1)] this]
  show ?thesis unfolding w by (simp add: Let_def stalls_short)
qed

theorem gap_backfill_finds_missing_witness:
  "\<exists>fills. gap_worker (\<lambda>_. True) demo_tree_db demo_tree = Inr fills \<and>
     (\<exists>g\<in>set fills. \<exists>sent. crawl demo_from_str (demo_node demo_history) g = Some (Inr (), sent) \<and> demo_sig 12 \<in> set sent)"
proof -
  have wf: "well_formed_audits (tr_pubkey demo_tree) demo_tree_db"
    by (simp only: well_formed_audits_def demo_audits) (simp add: demo_tree_def demo_audit_simps)
  obtain fills where fills: "gap_worker (\<lambda>_. True) demo_tree_db demo_tree = Inr fills"
    using gap_worker_value [OF _ wf, of "\<lambda>_. True"] by auto
  let ?x = "\<lparr>hx_sig = demo_sig 12, hx_ok = True, hx_seqs = [2, 3]\<rparr>"
  have rows: "rows_made_by demo_history (set (tree_audits (tr_pubkey demo_tree) demo_tree_db))"
    unfolding demo_audits by (simp add: rows_made_by_def demo_history_def demo_audit_simps)
  have "\<exists>g\<in>set fills. \<exists>sent. crawl demo_from_str (demo_node demo_history) g = Some (Inr (), sent) \<and> hx_sig ?x \<in> set sent"
    by (rule gap_backfill_finds_missing [where n = 2, OF _ wf fills demo_node_honest [OF demo_history_facts(1)] demo_history_facts(2,3) rows])
      (unfold demo_audits, simp_all add: demo_history_def demo_tree_def demo_audit_simps)
  with fills show ?thesis by simp
qed

text \<open>
  A transaction of which one row is indexed is a bound of its gaps and lies in none of them: with the rows 2 and 4
  known, the ranges around the missing 3 exclude the transaction that made it.
\<close>

definition demo_partial_db :: db where
  "demo_partial_db = empty_db\<lparr>cl_audits_t := [demo_audit 1 (demo_sig 11), demo_audit 2 (demo_sig 12), demo_audit 4 (demo_sig 14)]\<rparr>"

lemma partly_indexed_transaction_skipped:
  "\<exists>fills. gap_worker (\<lambda>_. True) demo_partial_db demo_tree = Inr fills \<and>
     (\<forall>g\<in>set fills. demo_sig 12 \<notin> hx_sig ` set (sig_window (gf_before g) (gf_until g) demo_history))"
proof -
  have rows: "tree_audits (tr_pubkey demo_tree) demo_partial_db =
      [demo_audit 1 (demo_sig 11), demo_audit 2 (demo_sig 12), demo_audit 4 (demo_sig 14)]"
    by (simp add: tree_audits_def demo_partial_db_def demo_tree_def demo_audit_def)
  have wf: "well_formed_audits (tr_pubkey demo_tree) demo_partial_db"
    by (simp only: well_formed_audits_def rows) (simp add: demo_tree_def demo_audit_simps)
  show ?thesis
    by (subst gap_worker_value [OF _ wf])
      (simp_all add: rows find_tree_gaps_def, simp add: demo_audit_simps demo_history_def sig_window_def sigs_after_def)
qed


end
