(* ===== verification/Tree_Status.thy ===== *)
theory Tree_Status
  imports Tree_Gaps Blockbuster
begin

text \<open>
  The tool that compares the index with the chain, tree by tree (\<open>tools/tree-status/src/main.rs\<close>), and what it uses
  of \<open>tools/txn_forwarder/src/lib.rs\<close>: the loop over a tree's signatures and the retries of a request. What the
  commands print and count is the result of the model.
\<close>

section \<open>Requests with retries, and the signatures of an address\<close>

text \<open>
  \<open>rpc_send_with_retries\<close>: \<open>attempt i\<close> is the answer to the attempt number \<open>i\<close>. The result comes with the milliseconds
  slept; the delay starts at 500 and doubles.
\<close>

function send_with_retries :: "(nat \<Rightarrow> 'e + 'a) \<Rightarrow> nat \<Rightarrow> nat \<Rightarrow> nat \<Rightarrow> nat \<Rightarrow> ('e + 'a) \<times> nat" where
  "send_with_retries attempt max_retries retries delay slept =
    (case attempt retries of
       Inr v \<Rightarrow> (Inr v, slept)
     | Inl e \<Rightarrow>
         if retries < max_retries then send_with_retries attempt max_retries (retries + 1) (delay * 2) (slept + delay)
         else (Inl e, slept))"
  by pat_completeness auto
termination
  by (relation "measure (\<lambda>(_, m, r, _, _). m - r)") auto

declare send_with_retries.simps [simp del]

definition rpc_send_with_retries :: "(nat \<Rightarrow> 'e + 'a) \<Rightarrow> u8 \<Rightarrow> ('e + 'a) \<times> nat" where
  "rpc_send_with_retries attempt max_retries = send_with_retries attempt (unat max_retries) 0 500 0"

record address_status =
  as_signature :: string
  as_confirmed :: bool
  as_err :: bool

text \<open>One page: every signature moves the cursor, the confirmed and successful ones are sent, a bad one is reported.\<close>

fun send_page :: "(string \<Rightarrow> bytes option) \<Rightarrow> address_status list \<Rightarrow> bytes option \<Rightarrow> (string + bytes) list \<Rightarrow>
    bytes option \<times> (string + bytes) list" where
  "send_page from_str [] last_signature sent = (last_signature, sent)"
| "send_page from_str (tx # txs) last_signature sent =
    (case from_str (as_signature tx) of
       Some sig \<Rightarrow> send_page from_str txs (Some sig) (if as_confirmed tx \<and> \<not> as_err tx then sent @ [Inr sig] else sent)
     | None \<Rightarrow> send_page from_str txs last_signature (sent @ [Inl ''parse'']))"

text \<open>
  \<open>find_signatures\<close>, with what was sent so far. The loop ends on an empty page; an error is sent and the page asked
  for again, for ever if the error stays. The receiver is alive as long as it is read.
\<close>

partial_function (option) find_signatures_from :: "(string \<Rightarrow> bytes option) \<Rightarrow> (bytes option \<Rightarrow> string + address_status list) \<Rightarrow>
    bytes option \<Rightarrow> (string + bytes) list \<Rightarrow> (string + bytes) list option" where
  "find_signatures_from from_str get_page last_signature sent =
    (case get_page last_signature of
       Inr txs \<Rightarrow>
         (case send_page from_str txs last_signature sent of
            (last_signature', sent') \<Rightarrow>
              if txs = [] then Some sent' else find_signatures_from from_str get_page last_signature' sent')
     | Inl e \<Rightarrow> find_signatures_from from_str get_page last_signature (sent @ [Inl e]))"

definition find_signatures :: "(string \<Rightarrow> bytes option) \<Rightarrow> (bytes option \<Rightarrow> string + address_status list) \<Rightarrow>
    (string + bytes) list option" where
  "find_signatures from_str get_page = find_signatures_from from_str get_page None []"

section \<open>Is a tree fully indexed?\<close>

record indexed_max_seq =
  mx_max_seq :: i64
  mx_cnt_seq :: i64

text \<open>\<open>get_tree_latest_seq\<close>: \<open>None\<close> is a panic on an account that is too short.\<close>

definition get_tree_latest_seq :: "tree_codec \<Rightarrow> string + bytes option \<Rightarrow> (string + u64) option" where
  "get_tree_latest_seq C account =
    (case account of
       Inl e \<Rightarrow> Some (Inl e)
     | Inr None \<Rightarrow> Some (Inl ''No account found'')
     | Inr (Some data) \<Rightarrow>
         if length data < tc_header_size C then None
         else case tc_header C (take (tc_header_size C) data) of
           Inl e \<Rightarrow> Some (Inl e)
         | Inr header \<Rightarrow>
             (case tc_tree_size C header of
                Inl e \<Rightarrow> Some (Inl e)
              | Inr n \<Rightarrow>
                  let rest = drop (tc_header_size C) data in
                  if length rest < n \<or> n < 8 then None
                  else Some (Inr (of_nat (from_le_bytes (take 8 (take n rest)))))))"

definition tree_items :: "pubkey \<Rightarrow> db \<Rightarrow> cl_items list" where
  "tree_items tree d = filter (\<lambda>r. cl_tree r = tree) (cl_items_t d)"

text \<open>
  \<open>get_tree_max_seq\<close>: an aggregate without groups always returns one row; over no rows the maximum is NULL, which
  does not decode as an \<open>i64\<close> and is a database error.
\<close>

definition get_tree_max_seq :: "pubkey \<Rightarrow> db \<Rightarrow> string + indexed_max_seq option" where
  "get_tree_max_seq tree d =
    (let seqs = map cl_seq (tree_items tree d) in
     if seqs = [] then Inl ''unexpected null''
     else Inr (Some \<lparr>mx_max_seq = Max (set seqs), mx_cnt_seq = int (card (set seqs))\<rparr>))"

definition get_missing_seq :: "pubkey \<Rightarrow> i64 \<Rightarrow> db \<Rightarrow> i64 list" where
  "get_missing_seq tree max_seq d = filter (\<lambda>s. \<not> list_ex (\<lambda>r. cl_seq r = s) (tree_items tree d)) [1..max_seq]"

datatype tree_report =
    Not_Fully_Indexed i64 i64
  | Indexer_Error i64 i64
  | Has_Gaps i64 i64
  | Complete i64
  | Indexing_Failed i64 indexed_max_seq
  | Missing_Seqs "i64 list"
  | Missing_Query_Failed

datatype check_error = Tree_Missing_From_Chain string | Index_Query string | Tree_Missing_From_Index

text \<open>The reports of \<open>check_tree\<close> once both sides have answered.\<close>

definition tree_reports :: "bool \<Rightarrow> pubkey \<Rightarrow> db \<Rightarrow> i64 \<Rightarrow> indexed_max_seq \<Rightarrow> tree_report list" where
  "tree_reports missing_ok tree d s ix =
    (if mx_max_seq ix < s then [Not_Fully_Indexed (mx_max_seq ix) s]
     else if mx_max_seq ix > s then [Indexer_Error (mx_max_seq ix) s] else []) @
    (if mx_max_seq ix \<noteq> mx_cnt_seq ix then [Has_Gaps (mx_max_seq ix) (mx_cnt_seq ix)] else []) @
    (if mx_max_seq ix = s \<and> mx_max_seq ix = mx_cnt_seq ix then [Complete s]
     else Indexing_Failed s ix #
       (if missing_ok then [Missing_Seqs (get_missing_seq tree s d)] else [Missing_Query_Failed]))"

text \<open>
  \<open>check_tree\<close>: the chain's sequence number, the index's numbers, and what is reported. \<open>None\<close> is a panic (the
  account, or a sequence number beyond \<open>i64\<close>); \<open>query_ok\<close> tells whether the two queries succeed.
\<close>

definition check_tree :: "tree_codec \<Rightarrow> (nat \<Rightarrow> bool) \<Rightarrow> pubkey \<Rightarrow> string + bytes option \<Rightarrow> db \<Rightarrow>
    (check_error + tree_report list) option" where
  "check_tree C query_ok tree account d =
    Option.bind (get_tree_latest_seq C account) (\<lambda>latest.
      case latest of
        Inl e \<Rightarrow> Some (Inl (Tree_Missing_From_Chain e))
      | Inr w \<Rightarrow>
          if 2 ^ 63 \<le> uint w then None
          else Some
            (case (if query_ok 0 then get_tree_max_seq tree d else Inl ''database'') of
               Inl e \<Rightarrow> Inl (Index_Query e)
             | Inr None \<Rightarrow> Inl Tree_Missing_From_Index
             | Inr (Some ix) \<Rightarrow> Inr (tree_reports (query_ok 1) tree d (uint w) ix)))"

section \<open>The change logs of a transaction\<close>

record leaf_node =
  ln_leaf :: bytes
  ln_index :: i64

datatype parse_error = PE_TransactionMeta | PE_Transaction | PE_Instruction | PE_Pubkey

text \<open>A transaction as the node returns it; \<open>None\<close> for addresses and decoded keys stands for what does not parse.\<close>

record ui_instruction =
  ui_program_id_index :: u8
  ui_data :: "bytes option"

record ui_meta =
  um_err :: bool
  um_inner :: "ui_instruction option list list option"
  um_loaded :: "pubkey option list option"

record ui_transaction =
  ut_meta :: "ui_meta option"
  ut_static_keys :: "pubkey list option"

definition leaf_of_event :: "change_log_event \<Rightarrow> leaf_node option" where
  "leaf_of_event e =
    (case ce_path e of
       [] \<Rightarrow> None
     | node # _ \<Rightarrow>
         Some \<lparr>ln_leaf = pn_node node,
               ln_index = node_idx_to_leaf_idx (u32_as_i64 (pn_index node)) (of_nat (length (ce_path e)) - 1)\<rparr>)"

text \<open>The loops over the inner instructions; the updates of a tree are kept in the order of the instructions.\<close>

fun parse_inner :: "borsh \<Rightarrow> pubkey list \<Rightarrow> ui_instruction option list \<Rightarrow>
    (pubkey \<Rightarrow> (u64 \<times> leaf_node option) list) \<Rightarrow> parse_error + (pubkey \<Rightarrow> (u64 \<times> leaf_node option) list)" where
  "parse_inner B keys [] m = Inr m"
| "parse_inner B keys (None # ixs) m = parse_inner B keys ixs m"
| "parse_inner B keys (Some ix # ixs) m =
    (let k = unat (ui_program_id_index ix) in
     if k < length keys \<and> (keys ! k = mpl_noop_id B \<or> keys ! k = spl_noop_id B)
     then case ui_data ix of
       None \<Rightarrow> Inl PE_Instruction
     | Some data \<Rightarrow>
         (case de_event B data of
            Inr (ChangeLog e) \<Rightarrow> parse_inner B keys ixs (m(ce_id e := m (ce_id e) @ [(ce_seq e, leaf_of_event e)]))
          | _ \<Rightarrow> parse_inner B keys ixs m)
     else parse_inner B keys ixs m)"

definition parse_tx_sequence :: "borsh \<Rightarrow> ui_transaction \<Rightarrow> parse_error + (pubkey \<Rightarrow> (u64 \<times> leaf_node option) list)" where
  "parse_tx_sequence B tx =
    (case ut_meta tx of
       None \<Rightarrow> Inr (\<lambda>_. [])
     | Some meta \<Rightarrow>
         if um_err meta then Inr (\<lambda>_. [])
         else case um_inner meta of
           None \<Rightarrow> Inr (\<lambda>_. [])
         | Some inner \<Rightarrow>
             (case ut_static_keys tx of
                None \<Rightarrow> Inl PE_Transaction
              | Some static_keys \<Rightarrow>
                  let loaded = (case um_loaded meta of None \<Rightarrow> [] | Some ks \<Rightarrow> ks) in
                  if None \<in> set loaded then Inl PE_Pubkey
                  else parse_inner B (static_keys @ map the loaded) (concat inner) (\<lambda>_. [])))"

text \<open>\<open>process_tx\<close>: the transaction is asked for with retries; \<open>attempt sig i\<close> is the node's answer to the attempt \<open>i\<close>.\<close>

datatype tree_fetch_error = TF_Signature string | TF_Rpc string | TF_Parse parse_error

definition fetch_tree_tx :: "borsh \<Rightarrow> (bytes \<Rightarrow> nat \<Rightarrow> string + ui_transaction) \<Rightarrow> u8 \<Rightarrow> bytes \<Rightarrow>
    tree_fetch_error + (pubkey \<Rightarrow> (u64 \<times> leaf_node option) list)" where
  "fetch_tree_tx B attempt max_retries sig =
    (case fst (rpc_send_with_retries (attempt sig) max_retries) of
       Inl e \<Rightarrow> Inl (TF_Rpc e)
     | Inr tx \<Rightarrow> map_sum TF_Parse id (parse_tx_sequence B tx))"

text \<open>
  \<open>read_tree_start\<close>: the workers number what they receive and send the updates of the tree. If a signature or a
  transaction fails, the command fails; otherwise these are the messages, which arrive in any order.
\<close>

definition tree_messages :: "borsh \<Rightarrow> (bytes \<Rightarrow> nat \<Rightarrow> string + ui_transaction) \<Rightarrow> u8 \<Rightarrow> pubkey \<Rightarrow> (string + bytes) list \<Rightarrow>
    tree_fetch_error + (nat \<times> bytes \<times> (u64 \<times> leaf_node option) list) list" where
  "tree_messages B attempt max_retries tree sigs =
    try_join_all (map (\<lambda>(i, maybe_sig).
      case maybe_sig of
        Inl e \<Rightarrow> Inl (TF_Signature e)
      | Inr sig \<Rightarrow> map_sum id (\<lambda>m. (i, sig, m tree)) (fetch_tree_tx B attempt max_retries sig)) (enumerate 0 sigs))"

section \<open>The leaves of a tree\<close>

text \<open>
  The map from leaf index to the newest sequence number seen and its transaction, as an association list; the
  \<open>HashMap\<close> of the source has no order.
\<close>

type_synonym leaf_map = "(i64 \<times> bytes \<times> u64) list"

definition note_leaf :: "bytes \<Rightarrow> u64 \<times> leaf_node option \<Rightarrow> leaf_map \<Rightarrow> leaf_map" where
  "note_leaf sig x leafs =
    (case snd x of
       None \<Rightarrow> leafs
     | Some leaf \<Rightarrow>
         (case map_of leafs (ln_index leaf) of
            None \<Rightarrow> leafs @ [(ln_index leaf, sig, fst x)]
          | Some (sig', seq') \<Rightarrow>
              if seq' < fst x then map (\<lambda>(i, v). if i = ln_index leaf then (i, sig, fst x) else (i, v)) leafs else leafs))"

definition collect_leafs :: "(bytes \<times> (u64 \<times> leaf_node option) list) list \<Rightarrow> leaf_map" where
  "collect_leafs msgs = fold (\<lambda>(sig, seqs). fold (note_leaf sig) seqs) msgs []"

text \<open>The query: the largest sequence number of an asset per leaf, over the rows that join on tree and number.\<close>

definition leafs_db :: "pubkey \<Rightarrow> db \<Rightarrow> (i64 \<times> i64) list" where
  "leafs_db tree d =
    (let joined = [(l, q). a \<leftarrow> asset_t d, c \<leftarrow> cl_items_t d, a_tree_id a = Some tree, cl_tree c = tree,
                   a_seq a = Some (cl_seq c), q \<leftarrow> [cl_seq c], Some l \<leftarrow> [cl_leaf_idx c]] in
     map (\<lambda>l. (l, Max (set (map snd (filter (\<lambda>x. fst x = l) joined))))) (remdups (map fst joined)))"

datatype leaf_report =
    Invalid_Seq i64 i64 u64 bytes
  | Not_In_Blockchain i64
  | Not_In_Db i64 u64 bytes

fun compare_leafs :: "(i64 \<times> i64) list \<Rightarrow> leaf_map \<Rightarrow> leaf_report list \<times> leaf_map" where
  "compare_leafs [] leafs = ([], leafs)"
| "compare_leafs ((l, db_seq) # rows) leafs =
    (let (reports, rest) = compare_leafs rows (filter (\<lambda>x. fst x \<noteq> l) leafs) in
     ((case map_of leafs l of
         Some (sig, s) \<Rightarrow> if db_seq \<noteq> as_i64 s then [Invalid_Seq l db_seq s sig] else []
       | None \<Rightarrow> [Not_In_Blockchain l]) @ reports, rest))"

text \<open>\<open>check_tree_leafs\<close>, when the transactions were all fetched: the reports, and the signatures written out.\<close>

definition check_tree_leafs :: "pubkey \<Rightarrow> (bytes \<times> (u64 \<times> leaf_node option) list) list \<Rightarrow> db \<Rightarrow>
    leaf_report list \<times> bytes list" where
  "check_tree_leafs tree msgs d =
    (let (reports, rest) = compare_leafs (leafs_db tree d) (collect_leafs msgs) in
     (reports @ map (\<lambda>(l, sig, s). Not_In_Db l s sig) rest, map (\<lambda>(l, sig, s). sig) rest))"

section \<open>Showing a tree\<close>

text \<open>
  \<open>read_tree\<close>: the workers deliver numbered transactions in any order; after each delivery at most one is printed,
  if its number is the next; what is left at the end is printed by number. The result is the order printed.
\<close>

fun read_tree_loop :: "(nat \<times> 'a) list \<Rightarrow> nat \<Rightarrow> (nat \<times> 'a) list \<Rightarrow> (nat \<times> 'a) list" where
  "read_tree_loop [] next_id m = sort_key fst m"
| "read_tree_loop (x # xs) next_id m =
    (let m' = filter (\<lambda>y. fst y \<noteq> fst x) m @ [x] in
     case map_of m' next_id of
       Some v \<Rightarrow> (next_id, v) # read_tree_loop xs (next_id + 1) (filter (\<lambda>y. fst y \<noteq> next_id) m')
     | None \<Rightarrow> read_tree_loop xs next_id m')"

definition read_tree :: "(nat \<times> 'a) list \<Rightarrow> (nat \<times> 'a) list" where
  "read_tree msgs = read_tree_loop msgs 0 []"

end
