(* ===== verification/Status_Properties.thy ===== *)
theory Status_Properties
  imports Tree_Status Gap_Properties
begin

text \<open>
  Properties of the tree status tool: when a tree is reported as complete and why a completely indexed tree may
  not be, when the comparison of the leaves is silent, the order in which a tree is shown, and the signatures and
  retries it rests on.
\<close>

section \<open>Complete trees\<close>

definition indexed_seqs :: "pubkey \<Rightarrow> db \<Rightarrow> i64 set" where
  "indexed_seqs tree d = cl_seq ` set (tree_items tree d)"

lemma full_range:
  assumes "finite S" "S \<noteq> {}" "\<forall>x\<in>S. 1 \<le> (x::int)"
  shows "(Max S = s \<and> Max S = int (card S)) = (S = {1..s} \<and> 1 \<le> s)"
proof
  assume *: "Max S = s \<and> Max S = int (card S)"
  have sub: "S \<subseteq> {1..s}" using assms(1,3) * Max_ge [of S] by fastforce
  moreover have "card {1..s} = card S" using * by auto
  ultimately have "S = {1..s}" by (simp add: card_subset_eq)
  then show "S = {1..s} \<and> 1 \<le> s" using assms(2) by auto
next
  assume *: "S = {1..s} \<and> 1 \<le> s"
  then have "Max S = s" by (auto intro!: Max_eqI)
  with * show "Max S = s \<and> Max S = int (card S)" by simp
qed

lemma check_tree_value:
  assumes "check_tree C query_ok tree account d = Some (Inr reports)" "get_tree_latest_seq C account = Some (Inr s)"
  shows "tree_items tree d \<noteq> []"
    and "reports = tree_reports (query_ok 1) tree d (uint s)
      \<lparr>mx_max_seq = Max (indexed_seqs tree d), mx_cnt_seq = int (card (indexed_seqs tree d))\<rparr>"
  using assms
  by (auto simp: check_tree_def get_tree_max_seq_def indexed_seqs_def Let_def split: if_splits)

lemma get_missing_seq_set: "set (get_missing_seq tree s d) = {1..s} - indexed_seqs tree d"
  by (auto simp: get_missing_seq_def indexed_seqs_def list_ex_iff)

lemma complete_reports:
  assumes "check_tree C query_ok tree account d = Some (Inr reports)" and "get_tree_latest_seq C account = Some (Inr s)"
    and "\<forall>r\<in>set (cl_items_t d). 1 \<le> cl_seq r" and "query_ok 1"
  shows "Complete (uint s) \<in> set reports \<longleftrightarrow> indexed_seqs tree d = {1..uint s}"
    and "Complete (uint s) \<notin> set reports \<Longrightarrow> Missing_Seqs (get_missing_seq tree (uint s) d) \<in> set reports"
proof -
  let ?S = "indexed_seqs tree d"
  note r = check_tree_value [OF assms(1,2)]
  have S: "finite ?S" "?S \<noteq> {}" "\<forall>x\<in>?S. 1 \<le> x"
    using r(1) assms(3) by (auto simp: indexed_seqs_def tree_items_def filter_empty_conv)
  have iff: "Complete (uint s) \<in> set reports \<longleftrightarrow> Max ?S = uint s \<and> Max ?S = int (card ?S)"
    unfolding r(2) tree_reports_def by simp
  show "Complete (uint s) \<in> set reports \<longleftrightarrow> ?S = {1..uint s}"
    unfolding iff full_range [OF S] using S(2) by auto
  assume "Complete (uint s) \<notin> set reports"
  then have "\<not> (Max ?S = uint s \<and> Max ?S = int (card ?S))" using iff by simp
  then show "Missing_Seqs (get_missing_seq tree (uint s) d) \<in> set reports"
    unfolding r(2) tree_reports_def using assms(4) by simp
qed

text \<open>
  C22: When a tree is reported as complete. If \<open>check_tree\<close> gets an answer from the chain and the index, it reports
  the tree as complete exactly if the sequence numbers found in \<open>cl_items\<close> are all those from one to the chain's;
  otherwise it lists the numbers from one to the chain's that are not there.
\<close>

theorem check_tree_complete_iff:
  assumes "check_tree C query_ok tree account d = Some (Inr reports)" and "get_tree_latest_seq C account = Some (Inr s)"
    and "\<forall>r\<in>set (cl_items_t d). 1 \<le> cl_seq r" and "query_ok 1"
  shows "(Complete (uint s) \<in> set reports \<longleftrightarrow> indexed_seqs tree d = {1..uint s}) \<and>
    (Complete (uint s) \<notin> set reports \<longrightarrow>
      (\<exists>ms. Missing_Seqs ms \<in> set reports \<and> set ms = {1..uint s} - indexed_seqs tree d))"
  using complete_reports [OF assms] get_missing_seq_set by blast

section \<open>Overwritten sequence numbers\<close>

text \<open>The rows of \<open>cl_items\<close> after the change logs \<open>es\<close>.\<close>

definition items_after :: "change_log_event list \<Rightarrow> cl_items list" where
  "items_after es = fold upsert_cl_row (concat (map event_rows es)) []"

lemma upsert_cl_row_set: "set (upsert_cl_row new t) \<subseteq> insert new (set t)"
proof -
  have "r\<lparr>cl_hash := cl_hash new, cl_seq := cl_seq new, cl_leaf_idx := cl_leaf_idx new, cl_level := cl_level new\<rparr> = new"
    if "cl_key r = cl_key new" for r using that by (simp add: cl_key_def)
  then show ?thesis unfolding upsert_cl_row_def by (induction t) auto
qed

lemma fold_rows_set: "set (fold upsert_cl_row rs t) \<subseteq> set t \<union> set rs"
  using upsert_cl_row_set by (induction rs arbitrary: t) fastforce+

lemma upsert_cl_row_ok: "table_ok cl_key t \<Longrightarrow> table_ok cl_key (upsert_cl_row new t)"
  unfolding upsert_cl_row_def by (rule table_ok_upsert) (simp_all add: cl_key_update)

lemma fold_rows_ok: "table_ok cl_key t \<Longrightarrow> table_ok cl_key (fold upsert_cl_row rs t)"
  by (induction rs arbitrary: t) (simp_all add: upsert_cl_row_ok)

text \<open>A row is never older than anything that was written to it.\<close>

lemma fold_rows_grow:
  "lookup cl_key k t = Some r \<Longrightarrow> \<exists>r'. lookup cl_key k (fold upsert_cl_row rs t) = Some r' \<and> cl_seq r \<le> cl_seq r'"
proof (induction rs arbitrary: t r)
  case (Cons x xs)
  have "\<exists>r1. lookup cl_key k (upsert_cl_row x t) = Some r1 \<and> cl_seq r \<le> cl_seq r1"
    unfolding lookup_upsert_cl_row Cons.prems by simp
  then obtain r1 where r1: "lookup cl_key k (upsert_cl_row x t) = Some r1" "cl_seq r \<le> cl_seq r1" by blast
  from Cons.IH [OF r1(1)] r1(2) show ?case by (auto intro: order_trans)
qed auto

lemma fold_rows_newest:
  "x \<in> set rs \<Longrightarrow> \<exists>r. lookup cl_key (cl_key x) (fold upsert_cl_row rs t) = Some r \<and> cl_seq x \<le> cl_seq r"
proof (induction rs arbitrary: t)
  case (Cons y ys)
  show ?case
  proof (cases "x = y")
    case True
    have "\<exists>r1. lookup cl_key (cl_key x) (upsert_cl_row x t) = Some r1 \<and> cl_seq x \<le> cl_seq r1"
      unfolding lookup_upsert_cl_row by (cases "lookup cl_key (cl_key x) t") auto
    then obtain r1 where r1: "lookup cl_key (cl_key x) (upsert_cl_row x t) = Some r1" "cl_seq x \<le> cl_seq r1" by blast
    from fold_rows_grow [OF r1(1), of ys] r1(2) True show ?thesis by (auto intro: order_trans)
  next
    case False
    with Cons show ?thesis by simp
  qed
qed simp

lemma event_rows_facts:
  assumes "r \<in> set (event_rows e)"
  shows "cl_tree r = ce_id e" "cl_seq r = as_i64 (ce_seq e)" "\<exists>p\<in>set (ce_path e). cl_node_idx r = u32_as_i64 (pn_index p)"
  using assms by (auto simp: event_rows_def cl_item_def in_set_enumerate_eq)

lemma event_rows_hit:
  assumes "p \<in> set (ce_path e)"
  shows "\<exists>r\<in>set (event_rows e). cl_key r = (ce_id e, u32_as_i64 (pn_index p))"
  using assms by (force simp: event_rows_def cl_item_def cl_key_def in_set_conv_nth enumerate_eq_zip image_iff set_zip)

text \<open>Every node that \<open>e\<close> wrote has been written again by a newer change log of the tree.\<close>

definition overwritten :: "change_log_event list \<Rightarrow> change_log_event \<Rightarrow> bool" where
  "overwritten es e \<longleftrightarrow>
    (\<forall>p\<in>set (ce_path e). \<exists>e'\<in>set es. ce_id e' = ce_id e \<and> as_i64 (ce_seq e) < as_i64 (ce_seq e') \<and>
       (\<exists>p'\<in>set (ce_path e'). pn_index p' = pn_index p))"

lemma overwritten_seq_gone:
  assumes d: "cl_items_t d = items_after es" and e: "overwritten es e"
    and once: "\<forall>e'\<in>set es. ce_id e' = ce_id e \<and> as_i64 (ce_seq e') = as_i64 (ce_seq e) \<longrightarrow> e' = e"
  shows "as_i64 (ce_seq e) \<notin> indexed_seqs (ce_id e) d"
proof
  assume "as_i64 (ce_seq e) \<in> indexed_seqs (ce_id e) d"
  then obtain r where r: "r \<in> set (items_after es)" "cl_tree r = ce_id e" "cl_seq r = as_i64 (ce_seq e)"
    by (auto simp: indexed_seqs_def tree_items_def d)
  then obtain e1 where e1: "e1 \<in> set es" "r \<in> set (event_rows e1)"
    using fold_rows_set [of "concat (map event_rows es)" "[]"] by (auto simp: items_after_def)
  then have "e1 = e" using once r event_rows_facts by metis
  then obtain p where p: "p \<in> set (ce_path e)" "cl_node_idx r = u32_as_i64 (pn_index p)"
    using event_rows_facts(3) e1(2) by blast
  from e p(1) obtain e' p' where e': "e' \<in> set es" "ce_id e' = ce_id e" "as_i64 (ce_seq e) < as_i64 (ce_seq e')"
      "p' \<in> set (ce_path e')" "pn_index p' = pn_index p" unfolding overwritten_def by blast
  from event_rows_hit [OF e'(4)] obtain x where x: "x \<in> set (event_rows e')" "cl_key x = cl_key r"
    using e'(2,5) r(2) p(2) by (auto simp: cl_key_def)
  then have "x \<in> set (concat (map event_rows es))" using e'(1) by auto
  from fold_rows_newest [OF this, of "[]"] obtain r' where
    r': "lookup cl_key (cl_key r) (items_after es) = Some r'" "cl_seq x \<le> cl_seq r'" using x(2) by (auto simp: items_after_def)
  have "table_ok cl_key (items_after es)" unfolding items_after_def by (rule fold_rows_ok) (simp add: table_ok_def)
  then have "lookup cl_key (cl_key r) (items_after es) = Some r" using r(1) by (simp add: lookup_iff_mem)
  then show False using r' r(3) event_rows_facts(2) [OF x(1)] e'(3) by simp
qed

text \<open>
  C21: A completely indexed tree is reported as failed. \<open>cl_items\<close> keeps one row per node, with the newest sequence
  number. Once every node of a change log's path has been written again (a second change of the same leaf is
  enough), its number is gone from the table; although all the change logs were indexed, \<open>check_tree\<close> then reports
  a failure and lists the number as missing, for as long as the index lives.
\<close>

theorem complete_tree_reported_failed:
  assumes "cl_items_t d = items_after es" "e \<in> set es" "overwritten es e"
    and "\<forall>e'\<in>set es. ce_id e' = ce_id e \<and> as_i64 (ce_seq e') = as_i64 (ce_seq e) \<longrightarrow> e' = e"
    and "\<forall>e'\<in>set es. 1 \<le> as_i64 (ce_seq e')" "as_i64 (ce_seq e) \<le> uint s"
    and "check_tree C query_ok (ce_id e) account d = Some (Inr reports)" "get_tree_latest_seq C account = Some (Inr s)"
    and "query_ok 1"
  shows "Complete (uint s) \<notin> set reports \<and> (\<exists>ms. Missing_Seqs ms \<in> set reports \<and> as_i64 (ce_seq e) \<in> set ms)"
proof -
  have gone: "as_i64 (ce_seq e) \<notin> indexed_seqs (ce_id e) d" by (rule overwritten_seq_gone [OF assms(1,3,4)])
  have range: "as_i64 (ce_seq e) \<in> {1..uint s}" using assms(2,5,6) by simp
  have pos: "\<forall>r\<in>set (cl_items_t d). 1 \<le> cl_seq r"
    using fold_rows_set [of "concat (map event_rows es)" "[]"] assms(5) event_rows_facts(2)
    unfolding assms(1) items_after_def by fastforce
  note c = complete_reports [OF assms(7,8) pos assms(9)]
  have "Complete (uint s) \<notin> set reports" using c(1) gone range by blast
  with c(2) get_missing_seq_set gone range show ?thesis by blast
qed

section \<open>Showing a tree\<close>

lemma read_tree_loop_spec:
  assumes "distinct (map fst (m @ xs))" "\<forall>y\<in>set (m @ xs). n \<le> fst y"
  shows "set (read_tree_loop xs n m) = set (m @ xs) \<and> sorted (map fst (read_tree_loop xs n m)) \<and>
    distinct (map fst (read_tree_loop xs n m))"
  using assms
proof (induction xs n m rule: read_tree_loop.induct)
  case (1 n m)
  then show ?case by (simp add: distinct_map)
next
  case (2 x xs n m)
  let ?m = "filter (\<lambda>y. fst y \<noteq> fst x) m @ [x]"
  have "fst x \<notin> fst ` set m" using "2.prems"(1) by simp
  then have "\<forall>y\<in>set m. fst y \<noteq> fst x" by (metis imageI)
  then have keep: "filter (\<lambda>y. fst y \<noteq> fst x) m = m" by (simp add: filter_id_conv)
  show ?case
  proof (cases "map_of ?m n")
    case None
    then have loop: "read_tree_loop (x # xs) n m = read_tree_loop xs n ?m"
      by (simp only: read_tree_loop.simps Let_def option.case)
    have "set (read_tree_loop xs n ?m) = set (?m @ xs) \<and> sorted (map fst (read_tree_loop xs n ?m)) \<and>
        distinct (map fst (read_tree_loop xs n ?m))"
      by (rule "2.IH"(1) [OF refl None]) (use "2.prems" keep in simp_all)
    then show ?thesis unfolding loop using keep by simp
  next
    case (Some v)
    let ?rest = "filter (\<lambda>y. fst y \<noteq> n) ?m"
    have v: "(n, v) \<in> set ?m" using Some by (rule map_of_SomeD)
    have eq: "\<And>y. y \<in> set ?m \<Longrightarrow> fst y = n \<Longrightarrow> y = (n, v)"
      using v "2.prems"(1) unfolding keep by (metis (no_types, lifting) Some append.assoc append_Cons append_Nil distinct_append
          eq_key_imp_eq_value map_append prod.collapse)
    have away: "n \<notin> fst ` set xs" using v "2.prems"(1) unfolding keep by force
    have d: "distinct (map fst (?rest @ xs))"
      using "2.prems"(1) unfolding keep by (auto simp: distinct_map_filter)
    have ge: "\<forall>y\<in>set (?rest @ xs). n + 1 \<le> fst y"
    proof
      fix y assume y: "y \<in> set (?rest @ xs)"
      then have "n \<le> fst y" using "2.prems"(2) by (auto split: if_splits)
      moreover have "fst y \<noteq> n"
      proof (cases "y \<in> set xs")
        case True
        then show ?thesis using away by (metis imageI)
      next
        case False
        then have "y \<in> set ?rest" using y by simp
        then show ?thesis unfolding set_filter by blast
      qed
      ultimately show "n + 1 \<le> fst y" by simp
    qed
    note IH = "2.IH"(2) [OF refl Some d ge]
    have loop: "read_tree_loop (x # xs) n m = (n, v) # read_tree_loop xs (n + 1) ?rest"
      using Some by (simp only: read_tree_loop.simps Let_def option.case)
    have "set ?m = insert (n, v) (set ?rest)"
    proof (intro set_eqI iffI)
      fix y assume "y \<in> set ?m"
      then show "y \<in> insert (n, v) (set ?rest)" unfolding set_filter using eq by blast
    next
      fix y assume "y \<in> insert (n, v) (set ?rest)"
      then show "y \<in> set ?m" unfolding set_filter using v by blast
    qed
    moreover have "set (m @ x # xs) = set ?m \<union> set xs" using keep by simp
    ultimately have sets: "set (m @ x # xs) = insert (n, v) (set (?rest @ xs))" by (simp only: set_append Un_insert_left)
    define L R where "L = read_tree_loop xs (n + 1) ?rest" and "R = set (?rest @ xs)"
    note IH' = IH [folded L_def R_def] and ge' = ge [folded R_def]
    have lt: "\<forall>y\<in>set L. n < fst y" using IH' ge' by (metis Suc_eq_plus1 Suc_le_lessD)
    then have "n \<notin> set (map fst L)" "\<forall>k\<in>set (map fst L). n \<le> k" by auto
    then show ?thesis unfolding loop [folded L_def] sets [folded R_def] using IH' by simp
  qed
qed

text \<open>
  A tree is shown in order. Whatever the order in which the workers deliver the transactions, each is printed
  once and they are printed by their number, the order in which the node listed them.
\<close>

theorem read_tree_in_order:
  assumes "distinct (map fst msgs)"
  shows "read_tree msgs = sort_key fst msgs"
proof (rule map_sorted_distinct_set_unique)
  have *: "set (read_tree msgs) = set msgs \<and> sorted (map fst (read_tree msgs)) \<and> distinct (map fst (read_tree msgs))"
    using read_tree_loop_spec [of "[]" msgs 0] assms by (simp add: read_tree_def)
  then show "inj_on fst (set (read_tree msgs) \<union> set (sort_key fst msgs))" using assms by (simp add: distinct_map)
  show "sorted (map fst (read_tree msgs))" "distinct (map fst (read_tree msgs))" using * by simp_all
  show "sorted (map fst (sort_key fst msgs))" by simp
  show "distinct (map fst (sort_key fst msgs))" using assms by (simp add: distinct_map)
  show "set (read_tree msgs) = set (sort_key fst msgs)" using * by simp
qed

theorem read_tree_in_order_witness:
  "read_tree [(2, ''c''), (0, ''a''), (1, ''b'')] = [(0, ''a''), (1, ''b''), (2, ''c'')]"
  using read_tree_in_order [of "[(2, ''c''), (0, ''a''), (1, ''b'')]"] by simp

section \<open>Retries and signatures\<close>

lemma send_with_retries_value:
  assumes "\<forall>i. r \<le> i \<and> i < k \<longrightarrow> (\<exists>e. attempt i = Inl e)" "r \<le> k" "k \<le> m" "k = m \<or> (\<exists>v. attempt k = Inr v)"
    "delay = 500 * 2 ^ r" "slept + 500 = 500 * 2 ^ r"
  shows "send_with_retries attempt m r delay slept = (attempt k, 500 * (2 ^ k - 1))"
  using assms
proof (induction attempt m r delay slept rule: send_with_retries.induct)
  case (1 attempt m r delay slept)
  show ?case
  proof (cases "r = k")
    case True
    have "slept = 500 * (2 ^ k - 1)" using "1.prems"(6) True by (simp add: diff_mult_distrib2)
    with True "1.prems" show ?thesis by (subst send_with_retries.simps) (auto split: sum.splits)
  next
    case False
    then obtain e where e: "attempt r = Inl e" using "1.prems"(1,2) by (meson le_neq_implies_less order_refl)
    have r: "r < m" using False "1.prems" by simp
    have "send_with_retries attempt m (r + 1) (delay * 2) (slept + delay) = (attempt k, 500 * (2 ^ k - 1))"
      by (rule "1.IH" [OF e r]) (use "1.prems" False in auto)
    with e r show ?thesis by (subst send_with_retries.simps) simp
  qed
qed

text \<open>The answer of a request is its first success, or the last failure; the sleeps add up to half a second doubled.\<close>

lemma retries_bounded:
  assumes "\<forall>i<k. \<exists>e. attempt i = Inl e" "k \<le> unat max_retries" "k = unat max_retries \<or> (\<exists>v. attempt k = Inr v)"
  shows "rpc_send_with_retries attempt max_retries = (attempt k, 500 * (2 ^ k - 1))"
  unfolding rpc_send_with_retries_def by (rule send_with_retries_value) (use assms in auto)

definition honest_pages :: "(string \<Rightarrow> bytes option) \<Rightarrow> tree_tx list \<Rightarrow> (bytes option \<Rightarrow> string + address_status list) \<Rightarrow> bool" where
  "honest_pages from_str h get_page \<longleftrightarrow>
     distinct (map hx_sig h) \<and>
     (\<forall>before. known_before h before \<longrightarrow>
       (\<exists>txs. get_page before = Inr txs \<and>
         map (\<lambda>s. (from_str (as_signature s), as_confirmed s \<and> \<not> as_err s)) txs =
         map (\<lambda>x. (Some (hx_sig x), hx_ok x)) (take 1000 (sigs_after before h))))"

lemma send_page_spec:
  assumes "map (\<lambda>s. (from_str (as_signature s), as_confirmed s \<and> \<not> as_err s)) txs = map (\<lambda>x. (Some (hx_sig x), hx_ok x)) xs"
  shows "send_page from_str txs before sent =
    (if xs = [] then before else Some (hx_sig (last xs)), sent @ map (Inr \<circ> hx_sig) (filter hx_ok xs))"
  using assms
proof (induction txs arbitrary: xs before sent)
  case (Cons t txs)
  then obtain y ys where xs: "xs = y # ys" "from_str (as_signature t) = Some (hx_sig y)"
      "(as_confirmed t \<and> \<not> as_err t) = hx_ok y"
      "map (\<lambda>s. (from_str (as_signature s), as_confirmed s \<and> \<not> as_err s)) txs = map (\<lambda>x. (Some (hx_sig x), hx_ok x)) ys"
    by (cases xs) auto
  show ?case using Cons.IH [OF xs(4)] xs(1-3) by simp
qed simp

lemma find_signatures_from_value:
  assumes "honest_pages from_str h get_page"
  shows "known_before h before \<Longrightarrow>
    find_signatures_from from_str get_page before sent =
      Some (sent @ map (Inr \<circ> hx_sig) (filter hx_ok (sigs_after before h)))"
proof (induction "length (sigs_after before h)" arbitrary: before sent rule: less_induct)
  case less
  let ?w = "sigs_after before h"
  obtain txs where txs: "get_page before = Inr txs"
      "map (\<lambda>s. (from_str (as_signature s), as_confirmed s \<and> \<not> as_err s)) txs = map (\<lambda>x. (Some (hx_sig x), hx_ok x)) (take 1000 ?w)"
    using assms less.prems unfolding honest_pages_def by meson
  note page = send_page_spec [OF txs(2), of before sent]
  have len: "length txs = length (take 1000 ?w)" using arg_cong [OF txs(2), of length] by simp
  show ?case
  proof (cases "?w = []")
    case True
    with len have "txs = []" by simp
    then show ?thesis using True txs(1) by (subst find_signatures_from.simps) simp
  next
    case False
    let ?page = "take 1000 ?w"
    have ne: "?page \<noteq> []" using False by simp
    then have txs_ne: "txs \<noteq> []" using txs(2) by auto
    obtain as x where ax: "?page = as @ [x]" using ne by (meson rev_exhaust)
    then have w: "?w = as @ x # drop 1000 ?w" using append_take_drop_id [of 1000 ?w] by simp
    obtain us where us: "h = us @ ?w"
      unfolding sigs_after_def by (cases before) (simp, metis append_take_drop_id dropWhile_eq_drop drop_Suc tl_drop option.simps(5))
    have split: "h = (us @ as) @ x # drop 1000 ?w" using us w by simp
    have "distinct (map hx_sig ((us @ as) @ x # drop 1000 ?w))"
      unfolding split [symmetric] using assms by (simp add: honest_pages_def)
    from sigs_after_split [OF this] have next_w: "sigs_after (Some (hx_sig x)) h = drop 1000 ?w"
      unfolding split [symmetric] .
    have known: "known_before h (Some (hx_sig x))" using split by (metis imageI in_set_conv_decomp option.inject)
    have "find_signatures_from from_str get_page before sent =
        find_signatures_from from_str get_page (Some (hx_sig x)) (sent @ map (Inr \<circ> hx_sig) (filter hx_ok ?page))"
      using txs(1) page ne txs_ne ax by (subst find_signatures_from.simps) simp
    also have "\<dots> = Some ((sent @ map (Inr \<circ> hx_sig) (filter hx_ok ?page)) @ map (Inr \<circ> hx_sig) (filter hx_ok (drop 1000 ?w)))"
      using less.hyps [of "Some (hx_sig x)"] known next_w False by simp
    also have "filter hx_ok ?w = filter hx_ok ?page @ filter hx_ok (drop 1000 ?w)"
      by (metis append_take_drop_id filter_append)
    ultimately show ?thesis by simp
  qed
qed

text \<open>
  The signatures of an address. If the node answers every page, \<open>find_signatures\<close> ends on every finite history
  and has sent the successful transactions, newest first and each once. Unlike the crawl of the backfill command
  it moves its cursor over failed transactions too, so no run of them makes it loop.
\<close>

theorem find_signatures_complete:
  assumes "honest_pages from_str h get_page"
  shows "find_signatures from_str get_page = Some (map (Inr \<circ> hx_sig) (filter hx_ok h))"
  using find_signatures_from_value [OF assms, of None "[]"] by (simp add: find_signatures_def sigs_after_def)

theorem find_signatures_complete_witness:
  "find_signatures demo_from_str (\<lambda>before. Inr (map (\<lambda>x. \<lparr>as_signature = demo_name (hx_sig x), as_confirmed = True, as_err = (\<not> hx_ok x)\<rparr>)
     (take 1000 (sigs_after before demo_history)))) = Some [Inr (demo_sig 14), Inr (demo_sig 12), Inr (demo_sig 11)]"
proof -
  let ?get = "\<lambda>before. Inr (map (\<lambda>x. \<lparr>as_signature = demo_name (hx_sig x), as_confirmed = True, as_err = (\<not> hx_ok x)\<rparr>)
     (take 1000 (sigs_after before demo_history)))"
  have "honest_pages demo_from_str demo_history ?get"
    using demo_history_facts(1) by (simp add: honest_pages_def demo_from_name comp_def)
  from find_signatures_complete [OF this] show ?thesis by (simp add: demo_history_def)
qed

section \<open>The leaves\<close>

text \<open>The sequence numbers that the transactions of the chain gave to a leaf.\<close>

definition seqs_of :: "i64 \<Rightarrow> (bytes \<times> (u64 \<times> leaf_node option) list) list \<Rightarrow> u64 set" where
  "seqs_of l msgs = {q. \<exists>sig seqs leaf. (sig, seqs) \<in> set msgs \<and> (q, Some leaf) \<in> set seqs \<and> ln_index leaf = l}"

text \<open>The newest of a set of numbers, if there is one.\<close>

definition newest_seq :: "u64 set \<Rightarrow> u64 option" where
  "newest_seq S = (if S = {} then None else Some (Max S))"

definition leaf_seq :: "leaf_map \<Rightarrow> i64 \<Rightarrow> u64 option" where
  "leaf_seq leafs l = map_option snd (map_of leafs l)"

lemma newest_seq_insert: "finite S \<Longrightarrow> newest_seq (insert q S) = Some (case newest_seq S of None \<Rightarrow> q | Some m \<Rightarrow> max q m)"
  by (simp add: newest_seq_def)

lemma map_of_update:
  "map_of (map (\<lambda>(i, v). if i = k then (i, w) else (i, v)) xs) l = (if l = k then map_option (\<lambda>_. w) (map_of xs k) else map_of xs l)"
  by (induction xs) auto

lemma note_leaf_seq:
  "leaf_seq (note_leaf sig (q, x) leafs) l =
    (case x of Some leaf \<Rightarrow> if ln_index leaf = l then Some (case leaf_seq leafs l of None \<Rightarrow> q | Some m \<Rightarrow> max q m) else leaf_seq leafs l
     | None \<Rightarrow> leaf_seq leafs l)"
  by (auto simp: note_leaf_def leaf_seq_def map_of_update map_add_def max_def not_less split: option.splits)

lemma note_leaf_distinct:
  assumes "distinct (map fst leafs)"
  shows "distinct (map fst (note_leaf sig x leafs))"
proof -
  have "map fst (map (\<lambda>(i, v). if i = k then (i, w) else (i, v)) leafs) = map fst leafs" for k :: i64 and w
    by (simp add: case_prod_beta)
  with assms show ?thesis
    by (auto simp: note_leaf_def map_of_eq_None_iff split: option.splits simp del: map_map)
qed

lemma fold_note_leaf:
  assumes "distinct (map fst leafs)" "finite S" "leaf_seq leafs l = newest_seq S"
  shows "distinct (map fst (fold (note_leaf sig) seqs leafs)) \<and>
    leaf_seq (fold (note_leaf sig) seqs leafs) l = newest_seq (S \<union> {q. \<exists>leaf. (q, Some leaf) \<in> set seqs \<and> ln_index leaf = l})"
  using assms
proof (induction seqs arbitrary: leafs S)
  case (Cons y seqs)
  obtain q x where y: "y = (q, x)" by (cases y)
  let ?leafs = "note_leaf sig y leafs"
  let ?S = "S \<union> {q'. \<exists>leaf. y = (q', Some leaf) \<and> ln_index leaf = l}"
  have fin: "finite ?S" using Cons.prems(2) y by (cases x) (auto intro: rev_finite_subset)
  have "?S = (case x of Some leaf \<Rightarrow> if ln_index leaf = l then insert q S else S | None \<Rightarrow> S)"
    using y by (auto split: option.splits)
  then have "leaf_seq ?leafs l = newest_seq ?S"
    using Cons.prems(2,3) y by (auto simp: note_leaf_seq newest_seq_insert split: option.splits)
  from Cons.IH [OF note_leaf_distinct [OF Cons.prems(1)] fin this]
  have IH: "distinct (map fst (fold (note_leaf sig) seqs ?leafs)) \<and> leaf_seq (fold (note_leaf sig) seqs ?leafs) l =
      newest_seq (?S \<union> {q. \<exists>leaf. (q, Some leaf) \<in> set seqs \<and> ln_index leaf = l})" .
  have "?S \<union> {q. \<exists>leaf. (q, Some leaf) \<in> set seqs \<and> ln_index leaf = l} =
      S \<union> {q. \<exists>leaf. (q, Some leaf) \<in> set (y # seqs) \<and> ln_index leaf = l}" by auto
  with IH show ?case by simp
qed simp

lemma collect_leafs_spec:
  "distinct (map fst (collect_leafs msgs)) \<and> leaf_seq (collect_leafs msgs) l = newest_seq (seqs_of l msgs)"
proof -
  have "distinct (map fst (fold (\<lambda>(sig, seqs). fold (note_leaf sig) seqs) msgs leafs)) \<and>
      leaf_seq (fold (\<lambda>(sig, seqs). fold (note_leaf sig) seqs) msgs leafs) l = newest_seq (S \<union> seqs_of l msgs)"
    if "distinct (map fst leafs)" "finite S" "leaf_seq leafs l = newest_seq S" for leafs S
    using that
  proof (induction msgs arbitrary: leafs S)
    case (Cons msg msgs)
    obtain sig seqs where m: "msg = (sig, seqs)" by (cases msg)
    let ?T = "{q. \<exists>leaf. (q, Some leaf) \<in> set seqs \<and> ln_index leaf = l}"
    have "?T \<subseteq> fst ` set seqs" by force
    then have "finite (S \<union> ?T)" using Cons.prems(2) by (simp add: finite_subset)
    moreover have "S \<union> ?T \<union> seqs_of l msgs = S \<union> seqs_of l (msg # msgs)" unfolding m by (auto simp: seqs_of_def)
    ultimately show ?case using fold_note_leaf [OF Cons.prems, of sig seqs] Cons.IH [of _ "S \<union> ?T"] m by simp
  qed (simp add: seqs_of_def)
  from this [of "[]" "{}"] show ?thesis by (simp add: collect_leafs_def leaf_seq_def newest_seq_def)
qed

lemma compare_leafs_silent:
  assumes "distinct (map fst rows)" "distinct (map fst leafs)"
  shows "(fst (compare_leafs rows leafs) = [] \<and> snd (compare_leafs rows leafs) = []) =
    (\<forall>l. map_of rows l = map_option as_i64 (leaf_seq leafs l))"
  using assms
proof (induction rows arbitrary: leafs)
  case Nil
  then show ?case by (cases leafs) (auto simp: leaf_seq_def)
next
  case (Cons row rows)
  obtain l q where row: "row = (l, q)" by (cases row)
  let ?rest = "filter (\<lambda>x. fst x \<noteq> l) leafs"
  have d: "distinct (map fst rows)" "distinct (map fst ?rest)" using Cons.prems by (auto simp: distinct_map_filter)
  have rest: "leaf_seq ?rest l' = (if l' = l then None else leaf_seq leafs l')" for l'
    unfolding leaf_seq_def by (induction leafs) auto
  have new: "map_of rows l = None" using Cons.prems(1) row by (simp add: map_of_eq_None_iff)
  have head: "((case map_of leafs l of Some (sig, s) \<Rightarrow> if q \<noteq> as_i64 s then [Invalid_Seq l q s sig] else []
       | None \<Rightarrow> [Not_In_Blockchain l]) = []) = (Some q = map_option as_i64 (leaf_seq leafs l))"
    by (auto simp: leaf_seq_def split: option.splits)
  have "(\<forall>l'. map_of (row # rows) l' = map_option as_i64 (leaf_seq leafs l')) =
      (Some q = map_option as_i64 (leaf_seq leafs l) \<and> (\<forall>l'. map_of rows l' = map_option as_i64 (leaf_seq ?rest l')))"
    using new unfolding rest row by auto
  with Cons.IH [OF d] head show ?case unfolding row by (auto simp: Let_def split: prod.splits)
qed

lemma leafs_db_distinct: "distinct (map fst (leafs_db tree d))"
  by (simp add: leafs_db_def Let_def comp_def)

text \<open>
  C23: When the comparison of the leaves is silent. Whatever the order in which the transactions arrive, the check
  reports nothing exactly if, for every leaf, the number that the index has for it is the largest that a
  transaction of the chain gave it, and the index has no leaf that the chain has not.
\<close>

theorem leaf_check_silent_iff:
  "fst (check_tree_leafs tree msgs d) = [] \<longleftrightarrow>
    (\<forall>l. map_of (leafs_db tree d) l = map_option as_i64 (newest_seq (seqs_of l msgs)))"
proof -
  have c: "distinct (map fst (collect_leafs msgs))" "\<And>l. leaf_seq (collect_leafs msgs) l = newest_seq (seqs_of l msgs)"
    using collect_leafs_spec by blast+
  have "fst (check_tree_leafs tree msgs d) = [] \<longleftrightarrow>
      fst (compare_leafs (leafs_db tree d) (collect_leafs msgs)) = [] \<and> snd (compare_leafs (leafs_db tree d) (collect_leafs msgs)) = []"
    by (simp add: check_tree_leafs_def case_prod_beta)
  then show ?thesis unfolding compare_leafs_silent [OF leafs_db_distinct c(1)] c(2) .
qed

section \<open>A small tree, indexed twice\<close>

text \<open>A tree of depth one whose only leaf was changed twice, and its account with the sequence number 2.\<close>

definition demo_codec :: tree_codec where
  "demo_codec = \<lparr>tc_header_size = 1, tc_header = (\<lambda>_. Inr \<lparr>th_max_depth = 1, th_max_buffer_size = 8, th_creation_slot = 1\<rparr>),
     tc_tree_size = (\<lambda>_. Inr 8), tc_find_program_address = (\<lambda>k. k), tc_assert_valid_authority = (\<lambda>_ _. True)\<rparr>"

definition demo_tree_account :: "string + bytes option" where
  "demo_tree_account = Inr (Some [0, 2, 0, 0, 0, 0, 0, 0, 0])"

definition demo_change :: "u64 \<Rightarrow> change_log_event" where
  "demo_change q = \<lparr>ce_id = [7], ce_path = [\<lparr>pn_node = [1], pn_index = 2\<rparr>, \<lparr>pn_node = [2], pn_index = 1\<rparr>], ce_seq = q, ce_index = 0\<rparr>"

definition demo_items_db :: "u64 list \<Rightarrow> db" where
  "demo_items_db qs = empty_db\<lparr>cl_items_t := items_after (map demo_change qs)\<rparr>"

lemma demo_latest: "get_tree_latest_seq demo_codec demo_tree_account = Some (Inr 2)"
  by (simp add: get_tree_latest_seq_def demo_codec_def demo_tree_account_def)

lemma demo_change_seqs: "as_i64 1 = 1" "as_i64 2 = 2"
  by (simp_all add: as_i64_small)

lemma demo_items:
  "cl_items_t (demo_items_db [1, 2]) = map (\<lambda>(i, p). cl_item (demo_change 2) i p) (enumerate 0 (ce_path (demo_change 2)))"
  by (simp add: demo_items_db_def items_after_def event_rows_def demo_change_def upsert_cl_row_def cl_item_def cl_key_def
      u32_as_i64_def demo_change_seqs)

lemma demo_check: "\<exists>reports. check_tree demo_codec (\<lambda>_. True) [7] demo_tree_account (demo_items_db [1, 2]) = Some (Inr reports)"
  by (simp add: check_tree_def demo_latest get_tree_max_seq_def tree_items_def demo_items)
    (simp add: cl_item_def demo_change_def)

theorem complete_tree_reported_failed_witness:
  "\<exists>reports ms. check_tree demo_codec (\<lambda>_. True) [7] demo_tree_account (demo_items_db [1, 2]) = Some (Inr reports) \<and>
     Complete 2 \<notin> set reports \<and> Missing_Seqs ms \<in> set reports \<and> 1 \<in> set ms"
proof -
  obtain reports where reports: "check_tree demo_codec (\<lambda>_. True) (ce_id (demo_change 1)) demo_tree_account (demo_items_db [1, 2]) = Some (Inr reports)"
    using demo_check by (auto simp: demo_change_def)
  have "Complete (uint (2 :: u64)) \<notin> set reports \<and>
      (\<exists>ms. Missing_Seqs ms \<in> set reports \<and> as_i64 (ce_seq (demo_change 1)) \<in> set ms)"
    by (rule complete_tree_reported_failed [where es = "map demo_change [1, 2]", OF _ _ _ _ _ _ reports demo_latest])
      (simp_all add: demo_items_db_def overwritten_def demo_change_def demo_change_seqs)
  with reports show ?thesis by (auto simp: demo_change_def demo_change_seqs)
qed

theorem check_tree_complete_iff_witness:
  "\<exists>reports ms. check_tree demo_codec (\<lambda>_. True) [7] demo_tree_account (demo_items_db [1, 2]) = Some (Inr reports) \<and>
     Complete 2 \<notin> set reports \<and> Missing_Seqs ms \<in> set reports \<and> set ms = {1}"
proof -
  obtain reports where reports: "check_tree demo_codec (\<lambda>_. True) [7] demo_tree_account (demo_items_db [1, 2]) = Some (Inr reports)"
    using demo_check by blast
  have seqs: "indexed_seqs [7] (demo_items_db [1, 2]) = {2}"
    unfolding indexed_seqs_def tree_items_def demo_items by (force simp: cl_item_def demo_change_def demo_change_seqs)
  have range: "{1..2 :: int} = {1, 2}" and diff: "{1, 2 :: int} - {2} = {1}" by auto
  have "(Complete (uint (2 :: u64)) \<in> set reports \<longleftrightarrow> indexed_seqs [7] (demo_items_db [1, 2]) = {1..uint (2 :: u64)}) \<and>
      (Complete (uint (2 :: u64)) \<notin> set reports \<longrightarrow>
        (\<exists>ms. Missing_Seqs ms \<in> set reports \<and> set ms = {1..uint (2 :: u64)} - indexed_seqs [7] (demo_items_db [1, 2])))"
    by (rule check_tree_complete_iff [OF reports demo_latest])
      (simp_all add: demo_items, simp add: cl_item_def demo_change_def demo_change_seqs)
  then have "Complete 2 \<notin> set reports \<and> (\<exists>ms. Missing_Seqs ms \<in> set reports \<and> set ms = {1})"
    by (simp add: seqs range diff)
  with reports show ?thesis by blast
qed

end
