(* ===== verification/Task_Creator.thy ===== *)
theory Task_Creator
  imports Task_Manager "HOL-Library.List_Lexorder"
begin

text \<open>
  The tool that queues the metadata downloads of assets whose metadata is missing
  (\<open>tools/bgtask_creator/src/main.rs\<close>): the selection of the assets, and its four commands. The state is the tables of
  the index and the table of tasks. A page size of zero is refused by the paginator; with any other the pages of a
  query put together are its rows, because no command changes the rows it pages over.
\<close>

section \<open>The selection\<close>

record task_selection =
  ts_authority :: "pubkey option"
  ts_collection :: "string option"
  ts_mint :: "pubkey option"
  ts_creator :: "pubkey option"

text \<open>
  \<open>find_by_type\<close>: the first option given decides. A join repeats a row for every partner that satisfies the
  condition.
\<close>

definition find_by_type :: "task_selection \<Rightarrow> (asset_data \<Rightarrow> bool) \<Rightarrow> db \<Rightarrow> asset_data list" where
  "find_by_type sel cond d =
    (case ts_authority sel of
       Some key \<Rightarrow>
         [ad. ad \<leftarrow> asset_data_t d, aa \<leftarrow> asset_authority_t d, au_asset_id aa = ad_id ad, au_authority aa = key, cond ad]
     | None \<Rightarrow>
    (case ts_collection sel of
       Some c \<Rightarrow>
         [ad. ad \<leftarrow> asset_data_t d, g \<leftarrow> asset_grouping_t d, gr_asset_id g = ad_id ad, gr_group_value g = Some c, cond ad]
     | None \<Rightarrow>
    (case ts_mint sel of
       Some key \<Rightarrow>
         [ad. ad \<leftarrow> asset_data_t d, a \<leftarrow> asset_t d, a_asset_data a = Some (ad_id ad), t \<leftarrow> tokens_t d,
              a_supply_mint a = Some (tk_mint t), tk_mint_authority t = Some key, cond ad]
     | None \<Rightarrow>
    (case ts_creator sel of
       Some key \<Rightarrow>
         [ad. ad \<leftarrow> asset_data_t d, c \<leftarrow> asset_creators_t d, cr_asset_id c = ad_id ad, cr_creator c = key, cond ad]
     | None \<Rightarrow> filter cond (asset_data_t d)))))"

section \<open>The commands\<close>

definition is_processing :: "asset_data \<Rightarrow> bool" where
  "is_processing ad = (ad_metadata ad = JStr ''processing'')"

definition reindex_command :: "db \<Rightarrow> db" where
  "reindex_command d =
    d\<lparr>asset_data_t := map (\<lambda>ad. if is_processing ad \<and> ad_reindex ad = Some False then ad\<lparr>ad_reindex := Some True\<rparr> else ad)
        (asset_data_t d)\<rparr>"

record show_result =
  sr_reindexing :: nat
  sr_finished :: nat
  sr_missing :: nat
  sr_total :: nat

definition show_command :: "task_selection \<Rightarrow> db \<Rightarrow> show_result" where
  "show_command sel d =
    (let finished = length (find_by_type sel (\<lambda>ad. \<not> is_processing ad) d);
         missing = length (sort_key ad_id (find_by_type sel is_processing d)) in
     \<lparr>sr_reindexing = length (find_by_type sel (\<lambda>ad. ad_reindex ad = Some True) d), sr_finished = finished,
      sr_missing = missing, sr_total = missing + finished\<rparr>)"

definition delete_command :: "task_row list \<Rightarrow> task_row list" where
  "delete_command rows = []"

text \<open>The task for one asset, and what the spawned task does with it.\<close>

definition asset_task :: "int \<Rightarrow> asset_data \<Rightarrow> task_data" where
  "asset_task now ad =
    into_task_data (sanitize_uri \<lparr>dl_asset_data_id = ad_id ad, dl_uri = ad_metadata_url ad, dl_created_at = Some now\<rparr>)"

definition create_one :: "registry \<Rightarrow> (task_data \<Rightarrow> string option) \<Rightarrow> int \<Rightarrow> string \<Rightarrow> asset_data \<Rightarrow> task_row list \<Rightarrow> task_row list" where
  "create_one reg hash now instance_name ad rows =
    (let t = asset_task now ad in
     case hash t of
       None \<Rightarrow> rows
     | Some h \<Rightarrow>
         if already_known rows h then rows
         else (case new_task_handler reg hash now instance_name False t of
                 None \<Rightarrow> rows
               | Some r \<Rightarrow> (case insert_task r rows of None \<Rightarrow> rows | Some rows' \<Rightarrow> rows')))"

text \<open>\<open>create\<close>: \<open>order\<close> is the order in which the spawned tasks get to the table.\<close>

definition create_assets :: "task_selection \<Rightarrow> db \<Rightarrow> asset_data list" where
  "create_assets sel d = sort_key ad_id (find_by_type sel (\<lambda>ad. ad_reindex ad = Some True) d)"

definition create_command :: "registry \<Rightarrow> (task_data \<Rightarrow> string option) \<Rightarrow> int \<Rightarrow> string \<Rightarrow> asset_data list \<Rightarrow> task_row list \<Rightarrow> task_row list" where
  "create_command reg hash now instance_name order rows = fold (create_one reg hash now instance_name) order rows"

section \<open>What the commands do\<close>

lemma create_one_lookup:
  assumes "hash (asset_task now ad) = Some h" "reg TASK_NAME = Some td"
  shows "lookup tr_id k (create_one reg hash now instance_name ad rows) =
    (if k = h \<and> lookup tr_id h rows = None then new_task_row reg hash now (asset_task now ad) else lookup tr_id k rows)"
proof -
  have name: "td_name (asset_task now ad) = TASK_NAME" by (simp add: asset_task_def into_task_data_def)
  obtain r where r: "new_task_row reg hash now (asset_task now ad) = Some r" "tr_id r = h"
    using assms name by (simp add: new_task_row_def)
  have handler: "new_task_handler reg hash now instance_name False (asset_task now ad) = Some r"
    using assms name r by (simp add: new_task_handler_def)
  have app: "lookup tr_id k (rows @ [r]) = (case lookup tr_id k rows of Some x \<Rightarrow> Some x | None \<Rightarrow> if k = h then Some r else None)"
    using r(2) by (induction rows) auto
  show ?thesis
  proof (cases "lookup tr_id h rows")
    case None
    then have "tr_id r \<notin> tr_id ` set rows" using r(2) by (simp add: lookup_None)
    then show ?thesis using assms r handler None app
      by (auto simp: create_one_def Let_def already_known_def insert_task_def split: option.splits)
  next
    case (Some x)
    then have "tr_id r \<in> tr_id ` set rows" using r(2) lookup_None [of tr_id h rows] by auto
    then show ?thesis using assms r handler Some
      by (auto simp: create_one_def Let_def already_known_def insert_task_def)
  qed
qed

text \<open>The table of tasks after \<open>create\<close>, row by row: in whatever order the spawned tasks get there, only missing rows are added.\<close>

lemma create_rows:
  assumes "\<forall>ad\<in>set order. hash (asset_task now ad) = Some (key ad)" and "reg TASK_NAME = Some td"
  shows "lookup tr_id h (create_command reg hash now instance_name order rows) =
    (case lookup tr_id h rows of
       Some r \<Rightarrow> Some r
     | None \<Rightarrow> if h \<in> key ` set order then Some \<lparr>tr_id = h, tr_task_type = TASK_NAME,
           tr_data = td_data (asset_task now (hd (filter (\<lambda>ad. key ad = h) order))), tr_status = TS_Pending,
           tr_created_at = now, tr_locked_until = None, tr_locked_by = None, tr_max_attempts = bt_max_attempts td,
           tr_attempts = 0, tr_duration = None, tr_errors = None\<rparr> else None)"
  using assms(1)
proof (induction order arbitrary: rows)
  case Nil
  then show ?case by (simp add: create_command_def split: option.split)
next
  case (Cons ad order)
  have name: "td_name (asset_task now ad) = TASK_NAME" by (simp add: asset_task_def into_task_data_def)
  have row: "new_task_row reg hash now (asset_task now ad) = Some \<lparr>tr_id = key ad, tr_task_type = TASK_NAME,
      tr_data = td_data (asset_task now ad), tr_status = TS_Pending,
           tr_created_at = now, tr_locked_until = None, tr_locked_by = None, tr_max_attempts = bt_max_attempts td,
           tr_attempts = 0, tr_duration = None, tr_errors = None\<rparr>"
    using Cons.prems assms(2) name by (simp add: new_task_row_def)
  have step: "create_command reg hash now instance_name (ad # order) rows =
      create_command reg hash now instance_name order (create_one reg hash now instance_name ad rows)"
    by (simp add: create_command_def)
  have one: "lookup tr_id h (create_one reg hash now instance_name ad rows) =
      (if h = key ad \<and> lookup tr_id (key ad) rows = None then new_task_row reg hash now (asset_task now ad) else lookup tr_id h rows)"
    by (rule create_one_lookup) (use Cons.prems assms(2) in simp_all)
  show ?case unfolding step using Cons.IH [of "create_one reg hash now instance_name ad rows"] Cons.prems
    unfolding one row by (auto split: option.splits)
qed

text \<open>Which asset data a selection takes: by the address alone.\<close>

definition selected :: "task_selection \<Rightarrow> db \<Rightarrow> bytes \<Rightarrow> bool" where
  "selected sel d k =
    (case (ts_authority sel, ts_collection sel, ts_mint sel, ts_creator sel) of
       (Some key, _, _, _) \<Rightarrow> \<exists>aa\<in>set (asset_authority_t d). au_asset_id aa = k \<and> au_authority aa = key
     | (None, Some c, _, _) \<Rightarrow> \<exists>g\<in>set (asset_grouping_t d). gr_asset_id g = k \<and> gr_group_value g = Some c
     | (None, None, Some key, _) \<Rightarrow> \<exists>a\<in>set (asset_t d). a_asset_data a = Some k \<and>
         (\<exists>t\<in>set (tokens_t d). a_supply_mint a = Some (tk_mint t) \<and> tk_mint_authority t = Some key)
     | (None, None, None, Some key) \<Rightarrow> \<exists>c\<in>set (asset_creators_t d). cr_asset_id c = k \<and> cr_creator c = key
     | _ \<Rightarrow> True)"

lemma set_find_by_type:
  "set (find_by_type sel cond d) = {ad \<in> set (asset_data_t d). cond ad \<and> selected sel d (ad_id ad)}"
  by (auto simp: find_by_type_def selected_def split: option.splits)

lemma selected_reindex: "selected sel (reindex_command d) = selected sel d"
  by (simp add: fun_eq_iff selected_def reindex_command_def split: option.split)

lemma reindexed_rows:
  assumes "ad \<in> set (find_by_type sel is_processing d)" "ad_reindex ad \<noteq> None"
  shows "ad\<lparr>ad_reindex := Some True\<rparr> \<in> set (find_by_type sel (\<lambda>ad. ad_reindex ad = Some True) (reindex_command d))"
proof -
  let ?up = "\<lambda>ad. if is_processing ad \<and> ad_reindex ad = Some False then ad\<lparr>ad_reindex := Some True\<rparr> else ad"
  have proc: "is_processing ad" using assms(1) by (simp add: set_find_by_type)
  have up: "?up ad = ad\<lparr>ad_reindex := Some True\<rparr>"
  proof (cases "ad_reindex ad = Some False")
    case False
    then have "ad_reindex ad = Some True" using assms(2) by auto
    then have "ad\<lparr>ad_reindex := Some True\<rparr> = ad" by (cases ad) simp
    with False show ?thesis by simp
  qed (use proc in simp)
  have mem: "ad\<lparr>ad_reindex := Some True\<rparr> \<in> set (asset_data_t (reindex_command d))" if "ad \<in> set (asset_data_t d)"
  proof -
    from that have "?up ad \<in> ?up ` set (asset_data_t d)" by (rule imageI)
    then show ?thesis unfolding up by (simp add: reindex_command_def)
  qed
  show ?thesis using assms(1) mem by (simp add: set_find_by_type selected_reindex)
qed

text \<open>
  C25: \<open>create\<close> tries nothing again, unlike what the comment at the head of the tool says (that a run deletes all tasks and
  tries every missing asset). When the hashes can be computed and the download task is registered: after \<open>create\<close>,
  in whatever order the spawned tasks get to the table, every row that was there is unchanged, that of a failed or
  finished download included, and a selected asset has a new pending row only if there was none under the hash of its
  task. The three commands \<open>reindex\<close>, \<open>delete\<close> and \<open>create\<close> together do it: then every selected asset whose metadata is
  missing, and whose \<open>reindex\<close> column is not null, has a pending row without attempts.
\<close>

theorem create_needs_delete:
  assumes "\<forall>ad. hash (asset_task now ad) = Some (key ad)" "reg TASK_NAME = Some td"
  shows "lookup tr_id h (create_command reg hash now instance_name order rows) =
      (case lookup tr_id h rows of
         Some r \<Rightarrow> Some r
       | None \<Rightarrow> if h \<in> key ` set order then Some \<lparr>tr_id = h, tr_task_type = TASK_NAME,
             tr_data = td_data (asset_task now (hd (filter (\<lambda>ad. key ad = h) order))), tr_status = TS_Pending,
             tr_created_at = now, tr_locked_until = None, tr_locked_by = None, tr_max_attempts = bt_max_attempts td,
             tr_attempts = 0, tr_duration = None, tr_errors = None\<rparr> else None) \<and>
    (set order = set (create_assets sel (reindex_command d)) \<longrightarrow>
      (\<forall>ad\<in>set (find_by_type sel is_processing d). ad_reindex ad \<noteq> None \<longrightarrow>
        (\<exists>r. lookup tr_id (key ad) (create_command reg hash now instance_name order (delete_command rows)) = Some r \<and>
          tr_task_type r = TASK_NAME \<and> tr_status r = TS_Pending \<and> tr_attempts r = 0 \<and> tr_locked_until r = None)))"
proof (intro conjI impI ballI)
  show "lookup tr_id h (create_command reg hash now instance_name order rows) =
      (case lookup tr_id h rows of
         Some r \<Rightarrow> Some r
       | None \<Rightarrow> if h \<in> key ` set order then Some \<lparr>tr_id = h, tr_task_type = TASK_NAME,
             tr_data = td_data (asset_task now (hd (filter (\<lambda>ad. key ad = h) order))), tr_status = TS_Pending,
             tr_created_at = now, tr_locked_until = None, tr_locked_by = None, tr_max_attempts = bt_max_attempts td,
             tr_attempts = 0, tr_duration = None, tr_errors = None\<rparr> else None)"
    by (rule create_rows) (use assms in simp_all)
next
  fix ad
  assume order: "set order = set (create_assets sel (reindex_command d))"
    and ad: "ad \<in> set (find_by_type sel is_processing d)" "ad_reindex ad \<noteq> None"
  let ?ad = "ad\<lparr>ad_reindex := Some True\<rparr>"
  have "asset_task now ?ad = asset_task now ad" by (simp add: asset_task_def)
  then have "key ?ad = key ad" using assms(1) by (metis option.inject)
  moreover have "?ad \<in> set order" using reindexed_rows [OF ad] by (simp add: order create_assets_def)
  ultimately have "key ad \<in> key ` set order" by (metis imageI)
  then show "\<exists>r. lookup tr_id (key ad) (create_command reg hash now instance_name order (delete_command rows)) = Some r \<and>
      tr_task_type r = TASK_NAME \<and> tr_status r = TS_Pending \<and> tr_attempts r = 0 \<and> tr_locked_until r = None"
    by (subst create_rows [of order hash now key reg td]) (use assms in \<open>simp_all add: delete_command_def\<close>)
qed

text \<open>The counts of \<open>show\<close>: every selected row is either finished or missing.\<close>

lemma filter_partition_length: "length (filter P xs) + length (filter (\<lambda>x. \<not> P x) xs) = length xs"
  by (induction xs) auto

lemma find_by_type_cond: "find_by_type sel cond d = filter cond (find_by_type sel (\<lambda>_. True) d)"
  by (auto simp: find_by_type_def filter_concat comp_def if_distrib [of "filter cond"] intro!: arg_cong [of _ _ concat] map_cong
      split: option.split cong: if_cong)

lemma show_total: "sr_total (show_command sel d) = length (find_by_type sel (\<lambda>_. True) d)"
  using filter_partition_length [of is_processing "find_by_type sel (\<lambda>_. True) d"]
  by (simp add: show_command_def Let_def find_by_type_cond [of sel is_processing] find_by_type_cond [of sel "\<lambda>ad. \<not> is_processing ad"])

definition demo_missing :: asset_data where
  "demo_missing = \<lparr>ad_id = [1], ad_chain_data_mutability = CM_Mutable, ad_chain_data = JNull, ad_metadata_url = ''https://x'',
     ad_metadata_mutability = M_Mutable, ad_metadata = JStr ''processing'', ad_slot_updated = 0, ad_reindex = Some True,
     ad_raw_name = None, ad_raw_symbol = None, ad_base_info_seq = None\<rparr>"

definition demo_download :: bg_task where
  "demo_download = \<lparr>bt_name = TASK_NAME, bt_lock_duration = 5, bt_max_attempts = 3, bt_task = (\<lambda>_ d. (Inr (), d))\<rparr>"

text \<open>Two assets with missing metadata; the download of the second one has already failed for good.\<close>

definition demo_failed_row :: task_row where
  "demo_failed_row = \<lparr>tr_id = ''h2'', tr_task_type = TASK_NAME, tr_data = JNull, tr_status = TS_Failed, tr_created_at = 0,
     tr_locked_until = None, tr_locked_by = None, tr_max_attempts = 3, tr_attempts = 4, tr_duration = None, tr_errors = None\<rparr>"

definition demo_hash :: "task_data \<Rightarrow> string option" where
  "demo_hash t = Some (if t = asset_task 9 demo_missing then ''h1'' else ''h2'')"

theorem create_needs_delete_witness:
  "map_option tr_status (lookup tr_id ''h1'' (create_command [TASK_NAME \<mapsto> demo_download] demo_hash 9 ''me''
       [demo_missing, demo_missing\<lparr>ad_id := [2]\<rparr>] [demo_failed_row])) = Some TS_Pending \<and>
   lookup tr_id ''h2'' (create_command [TASK_NAME \<mapsto> demo_download] demo_hash 9 ''me''
       [demo_missing, demo_missing\<lparr>ad_id := [2]\<rparr>] [demo_failed_row]) = Some demo_failed_row \<and>
   (\<exists>r. lookup tr_id ''h2'' (create_command [TASK_NAME \<mapsto> demo_download] demo_hash 9 ''me''
       [demo_missing, demo_missing\<lparr>ad_id := [2]\<rparr>] (delete_command [demo_failed_row])) = Some r \<and> tr_status r = TS_Pending)"
proof -
  let ?second = "demo_missing\<lparr>ad_id := [2]\<rparr>"
  let ?order = "[demo_missing, ?second]"
  let ?key = "\<lambda>ad. if asset_task 9 ad = asset_task 9 demo_missing then ''h1'' else ''h2''"
  let ?sel = "\<lparr>ts_authority = None, ts_collection = None, ts_mint = None, ts_creator = None\<rparr>"
  let ?d = "empty_db\<lparr>asset_data_t := ?order\<rparr>"
  have ne: "asset_task 9 ?second \<noteq> asset_task 9 demo_missing"
    by (simp add: asset_task_def into_task_data_def sanitize_uri_def demo_missing_def)
  have keys: "\<forall>ad. demo_hash (asset_task 9 ad) = Some (?key ad)" by (simp add: demo_hash_def)
  have reg: "[TASK_NAME \<mapsto> demo_download] TASK_NAME = Some demo_download" by simp
  note c = create_needs_delete [where reg = "[TASK_NAME \<mapsto> demo_download]" and td = demo_download and
      hash = demo_hash and now = 9 and key = ?key and order = ?order and sel = ?sel and d = ?d, OF keys reg]
  have failed: "lookup tr_id ''h1'' [demo_failed_row] = None" "lookup tr_id ''h2'' [demo_failed_row] = Some demo_failed_row"
    by (simp_all add: demo_failed_row_def)
  have order: "set ?order = set (create_assets ?sel (reindex_command ?d))"
    by (simp add: create_assets_def find_by_type_def reindex_command_def demo_missing_def)
  have second: "?second \<in> set (find_by_type ?sel is_processing ?d)" "ad_reindex ?second \<noteq> None" "?key ?second = ''h2''"
    using ne by (simp_all add: find_by_type_def is_processing_def demo_missing_def)
  have alone: "map_option tr_status (lookup tr_id ''h1'' (create_command [TASK_NAME \<mapsto> demo_download] demo_hash 9 ''me''
        ?order [demo_failed_row])) = Some TS_Pending"
    "lookup tr_id ''h2'' (create_command [TASK_NAME \<mapsto> demo_download] demo_hash 9 ''me'' ?order [demo_failed_row]) =
      Some demo_failed_row"
    using c [THEN conjunct1, of "''h1''" "''me''" "[demo_failed_row]"]
      c [THEN conjunct1, of "''h2''" "''me''" "[demo_failed_row]"] failed by simp_all
  moreover have "\<exists>r. lookup tr_id ''h2'' (create_command [TASK_NAME \<mapsto> demo_download] demo_hash 9 ''me'' ?order
      (delete_command [demo_failed_row])) = Some r \<and> tr_status r = TS_Pending"
    using c [THEN conjunct2, rule_format, OF order second(1,2), of "''me''" "[demo_failed_row]"] unfolding second(3) by blast
  ultimately show ?thesis by blast
qed

end
