(* ===== verification/Spec2Isabelle.thy ===== *)
theory Spec2Isabelle
  imports Bubblegum_Views Merkle_Proof Transaction_Properties Read_Properties Filler_Rounds Api_Properties Grpc_Properties
    Download_Paths Consumers Metadata_Properties Purge_Properties Queue_Properties Gap_Properties Status_Properties Task_Creator
begin

text \<open>
  The Digital Asset Standard indexer: a verification of its ingestion, its read API, its backfill and its tools.

  The program. Two ingesters, \<open>nft_ingester\<close> (Redis streams) and \<open>grpc_ingester\<close> (a Geyser stream), receive the
  transactions and account updates of the Solana chain and hand them to the crate \<open>program_transformers\<close>, which
  parses them with the crate \<open>blockbuster\<close> and writes the tables of \<open>digital_asset_types\<close>. The server \<open>das_api\<close>
  reads the tables back through the queries of \<open>digital_asset_types\<close>. Beside them run the metadata downloads of
  both ingesters, the backfiller of \<open>nft_ingester\<close>, and the commands of \<open>ops\<close> and \<open>tools\<close>, which find what is missing
  and push it into the streams again. Deliveries are repeated and out of order; every write is an upsert guarded
  by a sequence number (Bubblegum, per tree) or a slot (accounts), and the guards are what makes the index
  converge.

  How it is modelled. A row type is a record, a table a list of rows, the database the record \<open>db\<close>. A handler is a
  function from a world (tables, a fault for any statement, the downloads asked for) to a result and the next
  world, so every \<open>?\<close> and every error of the source is a branch. Third-party code (borsh, base 58, hashing, the RPC
  nodes, Redis, the HTTP client) is a parameter, and what is relied on is a hypothesis with a name. Casts and
  unsigned arithmetic are on words; values of signed columns are integers. Processes that run side by side are
  step relations (\<open>ingest_step\<close>, \<open>task_step\<close>, \<open>download_step\<close>) or a step function over named actions (\<open>purge_step\<close>).

  Foundations.
    \<^item> \<open>Das_Prelude\<close>: integers, SQL's three-valued logic, upserts, and the locales \<open>lww\<close> and \<open>lww_framed\<close>: a view of the
      state that keeps the newest of the values written to it. \<open>Labelled_Runs\<close>: runs of named actions with the
      locales \<open>run_invariant\<close> and \<open>run_constant\<close>. \<open>Versioned_Rows\<close>: the locale of tables with several rows per update.
    \<^item> \<open>Das_Schema\<close> (\<open>dao/generated\<close>) and \<open>Das_World\<close>: the tables, and the world of a handler.

  Ingestion (\<open>program_transformers\<close>, \<open>blockbuster\<close>).
    \<^item> \<open>Blockbuster\<close>, \<open>Account_Parsers\<close>: the order of a transaction's instructions, the Bubblegum parser, the account
      parsers. \<open>Transaction_Properties\<close>: the order against a reference definition, which accounts a bundle gets,
      and what a whole transaction comes to: the handlers of its instructions, run in order.
    \<^item> \<open>Change_Log\<close>, \<open>Bubblegum_Db\<close>, \<open>Bubblegum\<close>: the statements of \<open>bubblegum/db.rs\<close> and the instruction handlers.
      \<open>Bubblegum_Views\<close>: leaf and owner columns are last-writer-wins registers, hence convergence under reordering
      and repetition, the newest owner wins, failed instructions leave the assets alone (unless only the download
      notification failed, which comes after the commit), decompressed and burnt rows stay so. The columns
      \<open>collection_hash\<close>, \<open>asset_data_hash\<close>, \<open>bubblegum_flags\<close> and \<open>non_transferable\<close> are not part of the view: a write of
      the first version leaves them as they are, so they are no register of the newest write.
    \<^item> \<open>Account_Upserts\<close>, \<open>Token_Metadata\<close>, \<open>Mpl_Core\<close>, \<open>Program_Transformer\<close>: account updates and the two entry points
      of \<open>lib.rs\<close>. \<open>Account_Properties\<close>, \<open>Stale_Rows\<close>: convergence of the account columns, of creators and of groups.

  Reading (\<open>digital_asset_types\<close>, \<open>das_api\<close>).
    \<^item> \<open>Asset_Scopes\<close>, \<open>Rpc_Assets\<close>, \<open>Dapi\<close>, \<open>Das_Api\<close>: the queries, the answers, the requests, their validation, the
      fallback to an upstream server. \<open>Read_Properties\<close>, \<open>Api_Properties\<close>: pages, cursors, searches, upstream answers.
      An accepted request gets the page it asked for, but for a cursor without a sorting, which is dropped; a client
      that follows the cursor gets the owner's assets up to the first page without any data row.
    \<^item> \<open>Merkle_Proof\<close>: the proofs of \<open>change_logs.rs\<close>; a served proof verifies against the tree of all change logs.

  The ingesters.
    \<^item> \<open>Grpc_Stream\<close>, \<open>Grpc_Properties\<close>: the stream and its cursor; no update is passed over silently.
    \<^item> \<open>Metadata_Guard\<close>, \<open>Metadata_Downloads\<close>, \<open>Metadata_Properties\<close>: the downloader of \<open>grpc_ingester\<close>; at most one
      download per asset, every owed row offered, and the address guard against a table of blocks.
    \<^item> \<open>Ingester_Tasks\<close>, \<open>Task_Manager\<close>, \<open>Task_Properties\<close>, \<open>Download_Paths\<close>, \<open>Consumers\<close>: the background tasks of
      \<open>nft_ingester\<close>, its consumers and their acknowledgements.
    \<^item> \<open>Backfiller\<close>, \<open>Backfill_Properties\<close>, \<open>Filler_Rounds\<close>: the gaps of a tree above what is marked as backfilled, the
      slots and transactions asked for and those that are left out, and what a round of the filler leaves of
      each tree's rows.

  Operations (\<open>core\<close>, \<open>ops\<close>, \<open>tools\<close>).
    \<^item> \<open>Purger\<close>, \<open>Purge_Properties\<close>: the purge of closed accounts. Live accounts lose nothing in any interleaving; a
      run that reads before it deletes refines \<open>purge_effect\<close>; a run that deletes while it pages skips rows.
    \<^item> \<open>Queue_Pool\<close>, \<open>Queue_Properties\<close>: the pool of Redis connections and the account backfill. A failed send costs a
      connection; a vanished account ends the backfill of its program.
    \<^item> \<open>Tree_Gaps\<close>, \<open>Gap_Properties\<close>: the gaps of the audit rows, the ranges to fetch and their crawl, the audit. Every
      missing sequence number is found, except where a thousand failed transactions stall the crawl or a
      transaction is indexed in part.
    \<^item> \<open>Tree_Status\<close>, \<open>Status_Properties\<close>: the comparison of a tree with the chain; when it reports a complete tree and
      why it may not. \<open>Task_Creator\<close>: the tool that queues downloads; \<open>create\<close> retries nothing unless \<open>delete\<close> ran before.

  Between components. This theory composes ingestion and the server: \<open>index_refines_ledger\<close> relates deliveries to a
  ledger of ownership changes. \<open>Download_Paths\<close> follows an address from a mint to its download, \<open>Status_Properties\<close>
  the change logs to the status tool, \<open>Gap_Properties\<close> the audit rows to the transactions sent.

  Bounds and loops. No definition takes fuel. Loops that end are recursive functions with a measure; the five that
  may not (\<open>find_slots_loop\<close>, \<open>write_update\<close>, \<open>redrive_pass\<close>, \<open>crawl_from\<close>, \<open>find_signatures_from\<close>) are partial functions
  whose value \<open>None\<close> is a loop that does not return, and theorems say when they return: on every finite history, when
  an attempt is not asked to be retried, while the channel has room, or unless a thousand transactions in a row
  have failed. In \<open>Queue_Pool\<close> and the tools \<open>None\<close> is also a panic, as their texts say. The numbers 100 (accounts
  per RPC call) and 1000 (signatures per page) are those of the source.

  Not modelled. The DDL of \<open>migration\<close>; its unique indexes are the conflict targets of the modelled upserts. The
  conversions of the Token-2022 extensions from their foreign types, the wrappers of database, metrics and RPC
  clients in \<open>core\<close>, the proxy filter \<open>metaplex-rpc-proxy\<close>, command lines, metrics and logging, the forwarders and
  the load generator of \<open>tools\<close>, and the integration tests: glue around code outside the repository. The worker
  pools of the Bubblegum backfill command are not modelled; what each worker does is. Queries of the tools that
  fail end the command and are left out where a text says so.
\<close>

section \<open>From instructions to answers\<close>

text \<open>
  The specification that ingestion and the API meet: a ledger with one entry per asset, which a
  Bubblegum instruction may replace if it is not older and the entry is still open (the asset
  was not decompressed).
\<close>

record entry =
  en_open :: bool
  en_owner :: "bytes option"
  en_delegate :: "bytes option"
  en_seq :: "i64 option"

type_synonym ledger = "bytes \<Rightarrow> entry"

definition ledger_step :: "bytes \<times> bytes option \<times> bytes option \<times> i64 option \<Rightarrow> ledger \<Rightarrow> ledger" where
  "ledger_step ev L =
    (let (i, ow, de, q) = ev in
     if en_open (L i) \<and> (case (en_seq (L i), q) of (Some m, Some n) \<Rightarrow> m \<le> n | _ \<Rightarrow> True)
     then L(i := (L i)\<lparr>en_owner := ow, en_delegate := de, en_seq := q\<rparr>) else L)"

text \<open>The ledger in the tables, and the change of ownership that an instruction announces.\<close>

definition ledger_of :: "db \<Rightarrow> ledger" where
  "ledger_of d i = \<lparr>en_open = alive (asset_cur i d), en_owner = a_owner (asset_cur i d),
     en_delegate = a_delegate (asset_cur i d), en_seq = a_owner_delegate_seq (asset_cur i d)\<rparr>"

definition ledger_events :: "ext \<Rightarrow> delivery list \<Rightarrow> (bytes \<times> bytes option \<times> bytes option \<times> i64 option) list" where
  "ledger_events E xs = List.map_filter (\<lambda>x. owner_write E (fst x)) xs"

lemma ledger_of_views:
  "ledger_of d i = (let (ow, de, q) = owner_view (asset_cur i d) in
     \<lparr>en_open = alive (asset_cur i d), en_owner = ow, en_delegate = de, en_seq = q\<rparr>)"
  by (simp add: ledger_of_def owner_view_def)

lemma ledger_step_put:
  assumes "owner_ver v = Some n"
  shows "ledger_step (i, v) (ledger_of d) j = (let (ow, de, q) = put (Some (i, v)) owner_ver j (alive (asset_cur j d))
      (owner_view (asset_cur j d)) in
    \<lparr>en_open = alive (asset_cur j d), en_owner = ow, en_delegate = de, en_seq = q\<rparr>)"
  using assms
  by (cases v) (auto simp: ledger_step_def ledger_of_views put_def owner_ver_def acc_ge_def owner_view_def
      split: option.splits)

lemma deliver_refines:
  assumes "no_faults w" "legal_delivery E x"
  shows "ledger_of (w_db (deliver E x w)) =
    (case owner_write E (fst x) of None \<Rightarrow> ledger_of (w_db w) | Some ev \<Rightarrow> ledger_step ev (ledger_of (w_db w)))"
proof
  fix j
  show "ledger_of (w_db (deliver E x w)) j =
      (case owner_write E (fst x) of None \<Rightarrow> ledger_of (w_db w) | Some ev \<Rightarrow> ledger_step ev (ledger_of (w_db w))) j"
  proof (cases "owner_write E (fst x)")
    case None
    then show ?thesis by (simp add: ledger_of_views deliver_views [OF assms])
  next
    case (Some ev)
    then obtain i v where ev: "ev = (i, v)" by (cases ev)
    have "owner_ver v = Some (delivery_seq x)" using write_stamps(2) Some ev by blast
    from ledger_step_put [OF this, of i "w_db w" j] Some ev show ?thesis
      by (simp add: ledger_of_views deliver_views [OF assms])
  qed
qed

lemma deliveries_refine:
  assumes "no_faults w" "\<forall>x\<in>set xs. legal_delivery E x"
  shows "ledger_of (w_db (fold (deliver E) xs w)) = fold ledger_step (ledger_events E xs) (ledger_of (w_db w))"
  using assms
proof (induction xs arbitrary: w)
  case (Cons x xs)
  then have "no_faults (deliver E x w)" using deliver_views(4) by simp
  with Cons deliver_refines [of w E x] show ?case
    by (simp add: ledger_events_def map_filter_simps split: option.splits)
qed (simp add: ledger_events_def map_filter_simps)

text \<open>What \<open>getAsset\<close> answers of the ownership, when it answers from the tables.\<close>

lemma asset_to_rpc_ownership:
  "asset_to_rpc E X fa opts = Inr x \<Longrightarrow> rpc_ownership x = Some (rpc_ownership_of E (fa_asset fa))"
  by (cases "a_compressed (fa_asset fa) \<and> a_collection_hash (fa_asset fa) \<noteq> None"; cases "get_interface (fa_asset fa)")
    (auto simp: asset_to_rpc_def to_grouping_def Let_def)

lemma get_asset_ownership:
  assumes "get_asset E X R d k opts = Inr x"
  shows "rpc_ownership x = Some (rpc_ownership_of E (asset_cur k d))"
proof (cases "get_by_id E R d k opts")
  case (Inr fa)
  with assms show ?thesis
    by (simp add: get_asset_def asset_to_rpc_ownership asset_cur_def get_by_id_fields(1) [OF Inr])
qed (use assms in \<open>simp add: get_asset_def\<close>)

text \<open>
  C4: Ingestion refines the ledger, and \<open>getAsset\<close> shows it. Delivering Bubblegum instructions to the
  tables does what replaying the ownership changes they announce does to the abstract ledger, for
  all assets at once; and whatever \<open>getAsset\<close> then answers from the tables carries the owner and the
  delegate of the asset's ledger entry.
\<close>

theorem index_refines_ledger:
  assumes "no_faults w" "\<forall>x\<in>set xs. legal_delivery E x"
    and "w' = fold (deliver E) xs w" "L = fold ledger_step (ledger_events E xs) (ledger_of (w_db w))"
  shows "ledger_of (w_db w') = L \<and>
    (\<forall>A api cache p x k. ax_ext A = E \<longrightarrow> da_fallback api = None \<longrightarrow> ax_from_str A (ga_id p) = Some k \<longrightarrow>
      fst (api_get_asset A api (w_db w') cache p) = Inr x \<longrightarrow>
      map_option ow_owner (rpc_ownership x) = Some (case en_owner (L k) of Some ow \<Rightarrow> bs58_encode E ow | None \<Rightarrow> []) \<and>
      map_option ow_delegate (rpc_ownership x) = Some (map_option (bs58_encode E) (en_delegate (L k))))"
proof -
  have ref: "ledger_of (w_db w') = L" using deliveries_refine [OF assms(1,2)] assms(3,4) by simp
  have "rpc_ownership x = Some (rpc_ownership_of (ax_ext A) (asset_cur k (w_db w')))"
    if "da_fallback api = None" "ax_from_str A (ga_id p) = Some k"
      "fst (api_get_asset A api (w_db w') cache p) = Inr x" for A api cache p x k
    using that get_asset_ownership
    by (fastforce simp: api_get_asset_def validate_pubkey_def from_upstream_def split: sum.splits option.splits)
  then show ?thesis
    using ref by (auto simp: rpc_ownership_of_def ledger_of_def)
qed

definition ledger_world0 :: world where
  "ledger_world0 = world0\<lparr>w_db := empty_db\<lparr>
     asset_t := [(asset0 [3])\<lparr>a_specification_asset_class := Some SAC_Nft\<rparr>], asset_data_t := [asset_data0 [3]]\<rparr>\<rparr>"

theorem index_refines_ledger_witness:
  "\<exists>x. fst (api_get_asset api_env0 das_api0
      (w_db (fold (deliver ext0) [transfer0 [2] 2, transfer0 [1] 1] ledger_world0)) [] \<lparr>ga_id = [char_of (3::nat)], ga_options = None\<rparr>) =
      Inr x \<and> map_option ow_owner (rpc_ownership x) = Some [char_of (2::nat)]"
proof -
  let ?xs = "[transfer0 [2] 2, transfer0 [1] 1]"
  let ?w' = "fold (deliver ext0) ?xs ledger_world0"
  let ?p = "\<lparr>ga_id = [char_of (3::nat)], ga_options = None\<rparr>"
  let ?L = "fold ledger_step (ledger_events ext0 ?xs) (ledger_of (w_db ledger_world0))"
  have "isl (fst (api_get_asset api_env0 das_api0 (w_db ?w') [] ?p)) = False" by code_simp
  then obtain x where x: "fst (api_get_asset api_env0 das_api0 (w_db ?w') [] ?p) = Inr x" by (auto simp: isl_def split: sum.splits) (metis sumE)
  have nf: "no_faults ledger_world0" by (simp add: ledger_world0_def no_faults_def world0_def)
  have legal: "\<forall>x\<in>set ?xs. legal_delivery ext0 x" by (simp add: transfer0_facts)
  have "en_owner (?L [3]) = Some [2]" by code_simp
  moreover have "ax_from_str api_env0 (ga_id ?p) = Some [3]" by code_simp
  ultimately have "map_option ow_owner (rpc_ownership x) = Some (bs58_encode ext0 [2])"
    using index_refines_ledger [OF nf legal refl refl] x
    by (metis (no_types, lifting) api_env.select_convs(1) api_env0_def das_api.select_convs(1) das_api0_def option.simps(5))
  with x show ?thesis by (auto simp: ext0_def)
qed

end
